(* ===== verification/Prelude.thy ===== *)
theory Prelude
  imports Main "HOL-Library.AList" "HOL-Library.Multiset"
begin

text \<open>
  What the theories of the development share: the exceptions of the Python code as values,
  results that are either an exception or a value, dictionaries as association lists with the
  dictionary interface as a locale, and generic facts on lists.

  A Python function that can raise returns \<open>'a res\<close>: \<open>Inl\<close> of the exception or
  \<open>Inr\<close> of the value. A dictionary is an association list with distinct keys, a new key going
  to the end. Where the code iterates over a dictionary and the order of Python 2's hash
  table matters, the definitions take the order as a parameter, a function that permutes the
  list of keys.
\<close>

named_theorems dict_simps \<open>equations of the dictionary operations\<close>
named_theorems str_simps \<open>equations of the string operations\<close>

section \<open>Exceptions and results\<close>

datatype py_error =
    IndexError
  | KeyError
  | ValueError
  | TypeError
  | ZeroDivisionError
  | UnboundLocalError
  | AttributeError
  | AssertionError
  | ParseError
  | SystemExit int
  | PyException
  | NameError
  | WafError

type_synonym 'a res = "py_error + 'a"

fun rbind :: "'e + 'a \<Rightarrow> ('a \<Rightarrow> 'e + 'b) \<Rightarrow> 'e + 'b" where
  "rbind (Inl e) f = Inl e"
| "rbind (Inr a) f = f a"

lemma rbind_Inr_iff: "rbind r f = Inr b \<longleftrightarrow> (\<exists>a. r = Inr a \<and> f a = Inr b)"
  by (cases r) auto

lemma rbind_assoc: "rbind (rbind r f) g = rbind r (\<lambda>a. rbind (f a) g)"
  by (cases r) auto

lemma rbind_cong [fundef_cong]:
  "r = r' \<Longrightarrow> (\<And>a. r' = Inr a \<Longrightarrow> f a = g a) \<Longrightarrow> rbind r f = rbind r' g"
  by (cases r') auto

text \<open>Python indexing \<open>xs[i]\<close>: negative indices count from the end, the rest raises.\<close>

definition py_nth :: "'a list \<Rightarrow> int \<Rightarrow> 'a res" where
  "py_nth xs i =
     (if i \<in> {0..<int (length xs)} then Inr (xs ! nat i)
      else if i \<in> {- int (length xs)..<0} then Inr (rev xs ! nat (-1 - i))
      else Inl IndexError)"

lemma py_nth_nat [simp]: "i < length xs \<Longrightarrow> py_nth xs (int i) = Inr (xs ! i)"
  by (simp add: py_nth_def)

text \<open>The slice \<open>xs[a:b]\<close> for bounds that are not negative.\<close>

definition py_slice :: "'a list \<Rightarrow> nat \<Rightarrow> nat \<Rightarrow> 'a list" where
  "py_slice xs a b = drop a (take b xs)"

lemma length_py_slice [simp]: "length (py_slice xs a b) = min (length xs) b - a"
  by (simp add: py_slice_def)

text \<open>Python's \<open>list.remove\<close> takes the first occurrence away (\<open>ValueError\<close> if there is none).\<close>

definition py_remove :: "'a \<Rightarrow> 'a list \<Rightarrow> 'a list res" where
  "py_remove x xs = (if x \<in> set xs then Inr (remove1 x xs) else Inl ValueError)"

text \<open>Truth of an integer in a Python condition.\<close>

definition py_true :: "int \<Rightarrow> bool" where
  "py_true i \<longleftrightarrow> i \<noteq> 0"

section \<open>Dictionaries\<close>

type_synonym ('k, 'v) dict = "('k \<times> 'v) list"

definition d_ok :: "('k, 'v) dict \<Rightarrow> bool" where
  "d_ok d \<longleftrightarrow> distinct (map fst d)"

definition d_get :: "('k, 'v) dict \<Rightarrow> 'k \<Rightarrow> 'v option" where
  "d_get d k = map_of d k"

definition d_set :: "'k \<Rightarrow> 'v \<Rightarrow> ('k, 'v) dict \<Rightarrow> ('k, 'v) dict" where
  "d_set k v d = AList.update k v d"

definition d_del :: "'k \<Rightarrow> ('k, 'v) dict \<Rightarrow> ('k, 'v) dict" where
  "d_del k d = AList.delete k d"

definition d_keys :: "('k, 'v) dict \<Rightarrow> 'k list" where
  "d_keys d = map fst d"

definition d_has :: "('k, 'v) dict \<Rightarrow> 'k \<Rightarrow> bool" where
  "d_has d k \<longleftrightarrow> d_get d k \<noteq> None"

text \<open>\<open>d[k]\<close> as an expression raises \<open>KeyError\<close> where the key is missing.\<close>

definition d_item :: "('k, 'v) dict \<Rightarrow> 'k \<Rightarrow> 'v res" where
  "d_item d k = (case d_get d k of None \<Rightarrow> Inl KeyError | Some v \<Rightarrow> Inr v)"

lemma d_get_Nil [dict_simps]: "d_get [] k = None"
  by (simp add: d_get_def)

lemma d_get_set [dict_simps]: "d_get (d_set k v d) k' = (if k' = k then Some v else d_get d k')"
  by (simp add: d_get_def d_set_def update_conv')

lemma d_get_del [dict_simps]: "d_get (d_del k d) k' = (if k' = k then None else d_get d k')"
  by (simp add: d_get_def d_del_def delete_conv')

lemma d_ok_Nil [simp]: "d_ok []"
  by (simp add: d_ok_def)

lemma d_ok_set [simp]: "d_ok d \<Longrightarrow> d_ok (d_set k v d)"
  by (simp add: d_ok_def d_set_def distinct_update)

lemma d_ok_del [simp]: "d_ok d \<Longrightarrow> d_ok (d_del k d)"
  by (simp add: d_ok_def d_del_def distinct_delete)

lemma d_keys_set [dict_simps]:
  "d_keys (d_set k v d) = (if k \<in> set (d_keys d) then d_keys d else d_keys d @ [k])"
  by (simp add: d_keys_def d_set_def update_keys)

lemma d_keys_del [dict_simps]: "d_keys (d_del k d) = filter (\<lambda>x. x \<noteq> k) (d_keys d)"
  by (auto simp: d_keys_def d_del_def delete_keys removeAll_filter_not_eq intro!: filter_cong)

lemma d_keys_iff: "k \<in> set (d_keys d) \<longleftrightarrow> d_get d k \<noteq> None"
  by (auto simp: d_keys_def d_get_def map_of_eq_None_iff)

lemma d_keys_Nil_iff: "d_keys d = [] \<longleftrightarrow> d = []"
  by (simp add: d_keys_def)

lemma d_ok_distinct_keys: "d_ok d \<longleftrightarrow> distinct (d_keys d)"
  by (simp add: d_ok_def d_keys_def)

lemma length_d_set: "d_get d k \<noteq> None \<Longrightarrow> length (d_set k v d) = length d"
  by (metis d_keys_def d_keys_iff d_keys_set length_map)

lemma length_d_del: "d_get d k \<noteq> None \<Longrightarrow> length (d_del k d) < length d"
proof -
  assume "d_get d k \<noteq> None"
  then have "k \<in> set (d_keys d)" by (simp add: d_keys_iff)
  then have "length (filter (\<lambda>x. x \<noteq> k) (d_keys d)) < length (d_keys d)"
    by (metis (mono_tags, lifting) length_filter_less)
  then show ?thesis by (metis d_keys_def d_keys_del length_map)
qed

text \<open>The order in which a dictionary is iterated is a permutation of its keys.\<close>

definition key_order :: "('k list \<Rightarrow> 'k list) \<Rightarrow> bool" where
  "key_order ord \<longleftrightarrow> (\<forall>ks. mset (ord ks) = mset ks)"

lemma key_order_id [simp]: "key_order (\<lambda>ks. ks)" "key_order id"
  by (simp_all add: key_order_def)

lemma key_order_rev [simp]: "key_order rev"
  by (simp add: key_order_def)

lemma key_order_set: "key_order ord \<Longrightarrow> set (ord ks) = set ks"
  unfolding key_order_def by (metis set_mset_mset)

lemma key_order_distinct: "key_order ord \<Longrightarrow> distinct (ord ks) = distinct ks"
  unfolding key_order_def by (metis mset_eq_imp_distinct_iff)

text \<open>
  The dictionary interface the components rely on. The client lemmas are the facts about
  counters and per-key lists kept in a dictionary.
\<close>

locale dictionary =
  fixes get :: "'d \<Rightarrow> 'k \<Rightarrow> 'v option"
    and put :: "'k \<Rightarrow> 'v \<Rightarrow> 'd \<Rightarrow> 'd"
    and del :: "'k \<Rightarrow> 'd \<Rightarrow> 'd"
    and ks :: "'d \<Rightarrow> 'k list"
    and ok :: "'d \<Rightarrow> bool"
  assumes get_put: "get (put k v d) k' = (if k' = k then Some v else get d k')"
    and get_del: "get (del k d) k' = (if k' = k then None else get d k')"
    and ks_iff: "k \<in> set (ks d) \<longleftrightarrow> get d k \<noteq> None"
    and ok_put: "ok d \<Longrightarrow> ok (put k v d)"
    and ok_del: "ok d \<Longrightarrow> ok (del k d)"
    and ok_ks: "ok d \<Longrightarrow> distinct (ks d)"
begin

lemma ks_put: "set (ks (put k v d)) = insert k (set (ks d))"
  by (auto simp: ks_iff get_put split: if_splits)

lemma ks_del: "set (ks (del k d)) = set (ks d) - {k}"
  by (auto simp: ks_iff get_del split: if_splits)

lemma get_put_del: "k \<noteq> k' \<Longrightarrow> get (put k v (del k' d)) k' = None"
  by (simp add: get_put get_del)

lemma fold_put_ok: "ok d \<Longrightarrow> ok (foldl (\<lambda>d x. put (f x) (g x d) d) d xs)"
  by (induction xs arbitrary: d) (simp_all add: ok_put)

lemma fold_put_ks:
  "set (ks (foldl (\<lambda>d x. put (f x) (g x d) d) d xs)) = f ` set xs \<union> set (ks d)"
  by (induction xs arbitrary: d) (auto simp: ks_put)

end

interpretation pydict: dictionary d_get d_set d_del d_keys d_ok
  by unfold_locales (auto simp: dict_simps d_keys_iff d_ok_distinct_keys[symmetric])

section \<open>Lists\<close>

lemma count_list_filter: "count_list xs x = length (filter (\<lambda>y. y = x) xs)"
  by (induction xs) auto

lemma sum_list_filter_le: "(\<Sum>x\<leftarrow>filter P xs. f x) \<le> (\<Sum>x\<leftarrow>xs. (f x :: nat))"
  by (induction xs) auto

lemma mset_filter_split: "mset (filter P xs) + mset (filter (\<lambda>x. \<not> P x) xs) = mset xs"
  by (induction xs) auto

end
