(* ===== verification/PyStr.thy ===== *)
theory PyStr
  imports Prelude
begin

text \<open>
  The string operations of the Python standard library that the code uses, on strings as lists
  of characters: splitting, joining, stripping, substring tests, decimal and hexadecimal
  numerals, and the two functions of \<open>posixpath\<close> (\<open>join\<close>, \<open>basename\<close>). These are the
  library's, so they model no file of the repository.
\<close>

section \<open>Splitting and joining\<close>

fun split_on :: "char \<Rightarrow> string \<Rightarrow> string list" where
  "split_on c [] = [[]]"
| "split_on c (x # xs) =
     (if x = c then [] # split_on c xs
      else (x # hd (split_on c xs)) # tl (split_on c xs))"

text \<open>\<open>s.split(c, 1)\<close>: the text before the first separator and what follows it, if there is one.\<close>

fun split_once :: "char \<Rightarrow> string \<Rightarrow> string list" where
  "split_once c [] = [[]]"
| "split_once c (x # xs) =
     (if x = c then [[], xs]
      else (x # hd (split_once c xs)) # tl (split_once c xs))"

fun join_with :: "string \<Rightarrow> string list \<Rightarrow> string" where
  "join_with sep [] = []"
| "join_with sep [s] = s"
| "join_with sep (s # t # ss) = s @ sep @ join_with sep (t # ss)"

lemma split_on_nonempty [simp]: "split_on c s \<noteq> []"
  by (cases s) auto

lemma split_once_nonempty [simp]: "split_once c s \<noteq> []"
  by (cases s) auto

lemma split_on_no_sep [str_simps]: "c \<notin> set s \<Longrightarrow> split_on c s = [s]"
  by (induction s) auto

lemma split_on_append_sep [str_simps]:
  "c \<notin> set s \<Longrightarrow> split_on c (s @ c # t) = s # split_on c t"
  by (induction s) auto

lemma split_once_no_sep [str_simps]: "c \<notin> set s \<Longrightarrow> split_once c s = [s]"
  by (induction s) auto

lemma split_once_append_sep [str_simps]:
  "c \<notin> set s \<Longrightarrow> split_once c (s @ c # t) = [s, t]"
  by (induction s) auto

lemma split_on_pieces_no_sep: "p \<in> set (split_on c s) \<Longrightarrow> c \<notin> set p"
proof (induction s arbitrary: p)
  case Nil
  then show ?case by simp
next
  case (Cons x s)
  obtain h t where ht: "split_on c s = h # t" by (cases "split_on c s") auto
  with Cons.prems have "p = [] \<or> p = x # h \<and> x \<noteq> c \<or> p \<in> set (split_on c s)"
    by (auto split: if_splits)
  moreover have "c \<notin> set h" using Cons.IH[of h] ht by simp
  ultimately show ?case using Cons.IH by auto
qed

lemma join_split_on: "join_with [c] (split_on c s) = s"
proof (induction s)
  case Nil
  then show ?case by simp
next
  case (Cons x s)
  obtain h t where ht: "split_on c s = h # t" by (cases "split_on c s") auto
  with Cons show ?case by (cases t) auto
qed

lemma split_on_join:
  "ss \<noteq> [] \<Longrightarrow> (\<And>s. s \<in> set ss \<Longrightarrow> c \<notin> set s) \<Longrightarrow> split_on c (join_with [c] ss) = ss"
  by (induction "[c]" ss rule: join_with.induct) (auto simp: str_simps)

section \<open>Tests and stripping\<close>

definition starts_with :: "string \<Rightarrow> string \<Rightarrow> bool" where
  "starts_with p s \<longleftrightarrow> take (length p) s = p"

definition ends_with :: "string \<Rightarrow> string \<Rightarrow> bool" where
  "ends_with p s \<longleftrightarrow> starts_with (rev p) (rev s)"

text \<open>The substring test \<open>p in s\<close>.\<close>

fun contains :: "string \<Rightarrow> string \<Rightarrow> bool" where
  "contains p [] = (p = [])"
| "contains p (x # xs) = (starts_with p (x # xs) \<or> contains p xs)"

lemma starts_with_iff: "starts_with p s \<longleftrightarrow> (\<exists>t. s = p @ t)"
  by (metis append_eq_conv_conj append_take_drop_id starts_with_def)

lemma contains_iff: "contains p s \<longleftrightarrow> (\<exists>u v. s = u @ p @ v)"
proof (induction s)
  case Nil
  then show ?case by auto
next
  case (Cons x s)
  show ?case
  proof
    assume "contains p (x # s)"
    then consider "starts_with p (x # s)" | "contains p s" by auto
    then show "\<exists>u v. x # s = u @ p @ v"
    proof cases
      case 1
      then show ?thesis by (metis append_Nil starts_with_iff)
    next
      case 2
      then show ?thesis by (metis Cons.IH append_Cons)
    qed
  next
    assume "\<exists>u v. x # s = u @ p @ v"
    then obtain u v where uv: "x # s = u @ p @ v" by blast
    then show "contains p (x # s)"
    proof (cases u)
      case Nil
      with uv show ?thesis by (metis append_Nil contains.simps(2) starts_with_iff)
    next
      case (Cons y u')
      with uv have "s = u' @ p @ v" by simp
      then show ?thesis using Cons.IH by auto
    qed
  qed
qed

definition is_space :: "char \<Rightarrow> bool" where
  "is_space c \<longleftrightarrow> c \<in> {CHR '' '', CHR 0x09, CHR 0x0A, CHR 0x0B, CHR 0x0C, CHR 0x0D}"

definition lstrip :: "string \<Rightarrow> string" where
  "lstrip s = dropWhile is_space s"

definition rstrip :: "string \<Rightarrow> string" where
  "rstrip s = rev (dropWhile is_space (rev s))"

definition strip :: "string \<Rightarrow> string" where
  "strip s = rstrip (lstrip s)"

definition upper_char :: "char \<Rightarrow> char" where
  "upper_char c = (let n = of_char c in if 97 \<le> n \<and> n \<le> (122::nat) then char_of (n - 32) else c)"

definition lower_char :: "char \<Rightarrow> char" where
  "lower_char c = (let n = of_char c in if 65 \<le> n \<and> n \<le> (90::nat) then char_of (n + 32) else c)"

definition is_digit :: "char \<Rightarrow> bool" where
  "is_digit c \<longleftrightarrow> 48 \<le> (of_char c :: nat) \<and> (of_char c :: nat) \<le> 57"

text \<open>A line of text: \<open>s\<close> and a newline.\<close>

definition endl :: "string \<Rightarrow> string" where
  "endl s = s @ [CHR 0x0A]"

section \<open>Numerals\<close>

definition digit_char :: "nat \<Rightarrow> char" where
  "digit_char d = char_of (if d < 10 then 48 + d else 87 + d)"

fun digits_base :: "nat \<Rightarrow> nat \<Rightarrow> nat list" where
  "digits_base b n = (if n < b \<or> b < 2 then [n] else digits_base b (n div b) @ [n mod b])"

declare digits_base.simps [simp del]

definition show_nat :: "nat \<Rightarrow> string" where
  "show_nat n = map digit_char (digits_base 10 n)"

text \<open>\<open>"%d" % i\<close> and \<open>str(i)\<close> for an integer.\<close>

definition show_int :: "int \<Rightarrow> string" where
  "show_int i = (if i < 0 then ''-'' @ show_nat (nat (- i)) else show_nat (nat i))"

definition digits_value :: "nat \<Rightarrow> nat list \<Rightarrow> nat" where
  "digits_value b ds = foldl (\<lambda>a d. a * b + d) 0 ds"

lemma digits_value_snoc [simp]: "digits_value b (ds @ [d]) = digits_value b ds * b + d"
  by (simp add: digits_value_def)

lemma digits_value_base: "2 \<le> b \<Longrightarrow> digits_value b (digits_base b n) = n"
proof (induction b n rule: digits_base.induct)
  case (1 b n)
  show ?case
  proof (cases "n < b")
    case True
    then show ?thesis by (simp add: digits_base.simps[of b n] digits_value_def)
  next
    case False
    with 1 have "digits_value b (digits_base b (n div b)) = n div b" by simp
    with False 1 show ?thesis by (simp add: digits_base.simps[of b n])
  qed
qed

lemma digits_base_lt: "2 \<le> b \<Longrightarrow> d \<in> set (digits_base b n) \<Longrightarrow> d < b"
proof (induction b n rule: digits_base.induct)
  case (1 b n)
  show ?case
  proof (cases "n < b")
    case True
    with 1 show ?thesis by (simp add: digits_base.simps[of b n])
  next
    case False
    with 1 show ?thesis by (auto simp: digits_base.simps[of b n])
  qed
qed

lemma digits_base_nonempty [simp]: "digits_base b n \<noteq> []"
  by (subst digits_base.simps) simp

text \<open>\<open>int(s)\<close> on a string of decimal digits.\<close>

definition char_digit :: "char \<Rightarrow> nat" where
  "char_digit c = of_char c - 48"

definition read_nat :: "string \<Rightarrow> nat res" where
  "read_nat s = (if s \<noteq> [] \<and> list_all is_digit s then Inr (digits_value 10 (map char_digit s))
                 else Inl ValueError)"

lemma digit_char_digit: "d < 10 \<Longrightarrow> is_digit (digit_char d) \<and> char_digit (digit_char d) = d"
  by (simp add: digit_char_def is_digit_def char_digit_def)

lemma read_show_nat: "read_nat (show_nat n) = Inr n"
proof -
  have lt: "\<forall>d \<in> set (digits_base 10 n). d < 10"
    using digits_base_lt[of 10 _ n] by simp
  then have "map char_digit (show_nat n) = digits_base 10 n"
    by (simp add: show_nat_def map_idI digit_char_digit)
  moreover have "list_all is_digit (show_nat n)"
    using lt by (auto simp: show_nat_def list_all_iff digit_char_digit)
  moreover have "show_nat n \<noteq> []"
    by (simp add: show_nat_def)
  ultimately show ?thesis
    by (simp add: read_nat_def digits_value_base)
qed

section \<open>Scanning a text from its start\<close>

text \<open>
  The pieces of the regular expressions the code matches: a literal, a run of decimal digits with
  its value, a run of characters other than the blank, each with the text after it.
\<close>

definition eat :: "string \<Rightarrow> string \<Rightarrow> string option" where
  "eat p s = (if starts_with p s then Some (drop (length p) s) else None)"

definition eat_number :: "string \<Rightarrow> (nat \<times> string) option" where
  "eat_number s =
     (case takeWhile is_digit s of
        [] \<Rightarrow> None
      | ds \<Rightarrow> Some (digits_value 10 (map char_digit ds), dropWhile is_digit s))"

definition eat_word :: "string \<Rightarrow> (string \<times> string) option" where
  "eat_word s =
     (case takeWhile (\<lambda>c. c \<noteq> CHR '' '') s of
        [] \<Rightarrow> None
      | w \<Rightarrow> Some (w, dropWhile (\<lambda>c. c \<noteq> CHR '' '') s))"

lemma eat_append [simp]: "eat p (p @ s) = Some s"
  by (simp add: eat_def starts_with_def)

lemma takeWhile_stop:
  "list_all P ds \<Longrightarrow> s = [] \<or> \<not> P (hd s) \<Longrightarrow> takeWhile P (ds @ s) = ds \<and> dropWhile P (ds @ s) = s"
  by (cases s) (auto simp: list_all_iff takeWhile_append2 dropWhile_append2)

lemma show_nat_digits: "list_all is_digit (show_nat n)" "show_nat n \<noteq> []"
  "digits_value 10 (map char_digit (show_nat n)) = n"
  using read_show_nat[of n] by (auto simp: read_nat_def split: if_splits)

lemma eat_show_nat: "s = [] \<or> \<not> is_digit (hd s) \<Longrightarrow> eat_number (show_nat n @ s) = Some (n, s)"
  using takeWhile_stop[OF show_nat_digits(1)[of n]] show_nat_digits(2,3)[of n]
  by (cases "show_nat n") (auto simp: eat_number_def)

lemma eat_word_stop:
  "w \<noteq> [] \<Longrightarrow> CHR '' '' \<notin> set w \<Longrightarrow> s = [] \<or> hd s = CHR '' '' \<Longrightarrow> eat_word (w @ s) = Some (w, s)"
proof -
  assume w: "w \<noteq> []" "CHR '' '' \<notin> set w" "s = [] \<or> hd s = CHR '' ''"
  have "list_all (\<lambda>c. c \<noteq> CHR '' '') w" using w(2) by (auto simp: list_all_iff)
  then have "takeWhile (\<lambda>c. c \<noteq> CHR '' '') (w @ s) = w \<and> dropWhile (\<lambda>c. c \<noteq> CHR '' '') (w @ s) = s"
    using takeWhile_stop[of "\<lambda>c. c \<noteq> CHR '' ''" w s] w(3) by blast
  then show ?thesis using w(1) by (cases w) (simp, simp only: eat_word_def list.case)
qed

lemma not_digit_signs [simp]: "\<not> is_digit CHR '',''" "\<not> is_digit CHR '' ''" "\<not> is_digit CHR 0x0A"
  by (simp_all add: is_digit_def)

section \<open>Paths\<close>

definition path_join :: "string \<Rightarrow> string \<Rightarrow> string" where
  "path_join a b =
     (if starts_with ''/'' b then b
      else if a = [] \<or> ends_with ''/'' a then a @ b
      else a @ ''/'' @ b)"

definition basename :: "string \<Rightarrow> string" where
  "basename p = last (split_on (CHR ''/'') p)"

lemma basename_no_slash: "CHR ''/'' \<notin> set p \<Longrightarrow> basename p = p"
  by (simp add: basename_def str_simps)

lemma basename_slash_free: "CHR ''/'' \<notin> set (basename p)"
  unfolding basename_def by (metis last_in_set split_on_nonempty split_on_pieces_no_sep)

section \<open>Absolute paths and numbers read from text\<close>

definition norm_step :: "bool \<Rightarrow> string list \<Rightarrow> string \<Rightarrow> string list" where
  "norm_step absolute comps part =
     (if part = '''' \<or> part = ''.'' then comps
      else if part \<noteq> ''..'' \<or> (\<not> absolute \<and> comps = []) \<or> (comps \<noteq> [] \<and> last comps = ''..'')
        then comps @ [part]
      else if comps \<noteq> [] then butlast comps else comps)"

definition normpath :: "string \<Rightarrow> string" where
  "normpath p =
     (let initial = (if starts_with ''/'' p
                     then if starts_with ''//'' p \<and> \<not> starts_with ''///'' p then ''//'' else ''/'' else '''');
          q = initial @ join_with ''/'' (foldl (norm_step (initial \<noteq> '''')) [] (split_on (CHR ''/'') p))
      in if q = '''' then ''.'' else q)"

text \<open>\<open>os.path.abspath\<close> in the working directory \<open>cwd\<close>.\<close>

definition abspath :: "string \<Rightarrow> string \<Rightarrow> string" where
  "abspath cwd p = normpath (if starts_with ''/'' p then p else path_join cwd p)"

definition read_int :: "string \<Rightarrow> int res" where
  "read_int s =
     (case strip s of
        [] \<Rightarrow> Inl ValueError
      | c # cs \<Rightarrow>
          if c = CHR ''-'' then rbind (read_nat cs) (\<lambda>n. Inr (- int n))
          else if c = CHR ''+'' then rbind (read_nat cs) (\<lambda>n. Inr (int n))
          else rbind (read_nat (c # cs)) (\<lambda>n. Inr (int n)))"

lemma digit_char_facts: "is_digit c \<Longrightarrow> \<not> is_space c \<and> c \<noteq> CHR '' '' \<and> c \<noteq> CHR ''-'' \<and> c \<noteq> CHR ''+''"
  by (auto simp: is_digit_def is_space_def)

lemma show_int_chars: "c \<in> set (show_int i) \<Longrightarrow> \<not> is_space c \<and> c \<noteq> CHR '' ''"
proof -
  assume "c \<in> set (show_int i)"
  then have "c = CHR ''-'' \<or> is_digit c" using show_nat_digits(1) by (auto simp: show_int_def list_all_iff split: if_splits)
  then show ?thesis using digit_char_facts by (auto simp: is_space_def)
qed

lemma strip_show_int: "strip (show_int i) = show_int i"
proof -
  have d: "dropWhile is_space s = s" if "\<forall>c \<in> set s. \<not> is_space c" for s using that by (cases s) auto
  have "dropWhile is_space (show_int i) = show_int i" "dropWhile is_space (rev (show_int i)) = rev (show_int i)"
    using show_int_chars by (auto intro!: d)
  then show ?thesis by (simp add: strip_def lstrip_def rstrip_def)
qed

lemma read_show_int: "read_int (show_int i) = Inr i"
proof (cases "i < 0")
  case True
  then show ?thesis using strip_show_int[of i] by (simp add: read_int_def show_int_def read_show_nat)
next
  case False
  obtain c cs where c: "show_nat (nat i) = c # cs" using show_nat_digits(2)[of "nat i"] by (cases "show_nat (nat i)") auto
  then have "is_digit c" using show_nat_digits(1)[of "nat i"] by simp
  then have "c \<noteq> CHR ''-''" "c \<noteq> CHR ''+''" using digit_char_facts by blast+
  then show ?thesis using strip_show_int[of i] False c read_show_nat[of "nat i"] by (simp add: read_int_def show_int_def)
qed

end
