(* ===== verification/RadLists.thy ===== *)
theory RadLists
  imports PyStr
begin

text \<open>
  The list functions of \<open>bindings/python/rad_util.py\<close>: \<open>is_rotated\<close> (which
  \<open>find_cycles\<close> of \<open>topsort.py\<close> uses), \<open>uniquify\<close>, \<open>reverse_dict\<close>, \<open>transpose\<close>,
  \<open>permutations\<close>, \<open>find_common_fixes\<close>, \<open>reverse\<close> and \<open>get_args\<close>.
\<close>

section \<open>is_rotated\<close>

definition start_indexes :: "'a \<Rightarrow> 'a list \<Rightarrow> nat list" where
  "start_indexes head_item seq1 = filter (\<lambda>i. seq1 ! i = head_item) [0..<length seq1]"

fun rotation_found :: "'a list \<Rightarrow> nat \<Rightarrow> 'a list \<Rightarrow> nat list \<Rightarrow> bool" where
  "rotation_found double_seq1 n seq2 [] = False"
| "rotation_found double_seq1 n seq2 (i # is) =
     (if py_slice double_seq1 i (i + n) = seq2 then True else rotation_found double_seq1 n seq2 is)"

definition is_rotated :: "'a list \<Rightarrow> 'a list \<Rightarrow> bool res" where
  "is_rotated seq1 seq2 =
     (if length seq1 \<noteq> length seq2 then Inr False
      else rbind (py_nth seq2 0) (\<lambda>head_item.
        Inr (rotation_found (seq1 @ seq1) (length seq1) seq2 (start_indexes head_item seq1))))"

lemma rotation_found_iff:
  "rotation_found d n ys is \<longleftrightarrow> (\<exists>i \<in> set is. py_slice d i (i + n) = ys)"
  by (induction "is") auto

lemma double_slice:
  "i \<le> length xs \<Longrightarrow> py_slice (xs @ xs) i (i + length xs) = rotate i xs"
proof (cases "i = length xs")
  case True
  then show ?thesis by (simp add: py_slice_def)
next
  case False
  assume "i \<le> length xs"
  with False have "i < length xs" by simp
  then show ?thesis by (simp add: py_slice_def rotate_drop_take add.commute)
qed

lemma is_rotated_correct:
  assumes "ys \<noteq> []"
  shows "is_rotated xs ys = Inr (\<exists>n. rotate n xs = ys)"
proof (cases "length xs = length ys")
  case False
  then have "\<not> (\<exists>n. rotate n xs = ys)" by (metis length_rotate)
  with False show ?thesis by (simp add: is_rotated_def)
next
  case True
  have ne: "xs \<noteq> []" using True assms by auto
  have head: "py_nth ys 0 = Inr (ys ! 0)"
    using assms py_nth_nat[of 0 ys] by simp
  have "rotation_found (xs @ xs) (length xs) ys (start_indexes (ys ! 0) xs)
        \<longleftrightarrow> (\<exists>n. rotate n xs = ys)" (is "?L \<longleftrightarrow> ?R")
  proof
    assume ?L
    then show ?R
      by (auto simp: rotation_found_iff start_indexes_def double_slice)
  next
    assume ?R
    then obtain n where n: "rotate n xs = ys" by blast
    define i where "i = n mod length xs"
    have i: "i < length xs" "rotate i xs = ys"
      using n ne by (simp_all add: i_def rotate_conv_mod[symmetric])
    then have "ys ! 0 = xs ! i"
      using ne by (metis add.right_neutral hd_conv_nth hd_rotate_conv_nth length_greater_0_conv
          mod_less rotate_is_Nil_conv)
    with i show ?L
      by (auto simp: rotation_found_iff start_indexes_def double_slice intro!: bexI[of _ i])
  qed
  with True head show ?thesis by (simp add: is_rotated_def)
qed

lemma is_rotated_empty: "is_rotated [] ([] :: 'a list) = Inl IndexError"
  by (simp add: is_rotated_def py_nth_def)

section \<open>uniquify and reverse_dict\<close>

text \<open>
  \<open>hashable\<close> says whether the items can be keys of a dictionary; where they cannot, the first
  membership test or store raises \<open>TypeError\<close> and the slow loop runs instead (on an empty
  sequence neither happens). \<open>ord\<close> is the order in which Python lists the keys of \<open>d\<close>.
\<close>

fun uniq_comp :: "'a list \<Rightarrow> ('a, int) dict \<Rightarrow> 'a list" where
  "uniq_comp [] d = []"
| "uniq_comp (x # xs) d = (if d_has d x then uniq_comp xs d else x # uniq_comp xs (d_set x 0 d))"

fun uniq_slow :: "'a list \<Rightarrow> 'a list \<Rightarrow> 'a list" where
  "uniq_slow [] result = result"
| "uniq_slow (x # xs) result = uniq_slow xs (if x \<in> set result then result else result @ [x])"

definition uniquify :: "('a list \<Rightarrow> 'a list) \<Rightarrow> bool \<Rightarrow> 'a list \<Rightarrow> bool \<Rightarrow> 'a list" where
  "uniquify ord hashable seq preserve_order =
     (if hashable \<or> seq = [] then
        (if preserve_order then uniq_comp seq []
         else ord (d_keys (foldl (\<lambda>d x. d_set x 0 d) ([] :: ('a, int) dict) seq)))
      else uniq_slow seq [])"

text \<open>The reference: keep an item where no equal item stands before it.\<close>

definition first_occurrences :: "'a list \<Rightarrow> 'a list" where
  "first_occurrences xs = map (\<lambda>i. xs ! i) (filter (\<lambda>i. xs ! i \<notin> set (take i xs)) [0..<length xs])"

lemma first_occurrences_snoc:
  "first_occurrences (xs @ [x]) = first_occurrences xs @ (if x \<in> set xs then [] else [x])"
proof -
  have "filter (\<lambda>i. (xs @ [x]) ! i \<notin> set (take i (xs @ [x]))) [0..<length xs]
        = filter (\<lambda>i. xs ! i \<notin> set (take i xs)) [0..<length xs]"
    by (rule filter_cong) (auto simp: nth_append)
  moreover have "map ((!) (xs @ [x])) (filter (\<lambda>i. xs ! i \<notin> set (take i xs)) [0..<length xs])
        = map ((!) xs) (filter (\<lambda>i. xs ! i \<notin> set (take i xs)) [0..<length xs])"
    by (rule map_cong) (auto simp: nth_append)
  ultimately show ?thesis
    by (simp add: first_occurrences_def nth_append)
qed

lemma set_first_occurrences: "set (first_occurrences xs) = set xs"
  by (induction xs rule: rev_induct) (auto simp: first_occurrences_snoc first_occurrences_def[of "[]"])

lemma distinct_first_occurrences: "distinct (first_occurrences xs)"
  by (induction xs rule: rev_induct)
    (auto simp: first_occurrences_snoc set_first_occurrences first_occurrences_def[of "[]"])

lemma uniq_slow_first: "uniq_slow xs (first_occurrences ys) = first_occurrences (ys @ xs)"
proof (induction xs arbitrary: ys)
  case Nil
  then show ?case by simp
next
  case (Cons x xs)
  show ?case
    using Cons[of "ys @ [x]"]
    by (simp add: first_occurrences_snoc set_first_occurrences split: if_splits)
qed

lemma uniq_comp_first:
  "set (d_keys d) = set ys \<Longrightarrow> first_occurrences ys @ uniq_comp xs d = first_occurrences (ys @ xs)"
proof (induction xs arbitrary: ys d)
  case Nil
  then show ?case by simp
next
  case (Cons x xs)
  have has: "d_has d x \<longleftrightarrow> x \<in> set ys"
    using Cons.prems d_keys_iff[of x d] by (simp add: d_has_def)
  show ?case
  proof (cases "x \<in> set ys")
    case True
    then have "set (d_keys d) = set (ys @ [x])" using Cons.prems by auto
    from Cons.IH[OF this] show ?thesis using True has by (simp add: first_occurrences_snoc)
  next
    case False
    have "set (d_keys (d_set x 0 d)) = set (ys @ [x])"
      using Cons.prems by (auto simp: dict_simps)
    from Cons.IH[OF this] show ?thesis using False has by (simp add: first_occurrences_snoc)
  qed
qed

lemma first_occurrences_Nil [simp]: "first_occurrences [] = []"
  by (simp add: first_occurrences_def)

lemma uniquify_preserving: "uniquify ord h xs True = first_occurrences xs"
  using uniq_comp_first[of "[]" "[]" xs] uniq_slow_first[of xs "[]"]
  by (simp add: uniquify_def d_keys_def)

lemma uniquify_fold_keys:
  "set (d_keys (foldl (\<lambda>d x. d_set x 0 d) ([] :: ('a, int) dict) xs)) = set xs"
  using pydict.fold_put_ks[of "\<lambda>x. x" "\<lambda>_ _. 0 :: int" "[]" xs] by (simp add: d_keys_def)

lemma uniquify_set_distinct:
  assumes "key_order ord"
  shows "set (uniquify ord h xs p) = set xs \<and> distinct (uniquify ord h xs p)"
proof -
  let ?d = "foldl (\<lambda>d x. d_set x 0 d) ([] :: ('a, int) dict) xs"
  have "d_ok ?d"
    using pydict.fold_put_ok[of "[]" "\<lambda>x. x" "\<lambda>_ _. 0 :: int" xs] by simp
  then have "distinct (d_keys ?d)" by (simp add: d_ok_distinct_keys)
  then show ?thesis
    using assms uniq_slow_first[of xs "[]"] uniquify_preserving[of ord h xs]
    by (cases p)
      (auto simp: uniquify_def key_order_set key_order_distinct uniquify_fold_keys
        set_first_occurrences distinct_first_occurrences)
qed

definition reverse_dict :: "('k, 'v) dict \<Rightarrow> ('v, 'k) dict" where
  "reverse_dict d = foldl (\<lambda>result (key, value). d_set value key result) [] d"

lemma reverse_dict_snoc: "reverse_dict (d @ [(k, v)]) = d_set v k (reverse_dict d)"
  by (simp add: reverse_dict_def)

lemma d_set_new: "k \<notin> set (d_keys d) \<Longrightarrow> d_set k v d = d @ [(k, v)]"
  by (induction d) (auto simp: d_set_def d_keys_def)

lemma reverse_dict_swap: "distinct (map snd d) \<Longrightarrow> reverse_dict d = map prod.swap d"
proof (induction d rule: rev_induct)
  case Nil
  then show ?case by (simp add: reverse_dict_def)
next
  case (snoc x d)
  obtain k v where x: "x = (k, v)" by (cases x)
  have "v \<notin> set (d_keys (reverse_dict d))"
    using snoc x by (auto simp: d_keys_def image_iff)
  then show ?case using snoc x by (simp add: reverse_dict_snoc d_set_new)
qed

lemma reverse_dict_involution:
  "d_ok d \<Longrightarrow> distinct (map snd d) \<Longrightarrow> reverse_dict (reverse_dict d) = d"
  by (simp add: reverse_dict_swap d_ok_def o_def)

section \<open>permutations\<close>

definition py_insert :: "nat \<Rightarrow> 'a \<Rightarrow> 'a list \<Rightarrow> 'a list" where
  "py_insert i x xs = take i xs @ x # drop i xs"

fun permutations :: "'a list \<Rightarrow> 'a list list" where
  "permutations (item # y # ys) =
     concat (map (\<lambda>sub_list. map (\<lambda>i. py_insert i item sub_list) [0..<length (item # y # ys)])
       (permutations (y # ys)))"
| "permutations input_list = [input_list]"

lemma permutations_set: "set (permutations xs) = {ys. mset ys = mset xs}"
proof (induction xs rule: permutations.induct)
  case (1 x y ys)
  show ?case
  proof (rule set_eqI, rule iffI)
    fix zs
    assume "zs \<in> set (permutations (x # y # ys))"
    then obtain i us where "us \<in> set (permutations (y # ys))" "zs = py_insert i x us"
      by auto
    then show "zs \<in> {zs. mset zs = mset (x # y # ys)}"
      using 1 by (simp add: py_insert_def) (metis append_take_drop_id mset_append)
  next
    fix zs
    assume a: "zs \<in> {zs. mset zs = mset (x # y # ys)}"
    then have "x \<in> set zs" by (metis (mono_tags) list.set_intros(1) mem_Collect_eq mset_eq_setD)
    then obtain us vs where zs: "zs = us @ x # vs" by (metis split_list)
    have "us @ vs \<in> set (permutations (y # ys))" using a zs 1 by simp
    moreover have "zs = py_insert (length us) x (us @ vs)" by (simp add: py_insert_def zs)
    moreover have "length us < length (x # y # ys)"
      using a zs by (metis (mono_tags) length_append length_Cons less_add_Suc1 add_Suc_right mem_Collect_eq size_mset)
    ultimately show "zs \<in> set (permutations (x # y # ys))"
      by (auto simp del: upt_Suc intro!: bexI[of _ "us @ vs"])
  qed
qed (auto simp: single_eq_add_mset dest: mset_eq_length)

lemma permutations_length: "length (permutations xs) = fact (length xs)"
proof (induction xs rule: permutations.induct)
  case (1 x y ys)
  then show ?case
    by (simp add: length_concat o_def sum_list_triv del: upt_Suc)
qed auto

section \<open>transpose, reverse and find_common_fixes\<close>

text \<open>\<open>zip(*matrix)\<close> stops at the shortest row; with no rows it is the empty list.\<close>

definition transpose_matrix :: "'a list list \<Rightarrow> 'a list list" where
  "transpose_matrix matrix =
     (if matrix = [] then []
      else map (\<lambda>j. map (\<lambda>row. row ! j) matrix) [0..<Min (set (map length matrix))])"

lemma transpose_matrix_rect:
  assumes "matrix \<noteq> []" "\<forall>row \<in> set matrix. length row = n"
  shows "transpose_matrix matrix = map (\<lambda>j. map (\<lambda>row. row ! j) matrix) [0..<n]"
proof -
  have "set (map length matrix) = {n}" using assms by (cases matrix) auto
  then show ?thesis using assms(1) by (simp add: transpose_matrix_def)
qed

lemma transpose_matrix_involution:
  assumes "matrix \<noteq> []" "\<forall>row \<in> set matrix. length row = n" "0 < n"
  shows "transpose_matrix (transpose_matrix matrix) = matrix"
proof -
  let ?t = "map (\<lambda>j. map (\<lambda>row. row ! j) matrix) [0..<n]"
  have t: "transpose_matrix matrix = ?t" using assms by (intro transpose_matrix_rect) auto
  have "transpose_matrix ?t = map (\<lambda>j. map (\<lambda>row. row ! j) ?t) [0..<length matrix]"
    using assms by (intro transpose_matrix_rect) auto
  also have "\<dots> = matrix"
  proof (rule nth_equalityI)
    fix i
    assume "i < length (map (\<lambda>j. map (\<lambda>row. row ! j) ?t) [0..<length matrix])"
    then have i: "i < length matrix" by simp
    then have "length (matrix ! i) = n" using assms(2) by simp
    then have "map (\<lambda>j. matrix ! i ! j) [0..<n] = matrix ! i" using map_nth by metis
    with i show "map (\<lambda>j. map (\<lambda>row. row ! j) ?t) [0..<length matrix] ! i = matrix ! i"
      by (simp add: o_def)
  qed simp
  finally show ?thesis by (simp add: t)
qed

definition reverse :: "'a list \<Rightarrow> 'a list" where
  "reverse input_string = rev input_string"

text \<open>
  The two loops of \<open>find_common_fixes\<close>. The bound \<open>common_len\<close> keeps every index in range.
\<close>

function common_prefix_loop :: "'a list \<Rightarrow> 'a list \<Rightarrow> nat \<Rightarrow> nat \<Rightarrow> 'a list \<Rightarrow> 'a list" where
  "common_prefix_loop s1 s2 common_len i prefix =
     (if i < common_len then
        (if s1 ! i \<noteq> s2 ! i then prefix
         else common_prefix_loop s1 s2 common_len (Suc i) (prefix @ [s1 ! i]))
      else prefix)"
  by pat_completeness auto
termination
  by (relation "measure (\<lambda>(s1, s2, n, i, p). n - i)") auto

function common_suffix_loop :: "'a list \<Rightarrow> 'a list \<Rightarrow> nat \<Rightarrow> nat \<Rightarrow> 'a list \<Rightarrow> 'a list" where
  "common_suffix_loop s1 s2 common_len i suffix =
     (if i < common_len + 1 then
        (if s1 ! (length s1 - i) \<noteq> s2 ! (length s2 - i) then suffix
         else common_suffix_loop s1 s2 common_len (Suc i) (suffix @ [s1 ! (length s1 - i)]))
      else suffix)"
  by pat_completeness auto
termination
  by (relation "measure (\<lambda>(s1, s2, n, i, p). n + 1 - i)") auto

declare common_prefix_loop.simps [simp del] common_suffix_loop.simps [simp del]

definition find_common_fixes :: "'a list \<Rightarrow> 'a list \<Rightarrow> 'a list \<times> 'a list" where
  "find_common_fixes s1 s2 =
     (let common_len = min (length s1) (length s2);
          prefix = common_prefix_loop s1 s2 common_len 0 [];
          suffix = common_suffix_loop s1 s2 common_len 1 []
      in (prefix, rev suffix))"

text \<open>The longest common prefix, as the reference.\<close>

fun lcp :: "'a list \<Rightarrow> 'a list \<Rightarrow> 'a list" where
  "lcp (x # xs) (y # ys) = (if x = y then x # lcp xs ys else [])"
| "lcp xs ys = []"

lemma common_prefix_loop_lcp:
  "i \<le> min (length s1) (length s2) \<Longrightarrow>
   common_prefix_loop s1 s2 (min (length s1) (length s2)) i p = p @ lcp (drop i s1) (drop i s2)"
proof (induction s1 s2 "min (length s1) (length s2)" i p rule: common_prefix_loop.induct)
  case (1 s1 s2 i p)
  show ?case
  proof (cases "i < min (length s1) (length s2)")
    case True
    then have "drop i s1 = s1 ! i # drop (Suc i) s1" "drop i s2 = s2 ! i # drop (Suc i) s2"
      by (simp_all add: Cons_nth_drop_Suc)
    with True 1 show ?thesis by (subst common_prefix_loop.simps) auto
  next
    case False
    then have "drop i s1 = [] \<or> drop i s2 = []" by auto
    then have "lcp (drop i s1) (drop i s2) = []" by (cases "drop i s1") auto
    with False show ?thesis by (subst common_prefix_loop.simps) auto
  qed
qed

lemma common_suffix_loop_lcp:
  "1 \<le> i \<Longrightarrow> i \<le> Suc (min (length s1) (length s2)) \<Longrightarrow>
   common_suffix_loop s1 s2 (min (length s1) (length s2)) i p
     = p @ lcp (drop (i - 1) (rev s1)) (drop (i - 1) (rev s2))"
proof (induction s1 s2 "min (length s1) (length s2)" i p rule: common_suffix_loop.induct)
  case (1 s1 s2 i p)
  show ?case
  proof (cases "i < min (length s1) (length s2) + 1")
    case True
    obtain j where j: "i = Suc j" using 1 by (cases i) auto
    with True have "drop j (rev s1) = rev s1 ! j # drop i (rev s1)"
      "drop j (rev s2) = rev s2 ! j # drop i (rev s2)"
      by (simp_all add: Cons_nth_drop_Suc)
    moreover have "rev s1 ! j = s1 ! (length s1 - i)" "rev s2 ! j = s2 ! (length s2 - i)"
      using True j by (simp_all add: rev_nth)
    ultimately show ?thesis using True 1 j by (subst common_suffix_loop.simps) auto
  next
    case False
    then have "drop (i - 1) (rev s1) = [] \<or> drop (i - 1) (rev s2) = []" by auto
    then have "lcp (drop (i - 1) (rev s1)) (drop (i - 1) (rev s2)) = []"
      by (cases "drop (i - 1) (rev s1)") auto
    with False show ?thesis by (subst common_suffix_loop.simps) auto
  qed
qed

lemma find_common_fixes_lcp:
  "find_common_fixes s1 s2 = (lcp s1 s2, rev (lcp (rev s1) (rev s2)))"
  using common_prefix_loop_lcp[of 0 s1 s2 "[]"] common_suffix_loop_lcp[of 1 s1 s2 "[]"]
  by (simp add: find_common_fixes_def)

lemma lcp_prefix: "\<exists>t u. xs = lcp xs ys @ t \<and> ys = lcp xs ys @ u \<and> (t = [] \<or> u = [] \<or> hd t \<noteq> hd u)"
  by (induction xs ys rule: lcp.induct) auto

section \<open>get_args\<close>

text \<open>
  The values stored by \<open>get_args\<close>: the text after \<open>=\<close>, \<open>None\<close>, or (for the key
  \<open>args\<close>) the list of the arguments that are not options. \<open>re.sub(r'^-+', '', arg)\<close> drops the
  leading dashes.
\<close>

datatype arg_value = ArgStr string | ArgNone | ArgList "string list"

definition strip_dashes :: "string \<Rightarrow> string" where
  "strip_dashes arg = dropWhile (\<lambda>c. c = CHR ''-'') arg"

definition option_entry :: "string \<Rightarrow> string \<times> arg_value" where
  "option_entry arg =
     (let parts = split_on (CHR ''='') (strip_dashes arg)
      in (hd parts, if length parts = 2 then ArgStr (parts ! 1) else ArgNone))"

fun get_args_step ::
  "(string, arg_value) dict \<times> string list \<Rightarrow> string \<Rightarrow> (string, arg_value) dict \<times> string list" where
  "get_args_step (d, args) arg =
     (if starts_with ''-'' arg then (d_set (fst (option_entry arg)) (snd (option_entry arg)) d, args)
      else (d, args @ [arg]))"

definition get_args :: "string list \<Rightarrow> (string, arg_value) dict" where
  "get_args argv = (let (d, args) = foldl get_args_step ([], []) argv in d_set ''args'' (ArgList args) d)"

lemma get_args_fold:
  "foldl get_args_step (d, args) argv
     = (foldl (\<lambda>d arg. d_set (fst (option_entry arg)) (snd (option_entry arg)) d) d
          (filter (starts_with ''-'') argv),
        args @ filter (\<lambda>a. \<not> starts_with ''-'' a) argv)"
  by (induction argv arbitrary: d args) auto

lemma fold_d_set_last:
  "d_get (foldl (\<lambda>d x. d_set (f x) (g x) d) d xs) k
     = (case filter (\<lambda>x. f x = k) (rev xs) of [] \<Rightarrow> d_get d k | x # _ \<Rightarrow> Some (g x))"
  by (induction xs rule: rev_induct) (auto simp: dict_simps)

lemma get_args_positional:
  "d_get (get_args argv) ''args'' = Some (ArgList (filter (\<lambda>a. \<not> starts_with ''-'' a) argv))"
  by (simp add: get_args_def get_args_fold dict_simps)

lemma get_args_option:
  "k \<noteq> ''args'' \<Longrightarrow> d_get (get_args argv) k =
     (case filter (\<lambda>a. starts_with ''-'' a \<and> fst (option_entry a) = k) (rev argv) of
        [] \<Rightarrow> None | a # _ \<Rightarrow> Some (snd (option_entry a)))"
proof -
  assume "k \<noteq> ''args''"
  then have "d_get (get_args argv) k =
      (case filter (\<lambda>a. fst (option_entry a) = k) (rev (filter (starts_with ''-'') argv)) of
        [] \<Rightarrow> None | a # _ \<Rightarrow> Some (snd (option_entry a)))"
    by (simp add: get_args_def get_args_fold dict_simps d_get_Nil
        fold_d_set_last[where f = "\<lambda>a. fst (option_entry a)" and g = "\<lambda>a. snd (option_entry a)"]
        cong: list.case_cong)
  also have "filter (\<lambda>a. fst (option_entry a) = k) (rev (filter (starts_with ''-'') argv))
      = filter (\<lambda>a. starts_with ''-'' a \<and> fst (option_entry a) = k) (rev argv)"
    by (simp add: rev_filter[symmetric] conj_commute)
  finally show ?thesis .
qed

lemma option_entry_pair:
  "CHR ''='' \<notin> set k \<Longrightarrow> CHR ''='' \<notin> set v \<Longrightarrow> k \<noteq> [] \<Longrightarrow> hd k \<noteq> CHR ''-'' \<Longrightarrow>
   option_entry (''--'' @ k @ ''='' @ v) = (k, ArgStr v)"
  by (cases k) (auto simp: option_entry_def strip_dashes_def split_on_append_sep split_on_no_sep Let_def)

end
