(* ===== verification/Topsort.thy ===== *)
theory Topsort
  imports RadLists
begin

text \<open>
  \<open>bindings/python/topsort.py\<close>: \<open>topsort\<close>, \<open>topsort_levels\<close> with \<open>topsort_levels_core\<close>,
  and \<open>find_cycles\<close>. The dictionaries \<open>num_parents\<close> and \<open>children\<close> are values of
  \<open>dict\<close>; \<open>ord\<close> is the order in which Python iterates over the keys of \<open>num_parents\<close>.
  A generator is modelled by the list of what it yields and the way it ends.
\<close>

section \<open>Data\<close>

datatype 'a topsort_error =
    CycleError "'a list" "('a, int) dict" "('a, 'a list) dict"
  | MissingKey

type_synonym 'a parents = "('a, int) dict"
type_synonym 'a child_map = "('a, 'a list) dict"

section \<open>Counting parents and collecting children\<close>

definition d_setdefault0 :: "'a \<Rightarrow> 'a parents \<Rightarrow> 'a parents" where
  "d_setdefault0 k np = (if d_has np k then np else d_set k 0 np)"

definition pair_step :: "'a parents \<times> 'a child_map \<Rightarrow> 'a \<times> 'a \<Rightarrow> 'a parents \<times> 'a child_map" where
  "pair_step s pair =
     (let (num_parents, children) = s; (parent, child) = pair;
          np1 = d_setdefault0 parent num_parents;
          np2 = d_setdefault0 child np1;
          np3 = (case d_get np2 child of None \<Rightarrow> np2 | Some n \<Rightarrow> d_set child (n + 1) np2);
          old = (case d_get children parent of None \<Rightarrow> [] | Some cs \<Rightarrow> cs)
      in (np3, d_set parent (old @ [child]) children))"

definition count_pairs :: "('a \<times> 'a) list \<Rightarrow> 'a parents \<times> 'a child_map" where
  "count_pairs pairlist = foldl pair_step ([], []) pairlist"

section \<open>topsort\<close>

text \<open>The inner loop: each child loses a parent and is appended to \<open>answer\<close> when none is left.\<close>

fun knock_down :: "'a list \<Rightarrow> 'a parents \<Rightarrow> 'a list \<Rightarrow> ('a parents \<times> 'a list) option" where
  "knock_down [] np new = Some (np, new)"
| "knock_down (child # cs) np new =
     (case d_get np child of
        None \<Rightarrow> None
      | Some n \<Rightarrow> knock_down cs (d_set child (n - 1) np) (if n - 1 = 0 then new @ [child] else new))"

lemma knock_down_length: "knock_down cs np new = Some (np', new') \<Longrightarrow> length np' = length np"
  by (induction cs arbitrary: np new) (auto simp: length_d_set split: option.splits)

text \<open>
  The loop over the growing list \<open>answer\<close>: \<open>done\<close> is the part already visited and
  \<open>queue\<close> the rest.
\<close>

function topsort_loop ::
  "'a list \<Rightarrow> 'a list \<Rightarrow> 'a parents \<Rightarrow> 'a child_map \<Rightarrow> 'a topsort_error + ('a list \<times> 'a parents \<times> 'a child_map)"
where
  "topsort_loop done [] np ch = Inr (done, np, ch)"
| "topsort_loop done (parent # queue) np ch =
     (if d_get np parent = None then Inl MissingKey
      else case d_get ch parent of
        None \<Rightarrow> topsort_loop (done @ [parent]) queue (d_del parent np) ch
      | Some cs \<Rightarrow>
          (case knock_down cs (d_del parent np) [] of
             None \<Rightarrow> Inl MissingKey
           | Some (np', new) \<Rightarrow> topsort_loop (done @ [parent]) (queue @ new) np' (d_del parent ch)))"
  by pat_completeness auto
termination
  by (relation "measure (\<lambda>(d, q, np, ch). length np)")
    (auto simp: length_d_del dest!: knock_down_length)

definition topsort :: "('a list \<Rightarrow> 'a list) \<Rightarrow> ('a \<times> 'a) list \<Rightarrow> 'a topsort_error + 'a list" where
  "topsort ord pairlist =
     (let (num_parents, children) = count_pairs pairlist;
          answer = filter (\<lambda>x. d_get num_parents x = Some 0) (ord (d_keys num_parents))
      in rbind (topsort_loop [] answer num_parents children) (\<lambda>(answer, num_parents, children).
           if num_parents \<noteq> [] then Inl (CycleError answer num_parents children) else Inr answer))"

section \<open>topsort_levels\<close>

fun knock_level :: "'a list \<Rightarrow> 'a parents \<Rightarrow> 'a parents option" where
  "knock_level [] np = Some np"
| "knock_level (c # cs) np =
     (case d_get np c of None \<Rightarrow> None | Some n \<Rightarrow> knock_level cs (d_set c (n - 1) np))"

fun level_loop :: "'a list \<Rightarrow> 'a parents \<Rightarrow> 'a child_map \<Rightarrow> ('a parents \<times> 'a child_map) option" where
  "level_loop [] np ch = Some (np, ch)"
| "level_loop (p # ps) np ch =
     (if d_get np p = None then None
      else case d_get ch p of
        None \<Rightarrow> level_loop ps (d_del p np) ch
      | Some cs \<Rightarrow>
          (case knock_level cs (d_del p np) of
             None \<Rightarrow> None
           | Some np' \<Rightarrow> level_loop ps np' (d_del p ch)))"

lemma knock_level_length: "knock_level cs np = Some np' \<Longrightarrow> length np' = length np"
  by (induction cs arbitrary: np) (auto simp: length_d_set split: option.splits)

lemma level_loop_length:
  "level_loop ps np ch = Some (np', ch') \<Longrightarrow> length np' + length ps \<le> length np"
proof (induction ps np ch rule: level_loop.induct)
  case (1 np ch)
  then show ?case by simp
next
  case (2 p ps np ch)
  then show ?case
    using length_d_del[of np p]
    by (fastforce split: if_splits option.splits dest: knock_level_length)
qed

text \<open>The end of the generator: \<open>StopIteration\<close> or \<open>CycleError(num_parents, children)\<close>.\<close>

datatype 'a level_end = Exhausted | LevelCycle "'a parents" "'a child_map" | LevelKeyError

function topsort_levels_core ::
  "('a list \<Rightarrow> 'a list) \<Rightarrow> 'a parents \<Rightarrow> 'a child_map \<Rightarrow> 'a list list \<times> 'a level_end"
where
  "topsort_levels_core ord np ch =
     (let level_parents = filter (\<lambda>x. d_get np x = Some 0) (ord (d_keys np))
      in if level_parents = [] then ([], if np \<noteq> [] then LevelCycle np ch else Exhausted)
         else case level_loop level_parents np ch of
           None \<Rightarrow> ([level_parents], LevelKeyError)
         | Some (np', ch') \<Rightarrow>
             (let (levels, e) = topsort_levels_core ord np' ch' in (level_parents # levels, e)))"
  by pat_completeness auto
termination
proof (relation "measure (\<lambda>(ord, np, ch). length np)", simp, clarify)
  fix ord :: "'a list \<Rightarrow> 'a list" and np :: "'a parents" and ch ch' :: "'a child_map" and np'
  assume "filter (\<lambda>x. d_get np x = Some 0) (ord (d_keys np)) \<noteq> []"
    and "level_loop (filter (\<lambda>x. d_get np x = Some 0) (ord (d_keys np))) np ch = Some (np', ch')"
  then show "((ord, np', ch'), ord, np, ch) \<in> measure (\<lambda>(ord, np, ch). length np)"
    by (auto dest!: level_loop_length simp: neq_Nil_conv)
qed

declare topsort_levels_core.simps [simp del]

definition topsort_levels ::
  "('a list \<Rightarrow> 'a list) \<Rightarrow> ('a \<times> 'a) list \<Rightarrow> 'a list list \<times> 'a level_end" where
  "topsort_levels ord pairlist =
     (let (num_parents, children) = count_pairs pairlist
      in topsort_levels_core ord num_parents children)"

section \<open>find_cycles\<close>

text \<open>
  \<open>paths\<close> is the code's list used as a stack; its last element is the first here. The
  yielded cycles are the list \<open>cycles\<close>.
\<close>

fun dup_cycle :: "'a list list \<Rightarrow> 'a list \<Rightarrow> bool res" where
  "dup_cycle [] cycle = Inr False"
| "dup_cycle (other # cs) cycle =
     rbind (is_rotated other cycle) (\<lambda>r. if r then Inr True else dup_cycle cs cycle)"

definition path_from :: "'a \<Rightarrow> 'a list \<Rightarrow> 'a list" where
  "path_from child path = dropWhile (\<lambda>x. x \<noteq> child) path"

fun visit_children ::
  "'a list \<Rightarrow> 'a list \<Rightarrow> 'a list list \<Rightarrow> 'a list list \<Rightarrow> 'a list \<Rightarrow> ('a list list \<times> 'a list list \<times> 'a list) res"
where
  "visit_children [] path paths cycles visited = Inr (paths, cycles, visited)"
| "visit_children (child # cs) path paths cycles visited =
     (if child \<in> set path then
        rbind (dup_cycle cycles (path_from child path)) (\<lambda>is_dup.
          visit_children cs path paths
            (if is_dup then cycles else cycles @ [path_from child path]) visited)
      else visit_children cs path ((path @ [child]) # paths) cycles (child # visited))"

lemma visit_children_paths:
  "visit_children cs path paths cycles visited = Inr (paths', cycles', visited') \<Longrightarrow>
   paths' = rev (map (\<lambda>c. path @ [c]) (filter (\<lambda>c. c \<notin> set path) cs)) @ paths"
  by (induction cs path paths cycles visited rule: visit_children.induct)
    (auto simp: rbind_Inr_iff split: if_splits)

definition child_nodes :: "('a, 'a list) dict \<Rightarrow> 'a set" where
  "child_nodes pc = \<Union> (set ` snd ` set pc)"

lemma finite_child_nodes [simp]: "finite (child_nodes pc)"
  by (simp add: child_nodes_def)

lemma d_get_child_nodes: "d_get pc p = Some cs \<Longrightarrow> set cs \<subseteq> child_nodes pc"
  by (auto simp: child_nodes_def d_get_def dest!: map_of_SomeD intro!: bexI)

definition path_rank :: "('a, 'a list) dict \<Rightarrow> 'a list \<Rightarrow> nat" where
  "path_rank pc path = card (child_nodes pc - set path)"

lemma path_rank_snoc: "c \<in> child_nodes pc \<Longrightarrow> c \<notin> set path \<Longrightarrow> path_rank pc (path @ [c]) < path_rank pc path"
  unfolding path_rank_def by (rule psubset_card_mono) auto

function search_paths ::
  "('a, 'a list) dict \<Rightarrow> 'a list list \<Rightarrow> 'a list list \<Rightarrow> 'a list \<Rightarrow> ('a list list \<times> 'a list) res"
where
  "search_paths pc [] cycles visited = Inr (cycles, visited)"
| "search_paths pc (path # paths) cycles visited =
     (if path = [] then Inl IndexError
      else case d_get pc (last path) of
        None \<Rightarrow> search_paths pc paths cycles visited
      | Some children \<Rightarrow>
          (case visit_children children path paths cycles visited of
             Inl e \<Rightarrow> Inl e
           | Inr (paths', cycles', visited') \<Rightarrow> search_paths pc paths' cycles' visited'))"
  by pat_completeness auto
termination
proof (relation "inv_image (mult less_than) (\<lambda>(pc, paths, c, v). mset (map (path_rank pc) paths))")
  show "wf (inv_image (mult less_than) (\<lambda>(pc, paths, c :: 'a list list, v :: 'a list). mset (map (path_rank pc) paths)))"
    by (intro wf_inv_image wf_mult) simp
next
  fix pc :: "('a, 'a list) dict" and path paths cycles visited
  show "((pc, paths, cycles, visited), pc, path # paths, cycles, visited)
    \<in> inv_image (mult less_than) (\<lambda>(pc, paths, c, v). mset (map (path_rank pc) paths))"
    by (simp add: subset_implies_mult)
next
  fix pc :: "('a, 'a list) dict" and path paths cycles visited children b paths' b' cycles' visited'
  assume get: "d_get pc (last path) = Some children"
    and v: "visit_children children path paths cycles visited = Inr b" "(paths', b') = b"
    "(cycles', visited') = b'"
  let ?new = "rev (map (\<lambda>c. path @ [c]) (filter (\<lambda>c. c \<notin> set path) children))"
  have paths': "paths' = ?new @ paths"
    using v visit_children_paths by metis
  have "\<forall>p \<in> set ?new. path_rank pc p < path_rank pc path"
    using d_get_child_nodes[OF get] by (auto intro!: path_rank_snoc)
  then have "\<forall>k \<in># mset (map (path_rank pc) ?new). \<exists>j \<in># {#path_rank pc path#}. (k, j) \<in> less_than"
    by auto
  then have "(mset (map (path_rank pc) paths) + mset (map (path_rank pc) ?new),
      mset (map (path_rank pc) paths) + {#path_rank pc path#}) \<in> mult less_than"
    by (intro one_step_implies_mult) auto
  then show "((pc, paths', cycles', visited'), pc, path # paths, cycles, visited)
    \<in> inv_image (mult less_than) (\<lambda>(pc, paths, c, v). mset (map (path_rank pc) paths))"
    by (simp add: paths' ac_simps)
qed

fun find_cycles_from ::
  "('a, 'a list) dict \<Rightarrow> 'a list \<Rightarrow> 'a list list \<Rightarrow> 'a list \<Rightarrow> 'a list list res"
where
  "find_cycles_from pc [] cycles visited = Inr cycles"
| "find_cycles_from pc (parent # ps) cycles visited =
     (if parent \<in> set visited then find_cycles_from pc ps cycles visited
      else rbind (search_paths pc [[parent]] cycles visited) (\<lambda>(cycles', visited').
             find_cycles_from pc ps cycles' visited'))"

definition find_cycles :: "('a list \<Rightarrow> 'a list) \<Rightarrow> ('a, 'a list) dict \<Rightarrow> 'a list list res" where
  "find_cycles ord parent_children = find_cycles_from parent_children (ord (d_keys parent_children)) [] []"

end
