(* ===== verification/TopsortProofs.thy ===== *)
theory TopsortProofs
  imports Topsort
begin

text \<open>
  Correctness of \<open>topsort\<close>: the graph of the pairs, what the counting loop builds, the
  invariant of the main loop, and the two outcomes (an order of all the nodes with every parent
  before its children, or a cycle).
\<close>

section \<open>The graph of a list of pairs\<close>

definition nodes :: "('a \<times> 'a) list \<Rightarrow> 'a set" where
  "nodes pl = fst ` set pl \<union> snd ` set pl"

definition kids :: "('a \<times> 'a) list \<Rightarrow> 'a \<Rightarrow> 'a list" where
  "kids pl p = map snd (filter (\<lambda>e. fst e = p) pl)"

definition indeg :: "('a \<times> 'a) list \<Rightarrow> 'a set \<Rightarrow> 'a \<Rightarrow> nat" where
  "indeg pl D v = length (filter (\<lambda>e. snd e = v \<and> fst e \<notin> D) pl)"

definition topo_ordered :: "('a \<times> 'a) list \<Rightarrow> 'a list \<Rightarrow> bool" where
  "topo_ordered pl xs \<longleftrightarrow> (\<forall>i < length xs. \<forall>a. (a, xs ! i) \<in> set pl \<longrightarrow> a \<in> set (take i xs))"

lemma finite_nodes [simp]: "finite (nodes pl)"
  by (simp add: nodes_def)

lemma nodes_snoc: "nodes (pl @ [(p, c)]) = insert p (insert c (nodes pl))"
  by (auto simp: nodes_def)

lemma kids_snoc: "kids (pl @ [(p, c)]) q = kids pl q @ (if p = q then [c] else [])"
  by (simp add: kids_def)

lemma indeg_snoc: "indeg (pl @ [(p, c)]) D v = indeg pl D v + (if c = v \<and> p \<notin> D then 1 else 0)"
  by (simp add: indeg_def)

lemma set_kids: "set (kids pl p) = {c. (p, c) \<in> set pl}"
  by (force simp: kids_def)

lemma kids_nodes: "c \<in> set (kids pl p) \<Longrightarrow> c \<in> nodes pl"
  by (force simp: set_kids nodes_def)

lemma indeg_0_iff: "indeg pl D v = 0 \<longleftrightarrow> (\<forall>a. (a, v) \<in> set pl \<longrightarrow> a \<in> D)"
  by (force simp: indeg_def filter_empty_conv)

lemma indeg_insert: "p \<notin> D \<Longrightarrow> indeg pl D v = indeg pl (insert p D) v + count_list (kids pl p) v"
  by (induction pl) (auto simp: indeg_def kids_def)

lemma indeg_not_node: "v \<notin> nodes pl \<Longrightarrow> indeg pl D v = 0"
  by (force simp: indeg_0_iff nodes_def)

lemma topo_ordered_Nil [simp]: "topo_ordered pl []"
  by (simp add: topo_ordered_def)

lemma topo_ordered_snoc:
  "topo_ordered pl (xs @ [x]) \<longleftrightarrow> topo_ordered pl xs \<and> (\<forall>a. (a, x) \<in> set pl \<longrightarrow> a \<in> set xs)"
  by (auto simp: topo_ordered_def nth_append less_Suc_eq)

lemma topo_ordered_append:
  "topo_ordered pl xs \<Longrightarrow> (\<And>y a. y \<in> set ys \<Longrightarrow> (a, y) \<in> set pl \<Longrightarrow> a \<in> set xs) \<Longrightarrow>
   topo_ordered pl (xs @ ys)"
proof (induction ys rule: rev_induct)
  case (snoc y ys)
  have "topo_ordered pl ((xs @ ys) @ [y])"
    unfolding topo_ordered_snoc using snoc by auto
  then show ?case by simp
qed simp

lemma topo_ordered_closed: "topo_ordered pl xs \<Longrightarrow> x \<in> set xs \<Longrightarrow> (a, x) \<in> set pl \<Longrightarrow> a \<in> set xs"
  by (metis in_set_conv_nth in_set_takeD topo_ordered_def)

lemma topo_ordered_prefix: "topo_ordered pl (xs @ ys) \<Longrightarrow> topo_ordered pl xs"
  by (induction ys rule: rev_induct) (auto simp: topo_ordered_snoc simp flip: append_assoc)

text \<open>An order of all the nodes leaves no room for a cycle.\<close>

lemma topo_ordered_acyclic:
  assumes "topo_ordered pl xs" "nodes pl \<subseteq> set xs"
  shows "acyclic (set pl)"
proof -
  define rank where "rank x = length (takeWhile (\<lambda>y. y \<noteq> x) xs)" for x
  have "(a, b) \<in> inv_image less_than rank" if e: "(a, b) \<in> set pl" for a b
  proof -
    have "b \<in> set xs" using e assms(2) by (force simp: nodes_def)
    then have lt: "rank b < length xs" unfolding rank_def
      by (metis (mono_tags, lifting) length_takeWhile_le nat_less_le set_takeWhileD takeWhile_eq_take take_all_iff)
    then have b: "xs ! rank b = b" unfolding rank_def
      using nth_length_takeWhile[of "\<lambda>y. y \<noteq> b" xs] by simp
    then have "a \<in> set (take (rank b) xs)" using assms(1) e lt unfolding topo_ordered_def by metis
    then obtain j where j: "j < rank b" "xs ! j = a" using lt by (auto simp: in_set_conv_nth)
    have "rank a \<le> j"
    proof (rule ccontr)
      assume "\<not> rank a \<le> j"
      then have "j < length (takeWhile (\<lambda>y. y \<noteq> a) xs)" by (simp add: rank_def)
      then have "xs ! j \<noteq> a"
        by (metis (mono_tags, lifting) nth_mem set_takeWhileD takeWhile_nth)
      with j show False by simp
    qed
    with j show ?thesis by simp
  qed
  then have "set pl \<subseteq> inv_image less_than rank" by auto
  then have "wf (set pl)" by (rule wf_subset[rotated]) simp
  then show ?thesis by (rule wf_acyclic)
qed

text \<open>In an acyclic graph every non-empty set of nodes has one without a parent in the set.\<close>

lemma acyclic_source:
  assumes "acyclic (set pl)" "U \<noteq> {}"
  shows "\<exists>v \<in> U. \<forall>a. (a, v) \<in> set pl \<longrightarrow> a \<notin> U"
proof -
  have "wf (set pl)" using assms(1) by (simp add: finite_acyclic_wf)
  then show ?thesis using assms(2) by (metis ex_in_conv wf_eq_minimal)
qed

section \<open>What the counting loop builds\<close>

definition counted :: "('a \<times> 'a) list \<Rightarrow> 'a parents \<times> 'a child_map \<Rightarrow> bool" where
  "counted pl s \<longleftrightarrow> d_ok (fst s)
     \<and> (\<forall>v. d_get (fst s) v = (if v \<in> nodes pl then Some (int (indeg pl {} v)) else None))
     \<and> (\<forall>p. d_get (snd s) p = (if kids pl p = [] then None else Some (kids pl p)))"

lemma counted_step: "counted pl s \<Longrightarrow> counted (pl @ [e]) (pair_step s e)"
proof -
  assume c: "counted pl s"
  obtain np ch where s: "s = (np, ch)" by (cases s)
  obtain p v where e: "e = (p, v)" by (cases e)
  have z: "x \<notin> nodes pl \<Longrightarrow> indeg pl {} x = 0" for x by (rule indeg_not_node)
  have get: "d_get np x = (if x \<in> nodes pl then Some (int (indeg pl {} x)) else None)" for x
    using c by (simp add: counted_def s)
  have kid: "d_get ch x = (if kids pl x = [] then None else Some (kids pl x))" for x
    using c by (simp add: counted_def s)
  obtain np' ch' where step: "pair_step s e = (np', ch')" by (cases "pair_step s e")
  have np': "np' = (let np2 = d_setdefault0 v (d_setdefault0 p np) in
      case d_get np2 v of None \<Rightarrow> np2 | Some n \<Rightarrow> d_set v (n + 1) np2)"
    and ch': "ch' = d_set p ((case d_get ch p of None \<Rightarrow> [] | Some cs \<Rightarrow> cs) @ [v]) ch"
    using step by (simp_all add: s e pair_step_def Let_def)
  have np2: "d_get (d_setdefault0 v (d_setdefault0 p np)) x
      = (if x \<in> nodes (pl @ [e]) then Some (int (indeg pl {} x)) else None)" for x
    using z[of p] z[of v]
    by (simp add: d_setdefault0_def d_has_def dict_simps get e nodes_snoc)
  have "d_get (d_setdefault0 v (d_setdefault0 p np)) v = Some (int (indeg pl {} v))"
    by (simp only: np2) (simp add: e nodes_snoc)
  then have "np' = d_set v (int (indeg pl {} v) + 1) (d_setdefault0 v (d_setdefault0 p np))"
    by (simp add: np')
  then have "d_get np' x = (if x = v then Some (int (indeg pl {} v) + 1)
      else d_get (d_setdefault0 v (d_setdefault0 p np)) x)" for x
    by (simp only: dict_simps)
  then have "d_get np' x = (if x \<in> nodes (pl @ [e]) then Some (int (indeg (pl @ [e]) {} x)) else None)" for x
    by (simp only: np2) (simp add: e nodes_snoc indeg_snoc)
  moreover have "d_get ch' x = (if kids (pl @ [e]) x = [] then None else Some (kids (pl @ [e]) x))" for x
    by (simp add: ch' kid dict_simps e kids_snoc)
  moreover have "d_ok (d_setdefault0 x m)" if "d_ok m" for x and m :: "'a parents"
    using that by (simp add: d_setdefault0_def)
  then have "d_ok np'"
    using c \<open>np' = d_set v _ _\<close> by (simp add: counted_def s)
  ultimately show ?thesis by (simp add: counted_def step)
qed

lemma count_pairs_counted: "counted pl (count_pairs pl)"
proof (induction pl rule: rev_induct)
  case Nil
  show ?case by (simp add: counted_def count_pairs_def nodes_def kids_def dict_simps)
next
  case (snoc e pl)
  from counted_step[OF snoc, of e] show ?case by (simp add: count_pairs_def)
qed

section \<open>The inner loop\<close>

lemma knock_down_spec:
  assumes "\<And>v. v \<in> set cs \<Longrightarrow> \<exists>n. d_get np v = Some n \<and> int (count_list cs v) \<le> n" "d_ok np"
  shows "\<exists>np' new'. knock_down cs np new = Some (np', new @ new') \<and> d_ok np'
     \<and> (\<forall>v. d_get np' v = map_option (\<lambda>n. n - int (count_list cs v)) (d_get np v))
     \<and> set new' = {v \<in> set cs. d_get np v = Some (int (count_list cs v))} \<and> distinct new'"
  using assms
proof (induction cs arbitrary: np new)
  case Nil
  then show ?case by (auto simp: option.map_ident)
next
  case (Cons c cs)
  obtain n where n: "d_get np c = Some n" "int (count_list (c # cs) c) \<le> n"
    using Cons.prems(1)[of c] by auto
  let ?np = "d_set c (n - 1) np"
  have pre: "\<exists>m. d_get ?np v = Some m \<and> int (count_list cs v) \<le> m" if "v \<in> set cs" for v
    using Cons.prems(1)[of v] that n by (auto simp: dict_simps)
  let ?new = "if n - 1 = 0 then new @ [c] else new"
  obtain np' new' where ih: "knock_down cs ?np ?new = Some (np', ?new @ new')" "d_ok np'"
    "\<And>v. d_get np' v = map_option (\<lambda>n. n - int (count_list cs v)) (d_get ?np v)"
    "set new' = {v \<in> set cs. d_get ?np v = Some (int (count_list cs v))}" "distinct new'"
    using Cons.IH[of ?np ?new] pre Cons.prems(2) by auto
  have get: "d_get np' v = map_option (\<lambda>n. n - int (count_list (c # cs) v)) (d_get np v)" for v
    using ih(3)[of v] n by (auto simp: dict_simps)
  let ?new' = "(if n - 1 = 0 then [c] else []) @ new'"
  have zero: "count_list cs c = 0 \<longleftrightarrow> c \<notin> set cs" by (simp add: count_list_0_iff)
  have mem: "v \<in> set new' \<longleftrightarrow> v \<in> set cs \<and> d_get ?np v = Some (int (count_list cs v))" for v
    using ih(4) by blast
  have mem_c: "c \<in> set new' \<longleftrightarrow> c \<in> set cs \<and> n - 1 = int (count_list cs c)"
    using mem[of c] by (simp add: dict_simps)
  have new': "v \<in> set ?new' \<longleftrightarrow> v \<in> set (c # cs) \<and> d_get np v = Some (int (count_list (c # cs) v))" for v
  proof (cases "v = c")
    case True
    then show ?thesis using mem_c zero n by (cases "n - 1 = 0") auto
  next
    case False
    then show ?thesis using mem[of v] by (simp add: dict_simps)
  qed
  have "c \<notin> set new'" if "n - 1 = 0"
    using mem_c zero that by auto
  then have dist: "distinct ?new'" using ih(5) by simp
  have kd: "knock_down (c # cs) np new = Some (np', new @ ?new')"
    using ih(1) n by simp
  show ?case
    by (rule exI[of _ np'], rule exI[of _ ?new'])
      (use kd ih(2) get new' dist in \<open>simp add: set_eq_iff\<close>)
qed

section \<open>The main loop\<close>

definition topo_inv :: "('a \<times> 'a) list \<Rightarrow> 'a list \<Rightarrow> 'a list \<Rightarrow> 'a parents \<Rightarrow> 'a child_map \<Rightarrow> bool" where
  "topo_inv pl D Q np ch \<longleftrightarrow>
     distinct (D @ Q) \<and> set D \<subseteq> nodes pl \<and> d_ok np
     \<and> (\<forall>v. d_get np v = (if v \<in> nodes pl - set D then Some (int (indeg pl (set D) v)) else None))
     \<and> set Q = {v \<in> nodes pl - set D. indeg pl (set D) v = 0}
     \<and> (\<forall>p. p \<notin> set D \<longrightarrow> d_get ch p = (if kids pl p = [] then None else Some (kids pl p)))
     \<and> topo_ordered pl (D @ Q)"

lemma topo_inv_kid:
  assumes "topo_inv pl D (p # Q) np ch" "c \<in> set (kids pl p)"
  shows "c \<in> nodes pl - set (D @ [p])"
proof -
  have e: "(p, c) \<in> set pl" using assms(2) by (simp add: set_kids)
  have inv: "topo_ordered pl (D @ p # Q)" "p \<notin> set D" "indeg pl (set D) p = 0"
    using assms(1) by (auto simp: topo_inv_def)
  have "c \<notin> set D" using topo_ordered_closed[OF topo_ordered_prefix[OF inv(1)]] e inv(2) by blast
  moreover have "c \<noteq> p" using inv(2,3) e by (auto simp: indeg_0_iff)
  ultimately show ?thesis using assms(2) by (auto dest: kids_nodes)
qed

lemma topo_inv_step:
  assumes inv: "topo_inv pl D (p # Q) np ch"
  defines "cs \<equiv> kids pl p"
  shows "\<exists>np' new. knock_down cs (d_del p np) [] = Some (np', new)
     \<and> topo_inv pl (D @ [p]) (Q @ new) np' (d_del p ch)"
proof -
  have p: "p \<notin> set D" "p \<in> nodes pl" "indeg pl (set D) p = 0" and ok: "d_ok (d_del p np)"
    using inv by (auto simp: topo_inv_def)
  have get: "d_get (d_del p np) v
      = (if v \<in> nodes pl - set (D @ [p]) then Some (int (indeg pl (set D) v)) else None)" for v
    using inv by (auto simp: topo_inv_def dict_simps)
  have split: "indeg pl (set D) v = indeg pl (set (D @ [p])) v + count_list cs v" for v
    using indeg_insert[OF p(1)] by (simp add: cs_def)
  have kid: "c \<in> nodes pl - set (D @ [p])" if "c \<in> set cs" for c
    using topo_inv_kid[OF inv] that by (simp add: cs_def)
  have "\<exists>n. d_get (d_del p np) v = Some n \<and> int (count_list cs v) \<le> n" if "v \<in> set cs" for v
    using kid[OF that] get[of v] split[of v] by auto
  from knock_down_spec[OF this ok, of "[]"] obtain np' new where kd:
    "knock_down cs (d_del p np) [] = Some (np', new)" "d_ok np'"
    "\<And>v. d_get np' v = map_option (\<lambda>n. n - int (count_list cs v)) (d_get (d_del p np) v)"
    "set new = {v \<in> set cs. d_get (d_del p np) v = Some (int (count_list cs v))}" "distinct new"
    by auto
  have get': "d_get np' v
      = (if v \<in> nodes pl - set (D @ [p]) then Some (int (indeg pl (set (D @ [p])) v)) else None)" for v
    using kd(3)[of v] get[of v] split[of v] by auto
  have new: "set new = {v \<in> set cs. indeg pl (set (D @ [p])) v = 0}"
    using kd(4) get split kid by auto
  have Q: "set (p # Q) = {v \<in> nodes pl - set D. indeg pl (set D) v = 0}" "distinct (D @ p # Q)"
    "topo_ordered pl (D @ p # Q)"
    using inv by (auto simp: topo_inv_def)
  have zero: "v \<in> set cs \<longleftrightarrow> 0 < count_list cs v" for v
    by (metis count_list_0_iff gr0I less_numeral_extra(3))
  have disj: "set new \<inter> set (p # Q) = {}"
    using new Q(1) split zero by fastforce
  have Q': "set (Q @ new) = {v \<in> nodes pl - set (D @ [p]). indeg pl (set (D @ [p])) v = 0}"
  proof (rule set_eqI)
    fix v
    have "v \<in> set Q \<longleftrightarrow> v \<in> nodes pl - set (D @ [p]) \<and> indeg pl (set D) v = 0"
      using Q(1,2) by (auto simp: set_eq_iff)
    then show "v \<in> set (Q @ new) \<longleftrightarrow>
        v \<in> {v \<in> nodes pl - set (D @ [p]). indeg pl (set (D @ [p])) v = 0}"
      using new kid[of v] split[of v] zero[of v] by auto
  qed
  have "topo_ordered pl ((D @ p # Q) @ new)"
    by (rule topo_ordered_append[OF Q(3)]) (use new in \<open>auto simp: indeg_0_iff\<close>)
  moreover have "distinct ((D @ [p]) @ Q @ new)"
    using Q(2) kd(5) disj new kid by auto
  ultimately have "topo_inv pl (D @ [p]) (Q @ new) np' (d_del p ch)"
    using inv kd(2) get' Q' by (auto simp: topo_inv_def dict_simps)
  with kd(1) show ?thesis by blast
qed

lemma topo_inv_step_no_kids:
  assumes inv: "topo_inv pl D (p # Q) np ch" and "kids pl p = []"
  shows "topo_inv pl (D @ [p]) Q (d_del p np) ch"
proof -
  have p: "p \<notin> set D" using inv by (auto simp: topo_inv_def)
  have "indeg pl (set D) v = indeg pl (insert p (set D)) v" for v
    using indeg_insert[OF p, of pl v] assms(2) by simp
  then show ?thesis
    using inv by (auto simp: topo_inv_def dict_simps set_eq_iff)
qed

lemma topsort_loop_spec:
  "topo_inv pl D Q np ch \<Longrightarrow>
   \<exists>D' np' ch'. topsort_loop D Q np ch = Inr (D', np', ch') \<and> topo_inv pl D' [] np' ch'"
proof (induction D Q np ch rule: topsort_loop.induct)
  case (1 D np ch)
  then show ?case by simp
next
  case (2 D p Q np ch)
  have got: "d_get np p \<noteq> None" and ch: "d_get ch p = (if kids pl p = [] then None else Some (kids pl p))"
    using "2.prems" by (auto simp: topo_inv_def)
  show ?case
  proof (cases "kids pl p = []")
    case True
    then have "d_get ch p = None" using ch by simp
    with got "2.IH"(1)[OF got] topo_inv_step_no_kids[OF "2.prems" True] show ?thesis by simp
  next
    case False
    then have c: "d_get ch p = Some (kids pl p)" using ch by simp
    obtain np' new where kd: "knock_down (kids pl p) (d_del p np) [] = Some (np', new)"
      and inv': "topo_inv pl (D @ [p]) (Q @ new) np' (d_del p ch)"
      using topo_inv_step[OF "2.prems"] by blast
    from "2.IH"(2)[OF got c kd refl inv'] got c kd show ?thesis by simp
  qed
qed

lemma topo_inv_init:
  assumes "key_order ord" "count_pairs pl = (np, ch)"
  shows "topo_inv pl [] (filter (\<lambda>x. d_get np x = Some 0) (ord (d_keys np))) np ch"
proof -
  have c: "counted pl (np, ch)" using count_pairs_counted[of pl] assms(2) by simp
  let ?Q = "filter (\<lambda>x. d_get np x = Some 0) (ord (d_keys np))"
  have Q: "set ?Q = {v \<in> nodes pl. indeg pl {} v = 0}"
    using c assms(1) by (auto simp: key_order_set d_keys_iff counted_def split: if_splits)
  have "distinct ?Q"
    using c assms(1) by (simp add: key_order_distinct counted_def d_ok_distinct_keys)
  moreover have "topo_ordered pl ([] @ ?Q)"
    by (rule topo_ordered_append) (use Q in \<open>auto simp: indeg_0_iff\<close>)
  ultimately show ?thesis
    using Q c by (simp add: topo_inv_def counted_def)
qed

section \<open>The two outcomes of topsort\<close>

lemma topo_inv_end:
  assumes "topo_inv pl D [] np ch"
  shows "np = [] \<longleftrightarrow> acyclic (set pl)" "np = [] \<Longrightarrow> set D = nodes pl"
proof -
  have "v \<in> set (d_keys np) \<longleftrightarrow> v \<in> nodes pl - set D" for v
    using assms by (simp add: topo_inv_def d_keys_iff)
  then have keys: "set (d_keys np) = nodes pl - set D" by blast
  show sub: "set D = nodes pl" if "np = []"
    using keys assms that by (auto simp: d_keys_def topo_inv_def)
  show "np = [] \<longleftrightarrow> acyclic (set pl)"
  proof
    assume "np = []"
    then show "acyclic (set pl)"
      using sub assms by (intro topo_ordered_acyclic[of pl D]) (auto simp: topo_inv_def)
  next
    assume ac: "acyclic (set pl)"
    show "np = []"
    proof (rule ccontr)
      assume "np \<noteq> []"
      then have "nodes pl - set D \<noteq> {}" using keys by (metis d_keys_Nil_iff set_empty)
      from acyclic_source[OF ac this] obtain v where v: "v \<in> nodes pl - set D"
        "\<forall>a. (a, v) \<in> set pl \<longrightarrow> a \<notin> nodes pl - set D" by blast
      then have "\<forall>a. (a, v) \<in> set pl \<longrightarrow> a \<in> set D" by (force simp: nodes_def)
      then have "indeg pl (set D) v = 0" by (simp add: indeg_0_iff)
      then show False using v(1) assms by (auto simp: topo_inv_def)
    qed
  qed
qed

lemma topsort_cases:
  assumes "key_order ord"
  obtains (sorted) ans where "topsort ord pl = Inr ans" "acyclic (set pl)" "set ans = nodes pl"
      "distinct ans" "topo_ordered pl ans"
    | (cycle) ans np ch where "topsort ord pl = Inl (CycleError ans np ch)" "\<not> acyclic (set pl)"
proof -
  obtain np ch where cp: "count_pairs pl = (np, ch)" by (cases "count_pairs pl")
  from topsort_loop_spec[OF topo_inv_init[OF assms cp]] obtain D np' ch' where
    r: "topsort_loop [] (filter (\<lambda>x. d_get np x = Some 0) (ord (d_keys np))) np ch = Inr (D, np', ch')"
    and inv: "topo_inv pl D [] np' ch'" by blast
  show thesis
  proof (cases "np' = []")
    case True
    then show thesis
      using sorted[of D] r cp inv topo_inv_end[OF inv] by (simp add: topsort_def topo_inv_def)
  next
    case False
    then show thesis
      using cycle[of D np' ch'] r cp topo_inv_end[OF inv] by (simp add: topsort_def)
  qed
qed

end
