(* ===== verification/TopsortLevels.thy ===== *)
theory TopsortLevels
  imports TopsortProofs
begin

text \<open>
  Correctness of \<open>topsort_levels\<close>: the yielded lists are the layers of the graph (a node
  stands in the first level that comes after all its parents), and the generator ends with
  \<open>CycleError\<close> exactly where the graph has a cycle.
\<close>

section \<open>One level\<close>

definition lev_inv :: "('a \<times> 'a) list \<Rightarrow> 'a set \<Rightarrow> 'a parents \<Rightarrow> 'a child_map \<Rightarrow> bool" where
  "lev_inv pl D np ch \<longleftrightarrow> d_ok np
     \<and> (\<forall>v. d_get np v = (if v \<in> nodes pl - D then Some (int (indeg pl D v)) else None))
     \<and> (\<forall>p. p \<notin> D \<longrightarrow> d_get ch p = (if kids pl p = [] then None else Some (kids pl p)))
     \<and> (\<forall>a v. (a, v) \<in> set pl \<longrightarrow> v \<in> D \<longrightarrow> a \<in> D)"

lemma knock_level_spec:
  assumes "\<And>v. v \<in> set cs \<Longrightarrow> d_get np v \<noteq> None" "d_ok np"
  shows "\<exists>np'. knock_level cs np = Some np' \<and> d_ok np'
     \<and> (\<forall>v. d_get np' v = map_option (\<lambda>n. n - int (count_list cs v)) (d_get np v))"
  using assms
proof (induction cs arbitrary: np)
  case Nil
  then show ?case by (auto simp: option.map_ident)
next
  case (Cons c cs)
  from Cons.prems(1)[of c] obtain n where n: "d_get np c = Some n" by auto
  have "\<And>v. v \<in> set cs \<Longrightarrow> d_get (d_set c (n - 1) np) v \<noteq> None"
    using Cons.prems(1) by (simp add: dict_simps)
  from Cons.IH[OF this] obtain np' where ih: "knock_level cs (d_set c (n - 1) np) = Some np'" "d_ok np'"
    "\<And>v. d_get np' v = map_option (\<lambda>n. n - int (count_list cs v)) (d_get (d_set c (n - 1) np) v)"
    using Cons.prems(2) by auto
  have "d_get np' v = map_option (\<lambda>n. n - int (count_list (c # cs) v)) (d_get np v)" for v
    using ih(3)[of v] n by (auto simp: dict_simps)
  then show ?case using ih(1,2) n by simp
qed

lemma level_loop_spec:
  assumes "lev_inv pl D np ch" "distinct ps" "set ps \<subseteq> {v \<in> nodes pl - D. indeg pl D v = 0}"
  shows "\<exists>np' ch'. level_loop ps np ch = Some (np', ch') \<and> lev_inv pl (D \<union> set ps) np' ch'"
  using assms
proof (induction ps arbitrary: D np ch)
  case Nil
  then show ?case by simp
next
  case (Cons p ps)
  have p: "p \<notin> D" "p \<in> nodes pl" "indeg pl D p = 0" "d_get np p = Some 0"
    using Cons.prems by (auto simp: lev_inv_def)
  have closed: "\<And>a v. (a, v) \<in> set pl \<Longrightarrow> v \<in> D \<Longrightarrow> a \<in> D" and ok: "d_ok (d_del p np)"
    and kids: "d_get ch p = (if kids pl p = [] then None else Some (kids pl p))"
    using Cons.prems(1) p(1) by (auto simp: lev_inv_def)
  have kid: "c \<in> nodes pl - insert p D" if "c \<in> set (kids pl p)" for c
    using that p closed[of p c] by (auto simp: set_kids indeg_0_iff intro: kids_nodes[of _ pl p, unfolded set_kids])
  have split: "indeg pl D v = indeg pl (insert p D) v + count_list (kids pl p) v" for v
    by (rule indeg_insert[OF p(1)])
  have get: "d_get (d_del p np) v = (if v \<in> nodes pl - insert p D then Some (int (indeg pl D v)) else None)" for v
    using Cons.prems(1) by (simp add: lev_inv_def dict_simps)
  then have "d_get (d_del p np) v \<noteq> None" if "v \<in> set (kids pl p)" for v
    using kid[OF that] by simp
  from knock_level_spec[OF this ok] obtain np1 where kl: "knock_level (kids pl p) (d_del p np) = Some np1"
    "d_ok np1" "\<And>v. d_get np1 v = map_option (\<lambda>n. n - int (count_list (kids pl p) v)) (d_get (d_del p np) v)"
    by auto
  have get1: "d_get np1 v = (if v \<in> nodes pl - insert p D then Some (int (indeg pl (insert p D) v)) else None)" for v
    using kl(3)[of v] get[of v] split[of v] by simp
  let ?ch = "if kids pl p = [] then ch else d_del p ch"
  have inv1: "lev_inv pl (insert p D) np1 ?ch"
    using Cons.prems(1) kl(2) get1 p(3) closed by (auto simp: lev_inv_def dict_simps indeg_0_iff)
  have "set ps \<subseteq> {v \<in> nodes pl - insert p D. indeg pl (insert p D) v = 0}"
    using Cons.prems(2,3) split by auto
  from Cons.IH[OF inv1 _ this] Cons.prems(2) obtain np' ch' where
    "level_loop ps np1 ?ch = Some (np', ch')" "lev_inv pl (insert p D \<union> set ps) np' ch'"
    by auto
  moreover have "knock_level [] m = Some m" for m :: "'a parents" by simp
  ultimately show ?case
    using p(4) kids kl(1) by (cases "kids pl p = []") auto
qed

section \<open>The generator\<close>

fun layered :: "('a \<times> 'a) list \<Rightarrow> 'a set \<Rightarrow> 'a list list \<Rightarrow> bool" where
  "layered pl D [] = True"
| "layered pl D (l # ls) =
     (l \<noteq> [] \<and> distinct l \<and> set l = {v \<in> nodes pl - D. \<forall>a. (a, v) \<in> set pl \<longrightarrow> a \<in> D}
      \<and> layered pl (D \<union> set l) ls)"

lemma lev_inv_end:
  assumes "lev_inv pl D np ch" "{v \<in> nodes pl - D. indeg pl D v = 0} = {}"
  shows "np = [] \<longleftrightarrow> nodes pl \<subseteq> D" "np \<noteq> [] \<Longrightarrow> \<not> acyclic (set pl)"
proof -
  have "v \<in> set (d_keys np) \<longleftrightarrow> v \<in> nodes pl - D" for v
    using assms by (simp add: lev_inv_def d_keys_iff)
  then have keys: "set (d_keys np) = nodes pl - D" by blast
  then show "np = [] \<longleftrightarrow> nodes pl \<subseteq> D" by (metis Diff_eq_empty_iff d_keys_Nil_iff set_empty)
  assume "np \<noteq> []"
  then have ne: "nodes pl - D \<noteq> {}" using keys by (metis d_keys_Nil_iff set_empty)
  show "\<not> acyclic (set pl)"
  proof
    assume "acyclic (set pl)"
    from acyclic_source[OF this ne] obtain v where v: "v \<in> nodes pl - D"
      "\<forall>a. (a, v) \<in> set pl \<longrightarrow> a \<notin> nodes pl - D" by blast
    then have "indeg pl D v = 0" by (force simp: indeg_0_iff nodes_def)
    with v assms(2) show False by blast
  qed
qed

lemma levels_core_spec:
  assumes "key_order ord" "lev_inv pl D np ch"
  shows "\<exists>ls e. topsort_levels_core ord np ch = (ls, e) \<and> layered pl D ls
    \<and> (e = Exhausted \<and> nodes pl \<subseteq> D \<union> \<Union> (set ` set ls) \<or> (\<exists>np' ch'. e = LevelCycle np' ch') \<and> \<not> acyclic (set pl))"
  using assms
proof (induction ord np ch arbitrary: D rule: topsort_levels_core.induct)
  case (1 ord np ch)
  let ?lp = "filter (\<lambda>x. d_get np x = Some 0) (ord (d_keys np))"
  have lp: "set ?lp = {v \<in> nodes pl - D. indeg pl D v = 0}"
    using "1.prems" by (auto simp: lev_inv_def key_order_set d_keys_iff split: if_splits)
  have dist: "distinct ?lp"
    using "1.prems" by (simp add: lev_inv_def key_order_distinct d_ok_distinct_keys)
  show ?case
  proof (cases "?lp = []")
    case True
    then have "{v \<in> nodes pl - D. indeg pl D v = 0} = {}" using lp by simp
    from lev_inv_end[OF "1.prems"(2) this] show ?thesis
      unfolding topsort_levels_core.simps[of ord np ch] Let_def if_P[OF True]
      by (cases "np = []") simp_all
  next
    case False
    from level_loop_spec[OF "1.prems"(2) dist] lp obtain np' ch' where
      ll: "level_loop ?lp np ch = Some (np', ch')" and inv: "lev_inv pl (D \<union> set ?lp) np' ch'" by blast
    from "1.IH"[OF refl False ll refl "1.prems"(1) inv] obtain ls e where
      ih: "topsort_levels_core ord np' ch' = (ls, e)" "layered pl (D \<union> set ?lp) ls"
      "e = Exhausted \<and> nodes pl \<subseteq> (D \<union> set ?lp) \<union> \<Union> (set ` set ls)
        \<or> (\<exists>np' ch'. e = LevelCycle np' ch') \<and> \<not> acyclic (set pl)" by blast
    have "topsort_levels_core ord np ch = (?lp # ls, e)"
      using False ll ih(1) by (subst topsort_levels_core.simps) (simp add: Let_def)
    moreover have "layered pl D (?lp # ls)"
      using False dist lp ih(2) by (simp add: indeg_0_iff)
    ultimately show ?thesis using ih(3) by auto
  qed
qed

lemma topsort_levels_spec:
  assumes "key_order ord"
  obtains ls e where "topsort_levels ord pl = (ls, e)" "layered pl {} ls"
    "e = Exhausted \<and> nodes pl \<subseteq> \<Union> (set ` set ls) \<or> (\<exists>np ch. e = LevelCycle np ch) \<and> \<not> acyclic (set pl)"
proof -
  obtain np ch where cp: "count_pairs pl = (np, ch)" by (cases "count_pairs pl")
  have "lev_inv pl {} np ch"
    using count_pairs_counted[of pl] cp by (simp add: counted_def lev_inv_def)
  from levels_core_spec[OF assms this] that show thesis
    by (auto simp: topsort_levels_def cp)
qed

section \<open>What a layering says\<close>

lemma layered_ConsE:
  assumes "layered pl D (l # ls)"
  obtains "l \<noteq> []" "distinct l" "set l \<subseteq> nodes pl - D" "\<And>a v. v \<in> set l \<Longrightarrow> (a, v) \<in> set pl \<Longrightarrow> a \<in> D"
    "set l = {v \<in> nodes pl - D. \<forall>a. (a, v) \<in> set pl \<longrightarrow> a \<in> D}" "layered pl (D \<union> set l) ls"
  using assms unfolding layered.simps by (elim conjE) (rule that, blast+)

lemma layered_nth:
  "layered pl D ls \<Longrightarrow> i < length ls \<Longrightarrow>
   distinct (ls ! i) \<and> set (ls ! i) = {v \<in> nodes pl - (D \<union> \<Union> (set ` set (take i ls))).
     \<forall>a. (a, v) \<in> set pl \<longrightarrow> a \<in> D \<union> \<Union> (set ` set (take i ls))}"
proof (induction ls arbitrary: D i)
  case (Cons l ls)
  from Cons.prems(1) show ?case
  proof (rule layered_ConsE)
    assume l: "distinct l" "set l = {v \<in> nodes pl - D. \<forall>a. (a, v) \<in> set pl \<longrightarrow> a \<in> D}"
      and rest: "layered pl (D \<union> set l) ls"
    show ?case
    proof (cases i)
      case 0
      with l show ?thesis by simp
    next
      case (Suc k)
      have "D \<union> set l \<union> \<Union> (set ` set (take k ls)) = D \<union> \<Union> (set ` set (take i (l # ls)))"
        using Suc by auto
      with Cons.IH[OF rest, of k] Cons.prems(2) Suc show ?thesis by simp
    qed
  qed
qed simp

lemma layered_topo_ordered:
  "layered pl D ls \<Longrightarrow> topo_ordered pl xs \<Longrightarrow> set xs = D \<Longrightarrow> topo_ordered pl (xs @ concat ls)"
proof (induction ls arbitrary: D xs)
  case (Cons l ls)
  from Cons.prems(1) show ?case
  proof (rule layered_ConsE)
    assume l: "\<And>a v. v \<in> set l \<Longrightarrow> (a, v) \<in> set pl \<Longrightarrow> a \<in> D"
      and rest: "layered pl (D \<union> set l) ls"
    have "topo_ordered pl (xs @ l)"
      using Cons.prems(2,3) l by (intro topo_ordered_append) auto
    from Cons.IH[OF rest this] Cons.prems(3) show ?case by simp
  qed
qed simp

lemma layered_distinct:
  "layered pl D ls \<Longrightarrow> distinct (concat ls) \<and> set (concat ls) \<inter> D = {} \<and> set (concat ls) \<subseteq> nodes pl"
proof (induction ls arbitrary: D)
  case (Cons l ls)
  from Cons.prems show ?case
  proof (rule layered_ConsE)
    assume "distinct l" "set l \<subseteq> nodes pl - D" "layered pl (D \<union> set l) ls"
    with Cons.IH[of "D \<union> set l"] show ?case
      by (simp only: concat.simps distinct_append set_append) blast
  qed
qed simp

lemma layered_parents:
  assumes "layered pl {} ls" "i < length ls" "v \<in> set (ls ! i)"
  shows "\<And>a. (a, v) \<in> set pl \<Longrightarrow> \<exists>j < i. a \<in> set (ls ! j)"
    and "0 < i \<Longrightarrow> \<exists>a. (a, v) \<in> set pl \<and> a \<in> set (ls ! (i - 1))"
proof -
  have in_take: "a \<in> \<Union> (set ` set (take k ls)) \<longleftrightarrow> (\<exists>j < k. a \<in> set (ls ! j))" if "k \<le> length ls" for a k
  proof
    assume "a \<in> \<Union> (set ` set (take k ls))"
    then obtain l where "l \<in> set (take k ls)" "a \<in> set l" by blast
    then obtain j where "j < length (take k ls)" "take k ls ! j = l" by (metis in_set_conv_nth)
    with \<open>a \<in> set l\<close> show "\<exists>j < k. a \<in> set (ls ! j)" by (intro exI[of _ j]) simp
  next
    assume "\<exists>j < k. a \<in> set (ls ! j)"
    then obtain j where j: "j < k" "a \<in> set (ls ! j)" by blast
    then have "ls ! j \<in> set (take k ls)" using that by (auto simp: in_set_conv_nth intro!: exI[of _ j])
    with j(2) show "a \<in> \<Union> (set ` set (take k ls))" by blast
  qed
  have v: "v \<in> nodes pl" "v \<notin> \<Union> (set ` set (take i ls))"
    "\<And>a. (a, v) \<in> set pl \<Longrightarrow> a \<in> \<Union> (set ` set (take i ls))"
    using layered_nth[OF assms(1,2)] assms(3) by auto
  show "\<And>a. (a, v) \<in> set pl \<Longrightarrow> \<exists>j < i. a \<in> set (ls ! j)"
    using v(3) in_take[of i] assms(2) by auto
  assume i: "0 < i"
  show "\<exists>a. (a, v) \<in> set pl \<and> a \<in> set (ls ! (i - 1))"
  proof (rule ccontr)
    assume neg: "\<not> ?thesis"
    have "a \<in> \<Union> (set ` set (take (i - 1) ls))" if e: "(a, v) \<in> set pl" for a
    proof -
      from v(3)[OF e] in_take[of i a] assms(2) obtain j where j: "j < i" "a \<in> set (ls ! j)" by auto
      then have "j \<noteq> i - 1" using neg e by auto
      then have "j < i - 1" using j(1) by linarith
      then show ?thesis using j(2) in_take[of "i - 1" a] assms(2) by auto
    qed
    moreover have "v \<notin> \<Union> (set ` set (take (i - 1) ls))"
      using v(2) in_take[of i v] in_take[of "i - 1" v] assms(2) by auto
    ultimately have "v \<in> set (ls ! (i - 1))"
      using layered_nth[OF assms(1), of "i - 1"] v(1) assms(2) i by auto
    then show False using v(2) in_take[of i v] assms(2) i by (metis diff_less less_imp_le_nat zero_less_one)
  qed
qed

end
