(* ===== verification/FindCycles.thy ===== *)
theory FindCycles
  imports TopsortProofs
begin

text \<open>
  Correctness of \<open>find_cycles\<close>: it returns (no exception), every yielded list is an
  elementary cycle of the graph, no two are rotations of each other, and every elementary cycle
  is yielded up to rotation.
\<close>

section \<open>Edges, walks and cycles of a dictionary of children\<close>

definition edge :: "('a, 'a list) dict \<Rightarrow> 'a \<Rightarrow> 'a \<Rightarrow> bool" where
  "edge pc a b \<longleftrightarrow> (\<exists>cs. d_get pc a = Some cs \<and> b \<in> set cs)"

definition simple_path :: "('a, 'a list) dict \<Rightarrow> 'a list \<Rightarrow> bool" where
  "simple_path pc xs \<longleftrightarrow> xs \<noteq> [] \<and> distinct xs \<and> successively (edge pc) xs"

definition is_cycle :: "('a, 'a list) dict \<Rightarrow> 'a list \<Rightarrow> bool" where
  "is_cycle pc c \<longleftrightarrow> simple_path pc c \<and> edge pc (last c) (hd c)"

definition rotations :: "'a list \<Rightarrow> 'a list \<Rightarrow> bool" where
  "rotations xs ys \<longleftrightarrow> (\<exists>n. rotate n xs = ys)"

definition found :: "'a list list \<Rightarrow> 'a list \<Rightarrow> bool" where
  "found cycles c \<longleftrightarrow> (\<exists>c' \<in> set cycles. rotations c' c)"

lemma rotations_refl [simp]: "rotations xs xs"
  unfolding rotations_def by (rule exI[of _ 0]) simp

lemma rotations_sym: "rotations xs ys \<Longrightarrow> rotations ys xs"
proof -
  assume "rotations xs ys"
  then obtain n where n: "rotate n xs = ys" by (auto simp: rotations_def)
  show "rotations ys xs"
  proof (cases "xs = []")
    case True
    with n show ?thesis by simp
  next
    case False
    let ?m = "length xs - n mod length xs"
    have "rotate ?m ys = rotate (?m + n) xs" using n by (metis rotate_rotate)
    also have "\<dots> = rotate ((?m + n mod length xs) mod length xs) xs"
      by (metis mod_add_right_eq rotate_conv_mod)
    also have "\<dots> = xs" using False by simp
    finally show ?thesis by (auto simp: rotations_def)
  qed
qed

lemma rotations_trans: "rotations xs ys \<Longrightarrow> rotations ys zs \<Longrightarrow> rotations xs zs"
  by (auto simp: rotations_def rotate_rotate)

lemma is_rotated_rotations: "ys \<noteq> [] \<Longrightarrow> is_rotated xs ys = Inr (rotations xs ys)"
  by (simp add: is_rotated_correct rotations_def)

lemma dup_cycle_found: "c \<noteq> [] \<Longrightarrow> dup_cycle cycles c = Inr (found cycles c)"
  by (induction cycles) (auto simp: found_def is_rotated_rotations)

section \<open>The part of a path from a node on\<close>

lemma path_from_split: "x \<in> set path \<Longrightarrow> \<exists>pre. path = pre @ path_from x path \<and> path_from x path \<noteq> [] \<and> hd (path_from x path) = x"
proof -
  assume x: "x \<in> set path"
  have "path = takeWhile (\<lambda>y. y \<noteq> x) path @ path_from x path" by (simp add: path_from_def)
  moreover have "path_from x path \<noteq> []" using x by (auto simp: path_from_def dropWhile_eq_Nil_conv)
  moreover have "hd (path_from x path) = x"
    using hd_dropWhile[of "\<lambda>y. y \<noteq> x" path] \<open>path_from x path \<noteq> []\<close> by (simp add: path_from_def)
  ultimately show ?thesis by blast
qed

lemma path_from_append: "x \<notin> set pre \<Longrightarrow> path_from x (pre @ x # ys) = x # ys"
  unfolding path_from_def by (induction pre) auto

lemma path_from_is_cycle:
  assumes "simple_path pc path" "edge pc (last path) x" "x \<in> set path"
  shows "is_cycle pc (path_from x path)"
proof -
  obtain pre where p: "path = pre @ path_from x path" "path_from x path \<noteq> []" "hd (path_from x path) = x"
    using path_from_split[OF assms(3)] by blast
  have "simple_path pc (path_from x path)"
    using assms(1) p(1,2) unfolding simple_path_def
    by (metis distinct_append successively_append_iff)
  moreover have "last (path_from x path) = last path" using p by (metis last_append)
  ultimately show ?thesis using assms(2) p(3) by (simp add: is_cycle_def)
qed

lemma simple_path_snoc:
  "simple_path pc path \<Longrightarrow> edge pc (last path) c \<Longrightarrow> c \<notin> set path \<Longrightarrow> simple_path pc (path @ [c])"
  by (simp add: simple_path_def successively_append_iff)

section \<open>Visiting the children of the end of a path\<close>

definition good :: "('a, 'a list) dict \<Rightarrow> 'a list list \<Rightarrow> bool" where
  "good pc cycles \<longleftrightarrow> (\<forall>c \<in> set cycles. is_cycle pc c) \<and> sorted_wrt (\<lambda>a b. \<not> rotations a b) cycles"

lemma good_snoc: "good pc cycles \<Longrightarrow> is_cycle pc c \<Longrightarrow> \<not> found cycles c \<Longrightarrow> good pc (cycles @ [c])"
  by (auto simp: good_def sorted_wrt_append found_def)

lemma found_mono: "found cycles c \<Longrightarrow> found (cycles @ more) c"
  by (auto simp: found_def)

lemma visit_children_spec:
  assumes "good pc cycles" "simple_path pc path" "\<And>c. c \<in> set cs \<Longrightarrow> edge pc (last path) c"
  shows "\<exists>cycles' visited'. visit_children cs path paths cycles visited
      = Inr (rev (map (\<lambda>c. path @ [c]) (filter (\<lambda>c. c \<notin> set path) cs)) @ paths, cycles', visited')
    \<and> good pc cycles' \<and> (\<forall>c. found cycles c \<longrightarrow> found cycles' c)
    \<and> (\<forall>c \<in> set cs. c \<in> set path \<longrightarrow> found cycles' (path_from c path))
    \<and> set visited' = set visited \<union> (set cs - set path)"
  using assms
proof (induction cs arbitrary: paths cycles visited)
  case Nil
  then show ?case by simp
next
  case (Cons c cs)
  show ?case
  proof (cases "c \<in> set path")
    case True
    have cyc: "is_cycle pc (path_from c path)"
      using Cons.prems True by (intro path_from_is_cycle) auto
    then have ne: "path_from c path \<noteq> []" by (simp add: is_cycle_def simple_path_def)
    let ?c = "if found cycles (path_from c path) then cycles else cycles @ [path_from c path]"
    have good: "good pc ?c" using Cons.prems(1) cyc good_snoc by auto
    have here: "found ?c (path_from c path)" by (auto simp: found_def)
    have mono: "found cycles d \<Longrightarrow> found ?c d" for d by (simp add: found_mono)
    from Cons.IH[OF good Cons.prems(2), of paths visited] Cons.prems(3) obtain cycles' visited' where
      ih: "visit_children cs path paths ?c visited
        = Inr (rev (map (\<lambda>c. path @ [c]) (filter (\<lambda>c. c \<notin> set path) cs)) @ paths, cycles', visited')"
      "good pc cycles'" "\<And>d. found ?c d \<Longrightarrow> found cycles' d"
      "\<forall>c \<in> set cs. c \<in> set path \<longrightarrow> found cycles' (path_from c path)"
      "set visited' = set visited \<union> (set cs - set path)" by auto
    have "visit_children (c # cs) path paths cycles visited = visit_children cs path paths ?c visited"
      using True dup_cycle_found[OF ne, of cycles] by simp
    with ih here mono True show ?thesis by auto
  next
    case False
    from Cons.IH[OF Cons.prems(1,2), of "(path @ [c]) # paths" "c # visited"] Cons.prems(3)
    show ?thesis using False by auto
  qed
qed

section \<open>The search from the paths on the stack\<close>

definition closes :: "('a, 'a list) dict \<Rightarrow> 'a list \<Rightarrow> 'a \<Rightarrow> bool" where
  "closes pc xs x \<longleftrightarrow> simple_path pc xs \<and> edge pc (last xs) x \<and> x \<in> set xs"

definition covers :: "('a, 'a list) dict \<Rightarrow> 'a list \<Rightarrow> 'a list list \<Rightarrow> bool" where
  "covers pc path cycles \<longleftrightarrow> (\<forall>q x. closes pc (path @ q) x \<longrightarrow> found cycles (path_from x (path @ q)))"

lemma covers_step:
  assumes "d_get pc (last path) = Some cs" "path \<noteq> []"
    and "\<forall>c \<in> set cs. c \<in> set path \<longrightarrow> found cycles (path_from c path)"
    and "\<forall>c \<in> set cs. c \<notin> set path \<longrightarrow> covers pc (path @ [c]) cycles"
  shows "covers pc path cycles"
  unfolding covers_def
proof (intro allI impI)
  fix q x
  assume cl: "closes pc (path @ q) x"
  show "found cycles (path_from x (path @ q))"
  proof (cases q)
    case Nil
    with cl assms(1,3) show ?thesis by (auto simp: closes_def edge_def)
  next
    case (Cons c q')
    have "edge pc (last path) c" "c \<notin> set path"
      using cl assms(2) Cons by (auto simp: closes_def simple_path_def successively_append_iff)
    then have "covers pc (path @ [c]) cycles" using assms(1,4) by (auto simp: edge_def)
    then show ?thesis using cl Cons by (auto simp: covers_def)
  qed
qed

lemma covers_no_key: "d_get pc (last path) = None \<Longrightarrow> path \<noteq> [] \<Longrightarrow> covers pc path cycles"
  unfolding covers_def closes_def simple_path_def
proof (intro allI impI)
  fix q x
  assume a: "d_get pc (last path) = None" "path \<noteq> []"
    and b: "(path @ q \<noteq> [] \<and> distinct (path @ q) \<and> successively (edge pc) (path @ q))
      \<and> edge pc (last (path @ q)) x \<and> x \<in> set (path @ q)"
  then have False
    by (cases q) (auto simp: edge_def successively_append_iff)
  then show "found cycles (path_from x (path @ q))" ..
qed

definition reach :: "('a, 'a list) dict \<Rightarrow> 'a \<Rightarrow> 'a \<Rightarrow> bool" where
  "reach pc = (edge pc)\<^sup>*\<^sup>*"

lemma search_paths_spec:
  assumes "good pc cycles" "\<forall>p \<in> set paths. simple_path pc p"
  shows "\<exists>cycles' visited'. search_paths pc paths cycles visited = Inr (cycles', visited')
    \<and> good pc cycles' \<and> (\<forall>c. found cycles c \<longrightarrow> found cycles' c)
    \<and> (\<forall>p \<in> set paths. covers pc p cycles')
    \<and> (\<forall>v \<in> set visited'. v \<in> set visited \<or> (\<exists>p \<in> set paths. reach pc (last p) v))"
  using assms
proof (induction pc paths cycles visited rule: search_paths.induct)
  case (1 pc cycles visited)
  then show ?case by simp
next
  case (2 pc path paths cycles visited)
  have sp: "simple_path pc path" and ne: "path \<noteq> []" and rest: "\<forall>p \<in> set paths. simple_path pc p"
    using "2.prems" by (auto simp: simple_path_def)
  show ?case
  proof (cases "d_get pc (last path)")
    case None
    from "2.IH"(1)[OF ne None "2.prems"(1) rest] show ?thesis
      using None ne covers_no_key[OF None ne] by auto
  next
    case (Some cs)
    have edges: "\<And>c. c \<in> set cs \<Longrightarrow> edge pc (last path) c" using Some by (auto simp: edge_def)
    let ?new = "rev (map (\<lambda>c. path @ [c]) (filter (\<lambda>c. c \<notin> set path) cs))"
    from visit_children_spec[OF "2.prems"(1) sp edges, where cs = cs, of paths visited]
    obtain cycles1 visited1 where v:
      "visit_children cs path paths cycles visited = Inr (?new @ paths, cycles1, visited1)"
      "good pc cycles1" "\<And>c. found cycles c \<Longrightarrow> found cycles1 c"
      "\<forall>c \<in> set cs. c \<in> set path \<longrightarrow> found cycles1 (path_from c path)"
      "set visited1 = set visited \<union> (set cs - set path)" by blast
    have "\<forall>p \<in> set (?new @ paths). simple_path pc p"
      using rest sp edges by (auto intro: simple_path_snoc)
    from "2.IH"(2)[OF ne Some v(1) refl refl v(2) this] obtain cycles' visited' where
      ih: "search_paths pc (?new @ paths) cycles1 visited1 = Inr (cycles', visited')" "good pc cycles'"
      "\<And>c. found cycles1 c \<Longrightarrow> found cycles' c" "\<forall>p \<in> set (?new @ paths). covers pc p cycles'"
      "\<forall>v \<in> set visited'. v \<in> set visited1 \<or> (\<exists>p \<in> set (?new @ paths). reach pc (last p) v)" by blast
    have "covers pc path cycles'"
      using ih(3,4) v(4) by (intro covers_step[OF Some ne]) auto
    moreover have "v \<in> set visited \<or> reach pc (last path) v \<or> (\<exists>p \<in> set paths. reach pc (last p) v)"
      if "v \<in> set visited'" for v
    proof -
      have step: "reach pc c v \<Longrightarrow> c \<in> set cs \<Longrightarrow> reach pc (last path) v" for c
        using edges unfolding reach_def by (blast intro: converse_rtranclp_into_rtranclp)
      have here: "c \<in> set cs \<Longrightarrow> reach pc (last path) c" for c
        using edges unfolding reach_def by blast
      from ih(5) that consider "v \<in> set visited1" | p where "p \<in> set ?new" "reach pc (last p) v"
        | p where "p \<in> set paths" "reach pc (last p) v" unfolding set_append by blast
      then show ?thesis
      proof cases
        case 1
        with v(5) here show ?thesis by blast
      next
        case 2
        then obtain c where "c \<in> set cs" "p = path @ [c]" by auto
        with 2 step show ?thesis by auto
      qed blast
    qed
    ultimately show ?thesis using ih v(1,3) Some ne by auto
  qed
qed

section \<open>Reaching a cycle by a path that closes it\<close>

lemma is_cycle_rotate: "is_cycle pc c \<Longrightarrow> is_cycle pc (rotate1 c)"
proof (cases c)
  case (Cons x xs)
  assume "is_cycle pc c"
  with Cons show ?thesis
    by (cases "xs = []")
      (auto simp: is_cycle_def simple_path_def successively_append_iff successively_Cons)
qed (auto simp: is_cycle_def simple_path_def)

lemma is_cycle_rotate_n: "is_cycle pc c \<Longrightarrow> is_cycle pc (rotate n c)"
  by (induction n) (auto intro: is_cycle_rotate)

lemma rotate_to_head: "x \<in> set c \<Longrightarrow> \<exists>n. hd (rotate n c) = x"
  by (metis hd_rotate_conv_nth in_set_conv_nth length_pos_if_in_set less_numeral_extra(3) list.size(3) mod_less)

lemma reach_simple_path: "reach pc s v \<Longrightarrow> \<exists>p. simple_path pc p \<and> hd p = s \<and> last p = v"
  unfolding reach_def
proof (induction rule: rtranclp_induct)
  case base
  show ?case by (rule exI[of _ "[s]"]) (simp add: simple_path_def)
next
  case (step y z)
  then obtain p where p: "simple_path pc p" "hd p = s" "last p = y" by blast
  show ?case
  proof (cases "z \<in> set p")
    case True
    then obtain us vs where p': "p = us @ z # vs" by (metis split_list)
    then have "simple_path pc (us @ [z])"
      using p(1) by (auto simp: simple_path_def successively_append_iff)
    moreover have "hd (us @ [z]) = s" using p(2) p' by (cases us) auto
    ultimately show ?thesis by (intro exI[of _ "us @ [z]"]) simp
  next
    case False
    have "hd (p @ [z]) = s" using p by (auto simp: simple_path_def)
    then show ?thesis
      using simple_path_snoc[OF p(1) _ False] step(2) p(3) by (intro exI[of _ "p @ [z]"]) simp
  qed
qed

text \<open>Cut the path at its first node on the cycle, then follow the cycle round.\<close>

lemma reach_closes_cycle:
  assumes c: "is_cycle pc c" and r: "reach pc s v" "v \<in> set c"
  shows "\<exists>q x. closes pc ([s] @ q) x \<and> rotations (path_from x ([s] @ q)) c"
proof -
  obtain p where p: "simple_path pc p" "hd p = s" "last p = v" using reach_simple_path[OF r(1)] by blast
  then have "v \<in> set p" by (metis last_in_set simple_path_def)
  with r(2) have "\<exists>x \<in> set p. x \<in> set c" by blast
  from split_list_first_prop[OF this] obtain us x vs where
    p': "p = us @ x # vs" "x \<in> set c" "\<forall>y \<in> set us. y \<notin> set c" by blast
  obtain n where n: "hd (rotate n c) = x" using rotate_to_head[OF p'(2)] by blast
  let ?c = "rotate n c"
  have cyc: "is_cycle pc ?c" using c by (rule is_cycle_rotate_n)
  then obtain ys where ys: "?c = x # ys" using n by (cases ?c) (auto simp: is_cycle_def simple_path_def)
  let ?w = "us @ x # ys"
  have setc: "set ?c = set c" by simp
  have "simple_path pc (us @ [x])" using p(1) p'(1) by (auto simp: simple_path_def successively_append_iff)
  then have sp: "simple_path pc ?w"
    using cyc ys p'(3) setc
    by (auto simp: simple_path_def successively_append_iff is_cycle_def)
  have "last ?w = last ?c" using ys by simp
  then have cl: "closes pc ?w x" using sp cyc ys by (simp add: closes_def is_cycle_def)
  have "x \<notin> set us" using p'(2,3) by blast
  then have pf: "path_from x ?w = ?c" using ys by (simp add: path_from_append)
  have "hd ?w = s" using p(2) p'(1) by (cases us) auto
  then obtain q where "?w = [s] @ q" by (cases ?w) auto
  then show ?thesis using cl pf rotations_sym[of c ?c]
    by (intro exI[of _ q] exI[of _ x]) (auto simp: rotations_def)
qed

lemma covers_reach:
  assumes "covers pc [s] cycles" "is_cycle pc c" "reach pc s v" "v \<in> set c"
  shows "found cycles c"
proof -
  obtain q x where "closes pc ([s] @ q) x" "rotations (path_from x ([s] @ q)) c"
    using reach_closes_cycle[OF assms(2,3,4)] by blast
  then show ?thesis using assms(1) rotations_trans by (fastforce simp: covers_def found_def)
qed

section \<open>The outer loop\<close>

definition done_from :: "('a, 'a list) dict \<Rightarrow> 'a list list \<Rightarrow> 'a \<Rightarrow> bool" where
  "done_from pc cycles s \<longleftrightarrow> (\<forall>c v. is_cycle pc c \<longrightarrow> reach pc s v \<longrightarrow> v \<in> set c \<longrightarrow> found cycles c)"

lemma find_cycles_from_spec:
  assumes "good pc cycles" "\<forall>s \<in> set visited. done_from pc cycles s"
  shows "\<exists>cycles'. find_cycles_from pc ps cycles visited = Inr cycles' \<and> good pc cycles'
    \<and> (\<forall>c. found cycles c \<longrightarrow> found cycles' c) \<and> (\<forall>s \<in> set ps. done_from pc cycles' s)"
  using assms
proof (induction pc ps cycles visited rule: find_cycles_from.induct)
  case (1 pc cycles visited)
  then show ?case by simp
next
  case (2 pc s ps cycles visited)
  show ?case
  proof (cases "s \<in> set visited")
    case True
    from "2.IH"(1)[OF True "2.prems"] obtain cycles' where
      ih: "find_cycles_from pc ps cycles visited = Inr cycles'" "good pc cycles'"
      "\<And>c. found cycles c \<Longrightarrow> found cycles' c" "\<forall>s \<in> set ps. done_from pc cycles' s" by blast
    have "done_from pc cycles' s" using "2.prems"(2) True ih(3) unfolding done_from_def by blast
    with ih True show ?thesis by auto
  next
    case False
    have "\<forall>p \<in> set [[s]]. simple_path pc p" by (simp add: simple_path_def)
    from search_paths_spec[OF "2.prems"(1) this, of visited] obtain cycles1 visited1 where
      sr: "search_paths pc [[s]] cycles visited = Inr (cycles1, visited1)" "good pc cycles1"
      "\<And>c. found cycles c \<Longrightarrow> found cycles1 c" "covers pc [s] cycles1"
      "\<forall>v \<in> set visited1. v \<in> set visited \<or> reach pc s v" by auto
    have s: "done_from pc cycles1 s" using covers_reach[OF sr(4)] by (auto simp: done_from_def)
    have vis: "\<forall>v \<in> set visited1. done_from pc cycles1 v"
    proof
      fix v
      assume "v \<in> set visited1"
      with sr(5) consider "v \<in> set visited" | "reach pc s v" by blast
      then show "done_from pc cycles1 v"
      proof cases
        case 1
        with "2.prems"(2) sr(3) show ?thesis unfolding done_from_def by blast
      next
        case 2
        with s show ?thesis unfolding done_from_def reach_def by (meson rtranclp_trans)
      qed
    qed
    from "2.IH"(2)[OF False sr(1) refl sr(2) vis] obtain cycles' where
      ih: "find_cycles_from pc ps cycles1 visited1 = Inr cycles'" "good pc cycles'"
      "\<And>c. found cycles1 c \<Longrightarrow> found cycles' c" "\<forall>s \<in> set ps. done_from pc cycles' s" by blast
    have "done_from pc cycles' s" using s ih(3) unfolding done_from_def by blast
    with ih sr False show ?thesis by auto
  qed
qed

lemma find_cycles_spec:
  assumes "key_order ord"
  shows "\<exists>cycles. find_cycles ord pc = Inr cycles \<and> good pc cycles \<and> (\<forall>c. is_cycle pc c \<longrightarrow> found cycles c)"
proof -
  have "good pc []" by (simp add: good_def)
  from find_cycles_from_spec[OF this, of "[]" "ord (d_keys pc)"] obtain cycles where
    r: "find_cycles ord pc = Inr cycles" "good pc cycles" "\<forall>s \<in> set (ord (d_keys pc)). done_from pc cycles s"
    by (auto simp: find_cycles_def)
  have "found cycles c" if c: "is_cycle pc c" for c
  proof -
    have "d_get pc (last c) \<noteq> None" using c by (auto simp: is_cycle_def edge_def)
    then have "last c \<in> set (ord (d_keys pc))"
      by (simp add: key_order_set[OF assms] d_keys_iff)
    moreover have "last c \<in> set c" using c by (simp add: is_cycle_def simple_path_def)
    moreover have "reach pc (last c) (last c)" by (simp add: reach_def)
    ultimately show ?thesis using r(3) c unfolding done_from_def by blast
  qed
  with r show ?thesis by blast
qed

end
