(* ===== verification/RadNum.thy ===== *)
theory RadNum
  imports Complex_Main PyStr "HOL-Library.Word"
begin

unbundle bit_operations_syntax

text \<open>
  The binary numerals of \<open>bindings/python/rad_util.py\<close>: \<open>int2bin\<close> and \<open>bin2int\<close>. Python's
  integers are unbounded, so they are \<open>int\<close>.
\<close>

section \<open>int2bin and bin2int\<close>

definition bit_char :: "bool \<Rightarrow> char" where
  "bit_char b = (if b then CHR ''1'' else CHR ''0'')"

text \<open>The dictionary \<open>hex2bin\<close>, at a digit's value.\<close>

definition hex2bin :: "nat \<Rightarrow> string" where
  "hex2bin d = map (\<lambda>i. bit_char (bit d i)) [3, 2, 1, 0]"

text \<open>
  \<open>hex\<close> of a negative number has a sign, so that the first character looked up is an x. The
  slices with \<open>-n\<close> are the whole and the empty string where n is 0.
\<close>

definition int2bin :: "int \<Rightarrow> nat \<Rightarrow> string res" where
  "int2bin i n =
     (if i < 0 then Inl KeyError
      else let result = concat (map hex2bin (digits_base 16 (nat i)));
               cut = (if n = 0 then '''' else take (length result - n) result);
               kept = (if n = 0 then result else drop (length result - n) result)
           in if CHR ''1'' \<in> set cut then Inl ValueError
              else Inr (replicate (n - length kept) (CHR ''0'') @ kept))"

definition bits_value :: "string \<Rightarrow> nat" where
  "bits_value s = foldl (\<lambda>a c. 2 * a + (if c = CHR ''1'' then 1 else 0)) 0 s"

text \<open>\<open>int(s, 2)\<close>: blanks around, a sign and the prefix \<open>0b\<close> are allowed.\<close>

definition base2_digits :: "string \<Rightarrow> nat res" where
  "base2_digits s =
     (let s' = (if starts_with ''0b'' s \<or> starts_with ''0B'' s then drop 2 s else s)
      in if s' \<noteq> [] \<and> list_all (\<lambda>c. c = CHR ''0'' \<or> c = CHR ''1'') s' then Inr (bits_value s')
         else Inl ValueError)"

definition bin2int :: "string \<Rightarrow> int res" where
  "bin2int bin_string =
     (case strip bin_string of
        [] \<Rightarrow> Inl ValueError
      | c # cs \<Rightarrow>
          if c = CHR ''-'' then rbind (base2_digits cs) (\<lambda>n. Inr (- int n))
          else if c = CHR ''+'' then rbind (base2_digits cs) (\<lambda>n. Inr (int n))
          else rbind (base2_digits (c # cs)) (\<lambda>n. Inr (int n)))"

lemma bits_value_snoc: "bits_value (s @ [c]) = 2 * bits_value s + (if c = CHR ''1'' then 1 else 0)"
  by (simp add: bits_value_def)

lemma bits_value_append: "bits_value (s @ t) = bits_value s * 2 ^ length t + bits_value t"
proof (induction t rule: rev_induct)
  case (snoc c t)
  then show ?case by (simp add: bits_value_snoc append_assoc[symmetric] algebra_simps del: append_assoc)
qed (simp add: bits_value_def)

lemma bits_value_bound: "bits_value s < 2 ^ length s"
proof (induction s rule: rev_induct)
  case (snoc c s)
  have "2 * bits_value s + 1 < 2 * 2 ^ length s" using snoc by linarith
  then show ?case by (simp add: bits_value_snoc)
qed (simp add: bits_value_def)

lemma bits_value_0_iff: "bits_value s = 0 \<longleftrightarrow> CHR ''1'' \<notin> set s"
proof (induction s rule: rev_induct)
  case (snoc c s)
  then show ?case by (auto simp: bits_value_snoc)
qed (simp add: bits_value_def)

lemma bits_value_zeros: "bits_value (replicate n (CHR ''0'') @ s) = bits_value s"
proof -
  have "bits_value (replicate n (CHR ''0'')) = 0" by (simp add: bits_value_0_iff)
  then show ?thesis by (simp add: bits_value_append)
qed

lemma hex2bin_value: "list_all (\<lambda>d. bits_value (hex2bin d) = d) [0..<16]"
  by code_simp

lemma hex2bin_props:
  assumes "d < 16"
  shows "bits_value (hex2bin d) = d" "length (hex2bin d) = 4" "set (hex2bin d) \<subseteq> {CHR ''0'', CHR ''1''}"
proof -
  show "bits_value (hex2bin d) = d"
    using hex2bin_value assms by (auto simp only: list_all_iff set_upt atLeastLessThan_iff)
qed (auto simp: hex2bin_def bit_char_def)

lemma hex_bits_value:
  "(\<And>d. d \<in> set ds \<Longrightarrow> d < 16) \<Longrightarrow> bits_value (concat (map hex2bin ds)) = digits_value 16 ds"
proof (induction ds rule: rev_induct)
  case (snoc d ds)
  then show ?case by (simp add: bits_value_append hex2bin_props)
qed (simp add: bits_value_def digits_value_def)

lemma bits_of_int2bin:
  defines "h i \<equiv> concat (map hex2bin (digits_base 16 (nat i)))"
  shows "bits_value (h i) = nat i" "set (h i) \<subseteq> {CHR ''0'', CHR ''1''}"
proof -
  have lt: "\<And>d. d \<in> set (digits_base 16 (nat i)) \<Longrightarrow> d < 16" using digits_base_lt[of 16] by simp
  show "bits_value (h i) = nat i" unfolding h_def using hex_bits_value[OF lt] digits_value_base[of 16] by simp
  show "set (h i) \<subseteq> {CHR ''0'', CHR ''1''}" unfolding h_def using hex2bin_props(3)[OF lt] by fastforce
qed

text \<open>For a width that is not 0: exactly that many bits, with the value, or \<open>ValueError\<close>.\<close>

lemma int2bin_spec:
  assumes "0 \<le> i" "0 < n"
  shows "(i < 2 ^ n \<longrightarrow> (\<exists>s. int2bin i n = Inr s \<and> length s = n \<and> set s \<subseteq> {CHR ''0'', CHR ''1''}
            \<and> bits_value s = nat i))
    \<and> (2 ^ n \<le> i \<longrightarrow> int2bin i n = Inl ValueError)"
proof -
  define h where "h = concat (map hex2bin (digits_base 16 (nat i)))"
  have v: "bits_value h = nat i" and b: "set h \<subseteq> {CHR ''0'', CHR ''1''}"
    using bits_of_int2bin[of i] by (simp_all add: h_def)
  define cut where "cut = take (length h - n) h"
  define kept where "kept = drop (length h - n) h"
  have h: "h = cut @ kept" by (simp add: cut_def kept_def)
  have kl: "length kept \<le> n" by (simp add: kept_def)
  have i2: "int2bin i n = (if CHR ''1'' \<in> set cut then Inl ValueError
      else Inr (replicate (n - length kept) (CHR ''0'') @ kept))"
    using assms by (simp add: int2bin_def h_def[symmetric] cut_def kept_def)
  have val: "nat i = bits_value cut * 2 ^ length kept + bits_value kept"
    using v by (simp add: h bits_value_append)
  show ?thesis
  proof (cases "CHR ''1'' \<in> set cut")
    case True
    then have "cut \<noteq> []" by auto
    then have "length kept = n" by (simp add: cut_def kept_def)
    moreover have "1 \<le> bits_value cut" using True bits_value_0_iff[of cut] by linarith
    ultimately have "2 ^ n \<le> nat i" using val by (simp add: trans_le_add1)
    then have "2 ^ n \<le> i" using assms(1) by (metis nat_le_iff nat_power_eq nat_numeral int_nat_eq of_nat_le_iff
        of_nat_numeral of_nat_power)
    then show ?thesis using i2 True by simp
  next
    case False
    then have k: "nat i = bits_value kept" using val bits_value_0_iff[of cut] by simp
    have "nat i < 2 ^ n"
      using bits_value_bound[of kept] kl k by (metis le_less_trans less_le_trans one_le_numeral power_increasing)
    then have "i < 2 ^ n" using assms(1) by (metis int_nat_eq of_nat_less_iff of_nat_numeral of_nat_power)
    moreover have "set (replicate (n - length kept) (CHR ''0'') @ kept) \<subseteq> {CHR ''0'', CHR ''1''}"
      using b h by (auto split: if_splits)
    ultimately show ?thesis
      using i2 False kl k by (simp add: bits_value_zeros)
  qed
qed

lemma bin2int_bits:
  assumes "s \<noteq> []" "set s \<subseteq> {CHR ''0'', CHR ''1''}"
  shows "bin2int s = Inr (int (bits_value s))"
proof -
  obtain c cs where s: "s = c # cs" using assms(1) by (cases s) auto
  have nsp: "\<not> is_space x" if "x \<in> set s" for x using that assms(2) by (auto simp: is_space_def)
  have "lstrip s = s" using nsp[of c] by (simp add: lstrip_def s)
  moreover have "rstrip s = s"
  proof -
    obtain y ys where r: "rev s = y # ys" using assms(1) by (cases "rev s") auto
    then have "y \<in> set s" by (metis list.set_intros(1) set_rev)
    then have "dropWhile is_space (rev s) = rev s" using nsp r by simp
    then show ?thesis by (simp add: rstrip_def)
  qed
  ultimately have st: "strip s = s" by (simp add: strip_def)
  have "\<not> starts_with ''0b'' s" "\<not> starts_with ''0B'' s"
    using assms(2) by (auto simp: starts_with_iff)
  then have "base2_digits s = Inr (bits_value s)"
    using assms by (auto simp: base2_digits_def list_all_iff)
  moreover have "c = CHR ''0'' \<or> c = CHR ''1''" using assms(2) s by auto
  ultimately show ?thesis using s st by (auto simp: bin2int_def)
qed

end
