(* ===== verification/RadInt.thy ===== *)
theory RadInt
  imports RadNum
begin

text \<open>
  The other integer functions of \<open>bindings/python/rad_util.py\<close>: greatest common factor and
  fractions, bit operations, random vectors, counting in binary, rounding to a grid and the
  area of a polygon. On Python 2 integers \<open>/\<close> and \<open>%\<close> round towards minus infinity, like \<open>div\<close>
  and \<open>mod\<close>. Of functions that also take floats, the integer case is modelled.
\<close>

section \<open>Greatest common factor\<close>

text \<open>The loop of \<open>gcf\<close>: for integers \<open>abs(remainder) > epsilon\<close> says that it is not 0.\<close>

function gcf_loop :: "int \<Rightarrow> int \<Rightarrow> int" where
  "gcf_loop result remainder =
     (if remainder \<noteq> 0 then gcf_loop remainder (result mod remainder) else \<bar>result\<bar>)"
  by pat_completeness auto
termination
  by (relation "measure (\<lambda>(result, remainder). nat \<bar>remainder\<bar>)") (auto simp: abs_mod_less)

declare gcf_loop.simps [simp del]

definition gcf :: "int \<Rightarrow> int \<Rightarrow> int" where
  "gcf a b = gcf_loop (max a b) (min a b)"

lemma gcf_loop_gcd: "gcf_loop r m = gcd r m"
proof (induction r m rule: gcf_loop.induct)
  case (1 r m)
  then show ?case by (subst gcf_loop.simps) (simp add: gcd_red_int[of r m])
qed

lemma gcf_gcd: "gcf a b = gcd a b"
  by (simp add: gcf_def gcf_loop_gcd max_def min_def gcd.commute)

definition rad_lcm :: "int \<Rightarrow> int \<Rightarrow> int" where
  "rad_lcm a b = (let denom = gcf a b in if denom = 0 then 0 else a * (b div denom))"

lemma rad_lcm_lcm: "rad_lcm a b = sgn (a * b) * lcm a b"
proof (cases "gcd a b = 0")
  case False
  have "a * (b div gcd a b) = (a * b) div gcd a b" by (simp add: div_mult_swap)
  also have "\<dots> = (sgn (a * b) * \<bar>a * b\<bar>) div gcd a b" by (simp only: sgn_mult_abs)
  also have "\<dots> = sgn (a * b) * (\<bar>a * b\<bar> div gcd a b)" by (simp add: div_mult_swap abs_mult)
  also have "\<bar>a * b\<bar> div gcd a b = lcm a b" by (simp only: lcm_altdef_int abs_mult)
  finally show ?thesis using False by (simp add: rad_lcm_def gcf_gcd Let_def)
qed (simp add: rad_lcm_def gcf_gcd)

definition reduce_fraction :: "int \<times> int \<Rightarrow> (int \<times> int) res" where
  "reduce_fraction = (\<lambda>(numerator, denominator).
     let common_factor = \<bar>gcf numerator denominator\<bar>
     in if common_factor = 0 then Inl ZeroDivisionError
        else Inr (numerator div common_factor, denominator div common_factor))"

lemma reduce_fraction_reduced:
  assumes "(n, d) \<noteq> (0, 0)"
  obtains n' d' where "reduce_fraction (n, d) = Inr (n', d')" "coprime n' d'"
    "n = n' * gcd n d" "d = d' * gcd n d"
proof -
  have g: "gcd n d \<noteq> 0" using assms by auto
  show thesis
    by (rule that[of "n div gcd n d" "d div gcd n d"])
      (use g assms in \<open>auto simp: reduce_fraction_def gcf_gcd div_gcd_coprime Let_def\<close>)
qed

section \<open>Bits\<close>

definition lsb :: "int \<Rightarrow> nat \<Rightarrow> int" where
  "lsb x n = and x (2 ^ n - 1)"

definition gray_encode :: "int \<Rightarrow> int" where
  "gray_encode i = xor i (drop_bit 1 i)"

lemma lsb_mod: "lsb x n = x mod 2 ^ n"
  by (simp add: lsb_def mask_eq_exp_minus_1[symmetric] take_bit_eq_mask[symmetric] take_bit_eq_mod)

lemma gray_step: "gray_encode i = of_bool (odd i \<noteq> odd (i div 2)) + 2 * gray_encode (i div 2)"
  unfolding gray_encode_def drop_bit_eq_div by (subst xor_rec) simp

text \<open>The codes of neighbours differ in one bit.\<close>

lemma gray_neighbours: "\<exists>k. xor (gray_encode (int n)) (gray_encode (int n + 1)) = 2 ^ k"
proof (induction n rule: less_induct)
  case (less n)
  show ?case
  proof (cases "even n")
    case True
    then obtain j where n: "n = 2 * j" by blast
    have "gray_encode (int n) = of_bool (odd (int j)) + 2 * gray_encode (int j)"
      "gray_encode (int n + 1) = of_bool (even (int j)) + 2 * gray_encode (int j)"
      by (subst gray_step, simp add: n)+
    then have "xor (gray_encode (int n)) (gray_encode (int n + 1)) = 2 ^ 0"
      by (subst xor_rec) simp
    then show ?thesis by blast
  next
    case False
    then obtain j where n: "n = 2 * j + 1" using oddE by blast
    obtain k where k: "xor (gray_encode (int j)) (gray_encode (int j + 1)) = 2 ^ k" using less[of j] n by auto
    have "gray_encode (int n) = of_bool (even (int j)) + 2 * gray_encode (int j)"
      by (subst gray_step) (simp add: n)
    moreover have "gray_encode (int n + 1) = of_bool (even (int j)) + 2 * gray_encode (int j + 1)"
    proof -
      have "int n + 1 = 2 * (int j + 1)" by (simp add: n)
      then show ?thesis by (subst gray_step) (simp add: add.commute)
    qed
    ultimately have "xor (gray_encode (int n)) (gray_encode (int n + 1)) = 2 ^ Suc k"
      using k by (subst xor_rec) simp
    then show ?thesis by blast
  qed
qed

section \<open>random_vec\<close>

text \<open>
  \<open>rs\<close> are the numbers \<open>int((2**10) * random.random())\<close>, one for each turn of the loop (there
  must be enough of them). For \<open>max_value\<close>, 0 is as good as none.
\<close>

fun random_bits :: "int list \<Rightarrow> nat \<Rightarrow> string res" where
  "random_bits rs 0 = Inr ''''"
| "random_bits [] (Suc k) = Inl IndexError"
| "random_bits (r # rs) (Suc k) =
     rbind (int2bin r 10) (\<lambda>s. rbind (random_bits rs k) (\<lambda>t. Inr (s @ t)))"

definition random_vec :: "int list \<Rightarrow> nat \<Rightarrow> int option \<Rightarrow> string res" where
  "random_vec rs bits max_value =
     rbind (random_bits rs (bits div 10 + 1)) (\<lambda>vector.
       rbind (case max_value of
                None \<Rightarrow> Inr vector
              | Some mx \<Rightarrow>
                  if py_true mx \<and> mx < 2 ^ bits - 1
                  then rbind (bin2int vector) (\<lambda>v.
                         if (2::int) ^ bits - 1 = 0 then Inl ZeroDivisionError
                         else int2bin (v div (2 ^ bits - 1) * mx) bits)
                  else Inr vector) (\<lambda>vector.
         Inr (py_slice vector 0 bits)))"

lemma random_bits_length:
  "list_all (\<lambda>r. 0 \<le> r \<and> r < 1024) rs \<Longrightarrow> k \<le> length rs \<Longrightarrow>
   \<exists>s. random_bits rs k = Inr s \<and> length s = 10 * k \<and> set s \<subseteq> {CHR ''0'', CHR ''1''}"
proof (induction rs k rule: random_bits.induct)
  case (3 r rs k)
  then obtain s where s: "int2bin r 10 = Inr s" "length s = 10" "set s \<subseteq> {CHR ''0'', CHR ''1''}"
    using int2bin_spec[of r 10] by auto
  obtain t where "random_bits rs k = Inr t" "length t = 10 * k" "set t \<subseteq> {CHR ''0'', CHR ''1''}"
    using "3.IH"[OF s(1)] "3.prems" by auto
  with s show ?case by simp
qed auto

lemma random_vec_length:
  assumes "list_all (\<lambda>r. 0 \<le> r \<and> r < 1024) rs" "bits div 10 + 1 \<le> length rs"
  shows "\<exists>s. random_vec rs bits None = Inr s \<and> length s = bits \<and> set s \<subseteq> {CHR ''0'', CHR ''1''}"
proof -
  obtain s where s: "random_bits rs (bits div 10 + 1) = Inr s" "length s = 10 * (bits div 10 + 1)"
    "set s \<subseteq> {CHR ''0'', CHR ''1''}" using random_bits_length[OF assms] by blast
  have "bits \<le> 10 * (bits div 10 + 1)" by presburger
  moreover have "set (take bits s) \<subseteq> set s" by (rule set_take_subset)
  ultimately show ?thesis using s by (auto simp: random_vec_def py_slice_def)
qed

section \<open>binary_range\<close>

text \<open>
  The inner loop adds one to \<open>v\<close>, least significant bit first; the carry into position i is
  \<open>toggle[i]\<close>. The outer loop stops when the carry leaves the last position.
\<close>

function add_loop :: "nat \<Rightarrow> nat \<Rightarrow> string \<Rightarrow> nat list \<Rightarrow> string \<times> nat list" where
  "add_loop bits i v toggle =
     (if i < bits \<and> toggle ! i = 1 then
        (if v ! i = CHR ''0'' then add_loop bits (i + 1) (v[i := CHR ''1'']) (toggle[i + 1 := 0])
         else add_loop bits (i + 1) (v[i := CHR ''0'']) (toggle[i + 1 := 1]))
      else (v, toggle))"
  by pat_completeness auto
termination by (relation "measure (\<lambda>(bits, i, v, toggle). bits - i)") auto

declare add_loop.simps [simp del]

text \<open>The outer loop, with fuel.\<close>

fun range_loop :: "nat \<Rightarrow> nat \<Rightarrow> string \<Rightarrow> nat list \<Rightarrow> string list \<Rightarrow> string list option" where
  "range_loop fuel bits v toggle l =
     (if toggle ! bits \<noteq> 1 then
        (case fuel of
           0 \<Rightarrow> None
         | Suc f \<Rightarrow>
             (case add_loop bits 0 v (1 # replicate bits 0) of (v', toggle') \<Rightarrow>
                range_loop f bits v' toggle' (l @ [rev v])))
      else Some l)"

declare range_loop.simps [simp del]

definition binary_range :: "nat \<Rightarrow> nat \<Rightarrow> string list option" where
  "binary_range fuel bits = range_loop fuel bits (replicate bits (CHR ''0'')) (1 # replicate bits 0) []"

definition binary_string :: "string \<Rightarrow> bool" where
  "binary_string s \<longleftrightarrow> set s \<subseteq> {CHR ''0'', CHR ''1''}"

fun lsb_value :: "string \<Rightarrow> nat" where
  "lsb_value [] = 0"
| "lsb_value (c # cs) = of_bool (c = CHR ''1'') + 2 * lsb_value cs"

lemma bits_value_rev: "bits_value (rev v) = lsb_value v"
proof (induction v)
  case (Cons c v)
  then show ?case by (simp add: bits_value_snoc)
qed (simp add: bits_value_def)

lemma lsb_value_bound: "lsb_value v < 2 ^ length v"
  using bits_value_bound[of "rev v"] by (simp add: bits_value_rev)

lemma lsb_value_update:
  "i < length v \<Longrightarrow> lsb_value (v[i := c]) + of_bool (v ! i = CHR ''1'') * 2 ^ i
     = lsb_value v + of_bool (c = CHR ''1'') * 2 ^ i"
proof (induction v arbitrary: i)
  case (Cons x v)
  show ?case
  proof (cases i)
    case 0
    then show ?thesis by simp
  next
    case (Suc k)
    have "2 * lsb_value (v[k := c]) + 2 * (of_bool (v ! k = CHR ''1'') * 2 ^ k)
        = 2 * lsb_value v + 2 * (of_bool (c = CHR ''1'') * 2 ^ k)"
      using Cons.IH[of k] Cons.prems Suc by simp
    then show ?thesis using Suc by simp
  qed
qed simp

lemma lsb_value_inj:
  "lsb_value v = lsb_value w \<Longrightarrow> length v = length w \<Longrightarrow> binary_string v \<Longrightarrow> binary_string w \<Longrightarrow> v = w"
proof (induction v arbitrary: w)
  case (Cons c v)
  then obtain d w' where w: "w = d # w'" by (cases w) auto
  have eq: "of_bool (c = CHR ''1'') + 2 * lsb_value v = of_bool (d = CHR ''1'') + 2 * lsb_value w'"
    using Cons.prems(1) by (simp add: w)
  then have "(c = CHR ''1'') = (d = CHR ''1'')" "lsb_value v = lsb_value w'"
    by (cases "c = CHR ''1''"; cases "d = CHR ''1''"; simp; presburger)+
  then show ?case using Cons w by (auto simp: binary_string_def)
qed simp

lemma int2bin_lsb: 
  assumes "binary_string v" "v \<noteq> []"
  shows "int2bin (int (lsb_value v)) (length v) = Inr (rev v)"
proof -
  have "int (lsb_value v) < 2 ^ length v" using lsb_value_bound[of v] by (metis of_nat_less_iff of_nat_numeral of_nat_power)
  then obtain s where s: "int2bin (int (lsb_value v)) (length v) = Inr s" "length s = length v"
    "binary_string s" "bits_value s = lsb_value v"
    using int2bin_spec[of "int (lsb_value v)" "length v"] assms(2) by (auto simp: binary_string_def)
  have "lsb_value (rev s) = lsb_value v" using bits_value_rev[of "rev s"] s(4) by simp
  then have "rev s = v" using lsb_value_inj[of "rev s" v] s assms(1) by (simp add: binary_string_def)
  then show ?thesis using s(1) by auto
qed

text \<open>What the inner loop does from position i on.\<close>

lemma add_loop_value:
  "add_loop bits i v toggle = (v', toggle') \<Longrightarrow> i \<le> bits \<Longrightarrow> length v = bits \<Longrightarrow> length toggle = bits + 1 \<Longrightarrow>
   binary_string v \<Longrightarrow> toggle ! i \<le> 1 \<Longrightarrow> (\<forall>j. i < j \<and> j \<le> bits \<longrightarrow> toggle ! j = 0) \<Longrightarrow>
   length v' = bits \<and> binary_string v' \<and> toggle' ! bits \<le> 1
     \<and> lsb_value v' + toggle' ! bits * 2 ^ bits = lsb_value v + toggle ! i * 2 ^ i"
proof (induction bits i v toggle rule: add_loop.induct)
  case (1 bits i v toggle)
  have bin: "binary_string (v[i := c])" if "c = CHR ''0'' \<or> c = CHR ''1''" for c
    using 1(7) that set_update_subset_insert[of v i c] by (auto simp: binary_string_def)
  show ?case
  proof (cases "i < bits \<and> toggle ! i = 1")
    case False
    then have "add_loop bits i v toggle = (v, toggle)" by (subst add_loop.simps) auto
    then have "v' = v" "toggle' = toggle" using 1(3) by simp_all
    moreover have "toggle ! bits * 2 ^ bits = toggle ! i * 2 ^ i"
    proof (cases "i = bits")
      case ne: False
      then show ?thesis using False 1(4,8,9) by auto
    qed simp
    moreover have "toggle ! bits \<le> 1" using 1(4,8,9) by (cases "i = bits") auto
    ultimately show ?thesis using 1 by simp
  next
    case step: True
    note ih = "1.IH"
    show ?thesis
    proof (cases "v ! i = CHR ''0''")
      case True
      then have r: "add_loop bits (i + 1) (v[i := CHR ''1'']) (toggle[i + 1 := 0]) = (v', toggle')"
        using 1(3) step by (simp add: add_loop.simps[of bits i])
      have "lsb_value (v[i := CHR ''1'']) = lsb_value v + 2 ^ i"
        using lsb_value_update[of i v "CHR ''1''"] step True 1(5) by simp
      then show ?thesis
        using ih(1)[OF step True r] step 1 bin by (auto simp: nth_list_update)
    next
      case False
      have "v ! i \<in> set v" using step 1(5) by simp
      then have one: "v ! i = CHR ''1''" using False 1(7) unfolding binary_string_def by blast
      have r: "add_loop bits (i + 1) (v[i := CHR ''0'']) (toggle[i + 1 := 1]) = (v', toggle')"
        using 1(3) step False by (simp add: add_loop.simps[of bits i])
      have "lsb_value (v[i := CHR ''0'']) + 2 ^ i = lsb_value v"
        using lsb_value_update[of i v "CHR ''0''"] step one 1(5) by simp
      then show ?thesis
        using ih(2)[OF step False r] step 1 bin by (auto simp: nth_list_update)
    qed
  qed
qed

lemma range_loop_counts:
  "length v = bits \<Longrightarrow> 0 < bits \<Longrightarrow> binary_string v \<Longrightarrow> toggle ! bits = 0 \<Longrightarrow> 2 ^ bits - lsb_value v \<le> fuel \<Longrightarrow>
   \<exists>xs. range_loop fuel bits v toggle l = Some (l @ xs)
     \<and> map Inr xs = map (\<lambda>i. int2bin (int i) bits) [lsb_value v..<2 ^ bits]"
proof (induction fuel arbitrary: v toggle l)
  case 0
  then show ?case using lsb_value_bound[of v] by auto
next
  case (Suc f)
  obtain v' t' where a: "add_loop bits 0 v (1 # replicate bits 0) = (v', t')" by fastforce
  have t0: "\<forall>j. 0 < j \<and> j \<le> bits \<longrightarrow> (1 # replicate bits 0 :: nat list) ! j = 0"
    by (auto simp: nth_Cons')
  have r: "length v' = bits" "binary_string v'" "t' ! bits \<le> 1"
    "lsb_value v' + t' ! bits * 2 ^ bits = lsb_value v + 1"
    using add_loop_value[OF a _ Suc.prems(1)] Suc.prems t0 by auto
  have lt: "lsb_value v < 2 ^ bits" using lsb_value_bound[of v] Suc.prems by simp
  have hd: "int2bin (int (lsb_value v)) bits = Inr (rev v)" using int2bin_lsb Suc.prems by force
  have step: "range_loop (Suc f) bits v toggle l = range_loop f bits v' t' (l @ [rev v])"
    using Suc.prems(4) a by (simp add: range_loop.simps[of "Suc f"])
  show ?case
  proof (cases "t' ! bits = 1")
    case True
    then have "lsb_value v' + 2 ^ bits = lsb_value v + 1" using r(4) by simp
    then have "lsb_value v + 1 = 2 ^ bits" using lt by linarith
    then have "[lsb_value v..<2 ^ bits] = [lsb_value v]" by (metis Suc_eq_plus1 lessI upt_rec upt_eq_Nil_conv order_refl)
    then show ?thesis using hd step True by (simp add: range_loop.simps[of f])
  next
    case False
    then have t0: "t' ! bits = 0" using r(3) by simp
    then have v': "lsb_value v' = lsb_value v + 1" using r(4) by simp
    have "2 ^ bits - lsb_value v' \<le> f" using Suc.prems(5) v' by arith
    then obtain xs where "range_loop f bits v' t' (l @ [rev v]) = Some ((l @ [rev v]) @ xs)"
      "map Inr xs = map (\<lambda>i. int2bin (int i) bits) [lsb_value v'..<2 ^ bits]"
      using Suc.IH[OF r(1) Suc.prems(2) r(2) t0, of "l @ [rev v]"] Suc.prems(5) by auto
    moreover have "[lsb_value v..<2 ^ bits] = lsb_value v # [lsb_value v'..<2 ^ bits]"
      using lt v' by (simp add: upt_conv_Cons)
    ultimately show ?thesis using step hd by simp
  qed
qed

lemma binary_range_counts:
  assumes "0 < bits" "2 ^ bits \<le> fuel"
  shows "\<exists>xs. binary_range fuel bits = Some xs
    \<and> map Inr xs = map (\<lambda>i. int2bin (int i) bits) [0..<2 ^ bits]"
proof -
  have z: "lsb_value (replicate n (CHR ''0'')) = 0" for n by (induction n) auto
  show ?thesis
    using range_loop_counts[of "replicate bits (CHR ''0'')" bits "1 # replicate bits 0" fuel "[]"] assms
    by (auto simp: z binary_range_def binary_string_def)
qed

section \<open>round_grid\<close>

text \<open>\<open>off_grid >= grid / 2.0\<close> compares the exact halves.\<close>

definition round_grid :: "int \<Rightarrow> int \<Rightarrow> int \<Rightarrow> int res" where
  "round_grid value grid mode =
     (if grid = 0 then Inl ZeroDivisionError
      else let off_grid = value mod grid
           in rbind (if mode = 0 then Inr (of_bool (2 * off_grid \<ge> grid))
                     else if mode = 1 \<and> off_grid \<noteq> 0 then Inr 1
                     else if mode = -1 \<and> off_grid \<noteq> 0 then Inr 0
                     else Inl UnboundLocalError) (\<lambda>add_one.
                Inr ((value div grid + add_one) * grid)))"

lemma round_grid_nearest:
  assumes "0 < grid"
  shows "\<exists>r. round_grid value grid 0 = Inr r \<and> grid dvd r \<and> 2 * \<bar>r - value\<bar> \<le> grid"
proof -
  define q where "q = value div grid"
  define m where "m = value mod grid"
  have v: "value = q * grid + m" "0 \<le> m" "m < grid" using assms by (simp_all add: q_def m_def)
  show ?thesis
  proof (cases "2 * m \<ge> grid")
    case True
    then have "round_grid value grid 0 = Inr ((q + 1) * grid)"
      using assms by (simp add: round_grid_def q_def m_def)
    moreover have "(q + 1) * grid - value = grid - m" using v(1) by (simp add: algebra_simps)
    ultimately show ?thesis using True v by simp
  next
    case False
    then have "round_grid value grid 0 = Inr (q * grid)"
      using assms by (simp add: round_grid_def q_def m_def)
    moreover have "q * grid - value = - m" using v(1) by simp
    ultimately show ?thesis using False v by simp
  qed
qed

lemma round_grid_directed:
  assumes "0 < grid" "\<not> grid dvd value"
  shows "\<exists>r. round_grid value grid 1 = Inr r \<and> grid dvd r \<and> value < r \<and> r < value + grid"
    and "\<exists>r. round_grid value grid (-1) = Inr r \<and> grid dvd r \<and> r < value \<and> value - grid < r"
proof -
  define q where "q = value div grid"
  define m where "m = value mod grid"
  have v: "value = q * grid + m" "0 < m" "m < grid"
    using assms pos_mod_bound[of grid "value"] pos_mod_sign[of grid "value"]
    by (auto simp: q_def m_def dvd_eq_mod_eq_0 less_le)
  have "round_grid value grid 1 = Inr ((q + 1) * grid)" "round_grid value grid (-1) = Inr (q * grid)"
    using assms v(2) by (simp_all add: round_grid_def q_def m_def)
  then show "\<exists>r. round_grid value grid 1 = Inr r \<and> grid dvd r \<and> value < r \<and> r < value + grid"
    "\<exists>r. round_grid value grid (-1) = Inr r \<and> grid dvd r \<and> r < value \<and> value - grid < r"
    using v by (auto simp: algebra_simps)
qed

text \<open>A value on the grid cannot be rounded up or down.\<close>

lemma round_grid_on_grid:
  "grid dvd value \<Longrightarrow> grid \<noteq> 0 \<Longrightarrow> mode \<noteq> 0 \<Longrightarrow> round_grid value grid mode = Inl UnboundLocalError"
  by (simp add: round_grid_def dvd_eq_mod_eq_0)

section \<open>polygon_area\<close>

fun cross_sum :: "(int \<times> int) list \<Rightarrow> int \<Rightarrow> int" where
  "cross_sum ((x_i, y_i) # (x_n, y_n) # ps) area = cross_sum ((x_n, y_n) # ps) (area + x_n * y_i - y_n * x_i)"
| "cross_sum _ area = area"

text \<open>
  On integer coordinates. The function scales the points in the caller's list and closes it, so
  the list as it is left comes with the area.
\<close>

definition polygon_area :: "(int \<times> int) list \<Rightarrow> int \<Rightarrow> (rat \<times> (int \<times> int) list) res" where
  "polygon_area points_list precision =
     (let scaled = map (\<lambda>(x, y). (x * precision, y * precision)) points_list
      in if scaled = [] then Inl IndexError
         else let closed = (if last scaled \<noteq> hd scaled then scaled @ [hd scaled] else scaled);
                  area = \<bar>cross_sum closed 0 div 2\<bar>
              in if precision = 0 then Inl ZeroDivisionError
                 else Inr (of_int area / of_int (precision ^ 2), closed))"

text \<open>The shoelace formula of the closed polygon.\<close>

definition shoelace :: "(int \<times> int) list \<Rightarrow> int" where
  "shoelace ps = cross_sum (if last ps \<noteq> hd ps then ps @ [hd ps] else ps) 0"

lemma cross_sum_scale:
  "cross_sum (map (\<lambda>(x, y). (x * p, y * p)) ps) (a * (p * p)) = p * p * cross_sum ps a"
proof (induction ps a rule: cross_sum.induct)
  case (1 x_i y_i x_n y_n ps area)
  have "area * (p * p) + x_n * p * (y_i * p) - y_n * p * (x_i * p) = (area + x_n * y_i - y_n * x_i) * (p * p)"
    by (simp add: algebra_simps)
  with 1 show ?case by simp
qed simp_all

lemma polygon_area_exact:
  assumes "ps \<noteq> []" "even p" "p \<noteq> 0"
  shows "\<exists>q. polygon_area ps p = Inr (of_int \<bar>shoelace ps\<bar> / 2, q)"
proof -
  let ?f = "\<lambda>(x, y). (x * p, y * p)"
  have inj: "inj ?f" using assms(3) by (auto simp: inj_def)
  have l: "last (map ?f ps) = ?f (last ps)" "hd (map ?f ps) = ?f (hd ps)"
    using assms(1) by (simp_all add: last_map hd_map)
  have ne: "last (map ?f ps) \<noteq> hd (map ?f ps) \<longleftrightarrow> last ps \<noteq> hd ps" unfolding l using inj by (simp add: inj_eq)
  let ?c = "if last ps \<noteq> hd ps then ps @ [hd ps] else ps"
  have cl: "(if last (map ?f ps) \<noteq> hd (map ?f ps) then map ?f ps @ [hd (map ?f ps)] else map ?f ps) = map ?f ?c"
    unfolding ne by (simp add: l)
  have cs: "cross_sum (map ?f ?c) 0 = p * p * shoelace ps"
    using cross_sum_scale[of p ?c 0] by (simp add: shoelace_def)
  obtain h where h: "p = 2 * h" using assms(2) by blast
  have "p * p * shoelace ps div 2 = p * h * shoelace ps" by (simp add: h)
  then have "\<bar>cross_sum (map ?f ?c) 0 div 2\<bar> = \<bar>p * h\<bar> * \<bar>shoelace ps\<bar>" by (simp add: cs abs_mult)
  moreover have "\<bar>p * h\<bar> = 2 * h\<^sup>2" by (simp add: h power2_eq_square abs_mult)
  moreover have "(of_int (2 * h\<^sup>2 * \<bar>shoelace ps\<bar>) :: rat) / of_int (p ^ 2) = of_int \<bar>shoelace ps\<bar> / 2"
    using assms(3) by (simp add: h power2_eq_square)
  ultimately have "(of_int \<bar>cross_sum (map ?f ?c) 0 div 2\<bar> :: rat) / of_int (p ^ 2) = of_int \<bar>shoelace ps\<bar> / 2"
    by presburger
  moreover have "polygon_area ps p = Inr (of_int \<bar>cross_sum (map ?f ?c) 0 div 2\<bar> / of_int (p ^ 2), map ?f ?c)"
    unfolding polygon_area_def Let_def cl using assms(1,3) by simp
  ultimately show ?thesis by metis
qed

end
