(* ===== verification/PyNum.thy ===== *)
theory PyNum
  imports Complex_Main Prelude
begin

text \<open>
  Numbers of Python 2: integers and floating point numbers, told apart because the slash between
  two integers is the floor division. A float is taken to be exact, a rational number. The type
  has the operators of the library's classes, so that a formula reads as in the code; comparison
  is by value, whatever the kind.
\<close>

named_theorems num_simps \<open>the operations of Python's numbers by value\<close>

datatype pynum = PyInt int | PyFloat rat

fun val :: "pynum \<Rightarrow> rat" where
  "val (PyInt i) = of_int i"
| "val (PyFloat r) = r"

fun is_int :: "pynum \<Rightarrow> bool" where
  "is_int (PyInt i) = True"
| "is_int (PyFloat r) = False"

section \<open>Operators\<close>

instantiation pynum :: "{plus, minus, times, uminus, zero, one, ord}"
begin

fun plus_pynum :: "pynum \<Rightarrow> pynum \<Rightarrow> pynum" where
  "plus_pynum (PyInt a) (PyInt b) = PyInt (a + b)"
| "plus_pynum x y = PyFloat (val x + val y)"

fun minus_pynum :: "pynum \<Rightarrow> pynum \<Rightarrow> pynum" where
  "minus_pynum (PyInt a) (PyInt b) = PyInt (a - b)"
| "minus_pynum x y = PyFloat (val x - val y)"

fun times_pynum :: "pynum \<Rightarrow> pynum \<Rightarrow> pynum" where
  "times_pynum (PyInt a) (PyInt b) = PyInt (a * b)"
| "times_pynum x y = PyFloat (val x * val y)"

fun uminus_pynum :: "pynum \<Rightarrow> pynum" where
  "uminus_pynum (PyInt a) = PyInt (- a)"
| "uminus_pynum (PyFloat r) = PyFloat (- r)"

definition zero_pynum :: pynum where
  "zero_pynum = PyInt 0"

definition one_pynum :: pynum where
  "one_pynum = PyInt 1"

definition less_eq_pynum :: "pynum \<Rightarrow> pynum \<Rightarrow> bool" where
  "less_eq_pynum x y \<longleftrightarrow> val x \<le> val y"

definition less_pynum :: "pynum \<Rightarrow> pynum \<Rightarrow> bool" where
  "less_pynum x y \<longleftrightarrow> val x < val y"

instance ..

end

lemma val_ops [simp, num_simps]:
  "val (x + y) = val x + val y" "val (x - y) = val x - val y" "val (x * y) = val x * val y"
  "val (- x) = - val x"
  by (cases x; cases y; simp)+

lemma is_int_ops [simp, num_simps]:
  "is_int (x + y) \<longleftrightarrow> is_int x \<and> is_int y" "is_int (x - y) \<longleftrightarrow> is_int x \<and> is_int y"
  "is_int (x * y) \<longleftrightarrow> is_int x \<and> is_int y" "is_int (- x) = is_int x"
  by (cases x; cases y; simp)+

lemma pynum_eqI: "val x = val y \<Longrightarrow> is_int x = is_int y \<Longrightarrow> x = (y :: pynum)"
  by (cases x; cases y) auto

instance pynum :: preorder
  by standard (auto simp: less_eq_pynum_def less_pynum_def)

instance pynum :: semigroup_add
  by standard (rule pynum_eqI, auto)

instance pynum :: numeral ..

lemma val_consts [simp, num_simps]: "val 0 = 0" "val 1 = 1" "is_int 0" "is_int 1"
  by (simp_all add: zero_pynum_def one_pynum_def)

lemma numeral_pynum: "numeral k = PyInt (numeral k)"
proof (induction k)
  case One
  then show ?case by (simp add: one_pynum_def)
next
  case (Bit0 k)
  then show ?case by (simp only: numeral.simps plus_pynum.simps)
next
  case (Bit1 k)
  then show ?case by (simp only: numeral.simps plus_pynum.simps one_pynum_def)
qed

lemma val_numeral [simp, num_simps]: "val (numeral k) = numeral k" "is_int (numeral k)"
  by (simp_all add: numeral_pynum)

lemma pynum_le [simp, num_simps]: "(x :: pynum) \<le> y \<longleftrightarrow> val x \<le> val y" "x < y \<longleftrightarrow> val x < val y"
  by (simp_all add: less_eq_pynum_def less_pynum_def)

section \<open>Division, rounding, minimum and maximum\<close>

fun n_div :: "pynum \<Rightarrow> pynum \<Rightarrow> pynum res" where
  "n_div (PyInt a) (PyInt b) = (if b = 0 then Inl ZeroDivisionError else Inr (PyInt (a div b)))"
| "n_div x y = (if val y = 0 then Inl ZeroDivisionError else Inr (PyFloat (val x / val y)))"

fun n_mod :: "pynum \<Rightarrow> pynum \<Rightarrow> pynum res" where
  "n_mod (PyInt a) (PyInt b) = (if b = 0 then Inl ZeroDivisionError else Inr (PyInt (a mod b)))"
| "n_mod x y = (if val y = 0 then Inl ZeroDivisionError
      else Inr (PyFloat (val x - val y * of_int \<lfloor>val x / val y\<rfloor>)))"

text \<open>\<open>int(x)\<close> cuts the fraction off; \<open>float(x)\<close>.\<close>

fun n_int :: "pynum \<Rightarrow> int" where
  "n_int (PyInt i) = i"
| "n_int (PyFloat r) = (if r \<ge> 0 then \<lfloor>r\<rfloor> else \<lceil>r\<rceil>)"

definition n_float :: "pynum \<Rightarrow> pynum" where
  "n_float x = PyFloat (val x)"

text \<open>Python's \<open>max\<close> and \<open>min\<close> keep the first of two equal arguments.\<close>

definition n_max :: "pynum \<Rightarrow> pynum \<Rightarrow> pynum" where
  "n_max x y = (if y > x then y else x)"

definition n_min :: "pynum \<Rightarrow> pynum \<Rightarrow> pynum" where
  "n_min x y = (if y < x then y else x)"

definition n_abs :: "pynum \<Rightarrow> pynum" where
  "n_abs x = (if x < 0 then - x else x)"

lemma val_max_min [simp, num_simps]:
  "val (n_max x y) = max (val x) (val y)" "val (n_min x y) = min (val x) (val y)"
  "val (n_float x) = val x" "val (n_abs x) = \<bar>val x\<bar>"
  by (auto simp: n_max_def n_min_def n_float_def n_abs_def)

lemma n_div_zero: "val y = 0 \<Longrightarrow> n_div x y = Inl ZeroDivisionError"
  by (cases x; cases y) auto

lemma n_div_Inr: "val y \<noteq> 0 \<Longrightarrow>
   \<exists>q. n_div x y = Inr q \<and> val q = (if is_int x \<and> is_int y then of_int \<lfloor>val x / val y\<rfloor> else val x / val y)
     \<and> (is_int q \<longleftrightarrow> is_int x \<and> is_int y)"
  by (cases x; cases y) (auto simp: floor_divide_of_int_eq)

lemma n_div_cases:
  obtains "val y = 0" "n_div x y = Inl ZeroDivisionError"
  | q where "val y \<noteq> 0" "n_div x y = Inr q" "is_int q \<longleftrightarrow> is_int x \<and> is_int y"
      "val q = (if is_int x \<and> is_int y then of_int \<lfloor>val x / val y\<rfloor> else val x / val y)"
  using n_div_zero n_div_Inr by metis

lemma n_div_bounds:
  assumes "n_div x y = Inr q"
  shows "val y \<noteq> 0" "val q \<le> val x / val y" "val x / val y - 1 < val q"
    "\<not> (is_int x \<and> is_int y) \<Longrightarrow> val q = val x / val y"
proof -
  obtain q' where "val y \<noteq> 0" "n_div x y = Inr q'"
      "val q' = (if is_int x \<and> is_int y then of_int \<lfloor>val x / val y\<rfloor> else val x / val y)"
    using assms by (cases rule: n_div_cases[of y x]) auto
  moreover have "of_int \<lfloor>val x / val y\<rfloor> \<le> val x / val y" "val x / val y - 1 < of_int \<lfloor>val x / val y\<rfloor>"
    by linarith+
  ultimately show "val y \<noteq> 0" "val q \<le> val x / val y" "val x / val y - 1 < val q"
    "\<not> (is_int x \<and> is_int y) \<Longrightarrow> val q = val x / val y"
    using assms by (auto split: if_splits)
qed

lemma n_int_le: "0 \<le> val x \<Longrightarrow> of_int (n_int x) \<le> val x"
  by (cases x) auto

lemma n_int_mono: "val x \<le> val y \<Longrightarrow> n_int x \<le> n_int y"
proof -
  have i: "n_int z = (if val z \<ge> 0 then \<lfloor>val z\<rfloor> else \<lceil>val z\<rceil>)" for z by (cases z) auto
  assume le: "val x \<le> val y"
  show ?thesis
  proof (cases "val x \<ge> 0 \<or> val y < 0")
    case True
    then show ?thesis using le by (auto simp: i intro: floor_mono ceiling_mono)
  next
    case False
    then have "\<lceil>val x\<rceil> \<le> 0" "0 \<le> \<lfloor>val y\<rfloor>" by (auto simp: ceiling_le_iff)
    then have "\<lceil>val x\<rceil> \<le> \<lfloor>val y\<rfloor>" by linarith
    then show ?thesis using False by (auto simp: i)
  qed
qed

end
