(* ===== verification/PyFormat.thy ===== *)
theory PyFormat
  imports PyNum PyStr
begin

text \<open>
  Numbers as text: \<open>round\<close> of Python 2 (halves away from zero) and the formats \<open>%.nf\<close> and \<open>%.ng\<close>
  (halves to the even neighbour, of a float taken to be exact).
\<close>

definition py_round :: "rat \<Rightarrow> nat \<Rightarrow> rat" where
  "py_round x dp = (let m = of_int \<lfloor>\<bar>x\<bar> * 10 ^ dp + 1 / 2\<rfloor> / 10 ^ dp in if x < 0 then - m else m)"

text \<open>The integer next to a number that is not negative.\<close>

definition half_even :: "rat \<Rightarrow> nat" where
  "half_even x =
     (let n = \<lfloor>x\<rfloor>; r = x - of_int n
      in nat (if r < 1 / 2 \<or> r = 1 / 2 \<and> even n then n else n + 1))"

definition zero_pad :: "nat \<Rightarrow> string \<Rightarrow> string" where
  "zero_pad n s = replicate (n - length s) (CHR ''0'') @ s"

text \<open>A natural number of units of the last of \<open>dp\<close> places.\<close>

definition point_digits :: "nat \<Rightarrow> nat \<Rightarrow> string" where
  "point_digits dp n =
     show_nat (n div 10 ^ dp) @ (if dp = 0 then '''' else ''.'' @ zero_pad dp (show_nat (n mod 10 ^ dp)))"

definition sign_of :: "rat \<Rightarrow> string" where
  "sign_of x = (if x < 0 then ''-'' else '''')"

definition fmt_f :: "nat \<Rightarrow> rat \<Rightarrow> string" where
  "fmt_f dp x = sign_of x @ point_digits dp (half_even (\<bar>x\<bar> * 10 ^ dp))"

text \<open>The exponent of a positive number, and a power of ten that may be negative.\<close>

function exp10 :: "rat \<Rightarrow> int" where
  "exp10 r = (if 10 \<le> r then exp10 (r / 10) + 1 else if 0 < r \<and> r < 1 then exp10 (r * 10) - 1 else 0)"
  by pat_completeness auto
termination
proof (relation "measure (\<lambda>r. nat (if 10 \<le> r then \<lfloor>r\<rfloor> else \<lfloor>1 / r\<rfloor>))")
  fix r :: rat
  assume a: "10 \<le> r"
  have "\<lfloor>r / 10\<rfloor> < \<lfloor>r\<rfloor>" "\<lfloor>1 / (r / 10)\<rfloor> < \<lfloor>r\<rfloor>" "0 < \<lfloor>r\<rfloor>"
  proof -
    have "1 / (r / 10) \<le> 1" using a by simp
    then have "\<lfloor>1 / (r / 10)\<rfloor> \<le> 1" by (metis floor_mono floor_one)
    moreover have "10 \<le> \<lfloor>r\<rfloor>" using a by (simp add: le_floor_iff)
    ultimately show "\<lfloor>1 / (r / 10)\<rfloor> < \<lfloor>r\<rfloor>" "0 < \<lfloor>r\<rfloor>" by linarith+
    have "r / 10 < r - 1" using a by linarith
    then show "\<lfloor>r / 10\<rfloor> < \<lfloor>r\<rfloor>" by linarith
  qed
  then show "(r / 10, r) \<in> measure (\<lambda>r. nat (if 10 \<le> r then \<lfloor>r\<rfloor> else \<lfloor>1 / r\<rfloor>))" using a by auto
next
  fix r :: rat
  assume a: "\<not> 10 \<le> r" "0 < r \<and> r < 1"
  have less: "\<lfloor>q / 10\<rfloor> < \<lfloor>q\<rfloor> \<and> 0 < \<lfloor>q\<rfloor>" if q: "1 < q" for q :: rat
  proof -
    have f: "1 \<le> \<lfloor>q\<rfloor>" using q by (simp add: le_floor_iff)
    then have "1 \<le> (of_int \<lfloor>q\<rfloor> :: rat)" by (metis of_int_1_le_iff)
    then have "q / 10 < of_int \<lfloor>q\<rfloor>" using floor_correct[of q] by linarith
    then show ?thesis using f by (simp add: floor_less_iff)
  qed
  have "1 < 1 / r" "1 / (r * 10) = (1 / r) / 10" using a by simp_all
  then have "\<lfloor>1 / (r * 10)\<rfloor> < \<lfloor>1 / r\<rfloor>" "0 < \<lfloor>1 / r\<rfloor>" using less[of "1 / r"] by (simp_all only:)
  then show "(r * 10, r) \<in> measure (\<lambda>r. nat (if 10 \<le> r then \<lfloor>r\<rfloor> else \<lfloor>1 / r\<rfloor>))" using a by auto
qed simp

declare exp10.simps [simp del]

definition pow10 :: "int \<Rightarrow> rat" where
  "pow10 e = (if e \<ge> 0 then 10 ^ nat e else 1 / 10 ^ nat (- e))"

text \<open>Trailing zeros after the point go, and a point that is last.\<close>

definition trim_zeros :: "string \<Rightarrow> string" where
  "trim_zeros s =
     (if CHR ''.'' \<in> set s then rev (let t = dropWhile (\<lambda>c. c = CHR ''0'') (rev s) in if hd t = CHR ''.'' then tl t else t)
      else s)"

definition fmt_g :: "nat \<Rightarrow> rat \<Rightarrow> string" where
  "fmt_g p x =
     (if x = 0 then ''0''
      else let p = max 1 p; e = exp10 \<bar>x\<bar>; n = half_even (\<bar>x\<bar> * pow10 (int p - 1 - e));
               (n, e) = (if n = 10 ^ p then (n div 10, e + 1) else (n, e))
           in sign_of x @
              (if -4 \<le> e \<and> e < int p
               then trim_zeros (point_digits (nat (int p - 1 - e)) n)
               else trim_zeros (point_digits (p - 1) n) @ ''e'' @ (if e < 0 then ''-'' else ''+'') @ zero_pad 2 (show_nat (nat \<bar>e\<bar>))))"

section \<open>Lemmas\<close>

lemma py_round_mono: "0 \<le> x \<Longrightarrow> x \<le> y \<Longrightarrow> py_round x dp \<le> py_round y dp"
  by (auto simp: py_round_def Let_def divide_le_cancel intro!: floor_mono mult_right_mono)

lemma py_round_int: "0 \<le> n \<Longrightarrow> py_round (of_int n) dp = of_int n"
proof -
  assume "0 \<le> n"
  have "(of_int n :: rat) * 10 ^ dp + 1 / 2 = of_int (n * 10 ^ dp) + 1 / 2" by simp
  then have "\<lfloor>(of_int n :: rat) * 10 ^ dp + 1 / 2\<rfloor> = n * 10 ^ dp" by linarith
  then show ?thesis using \<open>0 \<le> n\<close> by (simp add: py_round_def Let_def)
qed

lemma py_round_near: "\<bar>py_round x dp - x\<bar> \<le> 1 / (2 * 10 ^ dp)"
proof -
  have near: "\<bar>of_int \<lfloor>y * 10 ^ dp + 1 / 2\<rfloor> / 10 ^ dp - y\<bar> \<le> 1 / (2 * 10 ^ dp)" for y :: rat
  proof -
    have "\<bar>of_int \<lfloor>y * 10 ^ dp + 1 / 2\<rfloor> - y * 10 ^ dp\<bar> \<le> 1 / 2" by linarith
    then have "\<bar>of_int \<lfloor>y * 10 ^ dp + 1 / 2\<rfloor> - y * 10 ^ dp\<bar> / 10 ^ dp \<le> 1 / 2 / 10 ^ dp" by (rule divide_right_mono) simp
    moreover have "of_int \<lfloor>y * 10 ^ dp + 1 / 2\<rfloor> / 10 ^ dp - y = (of_int \<lfloor>y * 10 ^ dp + 1 / 2\<rfloor> - y * 10 ^ dp) / 10 ^ dp"
      by (simp add: diff_divide_distrib)
    ultimately show ?thesis by (simp add: abs_divide power_abs)
  qed
  show ?thesis using near[of "\<bar>x\<bar>"] by (auto simp: py_round_def Let_def abs_if split: if_splits)
qed

end
