(* ===== verification/RadFloat.thy ===== *)
theory RadFloat
  imports PyFormat
begin

text \<open>
  The functions of \<open>bindings/python/rad_util.py\<close> on numbers that may be floats: quantiles and
  the removal of outliers, ranges of floats, and numbers with the prefixes of units.
\<close>

section \<open>Quantiles\<close>

definition quantile :: "pynum list \<Rightarrow> pynum \<Rightarrow> pynum res" where
  "quantile l p =
     (let l_sort = sort_key val l; n = PyInt (int (length l)); r = 1 + (n - 1) * p; i = n_int r; f = r - PyInt i
      in if i < int (length l)
         then rbind (py_nth l_sort (i - 1)) (\<lambda>a. rbind (py_nth l_sort i) (\<lambda>b. Inr ((1 - f) * a + f * b)))
         else py_nth l_sort (i - 1))"

text \<open>The median is computed by \<open>trim\<close> and not used; of an empty list it raises.\<close>

definition median :: "pynum list \<Rightarrow> pynum res" where
  "median l_sort =
     (let index = int (length l_sort) div 2
      in if length l_sort mod 2 = 0
         then rbind (py_nth l_sort index) (\<lambda>a. rbind (py_nth l_sort (index - 1)) (\<lambda>b. n_div (n_float (a + b)) 2))
         else py_nth l_sort index)"

definition trim :: "pynum list \<Rightarrow> pynum list res" where
  "trim l =
     (let l_sort = sort_key val l
      in rbind (median l_sort) (\<lambda>median.
         rbind (quantile l_sort (PyFloat (1 / 4))) (\<lambda>q1.
         rbind (quantile l_sort (PyFloat (3 / 4))) (\<lambda>q3.
           let iqr = q3 - q1; iqr_extra = iqr * PyFloat (3 / 2)
           in Inr (filter (\<lambda>x. x \<ge> q1 - iqr_extra \<and> x \<le> q3 + iqr_extra) l_sort)))))"

section \<open>Ranges\<close>

text \<open>The loop may run for ever: then it has no value.\<close>

partial_function (option) float_range_loop :: "pynum \<Rightarrow> pynum \<Rightarrow> pynum \<Rightarrow> pynum list \<Rightarrow> pynum list option" where
  "float_range_loop cur stop step l = (if cur < stop then float_range_loop (cur + step) stop step (l @ [cur]) else Some l)"

definition float_range :: "pynum \<Rightarrow> pynum option \<Rightarrow> pynum option \<Rightarrow> pynum list option" where
  "float_range start stop step =
     (let (start, stop) = (case stop of None \<Rightarrow> (PyFloat 0, n_float start) | Some s \<Rightarrow> (start, s));
          step = (case step of None \<Rightarrow> PyFloat 1 | Some s \<Rightarrow> s)
      in float_range_loop (n_float start) stop step [])"

section \<open>Units\<close>

definition si_prefixes :: "(pynum, string \<times> string) dict" where
  "si_prefixes =
    [(PyFloat (10 ^ 24), ''Y'', ''yotta''), (PyFloat (10 ^ 21), ''Z'', ''zetta''), (PyFloat (10 ^ 18), ''E'', ''exa''),
     (PyFloat (10 ^ 15), ''P'', ''peta''), (PyFloat (10 ^ 12), ''T'', ''tera''), (PyFloat (10 ^ 9), ''G'', ''giga''),
     (PyFloat (10 ^ 6), ''M'', ''mega''), (PyFloat (10 ^ 3), ''k'', ''kilo''), (PyFloat (1 / 10 ^ 3), ''m'', ''milli''),
     (PyFloat (1 / 10 ^ 6), ''u'', ''micro''), (PyFloat (1 / 10 ^ 9), ''n'', ''nano''), (PyFloat (1 / 10 ^ 12), ''p'', ''pico''),
     (PyFloat (1 / 10 ^ 15), ''f'', ''femto''), (PyFloat (1 / 10 ^ 18), ''a'', ''atto''), (PyFloat (1 / 10 ^ 21), ''z'', ''zepto''),
     (PyFloat (1 / 10 ^ 24), ''y'', ''yocto'')]"

definition extra_prefixes :: "(pynum, string \<times> string) dict" where
  "extra_prefixes =
    [(PyFloat (10 ^ 2), ''h'', ''hecto''), (PyFloat 10, ''da'', ''deka''), (PyFloat (1 / 10), ''d'', ''deci''),
     (PyFloat (1 / 10 ^ 2), ''c'', ''centi'')]"

definition bin_prefixes :: "(pynum, string \<times> string) dict" where
  "bin_prefixes =
    [(PyInt (2 ^ 10), ''K'', ''kilo''), (PyInt (2 ^ 20), ''M'', ''mega''), (PyInt (2 ^ 30), ''G'', ''mega''),
     (PyInt (2 ^ 40), ''T'', ''tera''), (PyInt (2 ^ 50), ''P'', ''peta''), (PyInt (2 ^ 60), ''E'', ''exa'')]"

definition unit_prefixes :: "bool \<Rightarrow> string \<Rightarrow> (pynum, string \<times> string) dict" where
  "unit_prefixes use_extra_prefixes mode =
     d_set 1 ('''', '''')
       (if mode = ''bin'' then bin_prefixes else if use_extra_prefixes then si_prefixes @ extra_prefixes else si_prefixes)"

text \<open>The loop over neighbouring multipliers, and where it finds none.\<close>

fun find_mult :: "pynum \<Rightarrow> nat \<Rightarrow> pynum list \<Rightarrow> nat option" where
  "find_mult value i (lower # upper # ms) =
     (if lower \<le> value \<and> value < upper then Some i else find_mult value (i + 1) (upper # ms))"
| "find_mult value i ms = None"

definition mult_index :: "pynum \<Rightarrow> pynum list \<Rightarrow> nat" where
  "mult_index value multipliers =
     (case find_mult value 0 multipliers of
        Some i \<Rightarrow> i
      | None \<Rightarrow> if value < hd multipliers then 0 else length multipliers - 1)"

text \<open>Where the number would be rounded to the next multiplier, that one is taken.\<close>

definition scale_value :: "pynum \<Rightarrow> pynum list \<Rightarrow> nat \<Rightarrow> nat option \<Rightarrow> (pynum \<times> pynum) res" where
  "scale_value value multipliers dp sigfigs =
     (let i = mult_index value multipliers; mult = multipliers ! i
      in rbind (n_div value mult) (\<lambda>new_value.
           if sigfigs = None \<and> i < length multipliers - 1 then
             rbind (n_div (multipliers ! (i + 1)) mult) (\<lambda>ratio.
               if py_round (val new_value) dp = py_round (val ratio) dp
               then rbind (n_div value (multipliers ! (i + 1))) (\<lambda>v. Inr (multipliers ! (i + 1), v))
               else Inr (mult, new_value))
           else Inr (mult, new_value)))"

definition nice_units ::
  "pynum \<Rightarrow> nat \<Rightarrow> nat option \<Rightarrow> string \<Rightarrow> string \<Rightarrow> bool \<Rightarrow> bool \<Rightarrow> string \<Rightarrow> string res" where
  "nice_units value dp sigfigs suffix space use_extra_prefixes use_full_name mode =
     (let prefixes = unit_prefixes use_extra_prefixes mode; multipliers = sort_key val (d_keys prefixes)
      in rbind (scale_value value multipliers dp sigfigs) (\<lambda>(mult, new_value).
           let str_value = (case sigfigs of None \<Rightarrow> fmt_f dp (val new_value) | Some s \<Rightarrow> fmt_g s (val new_value))
           in rbind (d_item prefixes mult) (\<lambda>(short, full).
                Inr (str_value @ space @ (if use_full_name then full else short) @ suffix))))"

end
