(* ===== verification/RadFloatProofs.thy ===== *)
theory RadFloatProofs
  imports RadFloat
begin

text \<open>Lemmas on quantiles, ranges of floats and units.\<close>

section \<open>Quantiles\<close>

lemma n_int_floor: "0 \<le> val x \<Longrightarrow> n_int x = \<lfloor>val x\<rfloor>"
  by (cases x) auto

text \<open>The place of a quantile between two ranks.\<close>

definition rank_of :: "nat \<Rightarrow> pynum \<Rightarrow> rat" where
  "rank_of n p = (of_nat n - 1) * val p"

lemma rank_bounds:
  assumes "0 < n" "0 \<le> val p" "val p \<le> 1"
  shows "0 \<le> \<lfloor>rank_of n p\<rfloor>" "nat \<lfloor>rank_of n p\<rfloor> < n" "frac (rank_of n p) \<noteq> 0 \<Longrightarrow> nat \<lfloor>rank_of n p\<rfloor> + 1 < n"
proof -
  have n: "0 \<le> (of_nat n - 1 :: rat)" using assms(1) by simp
  have b: "0 \<le> rank_of n p" "rank_of n p \<le> of_nat n - 1"
    using mult_nonneg_nonneg[OF n assms(2)] mult_left_mono[OF assms(3) n] by (simp_all add: rank_of_def)
  show 0: "0 \<le> \<lfloor>rank_of n p\<rfloor>" using b(1) by simp
  have "\<lfloor>rank_of n p\<rfloor> \<le> int n - 1" using b(2) by (simp add: floor_le_iff) linarith
  then show 1: "nat \<lfloor>rank_of n p\<rfloor> < n" using assms(1) by linarith
  show "nat \<lfloor>rank_of n p\<rfloor> + 1 < n" if "frac (rank_of n p) \<noteq> 0"
  proof (rule ccontr)
    assume "\<not> nat \<lfloor>rank_of n p\<rfloor> + 1 < n"
    then have "int n - 1 = \<lfloor>rank_of n p\<rfloor>" using 0 1 by linarith
    then have "rank_of n p \<le> of_int \<lfloor>rank_of n p\<rfloor>" using b(2) by (metis of_int_1 of_int_diff of_int_of_nat_eq)
    then have "frac (rank_of n p) \<le> 0" by (simp add: frac_def)
    then show False using that frac_ge_0[of "rank_of n p"] by linarith
  qed
qed

lemma quantile_value:
  assumes "l \<noteq> []" "0 \<le> val p" "val p \<le> 1" "s = sort_key val l" "x = rank_of (length l) p" "k = nat \<lfloor>x\<rfloor>"
  obtains v where "quantile l p = Inr v" "val v = (1 - frac x) * val (s ! k) + frac x * val (s ! (if k + 1 < length l then k + 1 else k))"
proof -
  have n: "0 < length l" using assms(1) by simp
  note B = rank_bounds[OF n assms(2,3), folded assms(5)]
  let ?r = "1 + (PyInt (int (length l)) - 1) * p"
  have r: "val ?r = 1 + x" by (simp add: assms(5) rank_of_def)
  have i: "n_int ?r = int k + 1"
  proof -
    have "0 \<le> val ?r" using B(1) unfolding r by linarith
    then have "n_int ?r = \<lfloor>1 + x\<rfloor>" using n_int_floor[of ?r] by (simp only: r)
    moreover have "\<lfloor>1 + x\<rfloor> = \<lfloor>x\<rfloor> + 1" by linarith
    ultimately show ?thesis using B(1) assms(6) by linarith
  qed
  have f: "val (?r - PyInt (int k + 1)) = frac x"
    using B(1) r by (simp add: frac_def assms(6))
  have len: "length s = length l" by (simp add: assms(4))
  have k: "k < length l" using B(2) by (simp add: assms(6))
  show ?thesis
  proof (cases "k + 1 < length l")
    case True
    then have "py_nth s (int k + 1) = Inr (s ! (k + 1))" "py_nth s (int k) = Inr (s ! k)"
      using py_nth_nat[of "k + 1" s] k len by (simp_all add: add.commute)
    then show ?thesis using that True f i by (simp add: quantile_def Let_def flip: assms(4))
  next
    case False
    then have "quantile l p = Inr (s ! k)" using i k len by (simp add: quantile_def Let_def flip: assms(4))
    moreover have "frac x = 0" using B(3) False by (auto simp: assms(6))
    ultimately show ?thesis using that False by (simp del: frac_eq_0_iff)
  qed
qed

lemma sorted_nth_le: "sorted (map val s) \<Longrightarrow> i \<le> j \<Longrightarrow> j < length s \<Longrightarrow> val (s ! i) \<le> val (s ! j)"
  using sorted_nth_mono[of "map val s" i j] by simp

lemma between:
  assumes "a \<le> b" "0 \<le> t" "t \<le> (1 :: rat)"
  shows "a \<le> (1 - t) * a + t * b" "(1 - t) * a + t * b \<le> b"
proof -
  have "t * a \<le> t * b" "(1 - t) * a \<le> (1 - t) * b" using assms by (simp_all add: mult_left_mono)
  then show "a \<le> (1 - t) * a + t * b" "(1 - t) * a + t * b \<le> b" by (simp_all add: algebra_simps)
qed

text \<open>How many elements of a sorted list lie on one side of a value.\<close>

lemma filter_split: "length (filter P s) = length (filter P (take k s)) + length (filter P (drop k s))"
  by (metis append_take_drop_id filter_append length_append)

lemma count_below:
  assumes "sorted (map val s)" "k < length s" "val (s ! k) \<le> v"
  shows "k + 1 \<le> length (filter (\<lambda>x. val x \<le> v) s)"
proof -
  have "\<forall>x \<in> set (take (k + 1) s). val x \<le> v"
    using assms sorted_nth_le[OF assms(1)] by (auto simp: in_set_conv_nth) (meson less_Suc_eq_le order_trans)
  then have "filter (\<lambda>x. val x \<le> v) (take (k + 1) s) = take (k + 1) s" by simp
  then show ?thesis using assms(2) filter_split[of "\<lambda>x. val x \<le> v" s "k + 1"] by simp
qed

lemma count_above:
  assumes "sorted (map val s)" "k < length s" "v \<le> val (s ! k)"
  shows "length s - k \<le> length (filter (\<lambda>x. v \<le> val x) s)"
proof -
  have "\<forall>x \<in> set (drop k s). v \<le> val x"
    using assms sorted_nth_le[OF assms(1)] by (auto simp: in_set_conv_nth) (metis le_add1 less_diff_conv add.commute order_trans)
  then have "filter (\<lambda>x. v \<le> val x) (drop k s) = drop k s" by simp
  then show ?thesis using filter_split[of "\<lambda>x. v \<le> val x" s k] by simp
qed

lemma length_filter_sort: "length (filter P (sort_key f l)) = length (filter P l)"
  by (metis mset_filter mset_sort size_mset)

lemma quantile_counts:
  assumes "l \<noteq> []" "0 \<le> val p" "val p \<le> 1"
  obtains v where "quantile l p = Inr v"
    "rank_of (length l) p < of_nat (length (filter (\<lambda>x. val x \<le> val v) l))"
    "of_nat (length l) - 1 - rank_of (length l) p < of_nat (length (filter (\<lambda>x. val v \<le> val x) l))"
proof -
  define s x k where d: "s = sort_key val l" "x = rank_of (length l) p" "k = nat \<lfloor>x\<rfloor>"
  obtain v where v: "quantile l p = Inr v" "val v = (1 - frac x) * val (s ! k) + frac x * val (s ! (if k + 1 < length l then k + 1 else k))"
    using quantile_value[OF assms d] by blast
  have n: "0 < length l" using assms(1) by simp
  note B = rank_bounds[OF n assms(2,3), folded d(2), folded d(3)]
  have s: "sorted (map val s)" "length s = length l" by (simp_all add: d(1))
  have fx: "0 \<le> frac x" "frac x \<le> 1" using frac_lt_1[of x] by (simp_all add: less_imp_le)
  have x: "x = of_nat k + frac x" using B(1) by (simp add: frac_def d(3))
  let ?b = "s ! (if k + 1 < length l then k + 1 else k)"
  have le: "val (s ! k) \<le> val v" "val v \<le> val ?b"
    using between[OF sorted_nth_le[OF s(1), of k "if k + 1 < length l then k + 1 else k"] fx] B(2) s(2) v(2) by auto
  have "k + 1 \<le> length (filter (\<lambda>x. val x \<le> val v) s)" using count_below[OF s(1) _ le(1)] B(2) s(2) by simp
  then have 1: "k + 1 \<le> length (filter (\<lambda>x. val x \<le> val v) l)" by (simp add: d(1) length_filter_sort)
  have "x < of_nat (length (filter (\<lambda>x. val x \<le> val v) l))"
  proof -
    have "of_nat (k + 1) \<le> (of_nat (length (filter (\<lambda>x. val x \<le> val v) l)) :: rat)" using 1 by (simp only: of_nat_le_iff)
    then show ?thesis using x frac_lt_1[of x] by simp
  qed
  moreover have "of_nat (length l) - 1 - x < of_nat (length (filter (\<lambda>x. val v \<le> val x) l))"
  proof (cases "frac x = 0")
    case True
    then have "val v = val (s ! k)" using v(2) by (simp del: frac_eq_0_iff)
    then have "length s - k \<le> length (filter (\<lambda>x. val v \<le> val x) s)" using count_above[OF s(1), of k "val v"] B(2) s(2) by simp
    then have "length l - k \<le> length (filter (\<lambda>x. val v \<le> val x) l)" using s(2) by (simp add: d(1) length_filter_sort)
    then have "of_nat (length l - k) \<le> (of_nat (length (filter (\<lambda>x. val v \<le> val x) l)) :: rat)" by (simp only: of_nat_le_iff)
    then show ?thesis using x True B(2) by (simp add: of_nat_diff)
  next
    case False
    then have k: "k + 1 < length l" using B(3) by simp
    then have "length s - (k + 1) \<le> length (filter (\<lambda>x. val v \<le> val x) s)" using count_above[OF s(1), of "k + 1" "val v"] le(2) s(2) by simp
    then have "length l - (k + 1) \<le> length (filter (\<lambda>x. val v \<le> val x) l)" using s(2) by (simp add: d(1) length_filter_sort)
    then have "of_nat (length l - (k + 1)) \<le> (of_nat (length (filter (\<lambda>x. val v \<le> val x) l)) :: rat)" by (simp only: of_nat_le_iff)
    moreover have "0 < frac x" using False fx(1) by linarith
    ultimately show ?thesis using x k by (simp add: of_nat_diff del: frac_gt_0_iff)
  qed
  ultimately show ?thesis using v(1) d(2) by (intro that) simp_all
qed


lemma between_mono:
  assumes "a \<le> b" "t \<le> (t' :: rat)"
  shows "(1 - t) * a + t * b \<le> (1 - t') * a + t' * b"
proof -
  have "0 \<le> (t' - t) * (b - a)" using assms by simp
  then show ?thesis by (simp add: algebra_simps)
qed

lemma quantile_mono:
  assumes "l \<noteq> []" "0 \<le> val p" "val p \<le> val p'" "val p' \<le> 1" "quantile l p = Inr v" "quantile l p' = Inr v'"
  shows "val v \<le> val v'"
proof -
  define s x k x' k' where d: "s = sort_key val l" "x = rank_of (length l) p" "k = nat \<lfloor>x\<rfloor>"
    "x' = rank_of (length l) p'" "k' = nat \<lfloor>x'\<rfloor>"
  let ?b = "\<lambda>k. s ! (if k + 1 < length l then k + 1 else k)"
  have p: "val p \<le> 1" "0 \<le> val p'" using assms by linarith+
  have "val v = (1 - frac x) * val (s ! k) + frac x * val (?b k)"
    by (rule quantile_value[OF assms(1,2) p(1) d(1-3)]) (simp only: assms(5) sum.inject)
  moreover have "val v' = (1 - frac x') * val (s ! k') + frac x' * val (?b k')"
    by (rule quantile_value[OF assms(1) p(2) assms(4) d(1,4,5)]) (simp only: assms(6) sum.inject)
  ultimately have v: "val v = (1 - frac x) * val (s ! k) + frac x * val (?b k)"
    "val v' = (1 - frac x') * val (s ! k') + frac x' * val (?b k')" .
  have n: "0 < length l" using assms(1) by simp
  note B = rank_bounds[OF n assms(2) p(1), folded d(2), folded d(3)] rank_bounds[OF n p(2) assms(4), folded d(4), folded d(5)]
  have s: "sorted (map val s)" "length s = length l" by (simp_all add: d(1))
  have "0 \<le> (of_nat (length l) - 1 :: rat)" using n by (cases "length l") simp_all
  then have le: "x \<le> x'" unfolding d(2,4) rank_of_def using assms(3) by (rule mult_left_mono[rotated])
  have f: "0 \<le> frac y \<and> frac y \<le> 1" for y :: rat using frac_lt_1[of y] by (simp add: less_imp_le)
  have up: "val (s ! j) \<le> val (?b j)" if "j < length l" for j using sorted_nth_le[OF s(1)] that s(2) by auto
  consider "k = k'" | "k + 1 \<le> k'" using floor_mono[OF le] B(1) d(3,5) by linarith
  then show ?thesis
  proof cases
    case 1
    then have "\<lfloor>x\<rfloor> = \<lfloor>x'\<rfloor>" using B(1,4) d(3,5) by linarith
    then have "frac x \<le> frac x'" using le by (simp add: frac_def)
    then show ?thesis using between_mono[OF up[OF B(2)]] unfolding v 1 by blast
  next
    case 2
    have "val v \<le> val (?b k)" using between(2)[OF up] B(2) f v(1) by simp
    also have "\<dots> \<le> val (s ! k')" using sorted_nth_le[OF s(1)] 2 B(5) s(2) by simp
    also have "\<dots> \<le> val v'" using between(1)[OF up] B(5) f v(2) by simp
    finally show ?thesis .
  qed
qed

lemma quantile_sorted: "quantile (sort_key val l) p = quantile l p"
  by (simp add: quantile_def sort_key_id_if_sorted)

lemma median_total: "s \<noteq> [] \<Longrightarrow> \<exists>m. median s = Inr m"
proof -
  assume "s \<noteq> []"
  then have n: "length s div 2 < length s" by simp
  have e: "length s div 2 - 1 < length s" "int (length s) div 2 - 1 = int (length s div 2 - 1)" if "length s mod 2 = 0"
  proof -
    obtain m where "length s = 2 * m" using \<open>length s mod 2 = 0\<close> by (metis mult.commute div_mult_mod_eq add_0_right)
    then show "length s div 2 - 1 < length s" "int (length s) div 2 - 1 = int (length s div 2 - 1)"
      using \<open>s \<noteq> []\<close> by (cases m; simp)+
  qed
  have d: "\<exists>m. n_div (n_float x) 2 = Inr m" for x by (simp add: n_float_def numeral_pynum)
  have i: "int (length s) div 2 = int (length s div 2)" by (simp add: zdiv_int)
  have "py_nth s (int (length s) div 2) = Inr (s ! (length s div 2))" unfolding i using n by (rule py_nth_nat)
  then show ?thesis using e d by (auto simp: median_def Let_def)
qed

lemma trim_spec:
  assumes "l \<noteq> []"
  obtains t q1 q3 where "trim l = Inr t" "quantile l (PyFloat (1 / 4)) = Inr q1" "quantile l (PyFloat (3 / 4)) = Inr q3"
    "val q1 \<le> val q3" "sorted (map val t)"
    "mset t = filter_mset (\<lambda>x. val q1 - (val q3 - val q1) * (3 / 2) \<le> val x \<and> val x \<le> val q3 + (val q3 - val q1) * (3 / 2)) (mset l)"
    "length l \<le> 2 * length t + 2"
proof -
  obtain q1 where q1: "quantile l (PyFloat (1 / 4)) = Inr q1"
    "of_nat (length l) - 1 - rank_of (length l) (PyFloat (1 / 4)) < of_nat (length (filter (\<lambda>x. val q1 \<le> val x) l))"
    using quantile_counts[OF assms, of "PyFloat (1 / 4)"] by auto
  obtain q3 where q3: "quantile l (PyFloat (3 / 4)) = Inr q3"
    "rank_of (length l) (PyFloat (3 / 4)) < of_nat (length (filter (\<lambda>x. val x \<le> val q3) l))"
    using quantile_counts[OF assms, of "PyFloat (3 / 4)"] by auto
  have le: "val q1 \<le> val q3" using quantile_mono[OF assms, of "PyFloat (1 / 4)" "PyFloat (3 / 4)"] q1(1) q3(1) by simp
  let ?in = "\<lambda>x. val q1 - (val q3 - val q1) * (3 / 2) \<le> val x \<and> val x \<le> val q3 + (val q3 - val q1) * (3 / 2)"
  define t where "t = filter ?in (sort_key val l)"
  have "sort_key val l \<noteq> []" using assms by (metis length_0_conv length_sort)
  then have "trim l = Inr t"
    using median_total q1(1) q3(1) by (fastforce simp: trim_def Let_def quantile_sorted t_def)
  moreover have "sorted (map val t)" by (simp add: t_def sorted_filter)
  moreover have "mset t = filter_mset ?in (mset l)" by (simp add: t_def)
  moreover have "length l \<le> 2 * length t + 2"
  proof -
    let ?a = "filter (\<lambda>x. val q1 \<le> val x) l" and ?b = "filter (\<lambda>x. val x \<le> val q3) l"
    have "length ?a + length ?b \<le> length l + length (filter ?in l)"
    proof (induction l)
      case (Cons y l)
      have "val q1 \<le> val y \<and> val y \<le> val q3 \<longrightarrow> ?in y" using le by (auto simp: field_simps)
      then show ?case using Cons.IH by auto
    qed simp
    moreover have "length (filter ?in l) = length t" by (simp add: t_def length_filter_sort)
    ultimately have "(of_nat (length ?a) + of_nat (length ?b) :: rat) \<le> of_nat (length l) + of_nat (length t)"
      by (metis of_nat_add of_nat_le_iff)
    then have "(of_nat (length l) :: rat) - 3 < 2 * of_nat (length t)"
      using q1(2) q3(2) unfolding rank_of_def val.simps by (simp add: field_simps)
    then have "(of_nat (length l) :: rat) < of_nat (2 * length t + 3)" by simp
    then show ?thesis by linarith
  qed
  ultimately show ?thesis using that q1(1) q3(1) le by blast
qed


section \<open>Ranges\<close>

lemma loop_ends:
  assumes "0 < val step"
  shows "float_range_loop cur stop step l =
    Some (l @ map (\<lambda>i. ((\<lambda>c. c + step) ^^ i) cur) [0..<nat \<lceil>(val stop - val cur) / val step\<rceil>])"
proof (induction "nat \<lceil>(val stop - val cur) / val step\<rceil>" arbitrary: cur l)
  case 0
  then have "(val stop - val cur) / val step \<le> 0" by simp
  then have "\<not> val cur < val stop" using assms by (simp add: divide_le_0_iff)
  then show ?case using 0 by (subst float_range_loop.simps) simp
next
  case (Suc n)
  let ?q = "(val stop - val cur) / val step"
  have "0 < ?q" using Suc.hyps(2) by linarith
  then have less: "val cur < val stop" using assms by (simp add: zero_less_divide_iff)
  have "(val stop - val (cur + step)) / val step = ?q - 1" using assms by (simp add: diff_divide_distrib add_divide_distrib)
  then have n: "n = nat \<lceil>(val stop - val (cur + step)) / val step\<rceil>" using Suc.hyps(2) by simp
  have "[0..<Suc n] = 0 # map Suc [0..<n]" by (simp add: map_Suc_upt upt_conv_Cons del: upt_Suc)
  then show ?case using less Suc.hyps(1)[OF n, of "l @ [cur]"]
    by (subst float_range_loop.simps) (simp add: comp_def funpow_Suc_right flip: n[simplified] Suc.hyps(2) del: funpow.simps(2) upt_Suc)
qed

lemma loop_for_ever: "float_range_loop cur stop step l = Some r \<Longrightarrow> val cur < val stop \<Longrightarrow> 0 < val step"
proof (rule ccontr)
  assume r: "float_range_loop cur stop step l = Some r" and "val cur < val stop" "\<not> 0 < val step"
  have "val cur < val stop \<longrightarrow> 0 < val step"
  proof (rule float_range_loop.raw_induct[OF _ r])
    fix loop cur stop step l r
    assume "\<And>cur stop step l r. loop cur stop step l = Some r \<Longrightarrow> val cur < val stop \<longrightarrow> 0 < val step"
      and "(if cur < stop then loop (cur + step) stop step (l @ [cur]) else Some l) = Some r"
    then show "val cur < val stop \<longrightarrow> 0 < val step" by (auto split: if_splits) force
  qed
  then show False using \<open>val cur < val stop\<close> \<open>\<not> 0 < val step\<close> by blast
qed

lemma add_times: "((\<lambda>c. c + step) ^^ i) (PyFloat c) = PyFloat (c + of_nat i * val step)"
proof (induction i)
  case (Suc i)
  have "PyFloat x + step = PyFloat (x + val step)" for x by (cases step) simp_all
  then show ?case using Suc by (simp add: algebra_simps)
qed simp

section \<open>Units\<close>

lemma find_mult_spec:
  assumes "sorted (map val (m # ms))" "val m \<le> val value"
  shows "case find_mult value i (m # ms) of
      Some j \<Rightarrow> \<exists>k. j = i + k \<and> k + 1 < length (m # ms) \<and> val ((m # ms) ! k) \<le> val value \<and> val value < val ((m # ms) ! (k + 1))
    | None \<Rightarrow> val (last (m # ms)) \<le> val value"
  using assms
proof (induction ms arbitrary: m i)
  case (Cons u ms)
  show ?case
  proof (cases "val value < val u")
    case True
    then show ?thesis using Cons.prems by (auto intro!: exI[of _ 0])
  next
    case False
    then have "find_mult value i (m # u # ms) = find_mult value (i + 1) (u # ms)" by simp
    then show ?thesis using Cons.IH[of u "i + 1"] Cons.prems False
      by (force split: option.splits simp: nth_Cons)
  qed
qed simp


definition si_multipliers :: "bool \<Rightarrow> pynum list" where
  "si_multipliers use_extra =
     map (\<lambda>e. PyFloat (1 / 10 ^ e)) [24, 21, 18, 15, 12, 9, 6, 3] @ (if use_extra then [PyFloat (1 / 10 ^ 2), PyFloat (1 / 10)] else [])
     @ [1] @ (if use_extra then [PyFloat 10, PyFloat (10 ^ 2)] else []) @ map (\<lambda>e. PyFloat (10 ^ e)) [3, 6, 9, 12, 15, 18, 21, 24]"

lemma si_keys:
  "d_keys (unit_prefixes use_extra ''si'') =
     map (\<lambda>e. PyFloat (10 ^ e)) [24, 21, 18, 15, 12, 9, 6, 3] @ map (\<lambda>e. PyFloat (1 / 10 ^ e)) [3, 6, 9, 12, 15, 18, 21, 24]
     @ (if use_extra then [PyFloat (10 ^ 2), PyFloat 10, PyFloat (1 / 10), PyFloat (1 / 10 ^ 2)] else []) @ [1]"
  by (simp add: unit_prefixes_def si_prefixes_def extra_prefixes_def d_keys_def d_set_def one_pynum_def)

lemma si_sorted: "sorted (map val (si_multipliers use_extra))" "distinct (map val (si_multipliers use_extra))"
proof -
  have "sorted_wrt (<) (map val (si_multipliers use_extra))" by (cases use_extra) (simp_all add: si_multipliers_def)
  then show "sorted (map val (si_multipliers use_extra))" "distinct (map val (si_multipliers use_extra))"
    by (simp_all add: strict_sorted_iff)
qed

lemma sorted_multipliers: "sort_key val (d_keys (unit_prefixes use_extra ''si'')) = si_multipliers use_extra"
proof (rule sort_key_inj_key_eq)
  show m: "mset (d_keys (unit_prefixes use_extra ''si'')) = mset (si_multipliers use_extra)"
    by (cases use_extra) (simp_all add: si_keys si_multipliers_def)
  show "inj_on val (set (d_keys (unit_prefixes use_extra ''si'')))"
    using si_sorted(2) mset_eq_setD[OF m] by (simp add: distinct_map)
qed (rule si_sorted)

definition steps_up :: "pynum \<Rightarrow> pynum \<Rightarrow> bool" where
  "steps_up a b \<longleftrightarrow> (\<exists>r \<in> {10, 100, 1000 :: int}. val b = of_int r * val a)"

lemma si_steps: "k + 1 < length (si_multipliers use_extra) \<Longrightarrow> steps_up (si_multipliers use_extra ! k) (si_multipliers use_extra ! (k + 1))"
proof -
  assume k: "k + 1 < length (si_multipliers use_extra)"
  have "successively steps_up (si_multipliers use_extra)" by (cases use_extra) (simp_all add: si_multipliers_def steps_up_def)
  then show ?thesis using k by (simp add: successively_conv_nth)
qed

lemma si_member:
  assumes "m \<in> set (si_multipliers use_extra)"
  shows "0 < val m" "\<exists>v. n_div value m = Inr v \<and> val v = val value / val m" "d_has (unit_prefixes use_extra ''si'') m"
proof -
  have "m = 1 \<or> (\<exists>r. m = PyFloat r \<and> 0 < r)" using assms by (auto simp: si_multipliers_def split: if_splits)
  then show "0 < val m" "\<exists>v. n_div value m = Inr v \<and> val v = val value / val m"
    by (cases "value"; auto simp: one_pynum_def)+
  have "m \<in> set (d_keys (unit_prefixes use_extra ''si''))"
    using assms sorted_multipliers[of use_extra] by (metis set_sort)
  then have "m \<in> fst ` set (unit_prefixes use_extra ''si'')" by (simp add: d_keys_def)
  then show "d_has (unit_prefixes use_extra ''si'') m"
    using map_of_eq_None_iff[of "unit_prefixes use_extra ''si''" m] unfolding d_has_def d_get_def by blast
qed


lemma round_up_to_one:
  assumes "1 \<le> ratio" "ratio - 1 / (2 * 10 ^ dp) \<le> q" "0 \<le> q"
  shows "1 \<le> py_round (q / ratio) dp"
proof -
  have "1 - 1 / (2 * 10 ^ dp) \<le> 1 - 1 / (2 * 10 ^ dp) / ratio"
    using assms(1) by (simp add: field_simps)
  also have "\<dots> = (ratio - 1 / (2 * 10 ^ dp)) / ratio" using assms(1) by (simp add: diff_divide_distrib)
  also have "\<dots> \<le> q / ratio" using assms(1,2) by (simp add: divide_right_mono)
  finally have "(1 - 1 / (2 * 10 ^ dp)) * 10 ^ dp \<le> q / ratio * 10 ^ dp" by (rule mult_right_mono) simp
  then have "of_int (10 ^ dp) \<le> q / ratio * 10 ^ dp + 1 / 2" by (simp add: left_diff_distrib)
  then have "10 ^ dp \<le> \<lfloor>q / ratio * 10 ^ dp + 1 / 2\<rfloor>" by (simp only: le_floor_iff)
  then have "(10 ^ dp :: rat) \<le> of_int \<lfloor>q / ratio * 10 ^ dp + 1 / 2\<rfloor>" by (metis of_int_le_iff of_int_numeral of_int_power)
  moreover have "\<bar>q / ratio\<bar> = q / ratio" "\<not> q / ratio < 0" using assms(1,3) by (simp_all add: divide_less_0_iff)
  ultimately show ?thesis unfolding py_round_def Let_def by simp
qed

lemma scale_value_spec:
  assumes "1 / 10 ^ 24 \<le> val x" "ms = si_multipliers use_extra"
  obtains m v where "scale_value x ms dp None = Inr (m, v)" "m \<in> set ms" "val v = val x / val m"
    "1 \<le> py_round (val v) dp" "val x < 10 ^ 24 \<Longrightarrow> py_round (val v) dp < 1000"
proof -
  define i where "i = mult_index x ms"
  note S = si_sorted(1)[of use_extra, folded assms(2)]
  have M: "m \<in> set ms \<Longrightarrow> 0 < val m" "m \<in> set ms \<Longrightarrow> \<exists>v. n_div y m = Inr v \<and> val v = val y / val m" for m y
    using si_member(1,2)[of m use_extra] assms(2) by auto
  obtain tl where ms: "ms = hd ms # tl" "val (hd ms) = 1 / 10 ^ 24" "val (last ms) = 10 ^ 24"
    by (cases use_extra) (simp_all add: assms(2) si_multipliers_def)
  have up: "\<not> x < hd ms" using assms(1) ms(2) by simp
  have ne: "ms \<noteq> []" using ms(1) by auto
  have found: "case find_mult x 0 ms of
      Some j \<Rightarrow> \<exists>k. j = 0 + k \<and> k + 1 < length ms \<and> val (ms ! k) \<le> val x \<and> val x < val (ms ! (k + 1))
    | None \<Rightarrow> val (last ms) \<le> val x"
    by (rule find_mult_spec[of "hd ms" tl x 0, folded ms(1), OF S]) (simp only: ms(2) assms(1))
  consider (gap) "i + 1 < length ms" "val (ms ! i) \<le> val x" "val x < val (ms ! (i + 1))"
    | (top) "i = length ms - 1" "10 ^ 24 \<le> val x"
  proof (cases "find_mult x 0 ms")
    case None
    then have "i = length ms - 1" "10 ^ 24 \<le> val x"
      using found up by (simp_all only: i_def mult_index_def option.case if_False ms(3))
    then show ?thesis using that(2) by blast
  next
    case (Some j)
    then have "i = j" by (simp add: i_def mult_index_def)
    then show ?thesis using found that(1) unfolding Some by auto
  qed
  then show ?thesis
  proof cases
    case gap
    then have mem: "ms ! i \<in> set ms" "ms ! (i + 1) \<in> set ms" and less: "i < length ms - 1" by simp_all
    obtain q where q: "n_div x (ms ! i) = Inr q" "val q = val x / val (ms ! i)" using M(2)[OF mem(1)] by blast
    obtain ratio where r: "n_div (ms ! (i + 1)) (ms ! i) = Inr ratio" "val ratio = val (ms ! (i + 1)) / val (ms ! i)"
      using M(2)[OF mem(1)] by blast
    obtain w where w: "n_div x (ms ! (i + 1)) = Inr w" "val w = val x / val (ms ! (i + 1))" using M(2)[OF mem(2)] by blast
    have pos: "0 < val (ms ! i)" "0 < val (ms ! (i + 1))" using M(1) mem by blast+
    obtain n where n: "n \<in> {10, 100, 1000 :: int}" "val (ms ! (i + 1)) = of_int n * val (ms ! i)"
      using si_steps[of i use_extra] gap(1) unfolding assms(2) steps_up_def by blast
    then have ratio: "val ratio = of_int n" using r(2) pos by simp
    have n0: "0 \<le> n" "1 \<le> n" "n \<le> 1000" using n(1) by auto
    have qb: "1 \<le> val q" "val q < of_int n" using gap(2,3) pos n(2) by (simp_all add: q(2) field_simps)
    have rr: "1 \<le> py_round (val q) dp" "py_round (val q) dp \<le> of_int n" "py_round (of_int n) dp = of_int n"
      using py_round_mono[of 1 "val q" dp] py_round_mono[of "val q" "of_int n" dp] py_round_int[of 1 dp] py_round_int[OF n0(1), of dp] qb
      by simp_all
    show ?thesis
    proof (cases "py_round (val q) dp = of_int n")
      case True
      then have "scale_value x ms dp None = Inr (ms ! (i + 1), w)"
        using less q(1) r(1) w(1) ratio rr(3) by (simp add: scale_value_def Let_def flip: i_def)
      moreover have wq: "val w = val q / of_int n" unfolding w(2) q(2) n(2) by (simp add: mult.commute)
      moreover have "1 \<le> py_round (val q / of_int n) dp"
        using round_up_to_one[of "of_int n" dp "val q"] py_round_near[of "val q" dp] True qb n0(2) by simp
      moreover have "py_round (val q / of_int n) dp \<le> 1"
      proof -
        have "0 \<le> val q / of_int n" "val q / of_int n \<le> 1" using qb n0 by simp_all
        then show ?thesis using py_round_mono[of "val q / of_int n" 1 dp] py_round_int[of 1 dp] by simp
      qed
      ultimately show ?thesis using that[of "ms ! (i + 1)" w] mem(2) w(2) by simp
    next
      case False
      then have "scale_value x ms dp None = Inr (ms ! i, q)"
        using less q(1) r(1) ratio rr(3) False by (simp add: scale_value_def Let_def flip: i_def)
      moreover have "py_round (val q) dp < 1000" 
      proof -
        have "(of_int n :: rat) \<le> 1000" using n0(3) by (metis of_int_le_iff of_int_numeral)
        then show ?thesis using rr(2) False by linarith
      qed
      ultimately show ?thesis using that[of "ms ! i" q] mem(1) q(2) rr(1) by simp
    qed
  next
    case top
    then have mem: "ms ! i \<in> set ms" "ms ! i = last ms" using ne by (simp_all add: last_conv_nth)
    obtain q where q: "n_div x (ms ! i) = Inr q" "val q = val x / 10 ^ 24" using M(2)[OF mem(1)] mem(2) ms(3) by auto
    then have "scale_value x ms dp None = Inr (ms ! i, q)" using top(1) by (simp add: scale_value_def Let_def flip: i_def)
    moreover have "1 \<le> py_round (val q) dp"
      using py_round_mono[of 1 "val q" dp] py_round_int[of 1 dp] top(2) unfolding q(2) by (simp add: le_divide_eq)
    ultimately show ?thesis using that[of "ms ! i" q] mem q(2) ms(3) top(2) by simp
  qed
qed

end
