(* ===== verification/RadProps.thy ===== *)
theory RadProps
  imports TopsortLevels FindCycles RadInt RadFloatProofs
begin

text \<open>
  The properties of \<open>bindings/python/topsort.py\<close> and \<open>bindings/python/rad_util.py\<close>, each with
  an application to concrete data.
\<close>

section \<open>topsort.py\<close>

text \<open>C10. For every list of (parent, child) pairs and every order in which Python lists
  the keys of a dictionary, \<open>topsort\<close> ends in one of two ways: where the pairs have no cycle it
  returns every element once, each parent before its children, and where they have one it raises
  \<open>CycleError\<close>. It never raises \<open>KeyError\<close>.\<close>

theorem topsort_sorts:
  assumes "key_order ord"
  shows "(acyclic (set pairs) \<and> (\<exists>answer. topsort ord pairs = Inr answer \<and> set answer = nodes pairs
            \<and> distinct answer \<and> topo_ordered pairs answer))
       \<or> (\<not> acyclic (set pairs) \<and> (\<exists>answer np ch. topsort ord pairs = Inl (CycleError answer np ch)))"
  using topsort_cases[OF assms, of pairs] by metis

theorem topsort_sorts_witness:
  "topsort (\<lambda>ks. ks) [(1::nat, 2), (3, 4), (5, 6), (1, 3), (1, 5), (1, 6), (2, 5)] = Inr [1, 2, 3, 5, 4, 6]
   \<and> acyclic (set [(1::nat, 2), (3, 4), (5, 6), (1, 3), (1, 5), (1, 6), (2, 5)])"
proof -
  have "topsort (\<lambda>ks. ks) [(1::nat, 2), (3, 4), (5, 6), (1, 3), (1, 5), (1, 6), (2, 5)] = Inr [1, 2, 3, 5, 4, 6]"
    by code_simp
  then show ?thesis
    using topsort_sorts[OF key_order_id(1), of "[(1::nat, 2), (3, 4), (5, 6), (1, 3), (1, 5), (1, 6), (2, 5)]"]
    by (metis sum.distinct(1))
qed

text \<open>C33. The generator \<open>topsort_levels\<close> yields levels without repetitions in
  which every element stands after all its parents, and in the first level where it can: an element
  of a later level has a parent in the level before. It ends normally having yielded every element
  where the pairs have no cycle, and with \<open>CycleError\<close> where they have one.\<close>

theorem topsort_levels_layers:
  assumes "key_order ord"
  shows "\<exists>levels e. topsort_levels ord pairs = (levels, e) \<and> distinct (concat levels)
    \<and> topo_ordered pairs (concat levels)
    \<and> (\<forall>i < length levels. \<forall>v \<in> set (levels ! i).
         (\<forall>a. (a, v) \<in> set pairs \<longrightarrow> (\<exists>j < i. a \<in> set (levels ! j)))
         \<and> (0 < i \<longrightarrow> (\<exists>a. (a, v) \<in> set pairs \<and> a \<in> set (levels ! (i - 1)))))
    \<and> (e = Exhausted \<and> set (concat levels) = nodes pairs \<and> acyclic (set pairs)
       \<or> (\<exists>np ch. e = LevelCycle np ch) \<and> \<not> acyclic (set pairs))"
proof -
  obtain ls e where ls: "topsort_levels ord pairs = (ls, e)" "layered pairs {} ls"
    "e = Exhausted \<and> nodes pairs \<subseteq> \<Union> (set ` set ls) \<or> (\<exists>np ch. e = LevelCycle np ch) \<and> \<not> acyclic (set pairs)"
    using topsort_levels_spec[OF assms] by blast
  have d: "distinct (concat ls)" "set (concat ls) \<subseteq> nodes pairs" using layered_distinct[OF ls(2)] by auto
  have t: "topo_ordered pairs (concat ls)" using layered_topo_ordered[OF ls(2), of "[]"] by simp
  have "acyclic (set pairs)" if "nodes pairs \<subseteq> \<Union> (set ` set ls)"
    using topo_ordered_acyclic[OF t] that d by auto
  then show ?thesis
    using ls(1,3) d t layered_parents[OF ls(2)] by (intro exI[of _ ls] exI[of _ e]) auto
qed

theorem topsort_levels_layers_witness:
  "topsort_levels (\<lambda>ks. ks) [(1::nat, 2), (1, 3), (2, 4), (3, 4)] = ([[1], [2, 3], [4]], Exhausted)
   \<and> acyclic (set [(1::nat, 2), (1, 3), (2, 4), (3, 4)])"
proof -
  have "topsort_levels (\<lambda>ks. ks) [(1::nat, 2), (1, 3), (2, 4), (3, 4)] = ([[1], [2, 3], [4]], Exhausted)"
    by code_simp
  then show ?thesis
    using topsort_levels_layers[OF key_order_id(1), of "[(1::nat, 2), (1, 3), (2, 4), (3, 4)]"] by auto
qed

text \<open>C9. \<open>find_cycles\<close> raises nothing and yields exactly the elementary cycles of
  the graph, each once up to rotation: every list it yields is a cycle, no two are rotations of each
  other, and every cycle is a rotation of one it yields.\<close>

theorem find_cycles_complete:
  assumes "key_order ord"
  shows "\<exists>cycles. find_cycles ord graph = Inr cycles
    \<and> (\<forall>c \<in> set cycles. is_cycle graph c) \<and> sorted_wrt (\<lambda>a b. \<not> rotations a b) cycles
    \<and> (\<forall>c. is_cycle graph c \<longrightarrow> (\<exists>c' \<in> set cycles. rotations c' c))"
  using find_cycles_spec[OF assms, of graph] by (simp add: good_def found_def)

theorem find_cycles_complete_witness:
  "find_cycles (\<lambda>ks. ks) [(1::nat, [2]), (2, [3, 1]), (3, [1])] = Inr [[1, 2], [1, 2, 3]]
   \<and> is_cycle [(1::nat, [2]), (2, [3, 1]), (3, [1])] [1, 2, 3]"
proof -
  have "find_cycles (\<lambda>ks. ks) [(1::nat, [2]), (2, [3, 1]), (3, [1])] = Inr [[1, 2], [1, 2, 3]]"
    by code_simp
  then show ?thesis
    using find_cycles_complete[OF key_order_id(1), of "[(1::nat, [2]), (2, [3, 1]), (3, [1])]"] by auto
qed

section \<open>rad_util.py\<close>

text \<open>\<open>is_rotated\<close> decides whether the second sequence is a rotation of the first, for
  sequences that are not empty; on two empty sequences it raises \<open>IndexError\<close>.\<close>

theorem rotation_test:
  "is_rotated seq1 seq2 =
     (if seq1 = [] \<and> seq2 = [] then Inl IndexError else Inr (\<exists>n. rotate n seq1 = seq2))"
proof (cases "seq2 = []")
  case True
  then show ?thesis by (cases "seq1 = []") (auto simp: is_rotated_def py_nth_def)
next
  case False
  then show ?thesis by (simp add: is_rotated_correct)
qed

text \<open>\<open>uniquify\<close> keeps each item once, whether the items can be keys of a dictionary or
  not; asked to preserve the order, it keeps exactly the first occurrences, in place.\<close>

theorem uniquify_unique:
  assumes "key_order ord"
  shows "set (uniquify ord hashable seq p) = set seq \<and> distinct (uniquify ord hashable seq p)
    \<and> uniquify ord hashable seq True = first_occurrences seq"
  using uniquify_set_distinct[OF assms] uniquify_preserving by blast

theorem uniquify_unique_witness:
  "uniquify rev True [3::nat, 1, 3, 2, 1] True = [3, 1, 2] \<and> set (uniquify rev True [3::nat, 1, 3, 2, 1] False) = {1, 2, 3}"
proof -
  have "first_occurrences [3::nat, 1, 3, 2, 1] = [3, 1, 2]" by code_simp
  then show ?thesis
    using uniquify_unique[OF key_order_rev, of True "[3::nat, 1, 3, 2, 1]" False] by auto
qed

text \<open>\<open>permutations\<close> returns the rearrangements of its list and nothing else, as many as
  the factorial of the length.\<close>

theorem permutations_all:
  "set (permutations xs) = {ys. mset ys = mset xs} \<and> length (permutations xs) = fact (length xs)"
  using permutations_set permutations_length by blast

text \<open>\<open>find_common_fixes\<close> returns the longest common prefix and the longest common suffix:
  after the prefix the texts differ or one ends, and the same before the suffix.\<close>

theorem common_fixes:
  "\<exists>prefix suffix. find_common_fixes s1 s2 = (prefix, suffix)
    \<and> (\<exists>t u. s1 = prefix @ t \<and> s2 = prefix @ u \<and> (t = [] \<or> u = [] \<or> hd t \<noteq> hd u))
    \<and> (\<exists>t u. s1 = t @ suffix \<and> s2 = u @ suffix \<and> (t = [] \<or> u = [] \<or> last t \<noteq> last u))"
proof -
  obtain t u where tu: "rev s1 = lcp (rev s1) (rev s2) @ t" "rev s2 = lcp (rev s1) (rev s2) @ u"
    "t = [] \<or> u = [] \<or> hd t \<noteq> hd u" using lcp_prefix[of "rev s1" "rev s2"] by blast
  have "s1 = rev t @ rev (lcp (rev s1) (rev s2))" "s2 = rev u @ rev (lcp (rev s1) (rev s2))"
    using tu(1,2) by (metis rev_append rev_rev_ident)+
  moreover have "rev t = [] \<or> rev u = [] \<or> last (rev t) \<noteq> last (rev u)" using tu(3) by (auto simp: last_rev)
  ultimately show ?thesis using lcp_prefix[of s1 s2] by (auto simp: find_common_fixes_lcp)
qed

theorem common_fixes_witness:
  "find_common_fixes ''abcxyz'' ''abyz'' = (''ab'', ''yz'')
   \<and> (\<exists>t u. ''abcxyz'' = ''ab'' @ t \<and> ''abyz'' = ''ab'' @ u \<and> (t = [] \<or> u = [] \<or> hd t \<noteq> hd u))"
proof -
  have "find_common_fixes ''abcxyz'' ''abyz'' = (''ab'', ''yz'')" by code_simp
  then show ?thesis using common_fixes[of "''abcxyz''" "''abyz''"] by simp
qed

text \<open>In the dictionary \<open>get_args\<close> returns, the key \<open>args\<close> has the arguments without a
  leading dash, in order, and every other key has the value of the last option of that name: the text
  after the equals sign if there is exactly one, and \<open>None\<close> otherwise. An option named \<open>args\<close> is
  lost.\<close>

theorem get_args_meaning:
  "d_get (get_args argv) k =
     (if k = ''args'' then Some (ArgList (filter (\<lambda>a. \<not> starts_with ''-'' a) argv))
      else (case filter (\<lambda>a. starts_with ''-'' a \<and> fst (option_entry a) = k) (rev argv) of
              [] \<Rightarrow> None | a # _ \<Rightarrow> Some (snd (option_entry a))))"
  using get_args_positional get_args_option by auto

text \<open>For a width that is not 0, \<open>int2bin\<close> of a number that fits returns exactly that many
  binary digits and \<open>bin2int\<close> reads the number back; a number that does not fit raises
  \<open>ValueError\<close>.\<close>

theorem binary_roundtrip:
  assumes "0 \<le> i" "0 < n"
  shows "(i < 2 ^ n \<longrightarrow> (\<exists>s. int2bin i n = Inr s \<and> length s = n \<and> bin2int s = Inr i))
    \<and> (2 ^ n \<le> i \<longrightarrow> int2bin i n = Inl ValueError)"
proof -
  have "bin2int s = Inr i" if "length s = n" "set s \<subseteq> {CHR ''0'', CHR ''1''}" "bits_value s = nat i" for s
    using bin2int_bits[of s] that assms by auto
  then show ?thesis using int2bin_spec[OF assms] by blast
qed

theorem binary_roundtrip_witness:
  "int2bin 123 8 = Inr ''01111011'' \<and> bin2int ''01111011'' = Inr 123 \<and> int2bin 15 2 = Inl ValueError"
proof -
  have "int2bin 123 8 = Inr ''01111011''" by code_simp
  then show ?thesis using binary_roundtrip[of 123 8] binary_roundtrip[of 15 2] by auto
qed

text \<open>\<open>binary_range\<close> stops, and returns the numerals \<open>int2bin\<close> of all the numbers of
  the width, in order.\<close>

theorem counting_in_binary:
  assumes "0 < bits" "2 ^ bits \<le> fuel"
  shows "\<exists>l. binary_range fuel bits = Some l \<and> map Inr l = map (\<lambda>i. int2bin (int i) bits) [0..<2 ^ bits]"
  using binary_range_counts[OF assms] .

theorem counting_in_binary_witness:
  "\<exists>l. binary_range 4 2 = Some l \<and> map Inr l = map (\<lambda>i. int2bin (int i) 2) [0..<4]
     \<and> binary_range 4 2 = Some [''00'', ''01'', ''10'', ''11'']"
proof -
  have "binary_range 4 2 = Some [''00'', ''01'', ''10'', ''11'']" by code_simp
  then show ?thesis using counting_in_binary[of 2 4] by simp
qed

text \<open>On integers \<open>gcf\<close> stops and is the greatest common divisor, \<open>lcm\<close> is the least
  common multiple with the sign of the product, and \<open>reduce_fraction\<close> divides both numbers by their
  greatest common divisor, which leaves them coprime; only 0/0 raises.\<close>

theorem fractions_and_factors:
  "gcf a b = gcd a b \<and> rad_lcm a b = sgn (a * b) * lcm a b
   \<and> (if a = 0 \<and> b = 0 then reduce_fraction (a, b) = Inl ZeroDivisionError
      else \<exists>n d. reduce_fraction (a, b) = Inr (n, d) \<and> coprime n d \<and> a = n * gcd a b \<and> b = d * gcd a b)"
proof (cases "a = 0 \<and> b = 0")
  case True
  then show ?thesis by (simp add: gcf_gcd rad_lcm_lcm reduce_fraction_def)
next
  case False
  then show ?thesis using reduce_fraction_reduced[of a b] by (metis gcf_gcd rad_lcm_lcm Pair_inject)
qed

text \<open>The Gray codes of neighbouring numbers differ in exactly one bit, and \<open>lsb\<close> is the
  remainder modulo a power of two.\<close>

theorem gray_code:
  "(\<exists>k. xor (gray_encode (int n)) (gray_encode (int n + 1)) = 2 ^ k) \<and> lsb x m = x mod 2 ^ m"
  using gray_neighbours lsb_mod by blast

text \<open>On integers, \<open>round_grid\<close> to the nearest is a multiple of the grid at most half a grid
  away; up and down are the neighbouring multiples where the value is not on the grid, but a value on
  the grid reads a variable that was never assigned.\<close>

theorem grid_rounding:
  assumes "0 < grid"
  shows "(\<exists>r. round_grid v grid 0 = Inr r \<and> grid dvd r \<and> 2 * \<bar>r - v\<bar> \<le> grid)
    \<and> (if grid dvd v then round_grid v grid 1 = Inl UnboundLocalError \<and> round_grid v grid (-1) = Inl UnboundLocalError
       else (\<exists>r. round_grid v grid 1 = Inr r \<and> grid dvd r \<and> v < r \<and> r < v + grid)
          \<and> (\<exists>r. round_grid v grid (-1) = Inr r \<and> grid dvd r \<and> r < v \<and> v - grid < r))"
  using round_grid_nearest[OF assms] round_grid_directed[OF assms] round_grid_on_grid[of grid v] assms by auto

theorem grid_rounding_witness: "round_grid 7 5 0 = Inr 5 \<and> round_grid 10 5 1 = Inl UnboundLocalError"
proof -
  have "round_grid 7 5 0 = Inr 5" by code_simp
  then show ?thesis using grid_rounding[of 5 10] by simp
qed

text \<open>For a polygon with integer corners and an even precision (such as the default 100), the
  area is exactly half the shoelace sum: the integer division loses nothing.\<close>

theorem polygon_exact:
  assumes "ps \<noteq> []" "even precision" "precision \<noteq> 0"
  shows "\<exists>left. polygon_area ps precision = Inr (of_int \<bar>shoelace ps\<bar> / 2, left)"
  using polygon_area_exact[OF assms] .

theorem polygon_exact_witness:
  "\<exists>left. polygon_area [(0, 0), (0, 1), (1, 1), (1, 2), (2, 2), (2, 0)] 100 = Inr (3, left)"
proof -
  have "shoelace [(0, 0), (0, 1), (1, 1), (1, 2), (2, 2), (2, 0)] = 6" by code_simp
  then show ?thesis
    using polygon_exact[of "[(0, 0), (0, 1), (1, 1), (1, 2), (2, 2), (2, 0)]" 100] by simp
qed

text \<open>Without a maximal value \<open>random_vec\<close> returns as many binary digits as asked for,
  whatever the random numbers are.\<close>

theorem random_bits_length_ok:
  assumes "list_all (\<lambda>r. 0 \<le> r \<and> r < 1024) rs" "bits div 10 + 1 \<le> length rs"
  shows "\<exists>s. random_vec rs bits None = Inr s \<and> length s = bits \<and> set s \<subseteq> {CHR ''0'', CHR ''1''}"
  using random_vec_length[OF assms] .

theorem random_bits_length_ok_witness: "random_vec [5, 1023] 12 None = Inr ''000000010111''
  \<and> (\<exists>s. random_vec [5, 1023] 12 None = Inr s \<and> length s = 12)"
proof -
  have "random_vec [5, 1023] 12 None = Inr ''000000010111''" by code_simp
  then show ?thesis using random_bits_length_ok[of "[5, 1023]" 12] by auto
qed


section \<open>Numbers that may be floats\<close>

text \<open>Of a list with an element \<open>trim\<close> returns, in order, the elements within one and
  a half interquartile ranges of the quartiles, each as often as it was there; no more is lost than half of
  the list and one element. Of an empty list \<open>trim\<close> and \<open>quantile\<close> raise \<open>IndexError\<close>.\<close>

theorem trim_outliers:
  "if l = [] then trim l = Inl IndexError \<and> quantile l (PyFloat (1 / 4)) = Inl IndexError
   else \<exists>t q1 q3. trim l = Inr t \<and> quantile l (PyFloat (1 / 4)) = Inr q1 \<and> quantile l (PyFloat (3 / 4)) = Inr q3
     \<and> val q1 \<le> val q3 \<and> sorted (map val t)
     \<and> mset t = filter_mset (\<lambda>x. val q1 - (val q3 - val q1) * (3 / 2) \<le> val x \<and> val x \<le> val q3 + (val q3 - val q1) * (3 / 2)) (mset l)
     \<and> length l \<le> 2 * length t + 2"
proof (cases "l = []")
  case True
  then show ?thesis by (simp add: trim_def median_def quantile_def py_nth_def)
next
  case False
  obtain t q1 q3 where "trim l = Inr t" "quantile l (PyFloat (1 / 4)) = Inr q1" "quantile l (PyFloat (3 / 4)) = Inr q3"
    "val q1 \<le> val q3" "sorted (map val t)"
    "mset t = filter_mset (\<lambda>x. val q1 - (val q3 - val q1) * (3 / 2) \<le> val x \<and> val x \<le> val q3 + (val q3 - val q1) * (3 / 2)) (mset l)"
    "length l \<le> 2 * length t + 2" by (rule trim_spec[OF False])
  then show ?thesis unfolding if_not_P[OF False] by blast
qed

text \<open>For a list with an element and \<open>p\<close> from 0 to 1 the quantile exists; more than
  \<open>p\<close> of the way from the first to the last element of the list is not above it, and more than the rest of
  the way not below it.\<close>

theorem quantile_cuts:
  assumes "l \<noteq> []" "0 \<le> val p" "val p \<le> 1"
  shows "\<exists>v. quantile l p = Inr v
    \<and> (of_nat (length l) - 1) * val p < of_nat (length (filter (\<lambda>x. val x \<le> val v) l))
    \<and> (of_nat (length l) - 1) * (1 - val p) < of_nat (length (filter (\<lambda>x. val v \<le> val x) l))"
  by (rule quantile_counts[OF assms]) (auto simp: rank_of_def algebra_simps)

theorem quantile_cuts_witness:
  "\<exists>v. quantile (map PyInt [3, 1, 2]) (PyFloat (1 / 4)) = Inr v \<and> 1 / 2 < (of_nat (length (filter (\<lambda>x. val x \<le> val v) (map PyInt [3, 1, 2]))) :: rat)"
  using quantile_cuts[of "map PyInt [3, 1, 2]" "PyFloat (1 / 4)"] by (auto simp del: filter.simps)

text \<open>\<open>float_range\<close> returns exactly if the step is positive or the start
  is not below the stop; then it returns the floats from the start by the step that are below the stop.\<close>

theorem float_range_progression:
  "float_range start (Some stop) (Some step) =
     (if 0 < val step \<or> val stop \<le> val start
      then Some (map (\<lambda>i. PyFloat (val start + of_nat i * val step)) [0..<(if val stop \<le> val start then 0 else nat \<lceil>(val stop - val start) / val step\<rceil>)])
      else None)"
proof (cases "val stop \<le> val start")
  case True
  then show ?thesis by (simp add: float_range_def n_float_def float_range_loop.simps)
next
  case False
  show ?thesis
  proof (cases "0 < val step")
    case True
    then show ?thesis using False by (simp add: float_range_def n_float_def loop_ends add_times)
  next
    case nonpos: False
    then have "float_range_loop (PyFloat (val start)) stop step [] = None"
      using loop_for_ever[of "PyFloat (val start)" stop step "[]"] False by (metis not_le option.exhaust val.simps(2))
    then show ?thesis using False nonpos by (simp add: float_range_def n_float_def)
  qed
qed

text \<open>C39. With SI prefixes and decimal places a number from 1 yocto on is shown over a
  multiplier of its own, followed by that multiplier's prefix, so that the number shown rounds to 1 or more
  and, below 1 yotta, to less than 1000.\<close>

theorem units_readable:
  assumes "1 / 10 ^ 24 \<le> val x"
  shows "\<exists>m short full v. d_get (unit_prefixes extra ''si'') m = Some (short, full) \<and> val v = val x / val m
    \<and> nice_units x dp None suffix space extra use_full_name ''si''
        = Inr (fmt_f dp (val v) @ space @ (if use_full_name then full else short) @ suffix)
    \<and> 1 \<le> py_round (val v) dp \<and> (val x < 10 ^ 24 \<longrightarrow> py_round (val v) dp < 1000)"
proof -
  obtain m v where mv: "scale_value x (si_multipliers extra) dp None = Inr (m, v)" "m \<in> set (si_multipliers extra)"
    "val v = val x / val m" "1 \<le> py_round (val v) dp" "val x < 10 ^ 24 \<longrightarrow> py_round (val v) dp < 1000"
    using scale_value_spec[OF assms refl] by metis
  then obtain short full where "d_get (unit_prefixes extra ''si'') m = Some (short, full)"
    using si_member(3)[OF mv(2)] by (cases "d_get (unit_prefixes extra ''si'') m") (auto simp: d_has_def)
  then show ?thesis using mv by (intro exI[of _ m] exI[of _ short] exI[of _ full] exI[of _ v])
    (simp add: nice_units_def sorted_multipliers d_item_def)
qed

theorem units_readable_witness:
  "\<exists>v s. nice_units (PyFloat 1500) 1 None ''B'' '' '' False False ''si'' = Inr (fmt_f 1 v @ '' '' @ s @ ''B'') \<and> py_round v 1 < 1000"
  using units_readable[of "PyFloat 1500" False 1 "''B''" "'' ''" False] by auto

end
