(* ===== verification/TestConfig.thy ===== *)
theory TestConfig
  imports Complex_Main PyStr
begin

text \<open>
  The data of \<open>test.py\<close>: the command line options, the build configuration that
  \<open>read_waf_config\<close> reads, and the class \<open>Job\<close> with its setters. Also \<open>make_paths\<close>,
  which sets up the process environment.
\<close>

section \<open>Options and configuration\<close>

text \<open>The options of \<open>main\<close>, with the defaults of the option parser.\<close>

record options =
  opt_buildpath :: string
  opt_constrain :: string
  opt_duration :: bool
  opt_example :: string
  opt_update_data :: bool
  opt_fullness :: string
  opt_valgrind :: bool
  opt_kinds :: bool
  opt_list :: bool
  opt_multiple :: bool
  opt_nowaf :: bool
  opt_pyexample :: string
  opt_retain :: bool
  opt_suite :: string
  opt_text :: string
  opt_verbose :: bool
  opt_html :: string
  opt_xml :: string

definition default_options :: options where
  "default_options =
     \<lparr>opt_buildpath = '''', opt_constrain = '''', opt_duration = False, opt_example = '''',
      opt_update_data = False, opt_fullness = ''QUICK'', opt_valgrind = False, opt_kinds = False,
      opt_list = False, opt_multiple = False, opt_nowaf = False, opt_pyexample = '''',
      opt_retain = False, opt_suite = '''', opt_text = '''', opt_verbose = False,
      opt_html = '''', opt_xml = ''''\<rparr>"

text \<open>The module variables that \<open>read_waf_config\<close> sets from the waf cache, and the platform.\<close>

record waf_config =
  NS3_BASEDIR :: string
  NS3_BUILDDIR :: string
  NS3_ENABLED_MODULES :: "string list"
  NS3_MODULE_PATH :: "string list"
  NSC_ENABLED :: bool
  ENABLE_EXAMPLES :: bool
  ENABLE_TESTS :: bool
  EXAMPLE_DIRECTORIES :: "string list"
  ENABLE_PYTHON_BINDINGS :: bool
  APPNAME :: string
  BUILD_PROFILE :: string
  VERSION :: string
  PYTHON :: "string list"
  VALGRIND_FOUND :: bool
  platform :: string

definition interesting_config_items :: "string list" where
  "interesting_config_items =
     [''NS3_ENABLED_MODULES'', ''NS3_MODULE_PATH'', ''NSC_ENABLED'', ''ENABLE_REAL_TIME'',
      ''ENABLE_THREADING'', ''ENABLE_EXAMPLES'', ''ENABLE_TESTS'', ''EXAMPLE_DIRECTORIES'',
      ''ENABLE_PYTHON_BINDINGS'', ''ENABLE_CLICK'', ''ENABLE_BRITE'', ''ENABLE_OPENFLOW'',
      ''APPNAME'', ''BUILD_PROFILE'', ''VERSION'', ''PYTHON'', ''VALGRIND_FOUND'']"

definition core_kinds :: "string list" where
  "core_kinds = [''bvt'', ''core'', ''performance'', ''system'', ''unit'']"

definition core_valgrind_skip_tests :: "string list" where
  "core_valgrind_skip_tests =
     [''ns3-tcp-cwnd'', ''nsc-tcp-loss'', ''ns3-tcp-interoperability'', ''routing-click'',
      ''lte-rr-ff-mac-scheduler'', ''lte-tdmt-ff-mac-scheduler'', ''lte-fdmt-ff-mac-scheduler'',
      ''lte-pf-ff-mac-scheduler'', ''lte-tta-ff-mac-scheduler'', ''lte-fdbet-ff-mac-scheduler'',
      ''lte-ttbet-ff-mac-scheduler'', ''lte-fdtbfq-ff-mac-scheduler'',
      ''lte-tdtbfq-ff-mac-scheduler'', ''lte-pss-ff-mac-scheduler'']"

definition core_nsc_missing_skip_tests :: "string list" where
  "core_nsc_missing_skip_tests =
     [''ns3-tcp-cwnd'', ''nsc-tcp-loss'', ''ns3-tcp-interoperability'']"

definition TMP_OUTPUT_DIR :: string where
  "TMP_OUTPUT_DIR = ''testpy-output''"

definition VALGRIND_SUPPRESSIONS_FILE :: string where
  "VALGRIND_SUPPRESSIONS_FILE = ''testpy.supp''"

text \<open>
  \<open>read_waf_config\<close>: the lock file gives the two directories, and a line of the cache is
  executed once for every interesting item it starts with. \<open>py_eval\<close> is Python's \<open>eval\<close>
  on the text after the equals sign; the executed lines are returned in order.
\<close>

definition lock_line_value :: "(string \<Rightarrow> 'v res) \<Rightarrow> string \<Rightarrow> 'v res" where
  "lock_line_value py_eval line =
     (case split_on (CHR ''='') line of
        [key, val] \<Rightarrow> py_eval (strip val)
      | _ \<Rightarrow> Inl ValueError)"

fun read_lock :: "(string \<Rightarrow> 'v res) \<Rightarrow> string list \<Rightarrow> 'v option \<times> 'v option \<Rightarrow> ('v option \<times> 'v option) res" where
  "read_lock py_eval [] s = Inr s"
| "read_lock py_eval (line # lines) (top0, out0) =
     rbind (if starts_with ''top_dir ='' line
            then rbind (lock_line_value py_eval line) (\<lambda>v. Inr (Some v)) else Inr top0) (\<lambda>top'.
     rbind (if starts_with ''out_dir ='' line
            then rbind (lock_line_value py_eval line) (\<lambda>v. Inr (Some v)) else Inr out0) (\<lambda>out'.
     read_lock py_eval lines (top', out')))"

definition executed_lines :: "string list \<Rightarrow> string list" where
  "executed_lines cache =
     concat (map (\<lambda>line. map (\<lambda>_. line) (filter (\<lambda>item. starts_with item line) interesting_config_items)) cache)"

definition read_waf_config ::
  "(string \<Rightarrow> 'v res) \<Rightarrow> string list \<Rightarrow> ('v \<Rightarrow> string list) \<Rightarrow> ('v \<times> 'v \<times> string list) res" where
  "read_waf_config py_eval lock_file cache_of =
     rbind (read_lock py_eval lock_file (None, None)) (\<lambda>(top0, out0).
       case (top0, out0) of
         (Some t, Some d) \<Rightarrow> Inr (t, d, executed_lines (cache_of d))
       | _ \<Rightarrow> Inl UnboundLocalError)"

section \<open>make_paths\<close>

text \<open>The loop that appends every module path to a variable of the environment.\<close>

definition append_paths :: "string \<Rightarrow> string \<Rightarrow> string list \<Rightarrow> (string, string) dict \<Rightarrow> (string, string) dict" where
  "append_paths var sep paths env =
     foldl (\<lambda>env path. d_set var ((case d_get env var of None \<Rightarrow> '''' | Some v \<Rightarrow> v) @ sep @ path) env) env paths"

definition init_var :: "string \<Rightarrow> bool \<Rightarrow> (string, string) dict \<Rightarrow> (string, string) dict" where
  "init_var var have env = (if have then env else d_set var '''' env)"

definition make_paths :: "waf_config \<Rightarrow> (string, string) dict \<Rightarrow> (string, string) dict" where
  "make_paths cfg env =
     (let have_DYLD_LIBRARY_PATH = d_has env ''DYLD_LIBRARY_PATH'';
          have_LD_LIBRARY_PATH = d_has env ''LD_LIBRARY_PATH'';
          have_PATH = d_has env ''PATH'';
          have_PYTHONPATH = d_has env ''PYTHONPATH'';
          pypath = path_join (path_join (NS3_BUILDDIR cfg) ''bindings'') ''python'';
          env1 = d_set ''PYTHONPATH'' pypath env;
          env2 = (if \<not> have_PYTHONPATH then d_set ''PYTHONPATH'' pypath env1
                  else d_set ''PYTHONPATH''
                    ((case d_get env1 ''PYTHONPATH'' of None \<Rightarrow> '''' | Some v \<Rightarrow> v) @ '':'' @ pypath) env1)
      in if platform cfg = ''darwin'' then
           append_paths ''DYLD_LIBRARY_PATH'' '':'' (NS3_MODULE_PATH cfg)
             (init_var ''DYLD_LIBRARY_PATH'' have_DYLD_LIBRARY_PATH env2)
         else if platform cfg = ''win32'' then
           append_paths ''PATH'' '';'' (NS3_MODULE_PATH cfg) (init_var ''PATH'' have_PATH env2)
         else if platform cfg = ''cygwin'' then
           append_paths ''PATH'' '':'' (NS3_MODULE_PATH cfg) (init_var ''PATH'' have_PATH env2)
         else
           append_paths ''LD_LIBRARY_PATH'' '':'' (NS3_MODULE_PATH cfg)
             (init_var ''LD_LIBRARY_PATH'' have_LD_LIBRARY_PATH env2))"

lemma append_paths_other: "k \<noteq> var \<Longrightarrow> d_get (append_paths var sep paths env) k = d_get env k"
  unfolding append_paths_def by (induction paths arbitrary: env) (simp_all add: dict_simps)

lemma append_paths_var:
  "d_get env var = Some v \<Longrightarrow>
   d_get (append_paths var sep paths env) var = Some (v @ concat (map (\<lambda>p. sep @ p) paths))"
  unfolding append_paths_def by (induction paths arbitrary: env v) (simp_all add: dict_simps)

lemma init_var_get:
  "d_get (init_var var (d_has env0 var) env) k =
     (if k = var \<and> d_get env0 var = None then Some '''' else d_get env k)"
  by (auto simp: init_var_def d_has_def dict_simps)

section \<open>Jobs\<close>

text \<open>
  The class \<open>Job\<close>. \<open>elapsed_time\<close> holds a difference of two \<open>time.time()\<close> values; a
  floating point number is a rational number and the code only stores and prints it.
  \<open>returncode\<close> starts as \<open>False\<close>, which Python compares as 0.
\<close>

record job =
  is_break :: bool
  is_skip :: bool
  is_example :: bool
  is_pyexample :: bool
  shell_command :: string
  display_name :: string
  basedir :: string
  tempdir :: string
  cwd :: string
  tmp_file_name :: string
  returncode :: int
  elapsed_time :: rat
  build_path :: string

definition Job :: job where
  "Job = \<lparr>is_break = False, is_skip = False, is_example = False, is_pyexample = False,
          shell_command = '''', display_name = '''', basedir = '''', tempdir = '''', cwd = '''',
          tmp_file_name = '''', returncode = 0, elapsed_time = 0, build_path = ''''\<rparr>"

definition set_is_break :: "bool \<Rightarrow> job \<Rightarrow> job" where
  "set_is_break b j = j\<lparr>is_break := b\<rparr>"

definition set_is_skip :: "bool \<Rightarrow> job \<Rightarrow> job" where
  "set_is_skip b j = j\<lparr>is_skip := b\<rparr>"

definition set_is_example :: "bool \<Rightarrow> job \<Rightarrow> job" where
  "set_is_example b j = j\<lparr>is_example := b\<rparr>"

definition set_is_pyexample :: "bool \<Rightarrow> job \<Rightarrow> job" where
  "set_is_pyexample b j = j\<lparr>is_pyexample := b\<rparr>"

definition set_shell_command :: "string \<Rightarrow> job \<Rightarrow> job" where
  "set_shell_command s j = j\<lparr>shell_command := s\<rparr>"

definition set_build_path :: "string \<Rightarrow> job \<Rightarrow> job" where
  "set_build_path s j = j\<lparr>build_path := s\<rparr>"

definition set_display_name :: "string \<Rightarrow> job \<Rightarrow> job" where
  "set_display_name s j = j\<lparr>display_name := s\<rparr>"

definition set_basedir :: "string \<Rightarrow> job \<Rightarrow> job" where
  "set_basedir s j = j\<lparr>basedir := s\<rparr>"

definition set_tempdir :: "string \<Rightarrow> job \<Rightarrow> job" where
  "set_tempdir s j = j\<lparr>tempdir := s\<rparr>"

definition set_cwd :: "string \<Rightarrow> job \<Rightarrow> job" where
  "set_cwd s j = j\<lparr>cwd := s\<rparr>"

definition set_tmp_file_name :: "string \<Rightarrow> job \<Rightarrow> job" where
  "set_tmp_file_name s j = j\<lparr>tmp_file_name := s\<rparr>"

definition set_returncode :: "int \<Rightarrow> job \<Rightarrow> job" where
  "set_returncode r j = j\<lparr>returncode := r\<rparr>"

definition set_elapsed_time :: "rat \<Rightarrow> job \<Rightarrow> job" where
  "set_elapsed_time t j = j\<lparr>elapsed_time := t\<rparr>"

lemmas job_setters =
  set_is_break_def set_is_skip_def set_is_example_def set_is_pyexample_def set_shell_command_def
  set_build_path_def set_display_name_def set_basedir_def set_tempdir_def set_cwd_def
  set_tmp_file_name_def set_returncode_def set_elapsed_time_def

end
