(* ===== verification/TestWorker.thy ===== *)
theory TestWorker
  imports TestConfig
begin

text \<open>
  \<open>run_job_synchronously\<close> and the worker threads of \<open>test.py\<close> with their two queues.

  A process is started by a parameter \<open>popen\<close>: given the command line and the working
  directory it yields the exit status, the two output texts and the elapsed time. The threads
  and the main thread interleave at the operations on the queues: \<open>pool_step\<close> is the
  relation of single steps, in any order the scheduler picks, with the signal handler as a
  step of its own.
\<close>

section \<open>Running one job\<close>

record proc_outcome =
  proc_returncode :: int
  proc_stdout :: string
  proc_stderr :: string
  proc_elapsed :: rat

type_synonym popen = "string \<Rightarrow> string \<Rightarrow> proc_outcome"

text \<open>The command line that is executed.\<close>

definition job_command :: "waf_config \<Rightarrow> string \<Rightarrow> bool \<Rightarrow> bool \<Rightarrow> string \<Rightarrow> string res" where
  "job_command cfg shell_cmd valgrind is_python build_pth =
     (let suppressions_path = path_join (NS3_BASEDIR cfg) VALGRIND_SUPPRESSIONS_FILE
      in rbind (if is_python
                then rbind (py_nth (PYTHON cfg) 0) (\<lambda>py.
                       Inr (py @ '' '' @ path_join (NS3_BASEDIR cfg) shell_cmd))
                else if build_pth \<noteq> '''' then Inr (path_join build_pth shell_cmd)
                else Inr (path_join (NS3_BUILDDIR cfg) shell_cmd)) (\<lambda>path_cmd.
           Inr (if valgrind
                then ''valgrind --suppressions='' @ suppressions_path
                     @ '' --leak-check=full --show-reachable=yes --error-exitcode=2 '' @ path_cmd
                else path_cmd)))"

definition run_job_synchronously ::
  "waf_config \<Rightarrow> popen \<Rightarrow> string \<Rightarrow> string \<Rightarrow> bool \<Rightarrow> bool \<Rightarrow> string \<Rightarrow> (int \<times> string \<times> string \<times> rat) res"
where
  "run_job_synchronously cfg popen shell_cmd directory valgrind is_python build_pth =
     rbind (job_command cfg shell_cmd valgrind is_python build_pth) (\<lambda>cmd.
       let proc = popen cmd directory;
           retval = (if valgrind \<and> proc_returncode proc = 0
                        \<and> contains ''== LEAK SUMMARY:'' (proc_stderr proc)
                     then 2 else proc_returncode proc)
       in Inr (retval, proc_stdout proc, proc_stderr proc, proc_elapsed proc))"

text \<open>What a worker does with a job that is neither a break nor skipped.\<close>

definition launch :: "waf_config \<Rightarrow> options \<Rightarrow> popen \<Rightarrow> job \<Rightarrow> job res" where
  "launch cfg opts popen job =
     rbind (if is_example job \<or> is_pyexample job
            then run_job_synchronously cfg popen (shell_command job) (cwd job) (opt_valgrind opts)
                   (is_pyexample job) (build_path job)
            else let update_data = (if opt_update_data opts then ''--update-data'' else '''')
                 in run_job_synchronously cfg popen
                      (shell_command job @ '' --xml --tempdir='' @ tempdir job @ '' --out=''
                        @ tmp_file_name job @ '' '' @ update_data)
                      (cwd job) (opt_valgrind opts) False '''') (\<lambda>(rc, standard_out, standard_err, et).
       Inr (set_elapsed_time et (set_returncode rc job)))"

text \<open>
  One round of \<open>worker_thread.run\<close> on the job it got: \<open>None\<close> when the thread returns,
  otherwise the job it puts into the output queue. \<open>thread_exit\<close> is the flag of the signal
  handler at the moment the thread tests it.
\<close>

definition worker_round :: "waf_config \<Rightarrow> options \<Rightarrow> popen \<Rightarrow> bool \<Rightarrow> job \<Rightarrow> job option res" where
  "worker_round cfg opts popen thread_exit job =
     (if is_break job then Inr None
      else if thread_exit then Inr (Some (set_is_break True job))
      else if is_skip job then Inr (Some job)
      else rbind (launch cfg opts popen job) (\<lambda>j. Inr (Some j)))"

text \<open>The part of a job that no worker changes.\<close>

definition job_core :: "job \<Rightarrow> job" where
  "job_core j = j\<lparr>is_break := False, returncode := 0, elapsed_time := 0\<rparr>"

lemma job_core_setters [simp]:
  "job_core (set_is_break b j) = job_core j"
  "job_core (set_returncode r j) = job_core j"
  "job_core (set_elapsed_time t j) = job_core j"
  by (simp_all add: job_core_def job_setters)

lemma launch_core: "launch cfg opts popen j = Inr j' \<Longrightarrow> job_core j' = job_core j \<and> is_break j' = is_break j"
  by (auto simp: launch_def rbind_Inr_iff split: if_splits) (simp_all add: set_elapsed_time_def set_returncode_def)

lemma run_job_total:
  "PYTHON cfg \<noteq> [] \<Longrightarrow> \<exists>r. run_job_synchronously cfg popen c d v py b = Inr r"
  by (cases "PYTHON cfg") (auto simp: run_job_synchronously_def job_command_def py_nth_def Let_def)

lemma launch_total: "PYTHON cfg \<noteq> [] \<Longrightarrow> \<exists>j'. launch cfg opts popen j = Inr j'"
proof -
  assume "PYTHON cfg \<noteq> []"
  then have r: "\<exists>rc so se et. run_job_synchronously cfg popen c d v py b = Inr (rc, so, se, et)" for c d v py b
    using run_job_total[of cfg popen c d v py b] by (metis prod_cases4)
  show ?thesis
  proof (cases "is_example j \<or> is_pyexample j")
    case True
    with r[of "shell_command j" "cwd j" "opt_valgrind opts" "is_pyexample j" "build_path j"]
    show ?thesis by (auto simp: launch_def)
  next
    case False
    with r[of "shell_command j @ '' --xml --tempdir='' @ tempdir j @ '' --out=''
        @ tmp_file_name j @ '' '' @ (if opt_update_data opts then ''--update-data'' else '''')"
        "cwd j" "opt_valgrind opts" False "''''"]
    show ?thesis by (auto simp: launch_def Let_def)
  qed
qed

text \<open>A return code of 2 is reported where valgrind prints a leak summary, and only then is it changed.\<close>

lemma run_job_retval:
  assumes "run_job_synchronously cfg popen c d v py b = Inr (rc, so, se, et)"
  obtains cmd where "job_command cfg c v py b = Inr cmd"
    "rc = (if v \<and> proc_returncode (popen cmd d) = 0 \<and> contains ''== LEAK SUMMARY:'' (proc_stderr (popen cmd d))
           then 2 else proc_returncode (popen cmd d))"
    "so = proc_stdout (popen cmd d)" "se = proc_stderr (popen cmd d)" "et = proc_elapsed (popen cmd d)"
  using assms by (auto simp: run_job_synchronously_def rbind_Inr_iff Let_def)

section \<open>The queues and the threads\<close>

text \<open>\<open>Queue.Queue(0)\<close>: an unbounded first-in first-out queue; \<open>get\<close> blocks while it is empty.\<close>

definition q_put :: "'a \<Rightarrow> 'a list \<Rightarrow> 'a list" where
  "q_put x q = q @ [x]"

definition q_get :: "'a list \<Rightarrow> ('a \<times> 'a list) option" where
  "q_get q = (case q of [] \<Rightarrow> None | x # xs \<Rightarrow> Some (x, xs))"

locale fifo =
  fixes put :: "'a \<Rightarrow> 'q \<Rightarrow> 'q"
    and get :: "'q \<Rightarrow> ('a \<times> 'q) option"
    and elems :: "'q \<Rightarrow> 'a list"
  assumes elems_put: "elems (put x q) = elems q @ [x]"
    and get_None: "get q = None \<longleftrightarrow> elems q = []"
    and get_Some: "get q = Some (x, q') \<Longrightarrow> elems q = x # elems q'"
begin

lemma put_get: "get (put x q) \<noteq> None"
  by (simp add: get_None elems_put)

lemma mset_put: "mset (elems (put x q)) = add_mset x (mset (elems q))"
  by (simp add: elems_put)

lemma mset_get: "get q = Some (x, q') \<Longrightarrow> mset (elems q) = add_mset x (mset (elems q'))"
  by (simp add: get_Some)

lemma get_order: "get q = Some (x, q') \<Longrightarrow> get (put y q) = Some (z, q'') \<Longrightarrow> z = x \<and> elems q'' = elems q' @ [y]"
  using get_Some[of q x q'] get_Some[of "put y q" z q''] elems_put[of y q] by simp

end

interpretation jobq: fifo q_put q_get "\<lambda>q. q"
  by unfold_locales (auto simp: q_put_def q_get_def split: list.splits)

text \<open>
  A thread waits at \<open>input_queue.get\<close>, has a job and is about to look at it, runs the job's
  process, or has returned.
\<close>

datatype thread = Waiting | Got job | Running job | Returned

text \<open>
  \<open>to_put\<close> is what the main thread has still to put into the input queue, \<open>wanted\<close> how many
  results it has still to take, \<open>collected\<close> those it took, in order.
\<close>

record pool =
  inq :: "job list"
  outq :: "job list"
  threads :: "thread list"
  to_put :: "job list"
  wanted :: nat
  collected :: "job list"
  thread_exit :: bool

definition break_job :: job where
  "break_job = set_is_break True Job"

text \<open>\<open>run_tests\<close> starts \<open>processors\<close> threads and puts the jobs, then one break per thread.\<close>

definition init_pool :: "nat \<Rightarrow> job list \<Rightarrow> pool" where
  "init_pool processors jobs =
     \<lparr>inq = [], outq = [], threads = replicate processors Waiting,
      to_put = jobs @ replicate processors break_job, wanted = length jobs, collected = [],
      thread_exit = False\<rparr>"

inductive pool_step :: "waf_config \<Rightarrow> options \<Rightarrow> popen \<Rightarrow> pool \<Rightarrow> pool \<Rightarrow> bool"
  for cfg :: waf_config and opts :: options and popen :: popen
where
  main_put: "to_put s = j # js \<Longrightarrow>
    pool_step cfg opts popen s (s\<lparr>to_put := js, inq := q_put j (inq s)\<rparr>)"
| main_get: "to_put s = [] \<Longrightarrow> wanted s = Suc n \<Longrightarrow> q_get (outq s) = Some (j, q) \<Longrightarrow>
    pool_step cfg opts popen s (s\<lparr>wanted := n, outq := q, collected := collected s @ [j]\<rparr>)"
| thread_get: "i < length (threads s) \<Longrightarrow> threads s ! i = Waiting \<Longrightarrow> q_get (inq s) = Some (j, q) \<Longrightarrow>
    pool_step cfg opts popen s (s\<lparr>inq := q, threads := (threads s)[i := Got j]\<rparr>)"
| thread_return: "i < length (threads s) \<Longrightarrow> threads s ! i = Got j \<Longrightarrow>
    worker_round cfg opts popen (thread_exit s) j = Inr None \<Longrightarrow>
    pool_step cfg opts popen s (s\<lparr>threads := (threads s)[i := Returned]\<rparr>)"
| thread_pass: "i < length (threads s) \<Longrightarrow> threads s ! i = Got j \<Longrightarrow> \<not> is_break j \<Longrightarrow>
    thread_exit s \<or> is_skip j \<Longrightarrow> worker_round cfg opts popen (thread_exit s) j = Inr (Some j') \<Longrightarrow>
    pool_step cfg opts popen s (s\<lparr>threads := (threads s)[i := Waiting], outq := q_put j' (outq s)\<rparr>)"
| thread_launch: "i < length (threads s) \<Longrightarrow> threads s ! i = Got j \<Longrightarrow> \<not> is_break j \<Longrightarrow>
    \<not> thread_exit s \<Longrightarrow> \<not> is_skip j \<Longrightarrow>
    pool_step cfg opts popen s (s\<lparr>threads := (threads s)[i := Running j]\<rparr>)"
| thread_finish: "i < length (threads s) \<Longrightarrow> threads s ! i = Running j \<Longrightarrow>
    worker_round cfg opts popen False j = Inr (Some j') \<Longrightarrow>
    pool_step cfg opts popen s (s\<lparr>threads := (threads s)[i := Waiting], outq := q_put j' (outq s)\<rparr>)"

text \<open>The handler of SIGINT, \<open>sigint_hook\<close>, can run between any two steps.\<close>

definition sigint_hook :: "pool \<Rightarrow> pool" where
  "sigint_hook s = s\<lparr>thread_exit := True\<rparr>"

inductive reachable :: "waf_config \<Rightarrow> options \<Rightarrow> popen \<Rightarrow> nat \<Rightarrow> job list \<Rightarrow> pool \<Rightarrow> bool"
  for cfg :: waf_config and opts :: options and popen :: popen and processors :: nat and jobs :: "job list"
where
  reach_init: "reachable cfg opts popen processors jobs (init_pool processors jobs)"
| reach_step: "reachable cfg opts popen processors jobs s \<Longrightarrow> pool_step cfg opts popen s t \<Longrightarrow>
    reachable cfg opts popen processors jobs t"
| reach_sigint: "reachable cfg opts popen processors jobs s \<Longrightarrow>
    reachable cfg opts popen processors jobs (sigint_hook s)"

text \<open>The main thread has all its results and every thread has returned, so \<open>join\<close> returns too.\<close>

definition finished :: "pool \<Rightarrow> bool" where
  "finished s \<longleftrightarrow> to_put s = [] \<and> wanted s = 0 \<and> list_all (\<lambda>t. t = Returned) (threads s)"

inductive_cases pool_stepE: "pool_step cfg opts popen s t"

end
