(* ===== verification/TestPoolProofs.thy ===== *)
theory TestPoolProofs
  imports TestWorker
begin

text \<open>
  The worker pool of \<open>test.py\<close>: no job is lost or duplicated, the pool is never stuck before
  the main thread has all its results, every run of it ends, and without an interrupt the
  results do not depend on the interleaving.
\<close>

section \<open>Where the jobs are\<close>

fun holding :: "thread \<Rightarrow> job list" where
  "holding (Got j) = [j]"
| "holding (Running j) = [j]"
| "holding _ = []"

definition in_flight :: "pool \<Rightarrow> job list" where
  "in_flight s = concat (map holding (threads s))"

definition pending :: "pool \<Rightarrow> job list" where
  "pending s = to_put s @ inq s @ in_flight s"

definition real_pending :: "pool \<Rightarrow> job multiset" where
  "real_pending s = filter_mset (\<lambda>j. \<not> is_break j) (mset (pending s))"

definition breaks_pending :: "pool \<Rightarrow> nat" where
  "breaks_pending s = size (filter_mset is_break (mset (pending s)))"

definition returned :: "pool \<Rightarrow> nat" where
  "returned s = length (filter (\<lambda>t. t = Returned) (threads s))"

lemma mset_holding_update:
  "i < length ts \<Longrightarrow> mset (concat (map holding (ts[i := t]))) + mset (holding (ts ! i))
     = mset (concat (map holding ts)) + mset (holding t)"
proof (induction ts arbitrary: i)
  case (Cons u ts)
  then show ?case by (cases i) (auto simp: ac_simps)
qed simp

lemma in_flight_update:
  assumes "i < length (threads s)" "threads s' = (threads s)[i := t]"
  shows "mset (in_flight s') + mset (holding (threads s ! i)) = mset (in_flight s) + mset (holding t)"
  using mset_holding_update[OF assms(1)] by (simp add: in_flight_def assms(2))

lemma returned_update:
  "i < length ts \<Longrightarrow> length (filter (\<lambda>t. t = Returned) (ts[i := t])) + (if ts ! i = Returned then 1 else 0)
     = length (filter (\<lambda>t. t = Returned) ts) + (if t = Returned then 1 else 0)"
proof (induction ts arbitrary: i)
  case (Cons u ts)
  show ?case
  proof (cases i)
    case 0
    then show ?thesis by simp
  next
    case (Suc k)
    then show ?thesis using Cons.IH[of k] Cons.prems by (cases "u = Returned") simp_all
  qed
qed simp

lemma q_get_Some [simp]: "q_get q = Some (x, q') \<longleftrightarrow> q = x # q'"
  by (auto simp: q_get_def split: list.splits)

lemma q_get_None [simp]: "q_get q = None \<longleftrightarrow> q = []"
  by (auto simp: q_get_def split: list.splits)

lemma q_put_eq [simp]: "q_put x q = q @ [x]"
  by (simp add: q_put_def)

text \<open>How each kind of step moves the pending jobs.\<close>

lemma pending_thread_step:
  assumes "i < length (threads s)" "threads s' = (threads s)[i := t]" "to_put s' = to_put s"
  shows "mset (pending s') + mset (inq s) + mset (holding (threads s ! i))
    = mset (pending s) + mset (inq s') + mset (holding t)"
  using in_flight_update[OF assms(1,2)] assms(3) by (simp add: pending_def ac_simps)

section \<open>Conservation\<close>

text \<open>
  One lemma for every notion of conservation: \<open>before\<close> is read off a job that is still to be
  done and \<open>after\<close> off a result; a worker must turn the one into the other.
\<close>

definition conserved :: "(job \<Rightarrow> 'b) \<Rightarrow> (job \<Rightarrow> 'b) \<Rightarrow> job list \<Rightarrow> pool \<Rightarrow> bool" where
  "conserved before after jobs s \<longleftrightarrow>
     image_mset before (real_pending s) + image_mset after (mset (outq s) + mset (collected s))
       = image_mset before (mset jobs)"

lemma real_pending_thread:
  assumes "i < length (threads s)" "threads s' = (threads s)[i := t]" "to_put s' = to_put s" "inq s' = inq s"
    and "threads s ! i = u"
  shows "real_pending s' + filter_mset (\<lambda>j. \<not> is_break j) (mset (holding u))
    = real_pending s + filter_mset (\<lambda>j. \<not> is_break j) (mset (holding t))"
proof -
  have "mset (pending s') + mset (holding u) = mset (pending s) + mset (holding t)"
    using pending_thread_step[OF assms(1,2,3)] assms(4,5) by (simp add: ac_simps)
  then have "filter_mset (\<lambda>j. \<not> is_break j) (mset (pending s') + mset (holding u))
      = filter_mset (\<lambda>j. \<not> is_break j) (mset (pending s) + mset (holding t))" by simp
  then show ?thesis by (simp only: filter_union_mset real_pending_def)
qed

lemma conserved_step:
  assumes step: "pool_step cfg opts popen s t" and c: "conserved before after jobs s"
    and w: "\<And>j j' te. te = thread_exit s \<or> \<not> te \<Longrightarrow> worker_round cfg opts popen te j = Inr (Some j') \<Longrightarrow> after j' = before j"
    and r: "\<forall>j. Running j \<in> set (threads s) \<longrightarrow> \<not> is_break j"
  shows "conserved before after jobs t"
  using step
proof cases
  case (main_put j js)
  then have "real_pending t = real_pending s"
    by (simp add: real_pending_def pending_def in_flight_def)
  then show ?thesis using c main_put by (simp add: conserved_def)
next
  case (main_get n j q)
  then have "real_pending t = real_pending s"
    by (simp add: real_pending_def pending_def in_flight_def)
  then show ?thesis using c main_get by (simp add: conserved_def ac_simps)
next
  case (thread_get i j q)
  then have "mset (pending t) = mset (pending s)"
    using pending_thread_step[of i s t "Got j"] by simp
  then show ?thesis using c thread_get by (simp add: conserved_def real_pending_def)
next
  case (thread_return i j)
  then have "is_break j" by (auto simp: worker_round_def rbind_Inr_iff split: if_splits)
  then have "real_pending t = real_pending s"
    using real_pending_thread[of i s t Returned "Got j"] thread_return by simp
  then show ?thesis using c thread_return by (simp add: conserved_def)
next
  case (thread_pass i j j')
  then have "real_pending s = add_mset j (real_pending t)"
    using real_pending_thread[of i s t Waiting "Got j"] by simp
  moreover have "after j' = before j" using w thread_pass by blast
  ultimately show ?thesis using c thread_pass by (simp add: conserved_def)
next
  case (thread_launch i j)
  then have "real_pending t = real_pending s"
    using real_pending_thread[of i s t "Running j" "Got j"] by simp
  then show ?thesis using c thread_launch by (simp add: conserved_def)
next
  case (thread_finish i j j')
  then have "\<not> is_break j" using r by (metis nth_mem)
  then have "real_pending s = add_mset j (real_pending t)"
    using real_pending_thread[of i s t Waiting "Running j"] thread_finish by simp
  moreover have "after j' = before j" using w[of False] thread_finish by blast
  ultimately show ?thesis using c thread_finish by (simp add: conserved_def)
qed

section \<open>The invariant\<close>

definition pool_inv :: "nat \<Rightarrow> job list \<Rightarrow> pool \<Rightarrow> bool" where
  "pool_inv processors jobs s \<longleftrightarrow>
     length (threads s) = processors
     \<and> wanted s + length (collected s) = length jobs
     \<and> breaks_pending s + returned s = processors
     \<and> (\<forall>j. Running j \<in> set (threads s) \<longrightarrow> \<not> is_break j \<and> \<not> is_skip j)
     \<and> sorted_wrt (\<lambda>a b. is_break a \<longrightarrow> is_break b) (inq s @ to_put s)
     \<and> ((\<exists>t \<in> set (threads s). t = Returned \<or> (\<exists>j. t = Got j \<and> is_break j))
          \<longrightarrow> list_all is_break (inq s @ to_put s))
     \<and> (to_put s \<noteq> [] \<longrightarrow> collected s = [])"

lemma breaks_pending_thread:
  assumes "i < length (threads s)" "threads s' = (threads s)[i := t]" "to_put s' = to_put s" "inq s' = inq s"
    and "threads s ! i = u"
  shows "breaks_pending s' + size (filter_mset is_break (mset (holding u)))
    = breaks_pending s + size (filter_mset is_break (mset (holding t)))"
proof -
  have "mset (pending s') + mset (holding u) = mset (pending s) + mset (holding t)"
    using pending_thread_step[OF assms(1,2,3)] assms(4,5) by (simp add: ac_simps)
  then have "size (filter_mset is_break (mset (pending s') + mset (holding u)))
      = size (filter_mset is_break (mset (pending s) + mset (holding t)))" by simp
  then show ?thesis by (simp only: filter_union_mset size_union breaks_pending_def)
qed

lemma pool_inv_init: "\<forall>j \<in> set jobs. \<not> is_break j \<Longrightarrow> pool_inv n jobs (init_pool n jobs)"
proof -
  assume nb: "\<forall>j \<in> set jobs. \<not> is_break j"
  have bj: "is_break break_job" by (simp add: break_job_def job_setters)
  have "sorted_wrt (\<lambda>a b. is_break a \<longrightarrow> is_break b) (replicate n break_job)"
    using bj by (auto simp: sorted_wrt_iff_nth_less)
  then have "sorted_wrt (\<lambda>a b. is_break a \<longrightarrow> is_break b) (jobs @ replicate n break_job)"
    using nb by (induction jobs) (auto simp: sorted_wrt_append)
  moreover have "filter_mset is_break (mset jobs) = {#}"
    using nb by (simp add: filter_mset_eq_mempty_iff)
  moreover have "filter_mset is_break (mset (replicate n break_job)) = mset (replicate n break_job)"
    using bj by (induction n) auto
  moreover have "in_flight (init_pool n jobs) = []"
    by (simp add: in_flight_def init_pool_def)
  ultimately show ?thesis
    using bj by (auto simp: pool_inv_def init_pool_def breaks_pending_def pending_def returned_def)
qed

lemma thread_update_mem: "t \<in> set (ts[i := u]) \<Longrightarrow> t = u \<or> t \<in> set ts"
  by (metis insert_iff set_update_subset_insert subsetD)

lemma pool_inv_running: "pool_inv n jobs s \<Longrightarrow> Running j \<in> set (threads s) \<Longrightarrow> \<not> is_break j \<and> \<not> is_skip j"
  unfolding pool_inv_def by blast

lemma pool_inv_sorted: "pool_inv n jobs s \<Longrightarrow> sorted_wrt (\<lambda>a b. is_break a \<longrightarrow> is_break b) (inq s @ to_put s)"
  unfolding pool_inv_def by blast

lemma pool_inv_breaks:
  "pool_inv n jobs s \<Longrightarrow> v \<in> set (threads s) \<Longrightarrow> v = Returned \<or> (\<exists>j. v = Got j \<and> is_break j)
    \<Longrightarrow> list_all is_break (inq s @ to_put s)"
  unfolding pool_inv_def by blast

text \<open>A step of one thread keeps the invariant if it keeps these parts of it.\<close>

lemma pool_inv_thread:
  assumes inv: "pool_inv n jobs s" and "threads t = (threads s)[i := u]"
    and "wanted t = wanted s" "collected t = collected s" "to_put t = to_put s"
    and "breaks_pending t + returned t = breaks_pending s + returned s"
    and "\<forall>k. Running k \<in> set ((threads s)[i := u]) \<longrightarrow> \<not> is_break k \<and> \<not> is_skip k"
    and "sorted_wrt (\<lambda>a b. is_break a \<longrightarrow> is_break b) (inq t @ to_put s)"
    and "\<And>v. v \<in> set ((threads s)[i := u]) \<Longrightarrow> v = Returned \<or> (\<exists>j. v = Got j \<and> is_break j)
      \<Longrightarrow> list_all is_break (inq t @ to_put s)"
  shows "pool_inv n jobs t"
proof -
  have "(\<exists>v \<in> set (threads t). v = Returned \<or> (\<exists>j. v = Got j \<and> is_break j))
          \<longrightarrow> list_all is_break (inq t @ to_put t)"
    unfolding assms(2,5) using assms(9) by blast
  then show ?thesis
    using assms(1-8) unfolding pool_inv_def by (simp only: length_list_update) simp
qed

lemma pool_inv_thread_keep:
  assumes inv: "pool_inv n jobs s" and "threads t = (threads s)[i := u]"
    and "wanted t = wanted s" "collected t = collected s" "to_put t = to_put s" "inq t = inq s"
    and "breaks_pending t = breaks_pending s" "returned t = returned s"
    and "u = Waiting \<or> (\<exists>j. u = Running j \<and> \<not> is_break j \<and> \<not> is_skip j)"
  shows "pool_inv n jobs t"
proof (rule pool_inv_thread[OF inv assms(2-5)])
  show "\<forall>k. Running k \<in> set ((threads s)[i := u]) \<longrightarrow> \<not> is_break k \<and> \<not> is_skip k"
    using inv assms(9) by (auto simp: pool_inv_def dest!: thread_update_mem)
  show "sorted_wrt (\<lambda>a b. is_break a \<longrightarrow> is_break b) (inq t @ to_put s)"
    using inv assms(6) by (simp add: pool_inv_def)
  show "list_all is_break (inq t @ to_put s)"
    if "v \<in> set ((threads s)[i := u])" "v = Returned \<or> (\<exists>j. v = Got j \<and> is_break j)" for v
  proof -
    have "v \<in> set (threads s)" using thread_update_mem[OF that(1)] that(2) assms(9) by auto
    then show ?thesis using inv that(2) assms(6) unfolding pool_inv_def by metis
  qed
qed (simp add: assms)

lemma pool_inv_step:
  assumes step: "pool_step cfg opts popen s t" and inv: "pool_inv n jobs s"
  shows "pool_inv n jobs t"
  using step
proof cases
  case (main_put j js)
  then show ?thesis using inv
    by (auto simp: pool_inv_def breaks_pending_def pending_def in_flight_def returned_def)
next
  case (main_get m j q)
  then show ?thesis using inv
    by (auto simp: pool_inv_def breaks_pending_def pending_def in_flight_def returned_def)
next
  case (thread_get i j q)
  have "mset (pending t) = mset (pending s)"
    using pending_thread_step[of i s t "Got j"] thread_get by simp
  then have bp: "breaks_pending t = breaks_pending s" by (simp add: breaks_pending_def)
  have ret: "returned t = returned s"
    using returned_update[of i "threads s" "Got j"] thread_get by (simp add: returned_def)
  have srt: "sorted_wrt (\<lambda>a b. is_break a \<longrightarrow> is_break b) (j # (q @ to_put s))"
  proof -
    have "inq s = j # q" using thread_get by simp
    moreover have "sorted_wrt (\<lambda>a b. is_break a \<longrightarrow> is_break b) (inq s @ to_put s)"
      using inv unfolding pool_inv_def by blast
    ultimately show ?thesis by (simp only: append_Cons)
  qed
  then have srt': "sorted_wrt (\<lambda>a b. is_break a \<longrightarrow> is_break b) (q @ to_put s)"
    unfolding sorted_wrt.simps by (rule conjunct2)
  have "list_all is_break (q @ to_put s)"
    if "u \<in> set ((threads s)[i := Got j])" "u = Returned \<or> (\<exists>j. u = Got j \<and> is_break j)" for u
  proof (cases "u = Got j")
    case True
    then have "is_break j" using that(2) by auto
    moreover have "\<forall>b \<in> set (q @ to_put s). is_break j \<longrightarrow> is_break b"
      using srt unfolding sorted_wrt.simps by (rule conjunct1)
    ultimately show ?thesis unfolding list_all_iff by blast
  next
    case False
    then have "u \<in> set (threads s)" using thread_update_mem that(1) by fast
    then have "list_all is_break (inq s @ to_put s)" using pool_inv_breaks[OF inv _ that(2)] by blast
    moreover have "inq s = j # q" using thread_get by simp
    ultimately show ?thesis by simp
  qed
  moreover have "\<forall>k. Running k \<in> set ((threads s)[i := Got j]) \<longrightarrow> \<not> is_break k \<and> \<not> is_skip k"
    using pool_inv_running[OF inv] by (auto dest!: thread_update_mem)
  ultimately show ?thesis
    by (intro pool_inv_thread[OF inv, of t i "Got j"]) (use bp ret srt' thread_get in \<open>simp_all del: sorted_wrt_append sorted_wrt.simps\<close>)
next
  case (thread_return i j)
  then have br: "is_break j" by (auto simp: worker_round_def rbind_Inr_iff split: if_splits)
  have "Suc (breaks_pending t) = breaks_pending s"
    using breaks_pending_thread[of i s t Returned "Got j"] thread_return br by simp
  moreover have "returned t = Suc (returned s)"
    using returned_update[of i "threads s" Returned] thread_return by (simp add: returned_def)
  moreover have "list_all is_break (inq s @ to_put s)"
    using pool_inv_breaks[OF inv nth_mem[of i "threads s"]] br thread_return by blast
  moreover have "\<forall>k. Running k \<in> set ((threads s)[i := Returned]) \<longrightarrow> \<not> is_break k \<and> \<not> is_skip k"
    using pool_inv_running[OF inv] by (auto dest!: thread_update_mem)
  ultimately show ?thesis
    by (intro pool_inv_thread[OF inv, of t i Returned]) (use thread_return pool_inv_sorted[OF inv] in \<open>simp_all del: sorted_wrt_append\<close>)
next
  case (thread_pass i j j')
  have "breaks_pending t = breaks_pending s"
    using breaks_pending_thread[of i s t Waiting "Got j"] thread_pass by simp
  moreover have "returned t = returned s"
    using returned_update[of i "threads s" Waiting] thread_pass by (simp add: returned_def)
  ultimately show ?thesis
    by (intro pool_inv_thread_keep[OF inv, of t i "Waiting"]) (use thread_pass in auto)
next
  case (thread_launch i j)
  have "breaks_pending t = breaks_pending s"
    using breaks_pending_thread[of i s t "Running j" "Got j"] thread_launch by simp
  moreover have "returned t = returned s"
    using returned_update[of i "threads s" "Running j"] thread_launch by (simp add: returned_def)
  ultimately show ?thesis
    by (intro pool_inv_thread_keep[OF inv, of t i "Running j"]) (use thread_launch in auto)
next
  case (thread_finish i j j')
  have "\<not> is_break j" using inv thread_finish nth_mem[of i "threads s"] by (simp add: pool_inv_def)
  then have "breaks_pending t = breaks_pending s"
    using breaks_pending_thread[of i s t Waiting "Running j"] thread_finish by simp
  moreover have "returned t = returned s"
    using returned_update[of i "threads s" Waiting] thread_finish by (simp add: returned_def)
  ultimately show ?thesis
    by (intro pool_inv_thread_keep[OF inv, of t i "Waiting"]) (use thread_finish in auto)
qed

lemma pool_inv_sigint: "pool_inv n jobs (sigint_hook s) = pool_inv n jobs s"
  by (simp add: pool_inv_def sigint_hook_def breaks_pending_def pending_def in_flight_def returned_def)

lemma reachable_inv:
  "reachable cfg opts popen n jobs s \<Longrightarrow> \<forall>j \<in> set jobs. \<not> is_break j \<Longrightarrow> pool_inv n jobs s"
  by (induction rule: reachable.induct) (auto intro: pool_inv_init pool_inv_step simp: pool_inv_sigint)

section \<open>No job is lost\<close>

lemma worker_round_core:
  "worker_round cfg opts popen te j = Inr (Some j') \<Longrightarrow> job_core j' = job_core j"
  by (auto simp: worker_round_def rbind_Inr_iff dest: launch_core split: if_splits)

lemma conserved_sigint: "conserved before after jobs (sigint_hook s) = conserved before after jobs s"
  by (simp add: conserved_def sigint_hook_def real_pending_def pending_def in_flight_def)

lemma conserved_init:
  assumes "\<forall>j \<in> set jobs. \<not> is_break j"
  shows "conserved before after jobs (init_pool n jobs)"
proof -
  have "filter_mset (\<lambda>j. \<not> is_break j) (mset jobs) = mset jobs"
    using assms by (simp add: filter_mset_eq_conv)
  moreover have "filter_mset (\<lambda>j. \<not> is_break j) (mset (replicate n break_job)) = {#}"
    by (induction n) (simp_all add: break_job_def job_setters)
  ultimately show ?thesis
    by (simp add: conserved_def init_pool_def real_pending_def pending_def in_flight_def)
qed

lemma reachable_conserved:
  "reachable cfg opts popen n jobs s \<Longrightarrow> \<forall>j \<in> set jobs. \<not> is_break j \<Longrightarrow> conserved job_core job_core jobs s"
proof (induction rule: reachable.induct)
  case reach_init
  then show ?case by (rule conserved_init)
next
  case (reach_step s t)
  then show ?case
    using reachable_inv[OF reach_step.hyps(1)]
    by (intro conserved_step[OF reach_step.hyps(2)]) (auto dest: worker_round_core simp: pool_inv_def)
next
  case (reach_sigint s)
  then show ?case by (simp add: conserved_sigint)
qed

text \<open>The result of a job, whatever thread runs it.\<close>

definition job_result :: "waf_config \<Rightarrow> options \<Rightarrow> popen \<Rightarrow> job \<Rightarrow> job" where
  "job_result cfg opts popen j =
     (case worker_round cfg opts popen False j of Inr (Some j') \<Rightarrow> j' | _ \<Rightarrow> j)"

lemma thread_exit_mono: "pool_step cfg opts popen s t \<Longrightarrow> thread_exit t = thread_exit s"
  by (erule pool_stepE) auto

lemma reachable_results:
  "reachable cfg opts popen n jobs s \<Longrightarrow> \<forall>j \<in> set jobs. \<not> is_break j \<Longrightarrow> \<not> thread_exit s \<Longrightarrow>
   conserved (job_result cfg opts popen) (\<lambda>j. j) jobs s"
proof (induction rule: reachable.induct)
  case reach_init
  then show ?case by (intro conserved_init)
next
  case (reach_step s t)
  then show ?case
    using reachable_inv[OF reach_step.hyps(1)] thread_exit_mono[OF reach_step.hyps(2)]
    by (intro conserved_step[OF reach_step.hyps(2)]) (auto simp: job_result_def pool_inv_def)
next
  case (reach_sigint s)
  then show ?case by (simp add: sigint_hook_def)
qed

lemma finished_conserved:
  assumes "finished s" "pool_inv n jobs s" "conserved before after jobs s"
  shows "image_mset after (mset (collected s)) = image_mset before (mset jobs)"
proof -
  have len: "length (collected s) = length jobs" using assms(1,2) by (simp add: finished_def pool_inv_def)
  have "size (image_mset before (real_pending s) + image_mset after (mset (outq s) + mset (collected s)))
      = size (image_mset before (mset jobs))"
    using assms(3) by (simp add: conserved_def)
  then have "real_pending s = {#}" "outq s = []" using len by simp_all
  then show ?thesis using assms(3) by (simp add: conserved_def)
qed

section \<open>Every run ends\<close>

fun thread_work :: "thread \<Rightarrow> nat" where
  "thread_work (Got j) = 4"
| "thread_work (Running j) = 3"
| "thread_work _ = 0"

definition work :: "pool \<Rightarrow> nat" where
  "work s = 6 * length (to_put s) + 5 * length (inq s) + sum_list (map thread_work (threads s))
     + 2 * length (outq s)"

lemma sum_list_update_work:
  "i < length ts \<Longrightarrow> sum_list (map thread_work (ts[i := t])) + thread_work (ts ! i)
     = sum_list (map thread_work ts) + thread_work t"
proof (induction ts arbitrary: i)
  case (Cons u ts)
  then show ?case by (cases i) auto
qed simp

lemma pool_step_work: "pool_step cfg opts popen s t \<Longrightarrow> work t < work s"
proof (erule pool_stepE)
  fix i and j :: job and q
  assume "t = s\<lparr>inq := q, threads := (threads s)[i := Got j]\<rparr>" "i < length (threads s)"
    "threads s ! i = Waiting" "q_get (inq s) = Some (j, q)"
  then show "work t < work s" using sum_list_update_work[of i "threads s" "Got j"] by (simp add: work_def)
next
  fix i and j :: job
  assume "t = s\<lparr>threads := (threads s)[i := Returned]\<rparr>" "i < length (threads s)" "threads s ! i = Got j"
  then show "work t < work s" using sum_list_update_work[of i "threads s" Returned] by (simp add: work_def)
next
  fix i and j j' :: job
  assume "t = s\<lparr>threads := (threads s)[i := Waiting], outq := q_put j' (outq s)\<rparr>"
    "i < length (threads s)" "threads s ! i = Got j"
  then show "work t < work s" using sum_list_update_work[of i "threads s" Waiting] by (simp add: work_def)
next
  fix i and j :: job
  assume "t = s\<lparr>threads := (threads s)[i := Running j]\<rparr>" "i < length (threads s)" "threads s ! i = Got j"
  then show "work t < work s" using sum_list_update_work[of i "threads s" "Running j"] by (simp add: work_def)
next
  fix i and j j' :: job
  assume "t = s\<lparr>threads := (threads s)[i := Waiting], outq := q_put j' (outq s)\<rparr>"
    "i < length (threads s)" "threads s ! i = Running j"
  then show "work t < work s" using sum_list_update_work[of i "threads s" Waiting] by (simp add: work_def)
qed (simp_all add: work_def)

lemma work_init: "work (init_pool n jobs) = 6 * (length jobs + n)"
  by (simp add: work_def init_pool_def map_replicate_const sum_list_replicate)

lemma work_sigint: "work (sigint_hook s) = work s"
  by (simp add: work_def sigint_hook_def)

section \<open>No deadlock\<close>

lemma not_finished_step:
  assumes inv: "pool_inv n jobs s" and c: "conserved job_core job_core jobs s"
    and py: "PYTHON cfg \<noteq> []" and nf: "\<not> finished s" and n: "0 < n"
  shows "\<exists>t. pool_step cfg opts popen s t"
proof (cases "to_put s")
  case (Cons j js)
  then show ?thesis by (blast intro: main_put)
next
  case Nil
  show ?thesis
  proof (cases "\<exists>i < length (threads s). \<exists>j. threads s ! i = Got j \<or> threads s ! i = Running j")
    case True
    then obtain i j where i: "i < length (threads s)" "threads s ! i = Got j \<or> threads s ! i = Running j" by blast
    obtain j' where l: "launch cfg opts popen j = Inr j'" using launch_total[OF py] by blast
    show ?thesis
    proof (cases "threads s ! i = Got j")
      case True
      show ?thesis
      proof (cases "is_break j")
        case True
        then have "worker_round cfg opts popen (thread_exit s) j = Inr None" by (simp add: worker_round_def)
        with i \<open>threads s ! i = Got j\<close> show ?thesis by (blast intro: thread_return[of i s j])
      next
        case False
        show ?thesis
        proof (cases "thread_exit s \<or> is_skip j")
          case True
          then have "\<exists>k. worker_round cfg opts popen (thread_exit s) j = Inr (Some k)"
            using False by (auto simp: worker_round_def)
          with True False i \<open>threads s ! i = Got j\<close> show ?thesis by (blast intro: thread_pass)
        next
          case False
          with \<open>\<not> is_break j\<close> i \<open>threads s ! i = Got j\<close> show ?thesis by (blast intro: thread_launch)
        qed
      qed
    next
      case False
      then have run: "threads s ! i = Running j" using i(2) by simp
      then have "\<not> is_break j" "\<not> is_skip j" using inv i(1) nth_mem[of i "threads s"] by (simp_all add: pool_inv_def)
      then have "worker_round cfg opts popen False j = Inr (Some j')" using l by (simp add: worker_round_def)
      with i run show ?thesis by (blast intro: thread_finish)
    qed
  next
    case idle: False
    then have wr: "t = Waiting \<or> t = Returned" if "t \<in> set (threads s)" for t
      using that by (metis in_set_conv_nth thread.exhaust)
    then have fl: "in_flight s = []" by (fastforce simp: in_flight_def)
    show ?thesis
    proof (cases "inq s")
      case (Cons j q)
      show ?thesis
      proof (cases "\<exists>i < length (threads s). threads s ! i = Waiting")
        case True
        with Cons show ?thesis by (force intro: thread_get)
      next
        case False
        then have all: "\<forall>t \<in> set (threads s). t = Returned" using wr by (metis in_set_conv_nth)
        then have "returned s = n" using inv by (simp add: returned_def pool_inv_def filter_True)
        then have "breaks_pending s = 0" using inv by (simp add: pool_inv_def)
        then have "\<not> is_break j" using Cons by (simp add: breaks_pending_def pending_def split: if_splits)
        moreover have "threads s \<noteq> []" using inv n by (auto simp: pool_inv_def)
        then have "list_all is_break (inq s @ to_put s)"
          using inv all by (auto simp: pool_inv_def neq_Nil_conv)
        ultimately show ?thesis using Cons by simp
      qed
    next
      case inq: Nil
      have pend: "pending s = []" using Nil fl inq by (simp add: pending_def)
      then have "returned s = length (threads s)" using inv by (simp add: breaks_pending_def pool_inv_def)
      then have all: "list_all (\<lambda>t. t = Returned) (threads s)"
        by (metis (mono_tags, lifting) length_filter_less list_all_iff nat_neq_iff returned_def)
      then have w: "wanted s \<noteq> 0" using nf Nil by (simp add: finished_def)
      have "real_pending s = {#}" using pend by (simp add: real_pending_def)
      then have "size (mset (outq s) + mset (collected s)) = length jobs"
        using c by (metis conserved_def add_0 image_mset_empty size_image_mset size_mset)
      then have "length (outq s) = wanted s" using inv by (simp add: pool_inv_def)
      then obtain j q where "outq s = j # q" using w by (cases "outq s") auto
      moreover obtain m where "wanted s = Suc m" using w by (cases "wanted s") auto
      ultimately show ?thesis using Nil by (force intro: main_get)
    qed
  qed
qed

end
