(* ===== verification/NsUtils.thy ===== *)
theory NsUtils
  imports PyStr
begin

text \<open>
  \<open>utils.py\<close>: reading a Python list or boolean out of a configuration file, and
  \<open>read_config_file\<close>. A file system maps a path to the lines of the file, if it exists; a line
  keeps its newline. Python's \<open>eval\<close> is a parameter.
\<close>

type_synonym file_lines = "string \<Rightarrow> string list option"

section \<open>get_list_from_file\<close>

text \<open>The line without its comment: \<open>(line, comment) = line.split('#', 1)\<close>.\<close>

definition remove_comment :: "string \<Rightarrow> string" where
  "remove_comment line = (if CHR ''#'' \<in> set line then hd (split_once (CHR ''#'') line) else line)"

text \<open>\<open>s.split('=', 1)[1].strip()\<close>.\<close>

definition after_equals :: "string \<Rightarrow> string res" where
  "after_equals s = rbind (py_nth (split_once (CHR ''='') s) 1) (\<lambda>t. Inr (strip t))"

fun list_loop :: "(string \<Rightarrow> 'v list res) \<Rightarrow> string \<Rightarrow> string list \<Rightarrow> string \<Rightarrow> bool \<Rightarrow> 'v list res" where
  "list_loop ev list_name [] list_string parsing_multiline_list = Inr []"
| "list_loop ev list_name (line # ls) list_string parsing_multiline_list =
     (let line = remove_comment line
      in if contains list_name line \<or> parsing_multiline_list then
           (let list_string = list_string @ line
            in if CHR '']'' \<notin> set list_string then list_loop ev list_name ls list_string True
               else rbind (after_equals list_string) ev)
         else list_loop ev list_name ls list_string parsing_multiline_list)"

definition get_list_from_file :: "(string \<Rightarrow> 'v list res) \<Rightarrow> file_lines \<Rightarrow> string \<Rightarrow> string \<Rightarrow> 'v list res" where
  "get_list_from_file ev fs file_path list_name =
     (case fs file_path of
        None \<Rightarrow> Inr []
      | Some ls \<Rightarrow> list_loop ev list_name ls '''' False)"

section \<open>get_bool_from_file\<close>

fun bool_loop :: "(string \<Rightarrow> bool res) \<Rightarrow> string \<Rightarrow> string list \<Rightarrow> bool option res" where
  "bool_loop ev bool_name [] = Inr None"
| "bool_loop ev bool_name (line # ls) =
     (let line = remove_comment line
      in if contains bool_name line
         then rbind (after_equals line) (\<lambda>t. rbind (ev t) (\<lambda>b. Inr (Some b)))
         else bool_loop ev bool_name ls)"

text \<open>\<open>bool_found\<close> is assigned only where the file exists, and read in any case.\<close>

definition get_bool_from_file :: "(string \<Rightarrow> bool res) \<Rightarrow> file_lines \<Rightarrow> string \<Rightarrow> string \<Rightarrow> bool \<Rightarrow> bool res" where
  "get_bool_from_file ev fs file_path bool_name value_if_missing =
     rbind (case fs file_path of
              None \<Rightarrow> Inl UnboundLocalError
            | Some ls \<Rightarrow> bool_loop ev bool_name ls) (\<lambda>found.
       case found of Some b \<Rightarrow> Inr b | None \<Rightarrow> Inr value_if_missing)"

section \<open>read_config_file\<close>

text \<open>\<open>home\<close> is \<open>os.path.expanduser('~/')\<close>.\<close>

definition config_path :: "file_lines \<Rightarrow> string \<Rightarrow> string option" where
  "config_path fs home =
     (if fs ''.ns3rc'' \<noteq> None then Some ''.ns3rc''
      else if fs (home @ ''.ns3rc'') \<noteq> None then Some (home @ ''.ns3rc'')
      else None)"

definition read_config_file ::
  "(string \<Rightarrow> string list res) \<Rightarrow> (string \<Rightarrow> bool res) \<Rightarrow> file_lines \<Rightarrow> string
    \<Rightarrow> (bool \<times> string list \<times> bool \<times> bool) res" where
  "read_config_file ev evb fs home =
     (case config_path fs home of
        None \<Rightarrow> Inr (False, [''all_modules''], False, False)
      | Some path \<Rightarrow>
          rbind (get_list_from_file ev fs path ''modules_enabled'') (\<lambda>mods.
            let modules_enabled = (if mods = [] then [''all_modules''] else mods)
            in rbind (get_bool_from_file evb fs path ''examples_enabled'' False) (\<lambda>examples_enabled.
               rbind (get_bool_from_file evb fs path ''tests_enabled'' False) (\<lambda>tests_enabled.
                 Inr (True, modules_enabled, examples_enabled, tests_enabled)))))"

section \<open>What they read\<close>

text \<open>
  The reference: the lines of code from the first one that names the list, and of these the
  shortest start that has a closing bracket.
\<close>

fun upto_bracket :: "string list \<Rightarrow> string option" where
  "upto_bracket [] = None"
| "upto_bracket (l # ls) =
     (if CHR '']'' \<in> set l then Some l else map_option (\<lambda>t. l @ t) (upto_bracket ls))"

definition list_text :: "string \<Rightarrow> string list \<Rightarrow> string option" where
  "list_text list_name ls = upto_bracket (dropWhile (\<lambda>l. \<not> contains list_name l) (map remove_comment ls))"

lemma list_loop_open:
  "CHR '']'' \<notin> set acc \<Longrightarrow> list_loop ev nm ls acc True =
     (case upto_bracket (map remove_comment ls) of
        None \<Rightarrow> Inr [] | Some t \<Rightarrow> rbind (after_equals (acc @ t)) ev)"
proof (induction ls arbitrary: acc)
  case (Cons l ls)
  show ?case
  proof (cases "CHR '']'' \<in> set (remove_comment l)")
    case True
    then show ?thesis by (simp add: Let_def)
  next
    case False
    with Cons.prems have "CHR '']'' \<notin> set (acc @ remove_comment l)" by simp
    from Cons.IH[OF this] False show ?thesis
      using Cons.prems by (simp add: Let_def split: option.splits)
  qed
qed simp

lemma list_loop_closed:
  "list_loop ev nm ls '''' False =
     (case list_text nm ls of None \<Rightarrow> Inr [] | Some t \<Rightarrow> rbind (after_equals t) ev)"
proof (induction ls)
  case (Cons l ls)
  show ?case
  proof (cases "contains nm (remove_comment l)")
    case True
    then show ?thesis
      by (simp add: Let_def list_text_def list_loop_open split: option.splits)
  next
    case False
    with Cons show ?thesis by (simp add: Let_def list_text_def)
  qed
qed (simp add: list_text_def)

lemma get_list_reads:
  "get_list_from_file ev fs path nm =
     (case fs path of
        None \<Rightarrow> Inr []
      | Some ls \<Rightarrow> (case list_text nm ls of None \<Rightarrow> Inr [] | Some t \<Rightarrow> rbind (after_equals t) ev))"
  by (simp add: get_list_from_file_def list_loop_closed split: option.splits)

lemma bool_loop_reads:
  "bool_loop ev nm ls =
     (case List.find (contains nm) (map remove_comment ls) of
        None \<Rightarrow> Inr None
      | Some l \<Rightarrow> rbind (after_equals l) (\<lambda>t. rbind (ev t) (\<lambda>b. Inr (Some b))))"
  by (induction ls) (simp_all add: Let_def)

lemma get_bool_reads:
  "get_bool_from_file ev fs path nm dflt =
     (case fs path of
        None \<Rightarrow> Inl UnboundLocalError
      | Some ls \<Rightarrow> (case List.find (contains nm) (map remove_comment ls) of
            None \<Rightarrow> Inr dflt
          | Some l \<Rightarrow> rbind (after_equals l) ev))"
  by (simp add: get_bool_from_file_def bool_loop_reads rbind_assoc split: option.splits)
     (metis (mono_tags, lifting) rbind.elims rbind.simps sum.exhaust)

lemma after_equals_error: "after_equals s = Inl e \<Longrightarrow> e = IndexError"
  by (auto simp: after_equals_def py_nth_def Let_def split: if_splits)

lemma rbind_Inl_iff: "rbind r f = Inl e \<longleftrightarrow> r = Inl e \<or> (\<exists>a. r = Inr a \<and> f a = Inl e)"
  by (cases r) auto

lemma config_path_exists: "config_path fs home = Some path \<Longrightarrow> fs path \<noteq> None"
  by (auto simp: config_path_def split: if_splits)

text \<open>The unbound variable of \<open>get_bool_from_file\<close> is never read by \<open>read_config_file\<close>.\<close>

lemma read_config_bound:
  assumes "\<And>s. ev s \<noteq> Inl UnboundLocalError" "\<And>s. evb s \<noteq> Inl UnboundLocalError"
  shows "read_config_file ev evb fs home \<noteq> Inl UnboundLocalError"
proof (cases "config_path fs home")
  case None
  then show ?thesis by (simp add: read_config_file_def)
next
  case (Some path)
  then obtain ls where ls: "fs path = Some ls" using config_path_exists by fastforce
  have l: "get_list_from_file ev fs path nm \<noteq> Inl UnboundLocalError" for nm
    using assms(1) by (auto simp: get_list_reads ls rbind_Inl_iff dest: after_equals_error split: option.splits)
  have b: "get_bool_from_file evb fs path nm d \<noteq> Inl UnboundLocalError" for nm d
    using assms(2) by (auto simp: get_bool_reads ls rbind_Inl_iff dest: after_equals_error split: option.splits)
  show ?thesis
    using l b by (auto simp: read_config_file_def Some Let_def rbind_Inl_iff)
qed

end
