(* ===== verification/TestPlan.thy ===== *)
theory TestPlan
  imports TestPoolProofs NsUtils "HOL-Library.List_Lexorder" "HOL-Library.Char_ord"
begin

text \<open>
  The first half of \<open>run_tests\<close> of \<open>test.py\<close>, up to the jobs it dispatches: building with
  waf, the build status file, the lists of examples (\<open>parse_examples_to_run_file\<close>), the options
  that only print, the choice of the test suites and the jobs made of them. What the machine
  answers (files, processes, the clock, \<open>eval\<close>) is the record \<open>world\<close>.
\<close>

record world =
  w_files :: file_lines
  w_popen :: popen
  w_waf :: "string \<Rightarrow> int"
  w_getcwd :: string
  w_date_and_time :: string
  w_nprocessors_onln :: "int option"
  w_sysctl :: "string \<times> string"
  w_eval_strings :: "string \<Rightarrow> string list res"
  w_eval_triples :: "string \<Rightarrow> (string \<times> string \<times> string) list res"
  w_eval_pairs :: "string \<Rightarrow> (string \<times> string) list res"
  w_eval_cond :: "string \<Rightarrow> bool res"

definition path_exists :: "world \<Rightarrow> string \<Rightarrow> bool" where
  "path_exists w p \<longleftrightarrow> w_files w p \<noteq> None"

section \<open>Names and the waf command\<close>

definition build_profile_suffix :: "waf_config \<Rightarrow> string" where
  "build_profile_suffix cfg = (if BUILD_PROFILE cfg = ''release'' then '''' else ''-'' @ BUILD_PROFILE cfg)"

definition program_file_name :: "waf_config \<Rightarrow> string \<Rightarrow> string" where
  "program_file_name cfg name = APPNAME cfg @ VERSION cfg @ ''-'' @ name @ build_profile_suffix cfg"

definition test_runner_name :: "waf_config \<Rightarrow> string" where
  "test_runner_name cfg = program_file_name cfg ''test-runner''"

definition waf_cmd :: "waf_config \<Rightarrow> options \<Rightarrow> string" where
  "waf_cmd cfg opts =
     (let waf = (if platform cfg = ''win32'' then ''waf'' else ''./waf'')
      in if opt_kinds opts \<or> opt_list opts
            \<or> (opt_constrain opts \<noteq> '''' \<and> opt_constrain opts \<in> set core_kinds)
         then waf @ '' --target=test-runner''
         else if opt_example opts \<noteq> '''' then waf @ '' --target='' @ basename (opt_example opts)
         else waf)"

text \<open>The return code of waf where it is run and fails.\<close>

definition waf_died :: "world \<Rightarrow> waf_config \<Rightarrow> options \<Rightarrow> int option" where
  "waf_died w cfg opts =
     (if opt_nowaf opts then None
      else let rc = w_waf w (waf_cmd cfg opts) in if py_true rc then Some rc else None)"

section \<open>Programs and examples\<close>

definition build_status :: "world \<Rightarrow> waf_config \<Rightarrow> (string list \<times> string list) res" where
  "build_status w cfg =
     (let build_status_file = path_join (NS3_BUILDDIR cfg) ''build-status.py''
      in if path_exists w build_status_file then
           rbind (get_list_from_file (w_eval_strings w) (w_files w) build_status_file ''ns3_runnable_programs'') (\<lambda>programs.
           rbind (get_list_from_file (w_eval_strings w) (w_files w) build_status_file ''ns3_runnable_scripts'') (\<lambda>scripts.
             Inr (programs, scripts)))
         else Inl (SystemExit 2))"

definition programs_dictionary :: "string list \<Rightarrow> (string, string) dict" where
  "programs_dictionary programs = foldl (\<lambda>d program. d_set (basename program) program d) [] programs"

record example_lists =
  example_tests :: "(string \<times> string \<times> string) list"
  example_names_original :: "string list"
  python_tests :: "(string \<times> string) list"

definition no_examples :: example_lists where
  "no_examples = \<lparr>example_tests = [], example_names_original = [], python_tests = []\<rparr>"

text \<open>The path with the arguments after it, where the example's name has arguments.\<close>

definition with_arguments :: "string \<Rightarrow> string list \<Rightarrow> string" where
  "with_arguments path parts = (if length parts \<noteq> 1 then path @ '' '' @ (parts ! 1) else path)"

definition cpp_example :: "world \<Rightarrow> waf_config \<Rightarrow> string \<Rightarrow> example_lists \<Rightarrow> string \<times> string \<times> string \<Rightarrow> example_lists" where
  "cpp_example w cfg cpp_executable_dir ex = (\<lambda>(example_name, do_run, do_valgrind_run).
     let example_name_parts = split_once (CHR '' '') example_name;
         example_path = path_join cpp_executable_dir (program_file_name cfg (example_name_parts ! 0))
     in if path_exists w example_path
        then ex\<lparr>example_tests := example_tests ex
                  @ [(with_arguments example_path example_name_parts, do_run, do_valgrind_run)],
                example_names_original := example_names_original ex @ [example_name]\<rparr>
        else ex)"

definition python_example :: "world \<Rightarrow> string \<Rightarrow> example_lists \<Rightarrow> string \<times> string \<Rightarrow> example_lists" where
  "python_example w python_script_dir ex = (\<lambda>(example_name, do_run).
     let example_name_parts = split_once (CHR '' '') example_name;
         example_path = path_join python_script_dir (example_name_parts ! 0)
     in if path_exists w example_path
        then ex\<lparr>python_tests := python_tests ex @ [(with_arguments example_path example_name_parts, do_run)]\<rparr>
        else ex)"

definition parse_examples_to_run_file ::
  "world \<Rightarrow> waf_config \<Rightarrow> string \<Rightarrow> string \<Rightarrow> string \<Rightarrow> example_lists \<Rightarrow> example_lists res" where
  "parse_examples_to_run_file w cfg examples_to_run_path cpp_executable_dir python_script_dir ex =
     (if path_exists w examples_to_run_path then
        rbind (get_list_from_file (w_eval_triples w) (w_files w) examples_to_run_path ''cpp_examples'') (\<lambda>cpp_examples.
          let ex' = foldl (cpp_example w cfg cpp_executable_dir) ex cpp_examples
          in rbind (get_list_from_file (w_eval_pairs w) (w_files w) examples_to_run_path ''python_examples'') (\<lambda>python_examples.
               Inr (foldl (python_example w python_script_dir) ex' python_examples)))
      else Inr ex)"

definition parse_example_directory :: "world \<Rightarrow> waf_config \<Rightarrow> string \<Rightarrow> example_lists \<Rightarrow> example_lists res" where
  "parse_example_directory w cfg directory ex =
     (let example_directory = path_join ''examples'' directory
      in parse_examples_to_run_file w cfg (path_join example_directory ''examples-to-run.py'')
           (path_join (NS3_BUILDDIR cfg) example_directory) example_directory ex)"

definition parse_module :: "world \<Rightarrow> waf_config \<Rightarrow> string \<Rightarrow> example_lists \<Rightarrow> example_lists res" where
  "parse_module w cfg ns3_module ex =
     (let module_directory = path_join ''src'' (drop (length ''ns3-'') ns3_module);
          example_directory = path_join module_directory ''examples''
      in parse_examples_to_run_file w cfg (path_join (path_join module_directory ''test'') ''examples-to-run.py'')
           (path_join (NS3_BUILDDIR cfg) example_directory) example_directory ex)"

fun each_res :: "('a \<Rightarrow> 's \<Rightarrow> 's res) \<Rightarrow> 'a list \<Rightarrow> 's \<Rightarrow> 's res" where
  "each_res f [] s = Inr s"
| "each_res f (x # xs) s = rbind (f x s) (each_res f xs)"

definition collect_examples :: "world \<Rightarrow> waf_config \<Rightarrow> example_lists res" where
  "collect_examples w cfg =
     rbind (each_res (parse_example_directory w cfg) (EXAMPLE_DIRECTORIES cfg) no_examples)
       (each_res (parse_module w cfg) (NS3_ENABLED_MODULES cfg))"

section \<open>Asking the test runner\<close>

definition runner_command :: "waf_config \<Rightarrow> string \<Rightarrow> string" where
  "runner_command cfg args = path_join ''utils'' (test_runner_name cfg @ args)"

text \<open>What the test runner prints for these arguments.\<close>

definition ask_runner :: "world \<Rightarrow> waf_config \<Rightarrow> string \<Rightarrow> string res" where
  "ask_runner w cfg args =
     rbind (run_job_synchronously cfg (w_popen w) (runner_command cfg args) (w_getcwd w) False False '''')
       (\<lambda>(rc, standard_out, standard_err, et). Inr standard_out)"

definition newline :: char where
  "newline = CHR 0x0A"

definition print_kinds :: "world \<Rightarrow> waf_config \<Rightarrow> string list res" where
  "print_kinds w cfg = rbind (ask_runner w cfg '' --print-test-type-list'') (\<lambda>out. Inr [out])"

definition print_list :: "world \<Rightarrow> waf_config \<Rightarrow> options \<Rightarrow> string list \<Rightarrow> string list res" where
  "print_list w cfg opts names_original =
     rbind (ask_runner w cfg
              (if opt_constrain opts \<noteq> ''''
               then '' --print-test-name-list --print-test-types --test-type='' @ opt_constrain opts
               else '' --print-test-name-list --print-test-types'')) (\<lambda>standard_out.
       let list_items = sort (split_on newline standard_out)
       in Inr ([''Test Type    Test Name'', ''---------    ---------'']
               @ filter (\<lambda>item. strip item \<noteq> []) list_items
               @ map (\<lambda>item. ''example      '' @ item) (sort names_original) @ ['''']))"

section \<open>The test suites to run\<close>

definition select_suites :: "world \<Rightarrow> waf_config \<Rightarrow> options \<Rightarrow> string res" where
  "select_suites w cfg opts =
     (if opt_suite opts \<noteq> '''' then
        rbind (ask_runner w cfg '' --print-test-name-list'') (\<lambda>suites.
          if opt_suite opts \<in> set (split_on newline suites) then Inr (endl (opt_suite opts))
          else Inl (SystemExit 2))
      else if opt_example opts = '''' \<and> opt_pyexample opts = '''' then
        ask_runner w cfg
          (if opt_constrain opts \<noteq> '''' then '' --print-test-name-list --test-type='' @ opt_constrain opts
           else '' --print-test-name-list'')
      else Inr '''')"

fun drop_performance :: "string list \<Rightarrow> string list \<Rightarrow> string list" where
  "drop_performance suite_list [] = suite_list"
| "drop_performance suite_list (performance_test # ts) =
     drop_performance (if performance_test \<in> set suite_list then remove1 performance_test suite_list
                       else suite_list) ts"

definition suites_to_run :: "world \<Rightarrow> waf_config \<Rightarrow> options \<Rightarrow> string list res" where
  "suites_to_run w cfg opts =
     rbind (select_suites w cfg opts) (\<lambda>suites.
       let suite_list = split_on newline suites
       in if opt_constrain opts \<noteq> ''performance'' then
            rbind (ask_runner w cfg '' --print-test-name-list --test-type=performance'') (\<lambda>performance_tests.
              Inr (drop_performance suite_list (split_on newline performance_tests)))
          else Inr suite_list)"

definition processors :: "world \<Rightarrow> waf_config \<Rightarrow> int res" where
  "processors w cfg =
     (if platform cfg \<noteq> ''win32'' then
        (case w_nprocessors_onln w of
           Some n \<Rightarrow> Inr n
         | None \<Rightarrow> (case w_sysctl w of (stdout_results, stderr_results) \<Rightarrow>
             if stderr_results = '''' then read_int stdout_results else Inr 1))
      else Inr 1)"

section \<open>The jobs\<close>

definition testpy_output_dir :: "world \<Rightarrow> string" where
  "testpy_output_dir w = path_join TMP_OUTPUT_DIR (w_date_and_time w)"

definition suite_job :: "world \<Rightarrow> waf_config \<Rightarrow> options \<Rightarrow> string \<Rightarrow> job" where
  "suite_job w cfg opts test =
     (let job = set_tempdir (testpy_output_dir w)
                  (set_basedir (w_getcwd w)
                  (set_cwd (w_getcwd w)
                  (set_tmp_file_name (path_join (testpy_output_dir w) (test @ ''.xml''))
                  (set_display_name test (set_is_pyexample False (set_is_example False Job))))));
          multiple = (if opt_multiple opts then '''' else '' --stop-on-failure'');
          fullness = (if opt_fullness opts \<noteq> '''' then '' --fullness='' @ map upper_char (opt_fullness opts)
                      else '' --fullness=QUICK'');
          path_cmd = runner_command cfg ('' --test-name='' @ test @ multiple @ fullness);
          job = set_shell_command path_cmd job;
          job = (if opt_valgrind opts \<and> test \<in> set core_valgrind_skip_tests then set_is_skip True job else job)
      in if \<not> NSC_ENABLED cfg \<and> test \<in> set core_nsc_missing_skip_tests then set_is_skip True job else job)"

definition suite_jobs :: "world \<Rightarrow> waf_config \<Rightarrow> options \<Rightarrow> string list \<Rightarrow> job list" where
  "suite_jobs w cfg opts suite_list =
     map (suite_job w cfg opts) (filter (\<lambda>test. test \<noteq> []) (map strip suite_list))"

text \<open>An example's job, common to the examples of the lists and to the one of the option.\<close>

definition example_job :: "world \<Rightarrow> string \<Rightarrow> string \<Rightarrow> job" where
  "example_job w build_pth test =
     set_build_path build_pth
       (set_shell_command test
       (set_tempdir (testpy_output_dir w)
       (set_basedir (w_getcwd w)
       (set_cwd (testpy_output_dir w)
       (set_tmp_file_name '''' (set_display_name test Job))))))"

fun collect_jobs :: "('a \<Rightarrow> job option res) \<Rightarrow> 'a list \<Rightarrow> job list res" where
  "collect_jobs f [] = Inr []"
| "collect_jobs f (x # xs) =
     rbind (f x) (\<lambda>j. rbind (collect_jobs f xs) (\<lambda>js.
       Inr (case j of None \<Rightarrow> js | Some job \<Rightarrow> job # js)))"

text \<open>The name of the program without arguments and directories.\<close>

definition bare_name :: "string \<Rightarrow> string" where
  "bare_name test = basename (split_once (CHR '' '') test ! 0)"

definition list_example :: "world \<Rightarrow> options \<Rightarrow> (string, string) dict \<Rightarrow> string \<times> string \<times> string \<Rightarrow> job option res" where
  "list_example w opts programs = (\<lambda>(test, do_run, do_valgrind_run).
     if d_has programs (bare_name test) then
       rbind (w_eval_cond w do_run) (\<lambda>run.
         if run then
           let job = set_is_pyexample False (set_is_example True (example_job w (opt_buildpath opts) test))
           in if opt_valgrind opts
              then rbind (w_eval_cond w do_valgrind_run) (\<lambda>v. Inr (Some (if \<not> v then set_is_skip True job else job)))
              else Inr (Some job)
         else Inr None)
     else Inr None)"

definition no_selection :: "options \<Rightarrow> bool" where
  "no_selection opts \<longleftrightarrow> opt_suite opts = '''' \<and> opt_example opts = '''' \<and> opt_pyexample opts = ''''"

definition example_jobs ::
  "world \<Rightarrow> waf_config \<Rightarrow> options \<Rightarrow> (string, string) dict \<Rightarrow> (string \<times> string \<times> string) list \<Rightarrow> (job list \<times> string list) res" where
  "example_jobs w cfg opts programs tests =
     (if no_selection opts then
        (if (opt_constrain opts = '''' \<or> opt_constrain opts = ''example'') \<and> ENABLE_EXAMPLES cfg
         then rbind (collect_jobs (list_example w opts programs) tests) (\<lambda>js. Inr (js, []))
         else Inr ([], []))
      else if opt_example opts \<noteq> '''' then
        (let example_name = program_file_name cfg (opt_example opts)
         in if \<not> d_has programs example_name
            then Inr ([], [''Example '' @ example_name @ '' is not runnable.''])
            else rbind (d_item programs example_name) (\<lambda>example_path.
              Inr ([set_is_pyexample False (set_is_example True
                      (example_job w (opt_buildpath opts) (abspath (w_getcwd w) example_path)))], [])))
      else Inr ([], []))"

definition list_pyexample :: "world \<Rightarrow> waf_config \<Rightarrow> options \<Rightarrow> string list \<Rightarrow> string \<times> string \<Rightarrow> job option res" where
  "list_pyexample w cfg opts scripts = (\<lambda>(test, do_run).
     if bare_name test \<in> set scripts then
       rbind (w_eval_cond w do_run) (\<lambda>run.
         if run then
           let job = set_is_pyexample True (set_is_example False (example_job w '''' test));
               job = (if opt_valgrind opts then set_is_skip True job else job)
           in Inr (Some (if \<not> ENABLE_PYTHON_BINDINGS cfg then set_is_skip True job else job))
         else Inr None)
     else Inr None)"

definition pyexample_jobs ::
  "world \<Rightarrow> waf_config \<Rightarrow> options \<Rightarrow> string list \<Rightarrow> (string \<times> string) list \<Rightarrow> (job list \<times> string list) res" where
  "pyexample_jobs w cfg opts scripts tests =
     (if no_selection opts then
        (if (opt_constrain opts = '''' \<or> opt_constrain opts = ''pyexample'') \<and> ENABLE_EXAMPLES cfg
         then rbind (collect_jobs (list_pyexample w cfg opts scripts) tests) (\<lambda>js. Inr (js, []))
         else Inr ([], []))
      else if opt_pyexample opts \<noteq> '''' then
        (let example_name = basename (opt_pyexample opts)
         in if example_name \<notin> set scripts
            then Inr ([], [''Example '' @ example_name @ '' is not runnable.''])
            else Inr ([set_is_pyexample True (example_job w '''' (opt_pyexample opts))], []))
      else Inr ([], []))"

section \<open>The whole first half\<close>

text \<open>
  \<open>Stop\<close> is a return of \<open>run_tests\<close> before any job is dispatched (\<open>None\<close> where it returns no
  value), with the lines it printed; \<open>Go\<close> has the jobs in the order they are put into the queue,
  the number of worker threads, and the lines.
\<close>

datatype plan = Stop "int option" "string list" | Go int "job list" "string list"

definition plan_jobs :: "world \<Rightarrow> waf_config \<Rightarrow> options \<Rightarrow> string list \<Rightarrow> string list \<Rightarrow> example_lists \<Rightarrow> plan res" where
  "plan_jobs w cfg opts programs scripts ex =
     rbind (suites_to_run w cfg opts) (\<lambda>suite_list.
     rbind (processors w cfg) (\<lambda>n.
     rbind (example_jobs w cfg opts (programs_dictionary programs) (example_tests ex)) (\<lambda>(ejs, out1).
     rbind (pyexample_jobs w cfg opts scripts (python_tests ex)) (\<lambda>(pjs, out2).
       Inr (Go n (suite_jobs w cfg opts suite_list @ ejs @ pjs) (out1 @ out2))))))"

definition make_plan :: "world \<Rightarrow> waf_config \<Rightarrow> options \<Rightarrow> plan res" where
  "make_plan w cfg opts =
     (case waf_died w cfg opts of
        Some rc \<Rightarrow> Inr (Stop (Some rc) [])
      | None \<Rightarrow>
          rbind (build_status w cfg) (\<lambda>(programs, scripts).
          rbind (collect_examples w cfg) (\<lambda>ex.
          rbind (if opt_kinds opts then print_kinds w cfg else Inr []) (\<lambda>out1.
          rbind (if opt_list opts then print_list w cfg opts (example_names_original ex) else Inr []) (\<lambda>out2.
            if opt_kinds opts \<or> opt_list opts then Inr (Stop None (out1 @ out2))
            else plan_jobs w cfg opts programs scripts ex)))))"

section \<open>Facts on the plan\<close>

lemma drop_performance_mset: "mset (drop_performance suite_list ts) = mset suite_list - mset ts"
  by (induction suite_list ts rule: drop_performance.induct)
    (auto simp: diff_diff_add_mset[symmetric] diff_right_commute)

lemma drop_performance_distinct:
  assumes "distinct suite_list"
  shows "set (drop_performance suite_list ts) = set suite_list - set ts"
    and "distinct (drop_performance suite_list ts)"
  using assms by (induction suite_list ts rule: drop_performance.induct) auto

text \<open>A suite's job: which fields hold what, and when it is skipped.\<close>

lemma suite_job_fields:
  "display_name (suite_job w cfg opts test) = test"
  "is_break (suite_job w cfg opts test) = False"
  "is_example (suite_job w cfg opts test) = False"
  "is_pyexample (suite_job w cfg opts test) = False"
  "tmp_file_name (suite_job w cfg opts test) = path_join (testpy_output_dir w) (test @ ''.xml'')"
  "is_skip (suite_job w cfg opts test) \<longleftrightarrow>
     (opt_valgrind opts \<and> test \<in> set core_valgrind_skip_tests)
     \<or> (\<not> NSC_ENABLED cfg \<and> test \<in> set core_nsc_missing_skip_tests)"
  by (auto simp: suite_job_def Let_def job_setters Job_def)

lemma suite_jobs_fields: "j \<in> set (suite_jobs w cfg opts l) \<Longrightarrow> \<not> is_break j \<and> \<not> is_example j \<and> \<not> is_pyexample j"
  by (auto simp: suite_jobs_def suite_job_fields)

lemma example_job_fields:
  "is_break (example_job w b t) = False" "is_skip (example_job w b t) = False"
  "display_name (example_job w b t) = t" "is_example (example_job w b t) = False"
  "is_pyexample (example_job w b t) = False"
  by (simp_all add: example_job_def job_setters Job_def)

lemma collect_jobs_all:
  "collect_jobs f xs = Inr js \<Longrightarrow> (\<And>x j. x \<in> set xs \<Longrightarrow> f x = Inr (Some j) \<Longrightarrow> P j) \<Longrightarrow> list_all P js"
proof (induction xs arbitrary: js)
  case (Cons x xs)
  then show ?case by (fastforce simp: rbind_Inr_iff split: option.splits)
qed simp

lemma list_example_fields:
  "list_example w opts programs t = Inr (Some j) \<Longrightarrow> \<not> is_break j \<and> is_example j \<and> \<not> is_pyexample j"
  by (auto simp: list_example_def rbind_Inr_iff Let_def example_job_fields set_is_example_def
      set_is_pyexample_def set_is_skip_def split: prod.splits if_splits)

lemma list_pyexample_fields:
  "list_pyexample w cfg opts scripts t = Inr (Some j) \<Longrightarrow>
     \<not> is_break j \<and> is_pyexample j \<and> \<not> is_example j
     \<and> (is_skip j \<longleftrightarrow> opt_valgrind opts \<or> \<not> ENABLE_PYTHON_BINDINGS cfg)"
  by (auto simp: list_pyexample_def rbind_Inr_iff Let_def example_job_fields set_is_example_def
      set_is_pyexample_def set_is_skip_def split: prod.splits if_splits)

lemma example_jobs_fields:
  "example_jobs w cfg opts programs tests = Inr (js, out) \<Longrightarrow>
   list_all (\<lambda>j. \<not> is_break j \<and> is_example j \<and> \<not> is_pyexample j) js"
  using collect_jobs_all[of "list_example w opts programs" tests js] list_example_fields
  by (fastforce simp: example_jobs_def rbind_Inr_iff Let_def example_job_fields set_is_example_def
      set_is_pyexample_def split: if_splits)

lemma pyexample_jobs_fields:
  "pyexample_jobs w cfg opts scripts tests = Inr (js, out) \<Longrightarrow>
   list_all (\<lambda>j. \<not> is_break j \<and> is_pyexample j \<and> \<not> is_example j) js"
  using collect_jobs_all[of "list_pyexample w cfg opts scripts" tests js] list_pyexample_fields
  by (fastforce simp: pyexample_jobs_def rbind_Inr_iff Let_def example_job_fields set_is_pyexample_def
      split: if_splits)

lemma plan_jobs_go:
  assumes "plan_jobs w cfg opts programs scripts ex = Inr (Go n jobs out)"
  obtains suite_list ejs out1 pjs out2 where "suites_to_run w cfg opts = Inr suite_list"
    "processors w cfg = Inr n"
    "example_jobs w cfg opts (programs_dictionary programs) (example_tests ex) = Inr (ejs, out1)"
    "pyexample_jobs w cfg opts scripts (python_tests ex) = Inr (pjs, out2)"
    "jobs = suite_jobs w cfg opts suite_list @ ejs @ pjs"
  using assms by (auto simp: plan_jobs_def rbind_Inr_iff)

lemma make_plan_go:
  assumes "make_plan w cfg opts = Inr (Go n jobs out)"
  obtains programs scripts ex where "plan_jobs w cfg opts programs scripts ex = Inr (Go n jobs out)"
    "collect_examples w cfg = Inr ex" "build_status w cfg = Inr (programs, scripts)"
  using assms by (auto simp: make_plan_def rbind_Inr_iff split: option.splits if_splits)

lemma plan_no_break:
  assumes "make_plan w cfg opts = Inr (Go n jobs out)"
  shows "\<forall>j \<in> set jobs. \<not> is_break j"
proof -
  obtain programs scripts ex where "plan_jobs w cfg opts programs scripts ex = Inr (Go n jobs out)"
    using make_plan_go[OF assms] by blast
  then obtain suite_list ejs out1 pjs out2 where
    "example_jobs w cfg opts (programs_dictionary programs) (example_tests ex) = Inr (ejs, out1)"
    "pyexample_jobs w cfg opts scripts (python_tests ex) = Inr (pjs, out2)"
    "jobs = suite_jobs w cfg opts suite_list @ ejs @ pjs" by (rule plan_jobs_go)
  then show ?thesis
    using example_jobs_fields pyexample_jobs_fields suite_jobs_fields by (fastforce simp: list_all_iff)
qed

text \<open>
  A suite that is named by the option and is a performance test: the list of suites to run
  keeps only the empty string, unless performance tests are what the run is constrained to.
\<close>

lemma requested_performance_suite:
  assumes "opt_suite opts \<noteq> ''''" "newline \<notin> set (opt_suite opts)" "opt_constrain opts \<noteq> ''performance''"
    and all: "ask_runner w cfg '' --print-test-name-list'' = Inr names" "opt_suite opts \<in> set (split_on newline names)"
    and perf: "ask_runner w cfg '' --print-test-name-list --test-type=performance'' = Inr performance"
      "opt_suite opts \<in> set (split_on newline performance)"
    and l: "suites_to_run w cfg opts = Inr suite_list"
  shows "suite_jobs w cfg opts suite_list = []"
proof -
  have "select_suites w cfg opts = Inr (endl (opt_suite opts))"
    using assms(1) all by (simp add: select_suites_def)
  moreover have split: "split_on newline (endl (opt_suite opts)) = [opt_suite opts, '''']"
    using assms(2) by (simp add: endl_def newline_def[symmetric] str_simps)
  ultimately have sl: "suite_list = drop_performance [opt_suite opts, ''''] (split_on newline performance)"
    using l assms(3) perf(1) by (simp add: suites_to_run_def)
  have "set suite_list \<subseteq> {''''}"
    unfolding sl using drop_performance_distinct(1)[of "[opt_suite opts, '''']"] assms(1) perf(2) by auto
  then show ?thesis
    by (auto simp: suite_jobs_def filter_empty_conv strip_def rstrip_def lstrip_def)
qed

end
