(* ===== verification/TestReport.thy ===== *)
theory TestReport
  imports PyStr
begin

text \<open>
  The reports \<open>test.py\<close> makes from the results file: \<open>read_test\<close>, \<open>node_to_text\<close>,
  \<open>translate_to_text\<close> and \<open>translate_to_html\<close>. The element tree is what
  \<open>xml.etree.ElementTree.parse\<close> returns. A function that writes to the report file returns the
  text it writes, or the exception that stops it.
\<close>

section \<open>Element trees and written text\<close>

datatype xml = Element (el_tag: string) (el_attrs: "(string \<times> string) list")
    (el_text: "string option") (el_children: "xml list")

definition find_el :: "string \<Rightarrow> xml \<Rightarrow> xml option" where
  "find_el t e = List.find (\<lambda>c. el_tag c = t) (el_children e)"

definition findall :: "string \<Rightarrow> xml \<Rightarrow> xml list" where
  "findall t e = filter (\<lambda>c. el_tag c = t) (el_children e)"

text \<open>\<open>e.find(t).text\<close>: there is no attribute \<open>text\<close> where nothing is found.\<close>

definition child_text :: "string \<Rightarrow> xml \<Rightarrow> string option res" where
  "child_text t e = (case find_el t e of None \<Rightarrow> Inl AttributeError | Some c \<Rightarrow> Inr (el_text c))"

text \<open>\<open>"%s"\<close> of a text or of \<open>None\<close>.\<close>

fun py_str :: "string option \<Rightarrow> string" where
  "py_str None = ''None''"
| "py_str (Some s) = s"

text \<open>A \<open>for\<close> loop whose body writes.\<close>

fun write_each :: "('a \<Rightarrow> string res) \<Rightarrow> 'a list \<Rightarrow> string res" where
  "write_each f [] = Inr ''''"
| "write_each f (x # xs) = rbind (f x) (\<lambda>s. rbind (write_each f xs) (\<lambda>t. Inr (s @ t)))"

lemma write_each_cong [fundef_cong]:
  "xs = ys \<Longrightarrow> (\<And>x. x \<in> set ys \<Longrightarrow> f x = g x) \<Longrightarrow> write_each f xs = write_each g ys"
  by (induction ys arbitrary: xs) (auto intro!: rbind_cong)

lemma write_each_append:
  "write_each f (xs @ ys) = rbind (write_each f xs) (\<lambda>s. rbind (write_each f ys) (\<lambda>t. Inr (s @ t)))"
proof (induction xs)
  case Nil
  show ?case by (cases "write_each f ys") simp_all
next
  case (Cons x xs)
  then show ?case by (cases "f x"; cases "write_each f xs"; cases "write_each f ys") simp_all
qed

lemma write_each_single [simp]: "write_each f [x] = f x"
  by (cases "f x") simp_all

lemma write_each_concat: "write_each f (concat (map g xs)) = write_each (\<lambda>x. write_each f (g x)) xs"
  by (induction xs) (simp_all add: write_each_append)

lemma write_each_Inr:
  "(\<And>x. x \<in> set xs \<Longrightarrow> f x = Inr (g x)) \<Longrightarrow> write_each f xs = Inr (concat (map g xs))"
  by (induction xs) simp_all

lemma write_each_total: "(\<And>x. x \<in> set xs \<Longrightarrow> \<exists>s. f x = Inr s) \<Longrightarrow> \<exists>s. write_each f xs = Inr s"
proof (induction xs)
  case (Cons x xs)
  then obtain s t where "f x = Inr s" "write_each f xs = Inr t" by fastforce
  then show ?case by simp
qed simp

section \<open>The text report\<close>

type_synonym test_info = "string option \<times> string option \<times> string option"

definition read_test :: "xml \<Rightarrow> test_info res" where
  "read_test test =
     rbind (child_text ''Result'' test) (\<lambda>result.
     rbind (child_text ''Name'' test) (\<lambda>name.
       let time_real = (case find_el ''Time'' test of
                          Some t \<Rightarrow> map_of (el_attrs t) ''real''
                        | None \<Rightarrow> Some '''')
       in Inr (result, name, time_real)))"

text \<open>One line of a detail: the label, the text of the child, and what follows it.\<close>

definition field :: "string \<Rightarrow> string \<Rightarrow> string \<Rightarrow> xml \<Rightarrow> string res" where
  "field before t after details = rbind (child_text t details) (\<lambda>s. Inr (before @ py_str s @ after))"

definition details_to_text :: "xml \<Rightarrow> string res" where
  "details_to_text details =
     write_each (\<lambda>f. f details)
       [\<lambda>_. Inr (endl ''    Details:''),
        field ''      Message:   '' ''Message'' (endl ''''),
        field ''      Condition: '' ''Condition'' (endl ''''),
        field ''      Actual:    '' ''Actual'' (endl ''''),
        field ''      Limit:     '' ''Limit'' (endl ''''),
        field ''      File:      '' ''File'' (endl ''''),
        field ''      Line:      '' ''Line'' (endl '''')]"

text \<open>What a node writes before its children.\<close>

definition own_text :: "xml \<Rightarrow> string res" where
  "own_text test =
     rbind (read_test test) (\<lambda>(result, name, time_real).
     rbind (write_each details_to_text (findall ''FailureDetails'' test)) (\<lambda>details.
       Inr (endl (py_str result @ '': Test Suite \"'' @ py_str name @ ''\" ('' @ py_str time_real @ '')'')
            @ details)))"

lemma findall_size: "c \<in> set (findall t e) \<Longrightarrow> size c < size e"
proof (cases e)
  case (Element tg a x cs)
  assume "c \<in> set (findall t e)"
  with Element have "c \<in> set cs" by (simp add: findall_def)
  then have "size c \<le> size_list size cs" by (metis order_refl size_list_estimation')
  with Element show ?thesis by simp
qed

function node_to_text :: "xml \<Rightarrow> string res" where
  "node_to_text test =
     rbind (own_text test) (\<lambda>own.
     rbind (write_each node_to_text (findall ''Test'' test)) (\<lambda>sub. Inr (own @ sub)))"
  by pat_completeness auto
termination by (relation "measure size") (auto simp: findall_size)

declare node_to_text.simps [simp del]

definition example_to_text :: "xml \<Rightarrow> string res" where
  "example_to_text example =
     rbind (read_test example) (\<lambda>(result, name, time_real).
       Inr (endl (py_str result @ '': Example \"'' @ py_str name @ ''\" ('' @ py_str time_real @ '')'')))"

definition translate_to_text :: "xml \<Rightarrow> string res" where
  "translate_to_text et =
     rbind (write_each node_to_text (findall ''Test'' et)) (\<lambda>tests.
     rbind (write_each example_to_text (findall ''Example'' et)) (\<lambda>examples.
       Inr (tests @ examples)))"

text \<open>The nodes of a test in document order: the recursion writes them one after the other.\<close>

function preorder :: "xml \<Rightarrow> xml list" where
  "preorder test = test # concat (map preorder (findall ''Test'' test))"
  by pat_completeness auto
termination by (relation "measure size") (auto simp: findall_size)

declare preorder.simps [simp del]

lemma node_to_text_preorder: "node_to_text test = write_each own_text (preorder test)"
proof (induction test rule: preorder.induct)
  case (1 test)
  have "write_each node_to_text (findall ''Test'' test)
      = write_each (\<lambda>c. write_each own_text (preorder c)) (findall ''Test'' test)"
    by (intro write_each_cong refl) (rule 1)
  then show ?case
    by (subst node_to_text.simps, subst preorder.simps) (simp add: write_each_concat)
qed

section \<open>When the text report is written\<close>

lemma write_each_Inr_iff: "(\<exists>s. write_each f xs = Inr s) \<longleftrightarrow> (\<forall>x \<in> set xs. \<exists>s. f x = Inr s)"
proof (induction xs)
  case (Cons x xs)
  then show ?case by (cases "f x"; cases "write_each f xs") auto
qed simp

definition has_child :: "xml \<Rightarrow> string \<Rightarrow> bool" where
  "has_child e t \<longleftrightarrow> find_el t e \<noteq> None"

definition complete_info :: "xml \<Rightarrow> bool" where
  "complete_info e \<longleftrightarrow> list_all (has_child e) [''Result'', ''Name'']"

definition complete_details :: "xml \<Rightarrow> bool" where
  "complete_details d \<longleftrightarrow>
     list_all (has_child d) [''Message'', ''Condition'', ''Actual'', ''Limit'', ''File'', ''Line'']"

definition complete_node :: "xml \<Rightarrow> bool" where
  "complete_node e \<longleftrightarrow> complete_info e \<and> list_all complete_details (findall ''FailureDetails'' e)"

lemma child_text_total: "(\<exists>s. child_text t e = Inr s) \<longleftrightarrow> has_child e t"
  by (auto simp: child_text_def has_child_def split: option.splits)

lemma read_test_total: "(\<exists>i. read_test e = Inr i) \<longleftrightarrow> complete_info e"
  using child_text_total[of "''Result''" e] child_text_total[of "''Name''" e]
  by (auto simp: read_test_def rbind_Inr_iff complete_info_def)

lemma field_total: "(\<exists>s. field b t a e = Inr s) \<longleftrightarrow> has_child e t"
  using child_text_total[of t e] by (auto simp: field_def rbind_Inr_iff)

lemma details_total: "(\<exists>s. details_to_text d = Inr s) \<longleftrightarrow> complete_details d"
  unfolding details_to_text_def write_each_Inr_iff complete_details_def
  by (simp add: field_total)

lemma own_text_total: "(\<exists>s. own_text e = Inr s) \<longleftrightarrow> complete_node e"
proof -
  have "(\<exists>s. own_text e = Inr s) \<longleftrightarrow>
      (\<exists>i. read_test e = Inr i) \<and> (\<exists>s. write_each details_to_text (findall ''FailureDetails'' e) = Inr s)"
    by (auto simp: own_text_def rbind_Inr_iff split: prod.splits)
  then show ?thesis
    unfolding read_test_total write_each_Inr_iff complete_node_def by (simp add: details_total list_all_iff)
qed

lemma example_text_total: "(\<exists>s. example_to_text e = Inr s) \<longleftrightarrow> complete_info e"
  unfolding read_test_total[symmetric] by (auto simp: example_to_text_def rbind_Inr_iff)

lemma text_report_total:
  "(\<exists>s. translate_to_text et = Inr s) \<longleftrightarrow>
     list_all (\<lambda>test. list_all complete_node (preorder test)) (findall ''Test'' et)
     \<and> list_all complete_info (findall ''Example'' et)"
proof -
  have "(\<exists>s. translate_to_text et = Inr s) \<longleftrightarrow>
     (\<exists>s. write_each node_to_text (findall ''Test'' et) = Inr s)
     \<and> (\<exists>s. write_each example_to_text (findall ''Example'' et) = Inr s)"
    by (auto simp: translate_to_text_def rbind_Inr_iff)
  then show ?thesis
    unfolding write_each_Inr_iff node_to_text_preorder
    by (simp add: own_text_total example_text_total list_all_iff)
qed

end
