(* ===== verification/TagScan.thy ===== *)
theory TagScan
  imports PyStr
begin

text \<open>
  A scanner of the tags of an XML or HTML text, which tells whether its elements are well nested:
  the specification the reports of \<open>test.py\<close> are measured by. It models no code.
\<close>

section \<open>Nesting of tags\<close>

text \<open>
  The scanner reads text, the name of a tag, or the rest of a tag after its name (with whether
  the last character was a slash), and keeps the open tags. A closing tag that is not the one of the innermost open tag is \<open>Bad\<close>.
\<close>

datatype scan_mode = Txt | TagName string | TagRest string bool

datatype scan = Bad | Scan scan_mode "string list"

definition end_tag :: "string \<Rightarrow> bool \<Rightarrow> string list \<Rightarrow> scan" where
  "end_tag n self_closing open_tags =
     (if starts_with ''/'' n then
        (case open_tags of [] \<Rightarrow> Bad | t # ts \<Rightarrow> if t = tl n then Scan Txt ts else Bad)
      else if self_closing \<or> starts_with ''?'' n then Scan Txt open_tags
      else Scan Txt (n # open_tags))"

fun scan_char :: "scan \<Rightarrow> char \<Rightarrow> scan" where
  "scan_char Bad c = Bad"
| "scan_char (Scan Txt st) c = (if c = CHR ''<'' then Scan (TagName '''') st else Scan Txt st)"
| "scan_char (Scan (TagName n) st) c =
     (if c = CHR ''>'' then end_tag n (ends_with ''/'' n) st
      else if c = CHR '' '' then Scan (TagRest n False) st
      else Scan (TagName (n @ [c])) st)"
| "scan_char (Scan (TagRest n slash) st) c =
     (if c = CHR ''>'' then end_tag n slash st else Scan (TagRest n (c = CHR ''/'')) st)"

fun tag_scan :: "scan \<Rightarrow> string \<Rightarrow> scan" where
  "tag_scan s [] = s"
| "tag_scan s (c # cs) = tag_scan (scan_char s c) cs"

definition well_nested :: "string \<Rightarrow> bool" where
  "well_nested s \<longleftrightarrow> tag_scan (Scan Txt []) s = Scan Txt []"

lemma tag_scan_append [simp]: "tag_scan s (a @ b) = tag_scan (tag_scan s a) b"
  by (induction a arbitrary: s) simp_all

lemma tag_scan_Bad [simp]: "tag_scan Bad s = Bad"
  by (induction s) simp_all

text \<open>Text without a tag.\<close>

definition plain :: "string \<Rightarrow> bool" where
  "plain s \<longleftrightarrow> CHR ''<'' \<notin> set s"

lemma tag_scan_plain: "plain s \<Longrightarrow> tag_scan (Scan Txt st) s = Scan Txt st"
  unfolding plain_def by (induction s) auto

text \<open>A piece of a page is well nested in itself, or bad, wherever it stands.\<close>

definition piece :: "string \<Rightarrow> bool \<Rightarrow> bool" where
  "piece s b \<longleftrightarrow> (\<forall>st. tag_scan (Scan Txt st) s = (if b then Scan Txt st else Bad))"

lemma piece_scan: "piece s b \<Longrightarrow> tag_scan (Scan Txt st) s = (if b then Scan Txt st else Bad)"
  by (simp add: piece_def)

lemma piece_append: "piece a x \<Longrightarrow> piece b y \<Longrightarrow> piece (a @ b) (x \<and> y)"
  by (simp add: piece_def)

lemma piece_Nil: "piece '''' True"
  by (simp add: piece_def)

lemma plain_literals [simp]: "plain ''''" "plain ''None''" "plain '', ''"
  by (simp_all add: plain_def)

lemma ln_scan [simp]: "tag_scan s (endl a) = scan_char (tag_scan s a) (CHR 0x0A)"
  by (simp add: endl_def)

lemmas scan_simps = tag_scan_plain end_tag_def starts_with_def ends_with_def

end
