(* ===== verification/TestHtml.thy ===== *)
theory TestHtml
  imports TestReport TagScan
begin

text \<open>
  \<open>translate_to_html\<close> of \<open>test.py\<close>, in the pieces its comments name, and a scanner of tags that
  tells whether the page it writes is well nested.
\<close>

section \<open>The page\<close>

definition html_start :: string where
  "html_start = endl ''<html>'' @ endl ''<body>'' @ endl ''<center><h1>ns-3 Test Results</h1></center>''
     @ endl ''<h2>Test Suites</h2>''"

definition html_suite_title :: "test_info \<Rightarrow> string" where
  "html_suite_title = (\<lambda>(result, name, time).
     let info = py_str result @ '': '' @ py_str name @ '' ('' @ py_str time @ '')</h3>''
     in if result = Some ''PASS'' then endl (''<h3 style=\"color:green\">'' @ info)
        else if result = Some ''SKIP'' then endl (''<h3 style=\"color:#ff6600\">'' @ info)
        else endl (''<h3 style=\"color:red\">'' @ info))"

definition html_stopped_row :: "string option \<Rightarrow> string" where
  "html_stopped_row result =
     endl ''<tr>''
     @ (if result = Some ''SKIP'' then endl (''<td style=\"color:#ff6600\">'' @ py_str result @ ''</td>'')
        else endl (''<td style=\"color:red\">'' @ py_str result @ ''</td>''))
     @ endl ''</tr>'' @ endl ''</table>''"

definition html_suite_headings :: "string option \<Rightarrow> string" where
  "html_suite_headings result =
     endl ''<th>Test Case Name</th>'' @ endl ''<th> Time </th>''
     @ (if result = Some ''FAIL'' then endl ''<th>Failure Details</th>'' else '''')"

definition html_failure :: "test_info \<Rightarrow> bool \<Rightarrow> xml \<Rightarrow> string res" where
  "html_failure info first_row details = (case info of (result, name, time) \<Rightarrow>
     write_each (\<lambda>f. f details)
       [\<lambda>_. Inr (endl ''<tr>''),
        \<lambda>_. Inr (if first_row
                 then endl (''<td style=\"color:red\">'' @ py_str result @ ''</td>'')
                      @ endl (''<td>'' @ py_str name @ ''</td>'') @ endl (''<td>'' @ py_str time @ ''</td>'')
                 else endl ''<td></td>'' @ endl ''<td></td>'' @ endl ''<td></td>''),
        \<lambda>_. Inr ''<td>'',
        field ''<b>Message: </b>'' ''Message'' '', '',
        field ''<b>Condition: </b>'' ''Condition'' '', '',
        field ''<b>Actual: </b>'' ''Actual'' '', '',
        field ''<b>Limit: </b>'' ''Limit'' '', '',
        field ''<b>File: </b>'' ''File'' '', '',
        field ''<b>Line: </b>'' ''Line'' '''',
        \<lambda>_. Inr (endl ''</td>''),
        \<lambda>_. Inr (endl ''</td>'')])"

fun html_failures :: "test_info \<Rightarrow> bool \<Rightarrow> xml list \<Rightarrow> string res" where
  "html_failures info first_row [] = Inr ''''"
| "html_failures info first_row (d # ds) =
     rbind (html_failure info first_row d) (\<lambda>s. rbind (html_failures info False ds) (\<lambda>t. Inr (s @ t)))"

definition html_passed_case :: "test_info \<Rightarrow> string" where
  "html_passed_case = (\<lambda>(result, name, time).
     endl ''<tr>'' @ endl (''<td style=\"color:green\">'' @ py_str result @ ''</td>'')
     @ endl (''<td>'' @ py_str name @ ''</td>'') @ endl (''<td>'' @ py_str time @ ''</td>'')
     @ endl ''<td></td>'' @ endl ''</tr>'')"

definition html_case :: "xml \<Rightarrow> string res" where
  "html_case test_case = rbind (read_test test_case) (\<lambda>info.
     if fst info = Some ''FAIL'' then html_failures info True (findall ''FailureDetails'' test_case)
     else Inr (html_passed_case info))"

definition suite_stopped :: "string option \<Rightarrow> bool" where
  "suite_stopped result \<longleftrightarrow> result \<in> set [Some ''CRASH'', Some ''SKIP'', Some ''VALGR'']"

definition html_suite :: "xml \<Rightarrow> string res" where
  "html_suite suite = rbind (read_test suite) (\<lambda>info.
     rbind (if suite_stopped (fst info) then Inr (html_stopped_row (fst info))
            else rbind (write_each html_case (findall ''Test'' suite)) (\<lambda>rows.
              Inr (html_suite_headings (fst info) @ rows @ endl ''</table>''))) (\<lambda>body.
       Inr (html_suite_title info @ endl ''<table border=\"1\">'' @ endl ''<th> Result </th>'' @ body)))"

definition html_example_start :: string where
  "html_example_start = endl ''<h2>Examples</h2>'' @ endl ''<table border=\"1\">'' @ endl ''<th> Result </th>''
     @ endl ''<th>Example Name</th>'' @ endl ''<th>Elapsed Time</th>''"

definition html_example :: "xml \<Rightarrow> string res" where
  "html_example example = rbind (read_test example) (\<lambda>(result, name, time).
     Inr (endl ''<tr>''
          @ (if result = Some ''PASS'' then endl (''<td style=\"color:green\">'' @ py_str result @ ''</td>'')
             else if result = Some ''SKIP'' then endl (''<td style=\"color:#ff6600\">'' @ py_str result @ ''</fd>'')
             else endl (''<td style=\"color:red\">'' @ py_str result @ ''</td>''))
          @ endl (''<td>'' @ py_str name @ ''</td>'') @ endl (''<td>'' @ py_str time @ ''</td>'')
          @ endl ''</tr>''))"

definition html_end :: string where
  "html_end = endl ''</table>'' @ endl ''</body>'' @ endl ''</html>''"

definition translate_to_html :: "xml \<Rightarrow> string res" where
  "translate_to_html et =
     rbind (write_each html_suite (findall ''Test'' et)) (\<lambda>suites.
     rbind (write_each html_example (findall ''Example'' et)) (\<lambda>examples.
       Inr (html_start @ suites @ html_example_start @ examples @ html_end)))"

lemma write_each_piece:
  "write_each f xs = Inr s \<Longrightarrow> (\<And>x s. x \<in> set xs \<Longrightarrow> f x = Inr s \<Longrightarrow> piece s (P x)) \<Longrightarrow>
   piece s (\<forall>x \<in> set xs. P x)"
proof (induction xs arbitrary: s)
  case Nil
  then show ?case by (simp add: piece_def)
next
  case (Cons x xs)
  then obtain a b where ab: "f x = Inr a" "write_each f xs = Inr b" "s = a @ b"
    by (auto simp: rbind_Inr_iff)
  have "piece (a @ b) (P x \<and> (\<forall>x \<in> set xs. P x))"
    using Cons ab by (intro piece_append) auto
  then show ?case using ab by simp
qed

section \<open>Pages whose texts have no tags\<close>

fun clean_xml :: "xml \<Rightarrow> bool" where
  "clean_xml (Element t a x cs) =
     (plain (py_str x) \<and> list_all (\<lambda>kv. plain (snd kv)) a \<and> list_all clean_xml cs)"

lemma clean_child: "clean_xml e \<Longrightarrow> c \<in> set (el_children e) \<Longrightarrow> clean_xml c"
  by (cases e) (auto simp: list_all_iff)

lemma clean_findall: "clean_xml e \<Longrightarrow> c \<in> set (findall t e) \<Longrightarrow> clean_xml c"
  by (simp add: findall_def clean_child)

lemma clean_find: "clean_xml e \<Longrightarrow> find_el t e = Some c \<Longrightarrow> clean_xml c"
  unfolding find_el_def by (auto simp: find_Some_iff intro: clean_child)

lemma clean_text: "clean_xml e \<Longrightarrow> plain (py_str (el_text e))"
  by (cases e) simp

lemma clean_child_text: "clean_xml e \<Longrightarrow> child_text t e = Inr s \<Longrightarrow> plain (py_str s)"
  by (auto simp: child_text_def split: option.splits dest: clean_find clean_text)

lemma clean_attr: "clean_xml e \<Longrightarrow> plain (py_str (map_of (el_attrs e) k))"
  by (cases e; cases "map_of (el_attrs e) k") (auto simp: list_all_iff dest!: map_of_SomeD)

definition plain_info :: "test_info \<Rightarrow> bool" where
  "plain_info = (\<lambda>(r, n, t). plain (py_str r) \<and> plain (py_str n) \<and> plain (py_str t))"

lemma clean_read_test: "clean_xml e \<Longrightarrow> read_test e = Inr info \<Longrightarrow> plain_info info"
  by (auto simp: read_test_def rbind_Inr_iff plain_info_def split: option.splits
      dest: clean_child_text clean_find clean_attr)

lemmas page_simps = scan_simps plain_info_def

lemma title_piece: "plain_info info \<Longrightarrow> piece (html_suite_title info) True"
  by (cases info) (simp add: piece_def html_suite_title_def Let_def page_simps)

lemma stopped_row_scan:
  "plain (py_str r) \<Longrightarrow> tag_scan (Scan Txt (''table'' # st)) (html_stopped_row r) = Scan Txt st"
  by (simp add: html_stopped_row_def page_simps)

lemma headings_piece: "piece (html_suite_headings r) True"
  by (simp add: piece_def html_suite_headings_def page_simps)

lemma passed_case_piece: "plain_info info \<Longrightarrow> piece (html_passed_case info) True"
  by (cases info) (simp add: piece_def html_passed_case_def page_simps)

lemma example_piece:
  assumes "clean_xml e" "html_example e = Inr s"
  shows "piece s (child_text ''Result'' e \<noteq> Inr (Some ''SKIP''))"
proof -
  obtain r n t where i: "read_test e = Inr (r, n, t)"
    using assms(2) by (auto simp: html_example_def rbind_Inr_iff)
  then have r: "child_text ''Result'' e = Inr r" by (auto simp: read_test_def rbind_Inr_iff)
  have "plain_info (r, n, t)" using clean_read_test assms(1) i by blast
  with assms(2) i show ?thesis unfolding r
    by (auto simp: piece_def html_example_def page_simps)
qed

lemma field_text: "clean_xml e \<Longrightarrow> field b t a e = Inr s \<Longrightarrow> \<exists>x. plain x \<and> s = b @ x @ a"
  by (auto simp: field_def rbind_Inr_iff dest: clean_child_text)

lemma failure_piece:
  assumes "clean_xml d" "plain_info info" "html_failure info first_row d = Inr s"
  shows "piece s False"
proof -
  obtain r n t where i: "info = (r, n, t)" by (cases info)
  from assms(3) obtain m c a l f k where
    "field ''<b>Message: </b>'' ''Message'' '', '' d = Inr m"
    "field ''<b>Condition: </b>'' ''Condition'' '', '' d = Inr c"
    "field ''<b>Actual: </b>'' ''Actual'' '', '' d = Inr a"
    "field ''<b>Limit: </b>'' ''Limit'' '', '' d = Inr l"
    "field ''<b>File: </b>'' ''File'' '', '' d = Inr f"
    "field ''<b>Line: </b>'' ''Line'' '''' d = Inr k"
    and s: "s = endl ''<tr>'' @ (if first_row
                 then endl (''<td style=\"color:red\">'' @ py_str r @ ''</td>'')
                      @ endl (''<td>'' @ py_str n @ ''</td>'') @ endl (''<td>'' @ py_str t @ ''</td>'')
                 else endl ''<td></td>'' @ endl ''<td></td>'' @ endl ''<td></td>'')
            @ ''<td>'' @ m @ c @ a @ l @ f @ k @ endl ''</td>'' @ endl ''</td>''"
    by (auto simp: html_failure_def i rbind_Inr_iff)
  then obtain m' c' a' l' f' k' where
    "plain m'" "m = ''<b>Message: </b>'' @ m' @ '', ''"
    "plain c'" "c = ''<b>Condition: </b>'' @ c' @ '', ''"
    "plain a'" "a = ''<b>Actual: </b>'' @ a' @ '', ''"
    "plain l'" "l = ''<b>Limit: </b>'' @ l' @ '', ''"
    "plain f'" "f = ''<b>File: </b>'' @ f' @ '', ''"
    "plain k'" "k = ''<b>Line: </b>'' @ k' @ ''''"
    using field_text[OF assms(1)] by meson
  then show ?thesis using assms(2) unfolding s i
    by (simp add: piece_def page_simps)
qed

lemma failures_piece:
  "html_failures info first_row ds = Inr s \<Longrightarrow> (\<And>d. d \<in> set ds \<Longrightarrow> clean_xml d) \<Longrightarrow> plain_info info \<Longrightarrow>
   piece s (ds = [])"
proof (cases ds)
  case (Cons d ds')
  assume a: "html_failures info first_row ds = Inr s" "\<And>d. d \<in> set ds \<Longrightarrow> clean_xml d" "plain_info info"
  then obtain x y where "html_failure info first_row d = Inr x" "s = x @ y"
    by (auto simp: Cons rbind_Inr_iff)
  then have "piece x False" using a Cons failure_piece[of d info] by simp
  then show ?thesis using \<open>s = x @ y\<close> Cons by (simp add: piece_def)
qed (simp add: piece_Nil)

text \<open>The cases and examples that the code writes without closing their tags as it should.\<close>

definition detailed_failure :: "xml \<Rightarrow> bool" where
  "detailed_failure c \<longleftrightarrow> child_text ''Result'' c = Inr (Some ''FAIL'') \<and> findall ''FailureDetails'' c \<noteq> []"

definition suite_well_written :: "xml \<Rightarrow> bool" where
  "suite_well_written suite \<longleftrightarrow>
     child_text ''Result'' suite \<in> {Inr (Some ''CRASH''), Inr (Some ''SKIP''), Inr (Some ''VALGR'')}
     \<or> list_all (\<lambda>c. \<not> detailed_failure c) (findall ''Test'' suite)"

definition example_well_written :: "xml \<Rightarrow> bool" where
  "example_well_written e \<longleftrightarrow> child_text ''Result'' e \<noteq> Inr (Some ''SKIP'')"

lemma read_test_result: "read_test e = Inr info \<Longrightarrow> child_text ''Result'' e = Inr (fst info)"
  by (auto simp: read_test_def rbind_Inr_iff)

lemma case_piece:
  assumes "clean_xml c" "html_case c = Inr s"
  shows "piece s (\<not> detailed_failure c)"
proof -
  obtain info where i: "read_test c = Inr info"
    and s: "(if fst info = Some ''FAIL'' then html_failures info True (findall ''FailureDetails'' c)
     else Inr (html_passed_case info)) = Inr s"
    using assms(2) unfolding html_case_def rbind_Inr_iff by blast
  note r = read_test_result[OF i] and p = clean_read_test[OF assms(1) i]
  show ?thesis
  proof (cases "fst info = Some ''FAIL''")
    case True
    then have "piece s (findall ''FailureDetails'' c = [])"
      using s failures_piece[OF _ _ p] clean_findall[OF assms(1)] by auto
    then show ?thesis using True r by (simp add: detailed_failure_def)
  next
    case False
    then show ?thesis using s r passed_case_piece[OF p] by (simp add: detailed_failure_def)
  qed
qed

lemma table_start_scan:
  "tag_scan (Scan Txt st) (endl ''<table border=\"1\">'' @ endl ''<th> Result </th>'') = Scan Txt (''table'' # st)"
  by (simp add: page_simps)

lemma table_end_scan: "tag_scan (Scan Txt (''table'' # st)) (endl ''</table>'') = Scan Txt st"
  by (simp add: page_simps)

lemma suite_piece:
  assumes "clean_xml e" "html_suite e = Inr s"
  shows "piece s (suite_well_written e)"
proof -
  obtain info body where i: "read_test e = Inr info"
    and b: "(if suite_stopped (fst info) then Inr (html_stopped_row (fst info))
            else rbind (write_each html_case (findall ''Test'' e)) (\<lambda>rows.
              Inr (html_suite_headings (fst info) @ rows @ endl ''</table>''))) = Inr body"
    and s: "s = html_suite_title info @ (endl ''<table border=\"1\">'' @ endl ''<th> Result </th>'') @ body"
    using assms(2) unfolding html_suite_def rbind_Inr_iff by auto
  note r = read_test_result[OF i] and p = clean_read_test[OF assms(1) i]
  have pr: "plain (py_str (fst info))" using p by (cases info) (simp add: plain_info_def)
  have "tag_scan (Scan Txt (''table'' # st)) body = (if suite_well_written e then Scan Txt st else Bad)" for st
  proof (cases "suite_stopped (fst info)")
    case True
    then have "suite_well_written e" using r by (auto simp: suite_well_written_def suite_stopped_def)
    with True b pr show ?thesis by (auto simp: stopped_row_scan)
  next
    case False
    then obtain rows where w: "write_each html_case (findall ''Test'' e) = Inr rows"
      and body: "body = html_suite_headings (fst info) @ rows @ endl ''</table>''"
      using b by (auto simp: rbind_Inr_iff)
    have "piece rows (\<forall>c \<in> set (findall ''Test'' e). \<not> detailed_failure c)"
      using w by (rule write_each_piece) (meson case_piece clean_findall assms(1))
    moreover have "(\<forall>c \<in> set (findall ''Test'' e). \<not> detailed_failure c) = suite_well_written e"
      using False r by (auto simp: suite_well_written_def suite_stopped_def list_all_iff)
    ultimately have "piece rows (suite_well_written e)" by simp
    then show ?thesis unfolding body tag_scan_append
      by (simp add: piece_scan[OF headings_piece] piece_scan table_end_scan del: ln_scan)
  qed
  then show ?thesis unfolding piece_def s tag_scan_append[of _ "html_suite_title info"] tag_scan_append[of _ "_ @ _"]
    by (simp only: piece_scan[OF title_piece[OF p]] table_start_scan if_True) simp
qed

lemma page_well_nested:
  assumes clean: "clean_xml et" and t: "translate_to_html et = Inr page"
  shows "well_nested page \<longleftrightarrow>
    list_all suite_well_written (findall ''Test'' et) \<and> list_all example_well_written (findall ''Example'' et)"
proof -
  obtain suites examples where
    s: "write_each html_suite (findall ''Test'' et) = Inr suites"
    and e: "write_each html_example (findall ''Example'' et) = Inr examples"
    and page: "page = html_start @ suites @ html_example_start @ examples @ html_end"
    using t by (auto simp: translate_to_html_def rbind_Inr_iff)
  have ps: "piece suites (\<forall>x \<in> set (findall ''Test'' et). suite_well_written x)"
    using s by (rule write_each_piece) (meson suite_piece clean_findall clean)
  have pe: "piece examples (\<forall>x \<in> set (findall ''Example'' et). example_well_written x)"
    using e unfolding example_well_written_def
    by (rule write_each_piece) (meson example_piece clean_findall clean)
  have st: "tag_scan (Scan Txt []) html_start = Scan Txt [''body'', ''html'']"
    by (simp add: html_start_def page_simps)
  have ex: "tag_scan (Scan Txt st) html_example_start = Scan Txt (''table'' # st)" for st
    by (simp add: html_example_start_def page_simps)
  have en: "tag_scan (Scan Txt [''table'', ''body'', ''html'']) html_end = Scan Txt []"
    by (simp add: html_end_def page_simps)
  show ?thesis
    unfolding well_nested_def page tag_scan_append st
    by (simp add: piece_scan[OF ps] piece_scan[OF pe] ex en list_all_iff)
qed

end
