(* ===== verification/TestResults.thy ===== *)
theory TestResults
  imports TestPlan TestHtml
begin

text \<open>
  The second half of \<open>run_tests\<close> of \<open>test.py\<close>: what the main thread does with each result it
  takes from the output queue (the counters, the line on the console, the piece of the results
  file), and the end of the run (summary, reports, notes, exit status).
\<close>

section \<open>Status and counters\<close>

datatype status = PASS | FAIL | CRASH | SKIP | VALGR

fun show_status :: "status \<Rightarrow> string" where
  "show_status PASS = ''PASS''"
| "show_status FAIL = ''FAIL''"
| "show_status CRASH = ''CRASH''"
| "show_status SKIP = ''SKIP''"
| "show_status VALGR = ''VALGR''"

record counts =
  passed_tests :: nat
  failed_tests :: nat
  crashed_tests :: nat
  valgrind_errors :: nat
  skipped_tests :: nat

definition zero_counts :: counts where
  "zero_counts = \<lparr>passed_tests = 0, failed_tests = 0, crashed_tests = 0, valgrind_errors = 0,
                  skipped_tests = 0\<rparr>"

definition count_result :: "job \<Rightarrow> counts \<Rightarrow> status \<times> counts" where
  "count_result job c =
     (if is_skip job then (SKIP, c\<lparr>skipped_tests := skipped_tests c + 1\<rparr>)
      else if returncode job = 0 then (PASS, c\<lparr>passed_tests := passed_tests c + 1\<rparr>)
      else if returncode job = 1 then (FAIL, c\<lparr>failed_tests := failed_tests c + 1\<rparr>)
      else if returncode job = 2 then (VALGR, c\<lparr>valgrind_errors := valgrind_errors c + 1\<rparr>)
      else (CRASH, c\<lparr>crashed_tests := crashed_tests c + 1\<rparr>))"

text \<open>\<open>"%.3f"\<close>: rounded to three decimals, a tie to the even neighbour.\<close>

definition round_half_even :: "rat \<Rightarrow> int" where
  "round_half_even x =
     (let f = \<lfloor>x\<rfloor>; d = x - of_int f
      in if d < 1 / 2 then f else if d > 1 / 2 then f + 1 else if even f then f else f + 1)"

definition fixed3 :: "rat \<Rightarrow> string" where
  "fixed3 x =
     (let n = nat (round_half_even (\<bar>x\<bar> * 1000))
      in (if x < 0 then ''-'' else '''') @ show_nat (n div 1000) @ ''.''
         @ map digit_char [n div 100 mod 10, n div 10 mod 10, n mod 10])"

definition example_kind :: "job \<Rightarrow> bool" where
  "example_kind job \<longleftrightarrow> is_example job \<or> is_pyexample job"

definition result_line :: "options \<Rightarrow> status \<Rightarrow> job \<Rightarrow> string" where
  "result_line opts st job =
     (let kind = (if example_kind job then ''Example'' else ''TestSuite'')
      in if opt_duration opts \<or> opt_constrain opts = ''performance''
         then show_status st @ '' ('' @ fixed3 (elapsed_time job) @ ''): '' @ kind @ '' '' @ display_name job
         else show_status st @ '': '' @ kind @ '' '' @ display_name job)"

section \<open>The results file\<close>

definition xml_start :: string where
  "xml_start = endl ''<?xml version=\"1.0\"?>'' @ endl ''<Results>''"

definition example_xml :: "status \<Rightarrow> job \<Rightarrow> string" where
  "example_xml st job =
     endl ''<Example>'' @ endl (''  <Name>'' @ display_name job @ ''</Name>'')
     @ (if st = PASS then endl ''  <Result>PASS</Result>''
        else if st = FAIL then endl ''  <Result>FAIL</Result>''
        else if st = VALGR then endl ''  <Result>VALGR</Result>''
        else if st = SKIP then endl ''  <Result>SKIP</Result>''
        else endl ''  <Result>CRASH</Result>'')
     @ endl (''  <Time real=\"'' @ fixed3 (elapsed_time job) @ ''\"/>'') @ endl ''</Example>''"

text \<open>
  A test suite that ran has written its own file (opening it raises where it does not exist);
  for one that was skipped or crashed an element is made up. The test for a return code of 2 in
  the last branch is the code's.
\<close>

definition suite_xml :: "(string \<Rightarrow> string option) \<Rightarrow> job \<Rightarrow> string res" where
  "suite_xml tmp_files job =
     (if is_skip job then
        Inr (endl ''<Test>'' @ endl (''  <Name>'' @ display_name job @ ''</Name>'')
             @ endl ''  <Result>SKIP</Result>'' @ endl ''</Test>'')
      else if returncode job = 0 \<or> returncode job = 1 \<or> returncode job = 2 then
        (case tmp_files (tmp_file_name job) of None \<Rightarrow> Inl PyException | Some text \<Rightarrow> Inr text)
      else
        Inr (endl ''<Test>'' @ endl (''  <Name>'' @ display_name job @ ''</Name>'')
             @ endl ''  <Result>CRASH</Suite>'' @ endl ''</Test>''
             @ (if returncode job = 2 then
                  endl ''<Test>'' @ endl (''  <Name>'' @ display_name job @ ''</Name>'')
                  @ endl ''  <Result>VALGR</Result>'' @ endl ''</Test>''
                else '''')))"

record progress =
  counters :: counts
  console :: "string list"
  results_xml :: string

definition process_result :: "(string \<Rightarrow> string option) \<Rightarrow> options \<Rightarrow> job \<Rightarrow> progress \<Rightarrow> progress res" where
  "process_result tmp_files opts job p =
     (if is_break job then Inr p
      else case count_result job (counters p) of (st, c) \<Rightarrow>
        rbind (if example_kind job then Inr (example_xml st job) else suite_xml tmp_files job) (\<lambda>text.
          Inr \<lparr>counters = c, console = console p @ [result_line opts st job],
               results_xml = results_xml p @ text\<rparr>))"

definition start_progress :: "string list \<Rightarrow> progress" where
  "start_progress printed = \<lparr>counters = zero_counts, console = printed, results_xml = xml_start\<rparr>"

text \<open>The loop over the results, in the order they arrive.\<close>

definition process_results ::
  "(string \<Rightarrow> string option) \<Rightarrow> options \<Rightarrow> job list \<Rightarrow> progress \<Rightarrow> progress res" where
  "process_results tmp_files opts results p = each_res (process_result tmp_files opts) results p"

section \<open>The end of the run\<close>

definition summary_line :: "nat \<Rightarrow> counts \<Rightarrow> string" where
  "summary_line total_tests c =
     show_nat (passed_tests c) @ '' of '' @ show_nat total_tests @ '' tests passed (''
     @ show_nat (passed_tests c) @ '' passed, '' @ show_nat (skipped_tests c) @ '' skipped, ''
     @ show_nat (failed_tests c) @ '' failed, '' @ show_nat (crashed_tests c) @ '' crashed, ''
     @ show_nat (valgrind_errors c) @ '' valgrind errors)''"

definition closing_notes :: "waf_config \<Rightarrow> options \<Rightarrow> string list" where
  "closing_notes cfg opts =
     (if \<not> ENABLE_TESTS cfg \<or> \<not> ENABLE_EXAMPLES cfg then
        ['''']
        @ (if \<not> ENABLE_TESTS cfg then
             [''***  Note: ns-3 tests are currently disabled. Enable them by adding'',
              ''***  \"--enable-tests\" to ./waf configure or modifying your .ns3rc file.'', '''']
           else [])
        @ (if \<not> ENABLE_EXAMPLES cfg then
             [''***  Note: ns-3 examples are currently disabled. Enable them by adding'',
              ''***  \"--enable-examples\" to ./waf configure or modifying your .ns3rc file.'', '''']
           else [])
      else [])
     @ (if opt_valgrind opts \<and> \<not> VALGRIND_FOUND cfg then
          ['''', ''***  Note: you are trying to use valgrind, but valgrind could not be found'',
           ''***  on your machine.  All tests and examples will crash or be skipped.'', '''']
        else [])"

record run_result =
  exit_status :: int
  run_console :: "string list"
  run_counts :: counts
  results_file :: string
  html_file :: "string option"
  text_file :: "string option"
  xml_file :: "string option"
  output_dir_kept :: bool

text \<open>
  \<open>parse\<close> is \<open>xml.etree.ElementTree.parse\<close> on the text of the results file. A report that
  raises ends the run with the exception.
\<close>

definition finish_run ::
  "(string \<Rightarrow> xml res) \<Rightarrow> waf_config \<Rightarrow> options \<Rightarrow> nat \<Rightarrow> progress \<Rightarrow> run_result res" where
  "finish_run parse cfg opts total_tests p =
     (let text = results_xml p @ endl ''</Results>''; c = counters p
      in rbind (if opt_html opts \<noteq> '''' then rbind (parse text) (\<lambda>et. rbind (translate_to_html et) (\<lambda>h. Inr (Some h)))
                else Inr None) (\<lambda>h.
         rbind (if opt_text opts \<noteq> '''' then rbind (parse text) (\<lambda>et. rbind (translate_to_text et) (\<lambda>t. Inr (Some t)))
                else Inr None) (\<lambda>t.
         Inr \<lparr>exit_status = (if passed_tests c + skipped_tests c = total_tests then 0 else 1),
              run_console = console p @ [summary_line total_tests c] @ closing_notes cfg opts,
              run_counts = c, results_file = text, html_file = h, text_file = t,
              xml_file = (if opt_xml opts \<noteq> '''' then Some text else None),
              output_dir_kept = opt_retain opts\<rparr>)))"

text \<open>
  The second half as a whole: \<open>total_tests\<close> is the number of dispatched jobs, \<open>results\<close> what
  the main thread took from the output queue.
\<close>

definition report_run ::
  "(string \<Rightarrow> xml res) \<Rightarrow> (string \<Rightarrow> string option) \<Rightarrow> waf_config \<Rightarrow> options \<Rightarrow> string list \<Rightarrow> nat \<Rightarrow> job list
    \<Rightarrow> run_result res" where
  "report_run parse tmp_files cfg opts printed total_tests results =
     rbind (process_results tmp_files opts results (start_progress printed))
       (finish_run parse cfg opts total_tests)"

section \<open>The counters\<close>

definition result_status :: "job \<Rightarrow> status" where
  "result_status job =
     (if is_skip job then SKIP else if returncode job = 0 then PASS else if returncode job = 1 then FAIL
      else if returncode job = 2 then VALGR else CRASH)"

lemma count_result_status: "fst (count_result job c) = result_status job"
  by (simp add: count_result_def result_status_def)

text \<open>How many real results have a status.\<close>

definition number_of :: "status \<Rightarrow> job list \<Rightarrow> nat" where
  "number_of st js = length (filter (\<lambda>j. \<not> is_break j \<and> result_status j = st) js)"

lemma number_of_simps [simp]:
  "number_of st [] = 0"
  "number_of st (j # js) = (if \<not> is_break j \<and> result_status j = st then 1 else 0) + number_of st js"
  by (auto simp: number_of_def)

lemma process_results_Cons:
  "process_results tmp_files opts (j # js) p =
     rbind (process_result tmp_files opts j p) (process_results tmp_files opts js)"
  by (cases "process_result tmp_files opts j p") (simp_all add: process_results_def)

lemma process_result_counts:
  "process_result tmp_files opts j p = Inr q \<Longrightarrow>
   counters q = (if is_break j then counters p else snd (count_result j (counters p)))"
  by (auto simp: process_result_def rbind_Inr_iff split: prod.splits if_splits)

lemma process_results_counts:
  assumes "process_results tmp_files opts js p = Inr q"
  shows "passed_tests (counters q) = passed_tests (counters p) + number_of PASS js
    \<and> failed_tests (counters q) = failed_tests (counters p) + number_of FAIL js
    \<and> crashed_tests (counters q) = crashed_tests (counters p) + number_of CRASH js
    \<and> valgrind_errors (counters q) = valgrind_errors (counters p) + number_of VALGR js
    \<and> skipped_tests (counters q) = skipped_tests (counters p) + number_of SKIP js"
  using assms
proof (induction js arbitrary: p)
  case Nil
  then show ?case by (simp add: process_results_def)
next
  case (Cons j js)
  then obtain r where r: "process_result tmp_files opts j p = Inr r" "process_results tmp_files opts js r = Inr q"
    by (auto simp: process_results_Cons rbind_Inr_iff)
  note ih = Cons.IH[OF r(2)]
  show ?case
    using ih unfolding process_result_counts[OF r(1)]
    by (auto simp: count_result_def result_status_def)
qed

lemma number_of_total:
  "number_of PASS js + number_of FAIL js + number_of CRASH js + number_of VALGR js + number_of SKIP js
     = length (filter (\<lambda>j. \<not> is_break j) js)"
proof (induction js)
  case (Cons j js)
  then show ?case by (cases "result_status j") auto
qed simp

lemma number_of_mset: "mset js = mset ks \<Longrightarrow> number_of st js = number_of st ks"
  unfolding number_of_def by (metis mset_filter size_mset)

definition job_ok :: "job \<Rightarrow> bool" where
  "job_ok j \<longleftrightarrow> \<not> is_break j \<and> (is_skip j \<or> returncode j = 0)"

lemma passed_and_skipped: "number_of PASS js + number_of SKIP js = length (filter job_ok js)"
  by (induction js) (auto simp: job_ok_def result_status_def)

lemma report_run_counts:
  assumes "report_run parse tmp_files cfg opts printed dispatched js = Inr r"
  shows "passed_tests (run_counts r) = number_of PASS js" "failed_tests (run_counts r) = number_of FAIL js"
    "crashed_tests (run_counts r) = number_of CRASH js" "valgrind_errors (run_counts r) = number_of VALGR js"
    "skipped_tests (run_counts r) = number_of SKIP js"
    "exit_status r = (if number_of PASS js + number_of SKIP js = dispatched then 0 else 1)"
proof -
  obtain q where q: "process_results tmp_files opts js (start_progress printed) = Inr q"
    and f: "finish_run parse cfg opts dispatched q = Inr r"
    using assms by (auto simp: report_run_def rbind_Inr_iff)
  have "run_counts r = counters q"
    "exit_status r = (if passed_tests (counters q) + skipped_tests (counters q) = dispatched then 0 else 1)"
    using f by (auto simp: finish_run_def Let_def rbind_Inr_iff)
  then show "passed_tests (run_counts r) = number_of PASS js" "failed_tests (run_counts r) = number_of FAIL js"
    "crashed_tests (run_counts r) = number_of CRASH js" "valgrind_errors (run_counts r) = number_of VALGR js"
    "skipped_tests (run_counts r) = number_of SKIP js"
    "exit_status r = (if number_of PASS js + number_of SKIP js = dispatched then 0 else 1)"
    using process_results_counts[OF q] by (simp_all add: start_progress_def zero_counts_def)
qed

lemma report_run_exit:
  assumes "report_run parse tmp_files cfg opts printed (length js) js = Inr r"
  shows "exit_status r = (if list_all job_ok js then 0 else 1)"
proof -
  have "exit_status r = (if length (filter job_ok js) = length js then 0 else 1)"
    using report_run_counts(6)[OF assms] by (simp add: passed_and_skipped)
  moreover have "length (filter job_ok js) = length js \<longleftrightarrow> list_all job_ok js"
    by (metis (mono_tags, lifting) filter_True length_filter_less list_all_iff nat_neq_iff)
  ultimately show ?thesis by simp
qed

section \<open>Nesting of the results file\<close>

lemma tag_scan_outer:
  "tag_scan (Scan m st) s = Scan m' st' \<Longrightarrow> tag_scan (Scan m (st @ ext)) s = Scan m' (st' @ ext)"
proof (induction s arbitrary: m st)
  case (Cons c s)
  obtain m1 st1 where one: "scan_char (Scan m st) c = Scan m1 st1"
    using Cons.prems by (cases "scan_char (Scan m st) c") auto
  have "scan_char (Scan m (st @ ext)) c = Scan m1 (st1 @ ext)"
    using one by (cases m; cases st) (auto simp: end_tag_def split: if_splits)
  then show ?case using Cons one by simp
qed simp

lemma well_nested_piece: "well_nested s \<Longrightarrow> piece s True"
  unfolding well_nested_def piece_def using tag_scan_outer[of Txt "[]" s Txt "[]"] by simp

lemma plain_append [simp]: "plain (a @ b) \<longleftrightarrow> plain a \<and> plain b"
  by (auto simp: plain_def)

lemma tag_scan_rest:
  "CHR ''>'' \<notin> set s \<Longrightarrow> tag_scan (Scan (TagRest n b) st) s
     = Scan (TagRest n (if s = [] then b else last s = CHR ''/'')) st"
  by (induction s arbitrary: b) auto

lemma digits_are_digits: "c \<in> set (show_nat n) \<Longrightarrow> is_digit c"
  using digits_base_lt[of 10 _ n] digit_char_digit by (auto simp: show_nat_def)

lemma not_digits [simp]: "\<not> is_digit CHR ''<''" "\<not> is_digit CHR ''>''"
  by (simp_all add: is_digit_def)

lemma fixed3_chars: "c \<in> set (fixed3 x) \<Longrightarrow> c = CHR ''-'' \<or> c = CHR ''.'' \<or> is_digit c"
  using digits_are_digits digit_char_digit by (auto simp: fixed3_def Let_def split: if_splits)

lemma plain_fixed3 [simp]: "plain (fixed3 x)" "CHR ''>'' \<notin> set (fixed3 x)"
  using fixed3_chars[of "CHR ''<''" x] fixed3_chars[of "CHR ''>''" x] by (auto simp: plain_def)

lemma example_xml_piece: "plain (display_name j) \<Longrightarrow> piece (example_xml st j) True"
  by (cases st) (simp_all add: piece_def example_xml_def scan_simps tag_scan_rest)

text \<open>What is assumed of the jobs' names and of the files the suites write.\<close>

definition clean_job :: "(string \<Rightarrow> string option) \<Rightarrow> job \<Rightarrow> bool" where
  "clean_job tmp_files j \<longleftrightarrow> plain (display_name j)
     \<and> (case tmp_files (tmp_file_name j) of None \<Rightarrow> True | Some s \<Rightarrow> well_nested s)"

definition crashed_suite :: "job \<Rightarrow> bool" where
  "crashed_suite j \<longleftrightarrow> \<not> is_break j \<and> \<not> example_kind j \<and> result_status j = CRASH"

lemma suite_xml_piece:
  assumes "clean_job tmp_files j" "suite_xml tmp_files j = Inr s"
  shows "piece s (result_status j \<noteq> CRASH)"
proof -
  have pl: "plain (display_name j)" using assms(1) by (simp add: clean_job_def)
  consider "is_skip j" | "\<not> is_skip j" "returncode j = 0 \<or> returncode j = 1 \<or> returncode j = 2"
    | "\<not> is_skip j" "returncode j \<noteq> 0" "returncode j \<noteq> 1" "returncode j \<noteq> 2" by blast
  then show ?thesis
  proof cases
    case 1
    with assms(2) pl show ?thesis
      by (auto simp: suite_xml_def result_status_def piece_def scan_simps)
  next
    case 2
    then have "tmp_files (tmp_file_name j) = Some s" using assms(2) by (auto simp: suite_xml_def split: option.splits)
    then have "piece s True" using assms(1) by (simp add: clean_job_def well_nested_piece)
    then show ?thesis using 2 by (auto simp: result_status_def)
  next
    case 3
    with assms(2) pl show ?thesis
      by (auto simp: suite_xml_def result_status_def piece_def scan_simps)
  qed
qed

lemma process_result_piece:
  assumes "process_result tmp_files opts j p = Inr q" "clean_job tmp_files j"
  obtains s where "results_xml q = results_xml p @ s" "piece s (\<not> crashed_suite j)"
proof (cases "is_break j")
  case True
  then show ?thesis using assms that[of "''''"] by (simp add: process_result_def piece_Nil crashed_suite_def)
next
  case False
  obtain st c where sc: "count_result j (counters p) = (st, c)" by fastforce
  then have st: "st = result_status j" by (metis count_result_status fst_conv)
  obtain s where s: "(if example_kind j then Inr (example_xml st j) else suite_xml tmp_files j) = Inr s"
    "results_xml q = results_xml p @ s"
    using assms(1) False sc by (auto simp: process_result_def rbind_Inr_iff split: if_splits)
  have "piece s (\<not> crashed_suite j)"
  proof (cases "example_kind j")
    case True
    then show ?thesis using s example_xml_piece assms(2) by (auto simp: crashed_suite_def clean_job_def)
  next
    case ex: False
    then show ?thesis using s suite_xml_piece[OF assms(2), of s] False by (auto simp: crashed_suite_def)
  qed
  then show ?thesis using s(2) that by blast
qed

lemma process_results_piece:
  assumes "process_results tmp_files opts js p = Inr q" "list_all (clean_job tmp_files) js"
  shows "\<exists>s. results_xml q = results_xml p @ s \<and> piece s (list_all (\<lambda>j. \<not> crashed_suite j) js)"
  using assms
proof (induction js arbitrary: p)
  case Nil
  then show ?case by (auto simp: process_results_def intro!: exI[of _ "''''"] piece_Nil)
next
  case (Cons j js)
  then obtain r where r: "process_result tmp_files opts j p = Inr r" "process_results tmp_files opts js r = Inr q"
    by (auto simp: process_results_Cons rbind_Inr_iff)
  obtain a where a: "results_xml r = results_xml p @ a" "piece a (\<not> crashed_suite j)"
    using process_result_piece[OF r(1)] Cons.prems(2) by auto
  obtain b where b: "results_xml q = results_xml r @ b" "piece b (list_all (\<lambda>j. \<not> crashed_suite j) js)"
    using Cons.IH[OF r(2)] Cons.prems(2) by auto
  show ?case using a b piece_append[OF a(2) b(2)] by (intro exI[of _ "a @ b"]) simp
qed

lemma report_run_file:
  assumes "report_run parse tmp_files cfg opts printed n js = Inr r"
  obtains q where "process_results tmp_files opts js (start_progress printed) = Inr q"
    "finish_run parse cfg opts n q = Inr r" "results_file r = results_xml q @ endl ''</Results>''"
proof -
  obtain q where q: "process_results tmp_files opts js (start_progress printed) = Inr q"
    and f: "finish_run parse cfg opts n q = Inr r"
    using assms by (auto simp: report_run_def rbind_Inr_iff)
  from f have "results_file r = results_xml q @ endl ''</Results>''"
    by (auto simp: finish_run_def Let_def rbind_Inr_iff)
  with q f that show ?thesis by blast
qed

lemma results_text_nested:
  assumes q: "process_results tmp_files opts js (start_progress printed) = Inr q"
    and c: "list_all (clean_job tmp_files) js"
  shows "well_nested (results_xml q @ endl ''</Results>'') \<longleftrightarrow> list_all (\<lambda>j. \<not> crashed_suite j) js"
proof -
  obtain s where s: "results_xml q = xml_start @ s" "piece s (list_all (\<lambda>j. \<not> crashed_suite j) js)"
    using process_results_piece[OF q c] by (auto simp: start_progress_def)
  have "tag_scan (Scan Txt []) xml_start = Scan Txt [''Results'']"
    by (simp add: xml_start_def scan_simps)
  moreover have "tag_scan (Scan Txt [''Results'']) (endl ''</Results>'') = Scan Txt []"
    by (simp add: scan_simps)
  ultimately show ?thesis
    unfolding well_nested_def s(1) tag_scan_append by (simp add: piece_scan[OF s(2)] del: ln_scan)
qed

lemma crash_stops_reports:
  assumes "report_run parse tmp_files cfg opts printed n js = Inr r"
    and "list_all (clean_job tmp_files) js" and "j \<in> set js" "crashed_suite j"
    and parse: "\<And>t e. parse t = Inr e \<Longrightarrow> well_nested t"
  shows "opt_html opts = '''' \<and> opt_text opts = ''''"
proof -
  obtain q where q: "process_results tmp_files opts js (start_progress printed) = Inr q"
    and f: "finish_run parse cfg opts n q = Inr r"
    using report_run_file[OF assms(1)] by blast
  have "\<not> well_nested (results_xml q @ endl ''</Results>'')"
    using results_text_nested[OF q assms(2)] assms(3,4) by (auto simp: list_all_iff)
  then have no: "parse (results_xml q @ endl ''</Results>'') \<noteq> Inr e" for e
    using parse by blast
  show ?thesis
  proof (rule conjI; rule ccontr)
    assume "opt_html opts \<noteq> ''''"
    then show False using f no by (auto simp: finish_run_def Let_def rbind_Inr_iff)
  next
    assume "opt_text opts \<noteq> ''''"
    then show False using f no by (auto simp: finish_run_def Let_def rbind_Inr_iff)
  qed
qed

end
