(* ===== verification/TestRun.thy ===== *)
theory TestRun
  imports TestResults
begin

text \<open>
  \<open>run_tests\<close> as a whole: the plan, any run of the worker pool on the planned jobs, and the
  report on what the main thread collected.
\<close>

datatype run_end = Stopped "int option" "string list" | Finished run_result

inductive run_tests ::
  "(string \<Rightarrow> xml res) \<Rightarrow> (string \<Rightarrow> string option) \<Rightarrow> world \<Rightarrow> waf_config \<Rightarrow> options \<Rightarrow> run_end \<Rightarrow> bool"
  for parse :: "string \<Rightarrow> xml res" and tmp_files :: "string \<Rightarrow> string option"
    and w :: world and cfg :: waf_config and opts :: options
where
  run_stopped: "make_plan w cfg opts = Inr (Stop rc out) \<Longrightarrow>
    run_tests parse tmp_files w cfg opts (Stopped rc out)"
| run_finished: "make_plan w cfg opts = Inr (Go n jobs out) \<Longrightarrow>
    reachable cfg opts (w_popen w) (nat n) jobs s \<Longrightarrow> finished s \<Longrightarrow>
    report_run parse tmp_files cfg opts out (length jobs) (collected s) = Inr r \<Longrightarrow>
    run_tests parse tmp_files w cfg opts (Finished r)"

inductive_cases run_tests_finishedE: "run_tests parse tmp_files w cfg opts (Finished r)"

lemma job_core_simps [simp]:
  "is_skip (job_core j) = is_skip j" "display_name (job_core j) = display_name j"
  "is_example (job_core j) = is_example j" "is_pyexample (job_core j) = is_pyexample j"
  by (simp_all add: job_core_def)

lemma collected_core:
  assumes "reachable cfg opts popen n jobs s" "finished s" "\<forall>j \<in> set jobs. \<not> is_break j"
  shows "image_mset job_core (mset (collected s)) = image_mset job_core (mset jobs)"
  using finished_conserved[OF assms(2) reachable_inv[OF assms(1,3)] reachable_conserved[OF assms(1,3)]] .

lemma collected_results:
  assumes "reachable cfg opts popen n jobs s" "finished s" "\<forall>j \<in> set jobs. \<not> is_break j" "\<not> thread_exit s"
  shows "mset (collected s) = mset (map (job_result cfg opts popen) jobs)"
  using finished_conserved[OF assms(2) reachable_inv[OF assms(1,3)] reachable_results[OF assms(1,3,4)]]
  by simp

lemma collected_length:
  assumes "reachable cfg opts popen n jobs s" "finished s" "\<forall>j \<in> set jobs. \<not> is_break j"
  shows "length (collected s) = length jobs"
  by (metis collected_core[OF assms] mset_map size_mset length_map)

text \<open>The exit status says whether every collected result is a pass or a skip, interrupted or not.\<close>

lemma exit_status_collected:
  assumes "reachable cfg opts popen n jobs s" "finished s" "\<forall>j \<in> set jobs. \<not> is_break j"
    and "report_run parse tmp_files cfg opts out (length jobs) (collected s) = Inr r"
  shows "exit_status r = (if list_all job_ok (collected s) then 0 else 1)"
  using report_run_exit assms(4) unfolding collected_length[OF assms(1,2,3), symmetric] .

lemma list_all_mset: "mset xs = mset ys \<Longrightarrow> list_all P xs = list_all P ys"
  by (metis list_all_iff set_mset_mset)

lemma exit_status_uninterrupted:
  assumes "reachable cfg opts popen n jobs s" "finished s" "\<forall>j \<in> set jobs. \<not> is_break j" "\<not> thread_exit s"
    and "report_run parse tmp_files cfg opts out (length jobs) (collected s) = Inr r"
  shows "exit_status r = (if list_all (\<lambda>j. job_ok (job_result cfg opts popen j)) jobs then 0 else 1)"
  using exit_status_collected[OF assms(1,2,3,5)] list_all_mset[OF collected_results[OF assms(1-4)]]
  by (simp add: list.pred_map comp_def)

text \<open>Two uninterrupted runs report the same counters and the same exit status.\<close>

lemma report_determined:
  assumes "mset js = mset ks"
    and "report_run parse tmp_files cfg opts out (length js) js = Inr r"
    and "report_run parse' tmp_files' cfg opts out (length ks) ks = Inr r'"
  shows "run_counts r = run_counts r' \<and> exit_status r = exit_status r'"
proof -
  have "length js = length ks" using assms(1) by (metis size_mset)
  then show ?thesis
    using report_run_counts[OF assms(2)] report_run_counts[OF assms(3)] number_of_mset[OF assms(1)]
    by (simp add: counts.equality)
qed

end
