(* ===== verification/TestProps.thy ===== *)
theory TestProps
  imports TestRun
begin

text \<open>
  The properties of \<open>test.py\<close>, each with an application to concrete data: the worker pool, the run
  as a whole, the choice of the jobs, and the reports.
\<close>

section \<open>A run of the pool\<close>

abbreviation pool_at :: "job list \<Rightarrow> job list \<Rightarrow> thread list \<Rightarrow> job list \<Rightarrow> nat \<Rightarrow> job list \<Rightarrow> pool" where
  "pool_at i out ts p n c \<equiv> \<lparr>inq = i, outq = out, threads = ts, to_put = p, wanted = n, collected = c,
     thread_exit = False\<rparr>"

text \<open>One job on one thread, step by step.\<close>

lemma one_job_run:
  assumes j: "\<not> is_break j" "\<not> is_skip j" and l: "launch cfg opts popen j = Inr j'"
  shows "reachable cfg opts popen 1 [j] (pool_at [] [] [Returned] [] 0 [j'])"
proof -
  let ?b = "break_job"
  let ?R = "reachable cfg opts popen 1 [j]"
  have b: "is_break ?b" by (simp add: break_job_def job_setters)
  have wj: "worker_round cfg opts popen False j = Inr (Some j')" using j l by (simp add: worker_round_def)
  have wb: "worker_round cfg opts popen False ?b = Inr None" using b by (simp add: worker_round_def)
  have 0: "?R (pool_at [] [] [Waiting] [j, ?b] 1 [])"
    using reach_init[of cfg opts popen 1 "[j]"] by (simp add: init_pool_def)
  have 1: "?R (pool_at [j] [] [Waiting] [?b] 1 [])"
    using reach_step[OF 0 main_put[of _ j "[?b]"]] by simp
  have 2: "?R (pool_at [j, ?b] [] [Waiting] [] 1 [])"
    using reach_step[OF 1 main_put[of _ ?b "[]"]] by simp
  have 3: "?R (pool_at [?b] [] [Got j] [] 1 [])"
    using reach_step[OF 2 thread_get[of 0 _ j "[?b]"]] by simp
  have 4: "?R (pool_at [?b] [] [Running j] [] 1 [])"
    using reach_step[OF 3 thread_launch[of 0 _ j]] j by simp
  have 5: "?R (pool_at [?b] [j'] [Waiting] [] 1 [])"
    using reach_step[OF 4 thread_finish[of 0 _ j _ _ _ j']] wj by simp
  have 6: "?R (pool_at [?b] [] [Waiting] [] 0 [j'])"
    using reach_step[OF 5 main_get[of _ 0 j' "[]"]] by simp
  have 7: "?R (pool_at [] [] [Got ?b] [] 0 [j'])"
    using reach_step[OF 6 thread_get[of 0 _ ?b "[]"]] by simp
  show ?thesis
    using reach_step[OF 7 thread_return[of 0 _ ?b]] wb by simp
qed

text \<open>A configuration, a suite's job and a process that passes.\<close>

definition demo_cfg :: waf_config where
  "demo_cfg = \<lparr>NS3_BASEDIR = ''/ns3'', NS3_BUILDDIR = ''/ns3/build'', NS3_ENABLED_MODULES = [],
     NS3_MODULE_PATH = [''/ns3/build''], NSC_ENABLED = False, ENABLE_EXAMPLES = True, ENABLE_TESTS = True,
     EXAMPLE_DIRECTORIES = [], ENABLE_PYTHON_BINDINGS = False, APPNAME = ''ns'', BUILD_PROFILE = ''debug'',
     VERSION = ''3'', PYTHON = [''python''], VALGRIND_FOUND = False, platform = ''linux2''\<rparr>"

definition demo_popen :: popen where
  "demo_popen cmd dir =
     \<lparr>proc_returncode = 0,
      proc_stdout = (if ends_with ''performance'' cmd then '''' else endl ''queue''),
      proc_stderr = '''', proc_elapsed = 1\<rparr>"

definition demo_world :: world where
  "demo_world = \<lparr>w_files = (\<lambda>p. if p = ''/ns3/build/build-status.py'' then Some [] else None),
     w_popen = demo_popen, w_waf = (\<lambda>_. 0), w_getcwd = ''/ns3'', w_date_and_time = ''now'',
     w_nprocessors_onln = Some 1, w_sysctl = ('''', ''''), w_eval_strings = (\<lambda>_. Inr []),
     w_eval_triples = (\<lambda>_. Inr []), w_eval_pairs = (\<lambda>_. Inr []), w_eval_cond = (\<lambda>_. Inr True)\<rparr>"

definition demo_job :: job where
  "demo_job = suite_job demo_world demo_cfg default_options ''queue''"

definition demo_result :: job where
  "demo_result = set_elapsed_time 1 (set_returncode 0 demo_job)"

lemma demo_job_runs: "\<not> is_break demo_job" "\<not> is_skip demo_job"
  "launch demo_cfg default_options demo_popen demo_job = Inr demo_result"
proof -
  show "\<not> is_break demo_job" "\<not> is_skip demo_job"
    by (simp_all add: demo_job_def suite_job_fields default_options_def demo_cfg_def core_nsc_missing_skip_tests_def)
  show "launch demo_cfg default_options demo_popen demo_job = Inr demo_result"
    by (simp add: launch_def demo_job_def suite_job_fields run_job_synchronously_def job_command_def
        default_options_def demo_result_def demo_popen_def Let_def)
qed

abbreviation demo_end :: pool where
  "demo_end \<equiv> pool_at [] [] [Returned] [] 0 [demo_result]"

lemma demo_run:
  "reachable demo_cfg default_options demo_popen 1 [demo_job] demo_end" "finished demo_end"
  "\<forall>j \<in> set [demo_job]. \<not> is_break j"
  using one_job_run[OF demo_job_runs] demo_job_runs(1) by (simp_all add: finished_def)

section \<open>The worker pool\<close>

text \<open>C1. However the threads and the signal handler interleave: when the main thread has all its
  results and the threads have returned, the collected results are the dispatched jobs, each exactly
  once, up to what a worker writes into a job (return code, elapsed time, break mark).\<close>

theorem no_job_lost:
  assumes "reachable cfg opts popen nthreads jobs s" "finished s" "\<forall>j \<in> set jobs. \<not> is_break j"
  shows "image_mset job_core (mset (collected s)) = image_mset job_core (mset jobs)"
  using collected_core[OF assms] .

theorem no_job_lost_witness: "job_core demo_result = job_core demo_job"
  using no_job_lost[OF demo_run] by simp

text \<open>Without an interrupt the results do not depend on the number of threads or
  the order in which they work: the collected list is a rearrangement of what running each job alone
  gives.\<close>

theorem results_whatever_the_order:
  assumes "reachable cfg opts popen nthreads jobs s" "finished s" "\<forall>j \<in> set jobs. \<not> is_break j"
    and "\<not> thread_exit s"
  shows "mset (collected s) = mset (map (job_result cfg opts popen) jobs)"
  using collected_results[OF assms] .

theorem results_whatever_the_order_witness:
  "job_result demo_cfg default_options demo_popen demo_job = demo_result"
  using results_whatever_the_order[OF demo_run] by simp



text \<open>C4. Every run of the pool ends: from its start no sequence of steps is longer than six times
  the number of jobs and threads, whatever the scheduler does and wherever the signal handler runs
  between the steps.\<close>

theorem pool_terminates:
  "((\<lambda>s t. pool_step cfg opts popen s t \<or> pool_step cfg opts popen (sigint_hook s) t) ^^ k) (init_pool nthreads jobs) s
   \<Longrightarrow> k \<le> 6 * (length jobs + nthreads)"
proof -
  let ?step = "\<lambda>s t. pool_step cfg opts popen s t \<or> pool_step cfg opts popen (sigint_hook s) t"
  have one: "work t < work s" if "?step s t" for s t
    using that pool_step_work[of cfg opts popen s t] pool_step_work[of cfg opts popen "sigint_hook s" t]
      work_sigint[of s] by auto
  assume "(?step ^^ k) (init_pool nthreads jobs) s"
  then have "work s + k \<le> work (init_pool nthreads jobs)"
  proof (induction k arbitrary: s)
    case (Suc k)
    then obtain r where "(?step ^^ k) (init_pool nthreads jobs) r" "?step r s" by auto
    then show ?case using Suc.IH[of r] one[of r s] by simp
  qed simp
  then show ?thesis by (simp add: work_init)
qed

theorem pool_terminates_witness:
  "\<exists>s. ((\<lambda>s t. pool_step demo_cfg default_options demo_popen s t \<or> pool_step demo_cfg default_options demo_popen (sigint_hook s) t)
        ^^ 1) (init_pool 1 [demo_job]) s \<and> 1 \<le> 6 * (length [demo_job] + 1)"
proof -
  let ?step = "\<lambda>s t. pool_step demo_cfg default_options demo_popen s t \<or> pool_step demo_cfg default_options demo_popen (sigint_hook s) t"
  obtain t where "?step (init_pool 1 [demo_job]) t"
    using main_put[of "init_pool 1 [demo_job]" demo_job "[break_job]"] by (auto simp: init_pool_def)
  then have "(?step ^^ 1) (init_pool 1 [demo_job]) t" by (simp only: relpowp_1)
  then show ?thesis using pool_terminates by metis
qed

section \<open>The run as a whole\<close>


text \<open>Without a report the second half returns where every suite has written its file.\<close>

lemma report_run_total:
  assumes "opt_html opts = ''''" "opt_text opts = ''''" "\<And>f. tmp_files f \<noteq> None"
  shows "\<exists>r. report_run parse tmp_files cfg opts out n js = Inr r"
proof -
  have "\<exists>q. process_result tmp_files opts j p = Inr q" for j p
  proof -
    have "\<exists>x. suite_xml tmp_files j = Inr x"
      using assms(3)[of "tmp_file_name j"] by (auto simp: suite_xml_def split: option.splits)
    then show ?thesis by (cases "count_result j (counters p)") (auto simp: process_result_def)
  qed
  then have "\<exists>q. process_results tmp_files opts js p = Inr q" for p
    unfolding process_results_def by (induction js arbitrary: p) (simp, metis each_res.simps(2) rbind.simps(2))
  then obtain q where "process_results tmp_files opts js (start_progress out) = Inr q" by blast
  then show ?thesis using assms(1,2) by (simp add: report_run_def finish_run_def Let_def)
qed

lemma demo_plan: "make_plan demo_world demo_cfg default_options = Inr (Go 1 [demo_job] [])"
proof -
  have "make_plan demo_world demo_cfg default_options
      = Inr (Go 1 [suite_job demo_world demo_cfg default_options ''queue''] [])" by code_simp
  then show ?thesis by (simp add: demo_job_def)
qed



text \<open>C5. Two uninterrupted runs of the same plan, on any numbers of threads and with
  any interleaving, end with the same counters and the same exit status, and the status is 0 exactly
  where every job alone is skipped or returns 0.\<close>

theorem uninterrupted_runs_agree:
  assumes "reachable cfg opts popen n jobs s" "finished s" "\<not> thread_exit s"
    and "reachable cfg opts popen m jobs t" "finished t" "\<not> thread_exit t"
    and "\<forall>j \<in> set jobs. \<not> is_break j"
    and "report_run parse tmp_files cfg opts out (length jobs) (collected s) = Inr r"
    and "report_run parse tmp_files cfg opts out (length jobs) (collected t) = Inr r'"
  shows "run_counts r = run_counts r' \<and> exit_status r = exit_status r'
    \<and> exit_status r = (if list_all (\<lambda>j. job_ok (job_result cfg opts popen j)) jobs then 0 else 1)"
proof -
  have "mset (collected s) = mset (collected t)"
    using collected_results[OF assms(1,2,7,3)] collected_results[OF assms(4,5,7,6)] by simp
  moreover have "length (collected s) = length jobs" "length (collected t) = length jobs"
    using collected_length assms by blast+
  ultimately show ?thesis
    using report_determined[of "collected s" "collected t" parse tmp_files cfg opts out r parse tmp_files r'] assms(8,9)
      exit_status_uninterrupted[OF assms(1,2,7,3,8)] by simp
qed

theorem uninterrupted_runs_agree_witness:
  "\<exists>r. report_run (\<lambda>_. Inl ParseError) (\<lambda>_. Some '''') demo_cfg default_options [] 1 [demo_result] = Inr r
     \<and> exit_status r = 0"
proof -
  obtain r where r: "report_run (\<lambda>_. Inl ParseError) (\<lambda>_. Some '''') demo_cfg default_options []
      (length [demo_job]) (collected demo_end) = Inr r"
    using report_run_total[of default_options "\<lambda>_. Some ''''"] by (fastforce simp: default_options_def)
  have nt: "\<not> thread_exit demo_end" by simp
  have wr: "worker_round demo_cfg default_options demo_popen False demo_job = Inr (Some demo_result)"
    using demo_job_runs by (simp add: worker_round_def)
  have "job_ok (job_result demo_cfg default_options demo_popen demo_job)"
    using demo_job_runs(1,2)
    by (simp add: job_result_def wr job_ok_def demo_result_def set_elapsed_time_def set_returncode_def)
  then have "exit_status r = 0"
    using uninterrupted_runs_agree[OF demo_run(1,2) nt demo_run(1,2) nt demo_run(3) r r] by simp
  then show ?thesis using r by auto
qed

section \<open>The choice of the jobs\<close>

text \<open>The jobs \<open>run_tests\<close> dispatches: none is a break, a suite's job is skipped exactly where
  the suite cannot run under valgrind or needs the missing NSC, and a Python example of the lists exactly
  under valgrind or without Python bindings.\<close>

theorem plan_jobs_kinds:
  "(is_skip (suite_job w cfg opts test) \<longleftrightarrow>
      (opt_valgrind opts \<and> test \<in> set core_valgrind_skip_tests)
      \<or> (\<not> NSC_ENABLED cfg \<and> test \<in> set core_nsc_missing_skip_tests))
   \<and> (list_pyexample w cfg opts scripts t = Inr (Some j) \<longrightarrow>
        (is_skip j \<longleftrightarrow> opt_valgrind opts \<or> \<not> ENABLE_PYTHON_BINDINGS cfg))
   \<and> (make_plan w cfg opts = Inr (Go n jobs out) \<longrightarrow> (\<forall>j \<in> set jobs. \<not> is_break j))"
  using suite_job_fields(6) list_pyexample_fields plan_no_break by blast

theorem plan_jobs_kinds_witness:
  "is_skip (suite_job demo_world demo_cfg default_options ''nsc-tcp-loss'') \<and> \<not> is_break demo_job"
proof -
  have "\<not> NSC_ENABLED demo_cfg" by (simp add: demo_cfg_def)
  moreover have "''nsc-tcp-loss'' \<in> set core_nsc_missing_skip_tests" by (simp add: core_nsc_missing_skip_tests_def)
  ultimately show ?thesis
    using plan_jobs_kinds[of demo_world demo_cfg default_options "''nsc-tcp-loss''" "[]" "('''', '''')" demo_job 1 "[demo_job]" "[]"]
      demo_plan by simp
qed

text \<open>From the list of suites \<open>run_tests\<close> takes one occurrence of a name for each time
  it is listed as a performance test; of a list without repetitions exactly the performance tests go.\<close>

theorem performance_dropped:
  "mset (drop_performance suite_list tests) = mset suite_list - mset tests
   \<and> (distinct suite_list \<longrightarrow> set (drop_performance suite_list tests) = set suite_list - set tests)"
  using drop_performance_mset drop_performance_distinct(1) by blast

theorem performance_dropped_witness:
  "set (drop_performance [''a'', ''perf'', ''''] [''perf'', '''']) = {''a''}"
  using performance_dropped[of "[''a'', ''perf'', '''']" "[''perf'', '''']"] by auto

text \<open>A performance suite that is asked for by name is not run: the suite passes the
  check of its name, is then removed as a performance test, and no suite's job is left (unless
  performance tests are also what the run is constrained to).\<close>

theorem requested_suite_not_run:
  assumes "opt_suite opts \<noteq> ''''" "newline \<notin> set (opt_suite opts)" "opt_constrain opts \<noteq> ''performance''"
    and "ask_runner w cfg '' --print-test-name-list'' = Inr names" "opt_suite opts \<in> set (split_on newline names)"
    and "ask_runner w cfg '' --print-test-name-list --test-type=performance'' = Inr performance"
      "opt_suite opts \<in> set (split_on newline performance)"
    and "suites_to_run w cfg opts = Inr suite_list"
  shows "suite_jobs w cfg opts suite_list = []"
  using requested_performance_suite[OF assms] .

theorem requested_suite_not_run_witness:
  "let w = demo_world\<lparr>w_popen := (\<lambda>cmd dir. \<lparr>proc_returncode = 0, proc_stdout = endl ''perf'', proc_stderr = '''', proc_elapsed = 1\<rparr>)\<rparr>;
       opts = default_options\<lparr>opt_suite := ''perf''\<rparr>
   in suites_to_run w demo_cfg opts = Inr [] \<and> suite_jobs w demo_cfg opts [] = []"
proof -
  let ?w = "demo_world\<lparr>w_popen := (\<lambda>cmd dir. \<lparr>proc_returncode = 0, proc_stdout = endl ''perf'', proc_stderr = '''', proc_elapsed = 1\<rparr>)\<rparr>"
  let ?o = "default_options\<lparr>opt_suite := ''perf''\<rparr>"
  have a: "ask_runner ?w demo_cfg x = Inr (endl ''perf'')" for x
    by (simp add: ask_runner_def run_job_synchronously_def job_command_def Let_def)
  have m: "''perf'' \<in> set (split_on newline (endl ''perf''))" by (simp add: endl_def newline_def)
  have sp: "split_on newline (endl ''perf'') = [''perf'', '''']" by (simp add: endl_def newline_def)
  have o: "opt_suite ?o = ''perf''" "opt_constrain ?o = ''''" by (simp_all add: default_options_def)
  have "select_suites ?w demo_cfg ?o = Inr (endl ''perf'')"
    unfolding select_suites_def a rbind.simps o sp by simp
  then have s: "suites_to_run ?w demo_cfg ?o = Inr []"
    unfolding suites_to_run_def a rbind.simps o by (simp add: sp)
  have "suite_jobs ?w demo_cfg ?o [] = []"
    by (rule requested_suite_not_run[OF _ _ _ a _ a _ s])
      (use m in \<open>simp_all add: default_options_def newline_def\<close>)
  with s show ?thesis by simp
qed

text \<open>On Linux \<open>make_paths\<close> appends every module path to \<open>LD_LIBRARY_PATH\<close>, each after a colon,
  and sets \<open>PYTHONPATH\<close> to the path of the bindings, written twice where the variable was set before:
  its old value is lost. Nothing else changes.\<close>

theorem library_path:
  assumes "platform cfg = ''linux2''"
  shows "d_get (make_paths cfg env) k =
    (let py = path_join (path_join (NS3_BUILDDIR cfg) ''bindings'') ''python''
     in if k = ''LD_LIBRARY_PATH'' then
          Some ((case d_get env k of None \<Rightarrow> '''' | Some v \<Rightarrow> v) @ concat (map (\<lambda>p. '':'' @ p) (NS3_MODULE_PATH cfg)))
        else if k = ''PYTHONPATH'' then
          Some (if d_get env k = None then py else py @ '':'' @ py)
        else d_get env k)"
proof -
  define py where "py = path_join (path_join (NS3_BUILDDIR cfg) ''bindings'') ''python''"
  define env2 where "env2 = (if \<not> d_has env ''PYTHONPATH'' then d_set ''PYTHONPATH'' py (d_set ''PYTHONPATH'' py env)
     else d_set ''PYTHONPATH'' (py @ '':'' @ py) (d_set ''PYTHONPATH'' py env))"
  define env3 where "env3 = init_var ''LD_LIBRARY_PATH'' (d_has env ''LD_LIBRARY_PATH'') env2"
  have mp: "make_paths cfg env = append_paths ''LD_LIBRARY_PATH'' '':'' (NS3_MODULE_PATH cfg) env3"
    using assms by (simp add: make_paths_def Let_def env3_def env2_def py_def dict_simps)
  have g2: "d_get env2 k = (if k = ''PYTHONPATH'' then Some (if d_get env k = None then py else py @ '':'' @ py) else d_get env k)" for k
    by (simp add: env2_def dict_simps d_has_def)
  have g3: "d_get env3 k = (if k = ''LD_LIBRARY_PATH'' \<and> d_get env ''LD_LIBRARY_PATH'' = None then Some '''' else d_get env2 k)" for k
    unfolding env3_def by (rule init_var_get)
  show ?thesis
  proof (cases "k = ''LD_LIBRARY_PATH''")
    case True
    have "d_get env3 ''LD_LIBRARY_PATH'' = Some (case d_get env ''LD_LIBRARY_PATH'' of None \<Rightarrow> '''' | Some v \<Rightarrow> v)"
      by (simp add: g3 g2 split: option.splits)
    moreover have "(@) '':'' = (#) (CHR '':'')" by (rule ext) simp
    ultimately show ?thesis using True by (simp add: mp append_paths_var Let_def)
  next
    case False
    then show ?thesis by (simp add: mp append_paths_other g3 g2 py_def[symmetric] Let_def)
  qed
qed

theorem library_path_witness:
  "d_get (make_paths demo_cfg [(''PYTHONPATH'', ''/mine'')]) ''PYTHONPATH''
     = Some ''/ns3/build/bindings/python:/ns3/build/bindings/python''"
proof -
  have "path_join (path_join (NS3_BUILDDIR demo_cfg) ''bindings'') ''python'' = ''/ns3/build/bindings/python''"
    by (simp add: demo_cfg_def path_join_def starts_with_def ends_with_def)
  then show ?thesis
    using library_path[of demo_cfg "[(''PYTHONPATH'', ''/mine'')]" "''PYTHONPATH''"]
    by (simp add: Let_def demo_cfg_def d_get_def)
qed

section \<open>The reports\<close>

text \<open>The text report is written exactly where every test of the results file and every test
  below it, and every example, has its result and name, and every failure its six details (otherwise
  \<open>AttributeError\<close>); a test then contributes the lines of its nodes in document order.\<close>

theorem text_report:
  "((\<exists>s. translate_to_text et = Inr s) \<longleftrightarrow>
      list_all (\<lambda>test. list_all complete_node (preorder test)) (findall ''Test'' et)
      \<and> list_all complete_info (findall ''Example'' et))
   \<and> node_to_text test = write_each own_text (preorder test)"
  using text_report_total node_to_text_preorder by blast

text \<open>The HTML page of a results file whose texts hold no tag is well nested exactly where no
  suite that is reported in detail has a failed case with details, and no example was skipped: for a
  detailed failure a row is closed as a cell, and for a skipped example a cell with a misspelt tag.\<close>

theorem html_nesting:
  assumes "clean_xml et" "translate_to_html et = Inr page"
  shows "well_nested page \<longleftrightarrow>
    list_all suite_well_written (findall ''Test'' et) \<and> list_all example_well_written (findall ''Example'' et)"
  using page_well_nested[OF assms] .

theorem html_nesting_witness:
  "\<exists>page. translate_to_html (Element ''Results'' [] None
      [Element ''Example'' [] None [Element ''Name'' [] (Some ''udp'') [], Element ''Result'' [] (Some ''SKIP'') []]])
      = Inr page \<and> \<not> well_nested page"
proof -
  let ?et = "Element ''Results'' [] None
      [Element ''Example'' [] None [Element ''Name'' [] (Some ''udp'') [], Element ''Result'' [] (Some ''SKIP'') []]]"
  have "clean_xml ?et" by (simp add: plain_def)
  moreover obtain page where "translate_to_html ?et = Inr page"
    by (simp add: translate_to_html_def findall_def html_example_def read_test_def child_text_def find_el_def)
  moreover have "\<not> list_all example_well_written (findall ''Example'' ?et)"
    by (simp add: findall_def example_well_written_def child_text_def find_el_def)
  ultimately show ?thesis using html_nesting[of ?et] by blast
qed

text \<open>The XML results file is well nested exactly where no test suite crashed (the names
  hold no tag and the suites' own files are well nested): for a crash the file gets a result that is
  closed as a suite.\<close>

theorem results_file_nesting:
  assumes "process_results tmp_files opts results (start_progress printed) = Inr q"
    and "list_all (clean_job tmp_files) results"
  shows "well_nested (results_xml q @ endl ''</Results>'') \<longleftrightarrow> list_all (\<lambda>j. \<not> crashed_suite j) results"
  using results_text_nested[OF assms] .

definition crashed_demo :: job where
  "crashed_demo = demo_job\<lparr>returncode := 139\<rparr>"

lemma crashed_demo: "crashed_suite crashed_demo" "clean_job (\<lambda>_. None) crashed_demo"
  using demo_job_runs(1,2)
  by (simp_all add: crashed_suite_def crashed_demo_def example_kind_def result_status_def clean_job_def plain_def
      demo_job_def suite_job_fields)

theorem results_file_nesting_witness:
  "\<exists>q. process_results (\<lambda>_. None) default_options [crashed_demo] (start_progress []) = Inr q
     \<and> \<not> well_nested (results_xml q @ endl ''</Results>'')"
proof -
  obtain q where q: "process_results (\<lambda>_. None) default_options [crashed_demo] (start_progress []) = Inr q"
    using crashed_demo(1)
    by (cases "count_result crashed_demo zero_counts")
      (auto simp: process_results_def process_result_def start_progress_def suite_xml_def crashed_suite_def
        result_status_def split: if_splits)
  then show ?thesis using results_file_nesting[OF q] crashed_demo by simp
qed

text \<open>After the crash of a test suite no HTML or text report is made: as the XML parser
  rejects texts that are not well nested, a run that reports in either form raises, and its exit status
  is never computed.\<close>

theorem crash_loses_reports:
  assumes "report_run parse tmp_files cfg opts printed n results = Inr r"
    and "list_all (clean_job tmp_files) results" "j \<in> set results" "crashed_suite j"
    and "\<And>t e. parse t = Inr e \<Longrightarrow> well_nested t"
  shows "opt_html opts = '''' \<and> opt_text opts = ''''"
  using crash_stops_reports[OF assms] .

theorem crash_loses_reports_witness:
  "\<exists>r. report_run (\<lambda>t. if well_nested t then Inr (Element ''Results'' [] None []) else Inl ParseError) (\<lambda>_. None)
      demo_cfg default_options [] 1 [crashed_demo] = Inr r \<and> opt_html default_options = ''''"
proof -
  let ?p = "\<lambda>t. if well_nested t then Inr (Element ''Results'' [] None []) else Inl ParseError"
  obtain r where r: "report_run ?p (\<lambda>_. None) demo_cfg default_options [] 1 [crashed_demo] = Inr r"
    using crashed_demo(1)
    by (cases "count_result crashed_demo zero_counts")
      (auto simp: report_run_def finish_run_def default_options_def Let_def process_results_def process_result_def
        start_progress_def suite_xml_def crashed_suite_def result_status_def split: if_splits)
  moreover have "opt_html default_options = '''' \<and> opt_text default_options = ''''"
    by (rule crash_loses_reports[OF r _ _ crashed_demo(1)]) (use crashed_demo(2) in \<open>auto split: if_splits\<close>)
  ultimately show ?thesis by blast
qed

end
