(* ===== verification/CheckStyle.thy ===== *)
theory CheckStyle
  imports PyStr
begin

text \<open>
  \<open>utils/check-style.py\<close>: the configuration for uncrustify, patches and their parser, the pass
  that takes changes of trailing blanks out of a patch, and the functions that indent files and
  report. \<open>uncrustify\<close>, \<open>difflib.unified_diff\<close>, \<open>patch\<close> and mercurial are not part of the
  repository: they are parameters.
\<close>

section \<open>The configuration file\<close>

definition cfg_level0 :: "string list" where
  "cfg_level0 =
     [''sp_func_proto_paren=Add'',
      ''sp_func_def_paren=Add'',
      ''sp_func_call_paren=Add'',
      ''sp_after_semi_for=Ignore'',
      ''sp_before_sparen=Ignore'',
      ''sp_type_func=Ignore'',
      ''sp_after_type=Ignore'',
      ''nl_class_leave_one_liners=True'',
      ''nl_enum_leave_one_liners=True'',
      ''nl_func_leave_one_liners=True'',
      ''nl_assign_leave_one_liners=True'',
      ''#nl_collapse_empty_body=False'',
      ''nl_getset_leave_one_liners=True'',
      ''nl_if_leave_one_liners=True'',
      ''nl_fdef_brace=Ignore'',
      ''# finally, indentation configuration'',
      ''indent_with_tabs=0'',
      ''indent_namespace=false'',
      ''indent_columns=2'',
      ''indent_brace=2'',
      ''indent_case_brace=2'',
      ''indent_class=true'',
      ''indent_class_colon=True'',
      ''# alignment'',
      ''indent_align_assign=False'',
      ''align_left_shift=True'',
      ''# comment reformating disabled'',
      ''cmt_reflow_mode=1 # do not touch comments at all'',
      ''cmt_indent_multi=False # really, do not touch them'']"

definition cfg_level1 :: "string list" where
  "cfg_level1 =
     [''# extra spaces here and there'',
      ''sp_brace_typedef=Add'',
      ''sp_enum_assign=Add'',
      ''sp_before_sparen=Add'',
      ''sp_after_semi_for=Add'',
      ''sp_arith=Add'',
      ''sp_assign=Add'',
      ''sp_compare=Add'',
      ''sp_func_class_paren=Add'',
      ''sp_after_type=Add'',
      ''sp_type_func=Add'',
      ''sp_angle_paren=Add'']"

definition cfg_level2 :: "string list" where
  "cfg_level2 =
     [''nl_collapse_empty_body=False'',
      ''nl_if_brace=Add'',
      ''nl_brace_else=Add'',
      ''nl_elseif_brace=Add'',
      ''nl_else_brace=Add'',
      ''nl_while_brace=Add'',
      ''nl_do_brace=Add'',
      ''nl_for_brace=Add'',
      ''nl_brace_while=Add'',
      ''nl_switch_brace=Add'',
      ''nl_after_case=True'',
      ''nl_namespace_brace=Remove'',
      ''nl_after_brace_open=True'',
      ''nl_class_leave_one_liners=False'',
      ''nl_enum_leave_one_liners=False'',
      ''nl_func_leave_one_liners=False'',
      ''nl_if_leave_one_liners=False'',
      ''nl_class_colon=Ignore'',
      ''nl_after_access_spec=1'',
      ''nl_after_semicolon=True'',
      ''pos_class_colon=Lead'',
      ''pos_class_comma=Trail'',
      ''pos_bool=Lead'',
      ''nl_class_init_args=Add'',
      ''nl_template_class=Add'',
      ''nl_class_brace=Add'',
      ''# does not work very well'',
      ''nl_func_type_name=Ignore'',
      ''nl_func_scope_name=Ignore'',
      ''nl_func_type_name_class=Ignore'',
      ''nl_func_proto_type_name=Ignore'',
      ''# function'' @ [CHR 0x5C] @ ''n('',
      ''nl_func_paren=Remove'',
      ''nl_fdef_brace=Add'',
      ''nl_struct_brace=Add'',
      ''nl_enum_brace=Add'',
      ''nl_union_brace=Add'',
      ''mod_full_brace_do=Add'',
      ''mod_full_brace_for=Add'',
      ''mod_full_brace_if=Add'',
      ''mod_full_brace_while=Add'',
      ''mod_full_brace_for=Add'',
      ''mod_remove_extra_semicolon=True'',
      ''# max code width'',
      ''#code_width=128'',
      ''#ls_for_split_full=True'',
      ''#ls_func_split_full=True'']"

text \<open>Each text starts with a newline, as the literals in the source do.\<close>

definition cfg_text :: "string list \<Rightarrow> string" where
  "cfg_text ls = endl '''' @ concat (map endl ls)"

definition uncrustify_config_file :: "int \<Rightarrow> string" where
  "uncrustify_config_file level =
     cfg_text cfg_level0 @ (if level \<ge> 1 then cfg_text cfg_level1 else '''')
     @ (if level \<ge> 2 then cfg_text cfg_level2 else '''')"

text \<open>A higher level only adds lines at the end.\<close>

lemma config_prefix: "i \<le> j \<Longrightarrow> starts_with (uncrustify_config_file i) (uncrustify_config_file j)"
  by (auto simp: uncrustify_config_file_def starts_with_iff)

section \<open>Lines, chunks and patches\<close>

datatype line_type = Unset | SRC | DST | BOTH

record patch_line =
  line_type :: line_type
  line_text :: string

definition PatchChunkLine :: patch_line where
  "PatchChunkLine = \<lparr>line_type = Unset, line_text = ''''\<rparr>"

definition set_src :: "string \<Rightarrow> patch_line \<Rightarrow> patch_line" where
  "set_src s l = l\<lparr>line_type := SRC, line_text := s\<rparr>"

definition set_dst :: "string \<Rightarrow> patch_line \<Rightarrow> patch_line" where
  "set_dst s l = l\<lparr>line_type := DST, line_text := s\<rparr>"

definition set_both :: "string \<Rightarrow> patch_line \<Rightarrow> patch_line" where
  "set_both s l = l\<lparr>line_type := BOTH, line_text := s\<rparr>"

definition append_to_line :: "string \<Rightarrow> patch_line \<Rightarrow> patch_line" where
  "append_to_line s l = l\<lparr>line_text := line_text l @ s\<rparr>"

definition is_src :: "patch_line \<Rightarrow> bool" where
  "is_src l \<longleftrightarrow> line_type l = SRC \<or> line_type l = BOTH"

definition is_dst :: "patch_line \<Rightarrow> bool" where
  "is_dst l \<longleftrightarrow> line_type l = DST \<or> line_type l = BOTH"

text \<open>A written file is the list of its lines, each with its newline.\<close>

definition write_line :: "patch_line \<Rightarrow> string list res" where
  "write_line l =
     (case line_type l of
        SRC \<Rightarrow> Inr [endl (''-'' @ line_text l)]
      | DST \<Rightarrow> Inr [endl (''+'' @ line_text l)]
      | BOTH \<Rightarrow> Inr [endl ('' '' @ line_text l)]
      | Unset \<Rightarrow> Inl PyException)"

record patch_chunk =
  src_pos :: nat
  dst_pos :: nat
  chunk_lines :: "patch_line list"

definition PatchChunk :: "nat \<Rightarrow> nat \<Rightarrow> patch_chunk" where
  "PatchChunk s d = \<lparr>src_pos = s, dst_pos = d, chunk_lines = []\<rparr>"

text \<open>
  \<open>src()\<close> and \<open>dst()\<close> return the line objects themselves: here, where in \<open>chunk_lines\<close> they are.
\<close>

definition chunk_src :: "patch_chunk \<Rightarrow> nat list" where
  "chunk_src c = filter (\<lambda>i. is_src (chunk_lines c ! i)) [0..<length (chunk_lines c)]"

definition chunk_dst :: "patch_chunk \<Rightarrow> nat list" where
  "chunk_dst c = filter (\<lambda>i. is_dst (chunk_lines c ! i)) [0..<length (chunk_lines c)]"

fun write_all :: "('a \<Rightarrow> string list res) \<Rightarrow> 'a list \<Rightarrow> string list res" where
  "write_all f [] = Inr []"
| "write_all f (x # xs) = rbind (f x) (\<lambda>a. rbind (write_all f xs) (\<lambda>b. Inr (a @ b)))"

definition chunk_header :: "nat \<Rightarrow> nat \<Rightarrow> nat \<Rightarrow> nat \<Rightarrow> string" where
  "chunk_header s sl d dl =
     ''@@ -'' @ show_nat s @ '','' @ show_nat sl @ '' +'' @ show_nat d @ '','' @ show_nat dl @ '' @@''"

definition write_chunk :: "patch_chunk \<Rightarrow> string list res" where
  "write_chunk c =
     rbind (write_all write_line (chunk_lines c)) (\<lambda>ls.
       Inr (endl (chunk_header (src_pos c) (length (chunk_src c)) (dst_pos c) (length (chunk_dst c))) # ls))"

record patch =
  patch_src :: string
  patch_dst :: string
  chunks :: "patch_chunk list"

definition Patch :: patch where
  "Patch = \<lparr>patch_src = '''', patch_dst = '''', chunks = []\<rparr>"

definition write_patch :: "patch \<Rightarrow> string list res" where
  "write_patch p =
     rbind (write_all write_chunk (chunks p)) (\<lambda>ls.
       Inr (endl (''--- '' @ patch_src p) # endl (''+++ '' @ patch_dst p) # ls))"

section \<open>parse_patchset\<close>

text \<open>
  A pattern \<open>^prefix(.*)$\<close>: the dot takes no newline, and the end may stand before a newline
  that ends the text.
\<close>

definition match_rest :: "string \<Rightarrow> string \<Rightarrow> string option" where
  "match_rest p line =
     (if starts_with p line then
        let r = drop (length p) line;
            g = (if r \<noteq> [] \<and> last r = CHR 0x0A then butlast r else r)
        in if CHR 0x0A \<in> set g then None else Some g
      else None)"

definition match_chunk_start :: "string \<Rightarrow> (nat \<times> nat) option" where
  "match_chunk_start line =
     Option.bind (eat ''@@ -'' line) (\<lambda>a.
     Option.bind (eat_number a) (\<lambda>(src, b).
     Option.bind (eat '','' b) (\<lambda>c.
     Option.bind (eat_number c) (\<lambda>(src_n, d).
     Option.bind (eat '' +'' d) (\<lambda>e.
     Option.bind (eat_number e) (\<lambda>(dst, f).
     Option.bind (eat '','' f) (\<lambda>g.
     Option.bind (eat_number g) (\<lambda>(dst_n, h).
     Option.bind (eat '' @@'' h) (\<lambda>_. Some (src, dst))))))))))"

text \<open>
  \<open>current_patch\<close> is the last patch of the set. \<open>current_chunk\<close> is a chunk of some patch: its
  place is kept, for a new patch does not reset it.
\<close>

record patch_parser =
  patchset :: "patch list"
  current_chunk :: "(nat \<times> nat) option"

definition update_last :: "('a \<Rightarrow> 'a) \<Rightarrow> 'a list \<Rightarrow> 'a list" where
  "update_last f xs = butlast xs @ [f (last xs)]"

definition add_line :: "patch_line \<Rightarrow> patch_parser \<Rightarrow> patch_parser res" where
  "add_line l s =
     (case current_chunk s of
        None \<Rightarrow> Inl UnboundLocalError
      | Some (i, j) \<Rightarrow>
          Inr (s\<lparr>patchset := (patchset s)[i := (patchset s ! i)
                \<lparr>chunks := (chunks (patchset s ! i))[j := (chunks (patchset s ! i) ! j)
                    \<lparr>chunk_lines := chunk_lines (chunks (patchset s ! i) ! j) @ [l]\<rparr>]\<rparr>]\<rparr>))"

definition parse_patch_line :: "string \<Rightarrow> patch_parser \<Rightarrow> patch_parser res" where
  "parse_patch_line line s =
     (case match_rest ''--- '' line of
        Some f \<Rightarrow> Inr (s\<lparr>patchset := patchset s @ [Patch\<lparr>patch_src := f\<rparr>]\<rparr>)
      | None \<Rightarrow> (case match_rest ''+++ '' line of
        Some f \<Rightarrow> if patchset s = [] then Inl AttributeError
                  else Inr (s\<lparr>patchset := update_last (\<lambda>p. p\<lparr>patch_dst := f\<rparr>) (patchset s)\<rparr>)
      | None \<Rightarrow> (case match_chunk_start line of
        Some (a, b) \<Rightarrow> if patchset s = [] then Inl AttributeError
                  else Inr (s\<lparr>patchset := update_last (\<lambda>p. p\<lparr>chunks := chunks p @ [PatchChunk a b]\<rparr>) (patchset s),
                              current_chunk := Some (length (patchset s) - 1, length (chunks (last (patchset s))))\<rparr>)
      | None \<Rightarrow> (case match_rest ''-'' line of
        Some t \<Rightarrow> add_line (set_src t PatchChunkLine) s
      | None \<Rightarrow> (case match_rest ''+'' line of
        Some t \<Rightarrow> add_line (set_dst t PatchChunkLine) s
      | None \<Rightarrow> (case match_rest '' '' line of
        Some t \<Rightarrow> add_line (set_both t PatchChunkLine) s
      | None \<Rightarrow> Inl PyException))))))"

fun parse_patch_lines :: "string list \<Rightarrow> patch_parser \<Rightarrow> patch_parser res" where
  "parse_patch_lines [] s = Inr s"
| "parse_patch_lines (line # ls) s = rbind (parse_patch_line line s) (parse_patch_lines ls)"

definition parse_patchset :: "string list \<Rightarrow> patch list res" where
  "parse_patchset ls =
     rbind (parse_patch_lines ls \<lparr>patchset = [], current_chunk = None\<rparr>) (\<lambda>s. Inr (patchset s))"

section \<open>remove_trailing_whitespace_changes\<close>

text \<open>
  The pattern \<open>^(.*)([ \t]+)$\<close>: the first group takes all it can, which leaves the second group
  the last character.
\<close>

definition match_trailing_blank :: "string \<Rightarrow> (string \<times> string) option" where
  "match_trailing_blank s =
     (if s \<noteq> [] \<and> (last s = CHR '' '' \<or> last s = CHR 0x09) \<and> CHR 0x0A \<notin> set s
      then Some (butlast s, [last s]) else None)"

text \<open>
  The loop over the source lines of a chunk, by their places; \<open>False\<close> comes with the lines where
  \<open>dst[i]\<close> raises, on which the function returns what it has.
\<close>

fun blank_loop :: "nat list \<Rightarrow> nat list \<Rightarrow> patch_line list \<Rightarrow> patch_line list \<times> bool" where
  "blank_loop [] ds ls = (ls, True)"
| "blank_loop (s # ss) [] ls = (ls, False)"
| "blank_loop (s # ss) (d # ds) ls =
     (case match_trailing_blank (line_text (ls ! s)) of
        Some (g1, g2) \<Rightarrow> blank_loop ss ds
          (if g1 = line_text (ls ! d) then ls[d := append_to_line g2 (ls ! d)] else ls)
      | None \<Rightarrow> blank_loop ss ds ls)"

fun blank_chunks :: "patch_chunk list \<Rightarrow> patch_chunk list \<times> bool" where
  "blank_chunks [] = ([], True)"
| "blank_chunks (c # cs) =
     (case blank_loop (chunk_src c) (chunk_dst c) (chunk_lines c) of
        (ls, ok) \<Rightarrow> if ok then (case blank_chunks cs of (cs', ok') \<Rightarrow> (c\<lparr>chunk_lines := ls\<rparr> # cs', ok'))
                    else (c\<lparr>chunk_lines := ls\<rparr> # cs, False))"

fun blank_patches :: "patch list \<Rightarrow> patch list" where
  "blank_patches [] = []"
| "blank_patches (p # ps) =
     (case blank_chunks (chunks p) of
        (cs, ok) \<Rightarrow> if ok then p\<lparr>chunks := cs\<rparr> # blank_patches ps else p\<lparr>chunks := cs\<rparr> # ps)"

definition remove_trailing_whitespace_changes :: "string list \<Rightarrow> patch list res" where
  "remove_trailing_whitespace_changes patch_generator =
     rbind (parse_patchset patch_generator) (\<lambda>ps. Inr (blank_patches ps))"

end
