(* ===== verification/PatchProofs.thy ===== *)
theory PatchProofs
  imports CheckStyle
begin

text \<open>
  The patches of \<open>utils/check-style.py\<close>: a written patch set is read back, and what the pass over
  trailing blanks changes.
\<close>

section \<open>Round trip\<close>

definition good_line :: "patch_line \<Rightarrow> bool" where
  "good_line l \<longleftrightarrow> line_type l \<noteq> Unset \<and> CHR 0x0A \<notin> set (line_text l)
     \<and> (line_type l = SRC \<longrightarrow> \<not> starts_with ''-- '' (line_text l))
     \<and> (line_type l = DST \<longrightarrow> \<not> starts_with ''++ '' (line_text l))"

definition good_patch :: "patch \<Rightarrow> bool" where
  "good_patch p \<longleftrightarrow> CHR 0x0A \<notin> set (patch_src p) \<and> CHR 0x0A \<notin> set (patch_dst p)
     \<and> list_all (\<lambda>c. list_all good_line (chunk_lines c)) (chunks p)"

lemma match_rest_ln: "CHR 0x0A \<notin> set t \<Longrightarrow> match_rest p (endl (p @ t)) = Some t"
  by (simp add: match_rest_def endl_def starts_with_def butlast_append)

lemma match_header: "match_chunk_start (endl (chunk_header s sl d dl)) = Some (s, d)"
proof -
  have "endl (chunk_header s sl d dl) = ''@@ -'' @ show_nat s @ CHR '','' # show_nat sl @ CHR '' '' # CHR ''+''
      # show_nat d @ CHR '','' # show_nat dl @ CHR '' '' # ''@@'' @ [CHR 0x0A]"
    by (simp add: endl_def chunk_header_def)
  moreover have "eat '','' (CHR '','' # t) = Some t" for t by (simp add: eat_def starts_with_def)
  moreover have "eat '' +'' (CHR '' '' # CHR ''+'' # t) = Some t" for t by (simp add: eat_def starts_with_def)
  moreover have "eat '' @@'' (CHR '' '' # ''@@'' @ t) = Some t" for t by (simp add: eat_def starts_with_def)
  ultimately show ?thesis
    unfolding match_chunk_start_def by (simp only: eat_append bind.simps prod.case eat_show_nat not_digit_signs list.sel simp_thms)
qed

lemma header_not_file:
  "match_rest ''--- '' (endl (chunk_header s sl d dl)) = None" "match_rest ''+++ '' (endl (chunk_header s sl d dl)) = None"
  by (simp_all add: match_rest_def endl_def chunk_header_def starts_with_def)

lemma no_header: "c \<noteq> CHR ''@'' \<Longrightarrow> match_chunk_start (c # s) = None"
  by (simp add: match_chunk_start_def eat_def starts_with_def)

text \<open>The parser's state after some patches, a last patch and its last chunk.\<close>

abbreviation at_chunk :: "patch list \<Rightarrow> patch \<Rightarrow> patch_chunk list \<Rightarrow> patch_chunk \<Rightarrow> patch_parser" where
  "at_chunk qs p cs c \<equiv>
     \<lparr>patchset = qs @ [p\<lparr>chunks := cs @ [c]\<rparr>], current_chunk = Some (length qs, length cs)\<rparr>"

lemma add_line_at: "add_line l (at_chunk qs p cs c) = Inr (at_chunk qs p cs (c\<lparr>chunk_lines := chunk_lines c @ [l]\<rparr>))"
  by (simp add: add_line_def)

lemma line_eqs:
  "line_type l = SRC \<Longrightarrow> set_src (line_text l) PatchChunkLine = l"
  "line_type l = DST \<Longrightarrow> set_dst (line_text l) PatchChunkLine = l"
  "line_type l = BOTH \<Longrightarrow> set_both (line_text l) PatchChunkLine = l"
  by (simp_all add: set_src_def set_dst_def set_both_def PatchChunkLine_def)

lemma starts_with_ln: "length p \<le> length s \<Longrightarrow> starts_with p (endl s) = starts_with p s"
  by (simp add: endl_def starts_with_def)

lemma not_prefix: "\<not> starts_with p s \<Longrightarrow> CHR 0x0A \<notin> set p \<Longrightarrow> match_rest p (endl s) = None"
proof -
  assume n: "\<not> starts_with p s" and nl: "CHR 0x0A \<notin> set p"
  have "\<not> starts_with p (s @ [CHR 0x0A])"
  proof
    assume "starts_with p (s @ [CHR 0x0A])"
    then obtain t where t: "s @ [CHR 0x0A] = p @ t" by (auto simp: starts_with_iff)
    then show False
      using n nl by (cases t rule: rev_cases) (auto simp: starts_with_iff)
  qed
  then show ?thesis by (simp add: match_rest_def endl_def)
qed

lemma parse_good_line:
  assumes "good_line l" "write_line l = Inr ls"
  shows "parse_patch_lines ls (at_chunk qs p cs c) = Inr (at_chunk qs p cs (c\<lparr>chunk_lines := chunk_lines c @ [l]\<rparr>))"
proof (cases "line_type l")
  case Unset
  then show ?thesis using assms by (simp add: good_line_def)
next
  case SRC
  then have n: "match_rest ''--- '' (endl (''-'' @ line_text l)) = None"
    using assms(1) by (intro not_prefix) (simp_all add: good_line_def starts_with_def)
  have "match_rest ''+++ '' (endl (''-'' @ line_text l)) = None" by (intro not_prefix) (simp_all add: starts_with_def)
  moreover have "match_chunk_start (endl (''-'' @ line_text l)) = None" by (simp add: endl_def no_header)
  moreover have "match_rest ''-'' (endl (''-'' @ line_text l)) = Some (line_text l)"
    using assms(1) by (intro match_rest_ln) (simp add: good_line_def)
  ultimately show ?thesis
    using SRC assms(2) n line_eqs(1)[OF SRC] by (auto simp: write_line_def parse_patch_line_def add_line_at simp del: append_Cons)
next
  case DST
  then have n: "match_rest ''+++ '' (endl (''+'' @ line_text l)) = None"
    using assms(1) by (intro not_prefix) (simp_all add: good_line_def starts_with_def)
  have "match_rest ''--- '' (endl (''+'' @ line_text l)) = None" by (intro not_prefix) (simp_all add: starts_with_def)
  moreover have "match_chunk_start (endl (''+'' @ line_text l)) = None" by (simp add: endl_def no_header)
  moreover have "match_rest ''-'' (endl (''+'' @ line_text l)) = None" by (intro not_prefix) (simp_all add: starts_with_def)
  moreover have "match_rest ''+'' (endl (''+'' @ line_text l)) = Some (line_text l)"
    using assms(1) by (intro match_rest_ln) (simp add: good_line_def)
  ultimately show ?thesis
    using DST assms(2) n line_eqs(2)[OF DST] by (auto simp: write_line_def parse_patch_line_def add_line_at simp del: append_Cons)
next
  case BOTH
  have "match_rest ''--- '' (endl ('' '' @ line_text l)) = None" "match_rest ''+++ '' (endl ('' '' @ line_text l)) = None"
    "match_rest ''-'' (endl ('' '' @ line_text l)) = None" "match_rest ''+'' (endl ('' '' @ line_text l)) = None"
    by (intro not_prefix; simp add: starts_with_def)+
  moreover have "match_chunk_start (endl ('' '' @ line_text l)) = None" by (simp add: endl_def no_header)
  moreover have "match_rest '' '' (endl ('' '' @ line_text l)) = Some (line_text l)"
    using assms(1) by (intro match_rest_ln) (simp add: good_line_def)
  ultimately show ?thesis
    using BOTH assms(2) line_eqs(3)[OF BOTH] by (auto simp: write_line_def parse_patch_line_def add_line_at simp del: append_Cons)
qed

lemma parse_lines_append: "parse_patch_lines (a @ b) s = rbind (parse_patch_lines a s) (parse_patch_lines b)"
proof (induction a arbitrary: s)
  case (Cons l a)
  then show ?case by (cases "parse_patch_line l s") simp_all
qed simp

lemma parse_good_lines:
  "list_all good_line ls \<Longrightarrow> write_all write_line ls = Inr out \<Longrightarrow>
   parse_patch_lines out (at_chunk qs p cs c) = Inr (at_chunk qs p cs (c\<lparr>chunk_lines := chunk_lines c @ ls\<rparr>))"
proof (induction ls arbitrary: c out)
  case (Cons l ls)
  then obtain a b where ab: "write_line l = Inr a" "write_all write_line ls = Inr b" "out = a @ b"
    by (auto simp: rbind_Inr_iff)
  then show ?case
    using parse_good_line[where l = l and ls = a and qs = qs and p = p and cs = cs and c = c] Cons.IH[where out = b and c = "c\<lparr>chunk_lines := chunk_lines c @ [l]\<rparr>"] Cons.prems(1)
    by (simp add: parse_lines_append)
qed simp

lemma parse_good_chunk:
  assumes "list_all good_line (chunk_lines c)" "write_chunk c = Inr out"
  shows "parse_patch_lines out \<lparr>patchset = qs @ [p\<lparr>chunks := cs\<rparr>], current_chunk = cc\<rparr> = Inr (at_chunk qs p cs c)"
proof -
  obtain ls where ls: "write_all write_line (chunk_lines c) = Inr ls"
    and out: "out = endl (chunk_header (src_pos c) (length (chunk_src c)) (dst_pos c) (length (chunk_dst c))) # ls"
    using assms(2) by (auto simp: write_chunk_def rbind_Inr_iff)
  have "parse_patch_lines ls (at_chunk qs p cs (PatchChunk (src_pos c) (dst_pos c)))
      = Inr (at_chunk qs p cs ((PatchChunk (src_pos c) (dst_pos c))\<lparr>chunk_lines := chunk_lines c\<rparr>))"
    using parse_good_lines[OF assms(1) ls, where qs = qs and p = p and cs = cs and c = "PatchChunk (src_pos c) (dst_pos c)"]
    by (simp add: PatchChunk_def)
  then show ?thesis
    by (simp add: out parse_patch_line_def header_not_file match_header update_last_def PatchChunk_def)
qed

lemma parse_good_chunks:
  "list_all (\<lambda>c. list_all good_line (chunk_lines c)) ks \<Longrightarrow> write_all write_chunk ks = Inr out \<Longrightarrow>
   \<exists>cc'. parse_patch_lines out \<lparr>patchset = qs @ [p\<lparr>chunks := cs\<rparr>], current_chunk = cc\<rparr>
     = Inr \<lparr>patchset = qs @ [p\<lparr>chunks := cs @ ks\<rparr>], current_chunk = cc'\<rparr>"
proof (induction ks arbitrary: cs out cc)
  case (Cons k ks)
  then obtain a b where ab: "write_chunk k = Inr a" "write_all write_chunk ks = Inr b" "out = a @ b"
    by (auto simp: rbind_Inr_iff)
  then show ?case
    using parse_good_chunk[where c = k and out = a and qs = qs and p = p and cs = cs and cc = cc]
      Cons.IH[where out = b and cs = "cs @ [k]" and cc = "Some (length qs, length cs)"] Cons.prems(1)
    by (auto simp: parse_lines_append)
qed auto

lemma parse_good_patch:
  assumes "good_patch p" "write_patch p = Inr out"
  shows "\<exists>cc'. parse_patch_lines out \<lparr>patchset = qs, current_chunk = cc\<rparr>
    = Inr \<lparr>patchset = qs @ [p], current_chunk = cc'\<rparr>"
proof -
  obtain ls where ls: "write_all write_chunk (chunks p) = Inr ls"
    and out: "out = endl (''--- '' @ patch_src p) # endl (''+++ '' @ patch_dst p) # ls"
    using assms(2) by (auto simp: write_patch_def rbind_Inr_iff)
  let ?p = "Patch\<lparr>patch_src := patch_src p, patch_dst := patch_dst p\<rparr>"
  have "match_rest ''--- '' (endl (''--- '' @ patch_src p)) = Some (patch_src p)"
    "match_rest ''+++ '' (endl (''+++ '' @ patch_dst p)) = Some (patch_dst p)"
    using assms(1) by (intro match_rest_ln; simp add: good_patch_def)+
  moreover have "match_rest ''--- '' (endl (''+++ '' @ patch_dst p)) = None"
    by (intro not_prefix) (simp_all add: starts_with_def)
  ultimately have "parse_patch_lines out \<lparr>patchset = qs, current_chunk = cc\<rparr>
      = parse_patch_lines ls \<lparr>patchset = qs @ [?p\<lparr>chunks := []\<rparr>], current_chunk = cc\<rparr>"
    by (simp add: out parse_patch_line_def update_last_def Patch_def del: append_Cons)
  moreover have "?p\<lparr>chunks := chunks p\<rparr> = p" by (simp add: Patch_def)
  ultimately show ?thesis
    using parse_good_chunks[where ks = "chunks p" and out = ls and qs = qs and p = ?p and cs = "[]" and cc = cc] assms(1) ls by (auto simp: good_patch_def)
qed

lemma parse_good_patches:
  "list_all good_patch ps \<Longrightarrow> write_all write_patch ps = Inr out \<Longrightarrow>
   \<exists>cc'. parse_patch_lines out \<lparr>patchset = qs, current_chunk = cc\<rparr> = Inr \<lparr>patchset = qs @ ps, current_chunk = cc'\<rparr>"
proof (induction ps arbitrary: qs out cc)
  case (Cons p ps)
  then obtain a b where ab: "write_patch p = Inr a" "write_all write_patch ps = Inr b" "out = a @ b"
    by (auto simp: rbind_Inr_iff)
  obtain cc1 where "parse_patch_lines a \<lparr>patchset = qs, current_chunk = cc\<rparr> = Inr \<lparr>patchset = qs @ [p], current_chunk = cc1\<rparr>"
    using parse_good_patch[where p = p and out = a and qs = qs and cc = cc] ab Cons.prems(1) by auto
  then show ?case using Cons.IH[where out = b and qs = "qs @ [p]" and cc = cc1] ab Cons.prems(1) by (auto simp: parse_lines_append)
qed auto

lemma write_all_total: "(\<And>x. x \<in> set xs \<Longrightarrow> \<exists>s. f x = Inr s) \<Longrightarrow> \<exists>s. write_all f xs = Inr s"
proof (induction xs)
  case (Cons x xs)
  then obtain s t where "f x = Inr s" "write_all f xs = Inr t" by fastforce
  then show ?case by simp
qed simp

lemma write_good_patch: "good_patch p \<Longrightarrow> \<exists>out. write_patch p = Inr out"
proof -
  assume g: "good_patch p"
  have "\<exists>s. write_chunk c = Inr s" if "c \<in> set (chunks p)" for c
  proof -
    have "\<exists>s. write_line l = Inr s" if "l \<in> set (chunk_lines c)" for l
      using that g \<open>c \<in> set (chunks p)\<close>
      by (cases "line_type l") (auto simp: write_line_def good_patch_def good_line_def list_all_iff)
    then obtain s where "write_all write_line (chunk_lines c) = Inr s" using write_all_total by metis
    then show ?thesis by (simp add: write_chunk_def)
  qed
  then obtain s where "write_all write_chunk (chunks p) = Inr s" using write_all_total by metis
  then show ?thesis by (simp add: write_patch_def)
qed

lemma patchset_roundtrip:
  assumes "list_all good_patch ps"
  shows "\<exists>out. write_all write_patch ps = Inr out \<and> parse_patchset out = Inr ps"
proof -
  obtain out where out: "write_all write_patch ps = Inr out"
    using write_all_total[of ps write_patch] write_good_patch assms by (auto simp: list_all_iff)
  then show ?thesis
    using parse_good_patches[OF assms out, where qs = "[]" and cc = None] by (auto simp: parse_patchset_def)
qed

end
