(* ===== verification/CheckIndent.thy ===== *)
theory CheckIndent
  imports PatchProofs
begin

text \<open>
  What the pass over trailing blanks of \<open>utils/check-style.py\<close> changes, and the functions
  \<open>indent\<close>, \<open>indent_files\<close>, \<open>run_as_hg_hook\<close> and \<open>run_as_main\<close>. Files are texts by name;
  \<open>filecmp.cmp\<close> is taken to compare contents.
\<close>

section \<open>Trailing blanks\<close>

text \<open>A line as it was, or a line of the destination with one blank more.\<close>

definition blank_added :: "patch_line \<Rightarrow> patch_line \<Rightarrow> bool" where
  "blank_added l l' \<longleftrightarrow> l' = l
     \<or> (is_dst l \<and> (\<exists>b \<in> {CHR '' '', CHR 0x09}. l' = append_to_line [b] l))"

lemma blank_added_refl [simp]: "blank_added l l"
  by (simp add: blank_added_def)

lemma match_blank: "match_trailing_blank s = Some (g, b) \<Longrightarrow> \<exists>c \<in> {CHR '' '', CHR 0x09}. b = [c] \<and> s = g @ [c]"
  by (auto simp: match_trailing_blank_def split: if_splits)
     (metis append_butlast_last_id)+

text \<open>The places in \<open>ds\<close> are lines of the destination, each once.\<close>

lemma blank_loop_changes:
  "blank_loop ss ds ls = (ls', ok) \<Longrightarrow> distinct ds \<Longrightarrow> (\<forall>d \<in> set ds. d < length ls \<and> is_dst (ls ! d)) \<Longrightarrow>
   length ls' = length ls \<and> (\<forall>j < length ls. blank_added (ls ! j) (ls' ! j) \<and> (j \<notin> set ds \<longrightarrow> ls' ! j = ls ! j))"
proof (induction ss ds ls arbitrary: ls' ok rule: blank_loop.induct)
  case (3 s ss d ds ls)
  show ?case
  proof (cases "match_trailing_blank (line_text (ls ! s))")
    case None
    then show ?thesis using 3(1)[OF None] 3(3-5) by auto
  next
    case (Some gb)
    obtain g b where gb: "gb = (g, b)" by fastforce
    obtain c where c: "c \<in> {CHR '' '', CHR 0x09}" "b = [c]" using match_blank[of _ g b] Some gb by blast
    define ls1 where "ls1 = (if g = line_text (ls ! d) then ls[d := append_to_line b (ls ! d)] else ls)"
    have run: "blank_loop ss ds ls1 = (ls', ok)" using 3(3) Some gb by (simp add: ls1_def)
    have dn: "d \<notin> set ds" "distinct ds" "d < length ls" "is_dst (ls ! d)" using 3(4,5) by auto
    have l1: "length ls1 = length ls" by (simp add: ls1_def)
    have same: "ls1 ! j = ls ! j" if "j \<noteq> d" for j using that by (simp add: ls1_def)
    have "\<forall>e \<in> set ds. e < length ls1 \<and> is_dst (ls1 ! e)" using 3(5) dn(1) l1 same by (metis list.set_intros(2))
    then have ih: "length ls' = length ls1" "\<forall>j < length ls1. blank_added (ls1 ! j) (ls' ! j) \<and> (j \<notin> set ds \<longrightarrow> ls' ! j = ls1 ! j)"
      using 3(2)[OF Some gb[symmetric], of ls' ok] run dn(2) by (simp_all add: ls1_def)
    have "blank_added (ls ! d) (ls1 ! d)"
      using c dn(3,4) by (auto simp: ls1_def blank_added_def)
    then have d: "blank_added (ls ! d) (ls' ! d)" using ih(2) dn(1,3) l1 by simp
    have "blank_added (ls ! j) (ls' ! j) \<and> (j \<notin> set (d # ds) \<longrightarrow> ls' ! j = ls ! j)" if "j < length ls" for j
      using ih(2) l1 same d that by (cases "j = d") auto
    then show ?thesis using ih(1) l1 by simp
  qed
qed auto

lemma chunk_dst_ok:
  "distinct (chunk_dst c)" "\<forall>d \<in> set (chunk_dst c). d < length (chunk_lines c) \<and> is_dst (chunk_lines c ! d)"
  by (auto simp: chunk_dst_def)

definition chunk_blanks :: "patch_chunk \<Rightarrow> patch_chunk \<Rightarrow> bool" where
  "chunk_blanks c c' \<longleftrightarrow> src_pos c' = src_pos c \<and> dst_pos c' = dst_pos c
     \<and> list_all2 blank_added (chunk_lines c) (chunk_lines c')"

definition patch_blanks :: "patch \<Rightarrow> patch \<Rightarrow> bool" where
  "patch_blanks p p' \<longleftrightarrow> patch_src p' = patch_src p \<and> patch_dst p' = patch_dst p
     \<and> list_all2 chunk_blanks (chunks p) (chunks p')"

lemma blanks_refl [simp]: "chunk_blanks c c" "patch_blanks p p"
  by (simp_all add: chunk_blanks_def patch_blanks_def list_all2_same)

lemma blank_loop_chunk:
  "blank_loop (chunk_src c) (chunk_dst c) (chunk_lines c) = (ls, ok) \<Longrightarrow> chunk_blanks c (c\<lparr>chunk_lines := ls\<rparr>)"
  using blank_loop_changes[OF _ chunk_dst_ok] by (fastforce simp: chunk_blanks_def list_all2_conv_all_nth)

lemma blank_chunks_changes: "blank_chunks cs = (cs', ok) \<Longrightarrow> list_all2 chunk_blanks cs cs'"
proof (induction cs arbitrary: cs' ok)
  case (Cons c cs)
  obtain ls k where l: "blank_loop (chunk_src c) (chunk_dst c) (chunk_lines c) = (ls, k)" by fastforce
  note b = blank_loop_chunk[OF l]
  show ?case
  proof (cases k)
    case True
    obtain cs1 k1 where r: "blank_chunks cs = (cs1, k1)" by fastforce
    then show ?thesis using Cons.IH[OF r] Cons.prems b True l by auto
  next
    case False
    then show ?thesis using Cons.prems b l by (auto simp: list_all2_same)
  qed
qed simp

lemma blank_patches_changes: "list_all2 patch_blanks ps (blank_patches ps)"
proof (induction ps)
  case (Cons p ps)
  obtain cs ok where c: "blank_chunks (chunks p) = (cs, ok)" by fastforce
  then have "patch_blanks p (p\<lparr>chunks := cs\<rparr>)" using blank_chunks_changes[OF c] by (simp add: patch_blanks_def)
  then show ?case using Cons c by (simp add: list_all2_same)
qed simp

section \<open>indent\<close>

text \<open>
  The programs that are called: uncrustify on a configuration and a text (\<open>None\<close> where it is
  not installed), the unified diff of a file's old and new text, and patch on a diff and a text.
\<close>

record tools =
  uncrustify :: "string \<Rightarrow> string \<Rightarrow> string option"
  unified_diff :: "string \<Rightarrow> string \<Rightarrow> string \<Rightarrow> string list"
  patch_tool :: "string list \<Rightarrow> string \<Rightarrow> string"

text \<open>
  \<open>diff\<close> is a generator: where \<open>debug\<close> is set, writing it into a file uses it up, so that nothing
  is left for the rest of the function.
\<close>

definition indent :: "tools \<Rightarrow> (string \<Rightarrow> string) \<Rightarrow> bool \<Rightarrow> int \<Rightarrow> string \<Rightarrow> string res" where
  "indent t files debug level src_file =
     (case uncrustify t (uncrustify_config_file level) (files src_file) of
        None \<Rightarrow> Inl PyException
      | Some output \<Rightarrow>
          let diff = unified_diff t src_file (files src_file) output;
              left = (if debug then [] else diff)
          in rbind (if level < 3
                    then rbind (remove_trailing_whitespace_changes left) (\<lambda>ps.
                      case ps of [] \<Rightarrow> Inr [] | p # _ \<Rightarrow> write_patch p)
                    else Inr left) (\<lambda>final_diff.
             Inr (patch_tool t final_diff (files src_file))))"

fun indent_all :: "tools \<Rightarrow> (string \<Rightarrow> string) \<Rightarrow> bool \<Rightarrow> int \<Rightarrow> string list \<Rightarrow> (string \<times> string) list res" where
  "indent_all t files debug level [] = Inr []"
| "indent_all t files debug level (f # fs) =
     rbind (indent t files debug level f) (\<lambda>dst. rbind (indent_all t files debug level fs) (\<lambda>out.
       Inr ((f, dst) # out)))"

text \<open>The value, the files afterwards and what is printed.\<close>

definition indent_files ::
  "tools \<Rightarrow> (string \<Rightarrow> string) \<Rightarrow> string list \<Rightarrow> bool \<Rightarrow> bool \<Rightarrow> int \<Rightarrow> bool
    \<Rightarrow> (bool \<times> (string \<Rightarrow> string) \<times> string list) res" where
  "indent_files t files names diff debug level inplace =
     rbind (indent_all t files debug level names) (\<lambda>output.
       if inplace then Inr (True, foldl (\<lambda>fs (src, dst). fs(src := dst)) files output, [])
       else let failed = filter (\<lambda>(src, dst). files src \<noteq> dst) output
            in if failed = [] then Inr (True, files, [])
               else Inr (False, files,
                 if \<not> diff then (''Found '' @ show_nat (length failed) @ '' badly indented files:'')
                     # map (\<lambda>(src, dst). ''  '' @ src) failed
                 else concat (map (\<lambda>(src, dst). unified_diff t src (files src) dst) failed)))"

text \<open>The hook returns whether the commit is to be refused.\<close>

definition run_as_hg_hook :: "tools \<Rightarrow> (string \<Rightarrow> string) \<Rightarrow> string list \<Rightarrow> bool res" where
  "run_as_hg_hook t files modified =
     rbind (indent_files t files modified False False 0 False) (\<lambda>(ok, _). Inr (\<not> ok))"

definition hg_modified_files :: "string list \<Rightarrow> string list" where
  "hg_modified_files st_lines = map strip st_lines"

record style_options =
  so_debug :: bool
  so_level :: int
  so_hg_hook :: bool
  so_hg :: bool
  so_file :: string
  so_diff :: bool
  so_in_place :: bool

definition style_defaults :: style_options where
  "style_defaults = \<lparr>so_debug = False, so_level = 0, so_hg_hook = False, so_hg = False, so_file = '''',
     so_diff = False, so_in_place = False\<rparr>"

text \<open>The exit status, the files afterwards and what is printed; \<open>is_file\<close> says that a file exists.\<close>

definition run_as_main ::
  "tools \<Rightarrow> (string \<Rightarrow> bool) \<Rightarrow> string list \<Rightarrow> (string \<Rightarrow> string) \<Rightarrow> style_options
    \<Rightarrow> (int \<times> (string \<Rightarrow> string) \<times> string list) res" where
  "run_as_main t is_file st_lines files opts =
     (if so_hg_hook opts then
        rbind (indent_files t files (hg_modified_files st_lines) False (so_debug opts) (so_level opts) False) (\<lambda>(ok, fs, out).
          Inr (if \<not> ok then 1 else 0, fs, out))
      else if so_hg opts then
        rbind (indent_files t files (hg_modified_files st_lines) (so_diff opts) (so_debug opts) (so_level opts) (so_in_place opts))
          (\<lambda>(ok, fs, out). Inr (0, fs, out))
      else if so_file opts \<noteq> '''' then
        (if \<not> is_file (so_file opts) then Inr (1, files, [''file '' @ so_file opts @ '' does not exist''])
         else rbind (indent_files t files [so_file opts] (so_diff opts) (so_debug opts) (so_level opts) (so_in_place opts))
                (\<lambda>(ok, fs, out). Inr (0, fs, out)))
      else Inr (0, files, []))"

section \<open>What indenting does to the files\<close>

lemma indent_all_names: "indent_all t files debug level names = Inr out \<Longrightarrow>
  map fst out = names \<and> (\<forall>(f, dst) \<in> set out. indent t files debug level f = Inr dst)"
  by (induction names arbitrary: out) (auto simp: rbind_Inr_iff)

lemma foldl_update: "(\<forall>(f, d) \<in> set out. g f = d) \<Longrightarrow>
  foldl (\<lambda>fs (src, dst). fs(src := dst)) files out = (\<lambda>f. if f \<in> fst ` set out then g f else files f)"
proof (induction out arbitrary: files)
  case (Cons x out)
  then show ?case by (auto simp: fun_eq_iff split: prod.splits)
qed simp

lemma indent_files_result:
  assumes "indent_files t files names diff debug level inplace = Inr (ok, files', out)"
  shows "if inplace then ok \<and> (\<forall>f. if f \<in> set names then indent t files debug level f = Inr (files' f) else files' f = files f)
     else files' = files \<and> (ok \<longleftrightarrow> (\<forall>f \<in> set names. indent t files debug level f = Inr (files f)))"
proof -
  obtain o' where o': "indent_all t files debug level names = Inr o'" using assms by (auto simp: indent_files_def rbind_Inr_iff)
  have n: "map fst o' = names" and i: "\<forall>(f, dst) \<in> set o'. indent t files debug level f = Inr dst"
    using indent_all_names[OF o'] by auto
  have nm: "set names = fst ` set o'" using n by (metis set_map)
  define g where "g f = (case indent t files debug level f of Inr d \<Rightarrow> d | Inl _ \<Rightarrow> files f)" for f
  have g: "\<forall>(f, d) \<in> set o'. g f = d" using i by (auto simp: g_def)
  show ?thesis
  proof (cases inplace)
    case True
    then have "ok" "files' = foldl (\<lambda>fs (src, dst). fs(src := dst)) files o'"
      using assms o' by (simp_all add: indent_files_def)
    then show ?thesis using True foldl_update[OF g, of files] i g nm by (auto simp: g_def)
  next
    case False
    then have "files' = files" "ok \<longleftrightarrow> filter (\<lambda>(src, dst). files src \<noteq> dst) o' = []"
      using assms o' by (auto simp: indent_files_def Let_def split: if_splits)
    then show ?thesis using False i nm by (fastforce simp: filter_empty_conv)
  qed
qed

text \<open>With \<open>debug\<close> the difference is used up: where patch leaves a text alone that has an empty diff, so does \<open>indent\<close>.\<close>

lemma indent_debug:
  assumes "\<And>s. patch_tool t [] s = s" "indent t files True level f = Inr dst"
  shows "dst = files f"
  using assms by (auto simp: indent_def Let_def rbind_Inr_iff remove_trailing_whitespace_changes_def
      parse_patchset_def split: option.splits if_splits)

end
