(* ===== verification/Shlex.thy ===== *)
theory Shlex
  imports PyStr
begin

text \<open>
  \<open>shlex.split\<close> of the standard library, for its default arguments: the states of its lexer, with
  quotes and escapes. It models no file of the repository; \<open>waf-tools/shellcmd.py\<close> and \<open>wutils.py\<close> use it.
\<close>

datatype lex_state = Blank | Word | Quote char | Escape lex_state

definition lex_space :: "char \<Rightarrow> bool" where
  "lex_space c \<longleftrightarrow> c \<in> {CHR '' '', CHR 0x09, CHR 0x0D, CHR 0x0A}"

definition lex_quote :: "char \<Rightarrow> bool" where
  "lex_quote c \<longleftrightarrow> c = CHR 0x27 \<or> c = CHR 0x22"

definition backslash :: char where
  "backslash = CHR 0x5C"

text \<open>\<open>token\<close> and \<open>quoted\<close> are those of \<open>read_token\<close>; a token is given out at its end.\<close>

fun lex :: "lex_state \<Rightarrow> string \<Rightarrow> bool \<Rightarrow> string \<Rightarrow> string list res" where
  "lex Blank token quoted [] = Inr (if token \<noteq> [] \<or> quoted then [token] else [])"
| "lex Word token quoted [] = Inr (if token \<noteq> [] \<or> quoted then [token] else [])"
| "lex (Quote q) token quoted [] = Inl ValueError"
| "lex (Escape s) token quoted [] = Inl ValueError"
| "lex Blank token quoted (c # cs) =
     (if lex_space c then
        (if token \<noteq> [] \<or> quoted then rbind (lex Blank '''' False cs) (\<lambda>ts. Inr (token # ts))
         else lex Blank token quoted cs)
      else if c = backslash then lex (Escape Word) token quoted cs
      else if lex_quote c then lex (Quote c) token quoted cs
      else lex Word [c] quoted cs)"
| "lex Word token quoted (c # cs) =
     (if lex_space c then
        (if token \<noteq> [] \<or> quoted then rbind (lex Blank '''' False cs) (\<lambda>ts. Inr (token # ts))
         else lex Blank token quoted cs)
      else if lex_quote c then lex (Quote c) token quoted cs
      else if c = backslash then lex (Escape Word) token quoted cs
      else lex Word (token @ [c]) quoted cs)"
| "lex (Quote q) token quoted (c # cs) =
     (if c = q then lex Word token True cs
      else if c = backslash \<and> q = CHR 0x22 then lex (Escape (Quote q)) token True cs
      else lex (Quote q) (token @ [c]) True cs)"
| "lex (Escape s) token quoted (c # cs) =
     lex s ((case s of Quote q \<Rightarrow> if c \<noteq> backslash \<and> c \<noteq> q then token @ [backslash] else token
             | _ \<Rightarrow> token) @ [c]) quoted cs"

definition shlex_split :: "string \<Rightarrow> string list res" where
  "shlex_split s = lex Blank '''' False s"

definition bare_char :: "char \<Rightarrow> bool" where
  "bare_char c \<longleftrightarrow> \<not> lex_space c \<and> \<not> lex_quote c \<and> c \<noteq> backslash"

lemma lex_word_append:
  "list_all bare_char w \<Longrightarrow> lex Word token quoted (w @ s) = lex Word (token @ w) quoted s"
  by (induction w arbitrary: token) (auto simp: bare_char_def)

lemma lex_bare_word:
  "list_all bare_char w \<Longrightarrow> w \<noteq> [] \<Longrightarrow> lex Blank '''' False (w @ s) = lex Word w False s"
  using lex_word_append[of "tl w" "[hd w]" False s] by (cases w) (auto simp: bare_char_def)

lemma shlex_split_words:
  "list_all (\<lambda>w. w \<noteq> [] \<and> list_all bare_char w) ws \<Longrightarrow> shlex_split (join_with '' '' ws) = Inr ws"
  unfolding shlex_split_def
proof (induction "'' ''" ws rule: join_with.induct)
  case (2 s)
  then show ?case using lex_bare_word[of s "[]"] by simp
next
  case (3 s t ss)
  then show ?case using lex_bare_word[of s "CHR '' '' # join_with '' '' (t # ss)"] by (simp add: lex_space_def)
qed simp

end
