(* ===== verification/ShellCmd.thy ===== *)
theory ShellCmd
  imports Shlex
begin

text \<open>
  \<open>waf-tools/shellcmd.py\<close>: the small shell of the waf tools. \<open>Pipeline.parse\<close> turns the tokens
  of a command line into a list of nodes, \<open>Pipeline.run\<close> starts the processes and waits for
  them.
  What the operating system does (opening files, starting processes, exit codes) is a record;
  \<open>run\<close> leaves a trace of the events in the order they happen.
\<close>

section \<open>Nodes\<close>

datatype redirect = PIPE | Stdout | ToFile string

record command =
  argv :: "string list"
  stdin :: "string option"
  stdout :: "redirect option"
  stderr :: "redirect option"
  env_vars :: "(string, string) dict"

text \<open>\<open>Command(name)\<close>; its \<open>name\<close> stays the first element of \<open>argv\<close>, no \<open>env_vars\<close> is the empty dictionary.\<close>

definition new_command :: "string \<Rightarrow> command" where
  "new_command nm = \<lparr>argv = [nm], stdin = None, stdout = None, stderr = None, env_vars = []\<rparr>"

datatype node = Command command | Chdir "string option" | Pipe | And | Or

fun dir_str :: "string option \<Rightarrow> string" where
  "dir_str None = ''None''"
| "dir_str (Some d) = d"

definition get_abbreviated_command :: "node list \<Rightarrow> string" where
  "get_abbreviated_command pipeline = join_with '' ''
     (concat (map (\<lambda>n. case n of
         Command c \<Rightarrow> [hd (argv c)]
       | Chdir d \<Rightarrow> [''cd '' @ dir_str d]
       | Pipe \<Rightarrow> [''|'']
       | And \<Rightarrow> [''&&'']
       | Or \<Rightarrow> []) pipeline))"

section \<open>The parser\<close>

text \<open>The regular expression of a variable: a name, an equals sign and a value without blanks.\<close>

definition name_char :: "char \<Rightarrow> bool" where
  "name_char c \<longleftrightarrow> is_digit c \<or> c = CHR ''_'' \<or> lower_char c \<noteq> c \<or> upper_char c \<noteq> c"

definition env_value :: "string \<Rightarrow> string option" where
  "env_value v =
     (let v' = (if v \<noteq> [] \<and> last v = CHR 0x0A then butlast v else v)
      in if v' \<noteq> [] \<and> list_all (\<lambda>c. \<not> is_space c) v' then Some v' else None)"

definition env_var_match :: "string \<Rightarrow> (string \<times> string) option" where
  "env_var_match token =
     (case split_once (CHR ''='') token of
        [nm, v] \<Rightarrow> if nm \<noteq> [] \<and> list_all name_char nm then map_option (\<lambda>v'. (nm, v')) (env_value v) else None
      | _ \<Rightarrow> None)"

datatype pstate = BEGIN | COMMAND | CHDIR | STDERR | STDOUT | STDIN

record parser =
  pst :: pstate
  current_command :: "node option"
  pipeline :: "node list"
  pending_env :: "(string, string) dict"

definition start_parser :: parser where
  "start_parser = \<lparr>pst = BEGIN, current_command = None, pipeline = [], pending_env = []\<rparr>"

definition commit_command :: "parser \<Rightarrow> parser res" where
  "commit_command p =
     (case current_command p of
        None \<Rightarrow> Inl AssertionError
      | Some c \<Rightarrow> Inr (p\<lparr>pipeline := pipeline p @ [c], current_command := None\<rparr>))"

text \<open>\<open>self._commit_command()\<close>, the operator, and back to \<open>BEGIN\<close>.\<close>

definition commit_op :: "node \<Rightarrow> parser \<Rightarrow> parser res" where
  "commit_op opn p = rbind (commit_command p) (\<lambda>q. Inr (q\<lparr>pipeline := pipeline q @ [opn], pst := BEGIN\<rparr>))"

definition py_assert :: "bool \<Rightarrow> 'a \<Rightarrow> 'a res" where
  "py_assert b x = (if b then Inr x else Inl AssertionError)"

definition begin_token :: "string \<Rightarrow> parser \<Rightarrow> parser res" where
  "begin_token token p =
     (case env_var_match token of
        Some (k, v) \<Rightarrow> Inr (p\<lparr>pending_env := d_set k v (pending_env p)\<rparr>)
      | None \<Rightarrow> rbind (py_assert (current_command p = None) ()) (\<lambda>_.
          if token = ''cd'' then
            py_assert (pending_env p = []) (p\<lparr>current_command := Some (Chdir None), pst := CHDIR\<rparr>)
          else Inr (p\<lparr>current_command := Some (Command ((new_command token)\<lparr>env_vars := pending_env p\<rparr>)),
                      pending_env := [], pst := COMMAND\<rparr>)))"

definition command_token :: "string \<Rightarrow> command \<Rightarrow> parser \<Rightarrow> parser res" where
  "command_token token c p =
     (let put = (\<lambda>c'. p\<lparr>current_command := Some (Command c')\<rparr>)
      in if token = ''>'' then Inr (p\<lparr>pst := STDOUT\<rparr>)
         else if token = ''2>'' then Inr (p\<lparr>pst := STDERR\<rparr>)
         else if token = ''2>&1'' then py_assert (stderr c = None) (put (c\<lparr>stderr := Some Stdout\<rparr>))
         else if token = ''<'' then Inr (p\<lparr>pst := STDIN\<rparr>)
         else if token = ''|'' then
           rbind (py_assert (stdout c = None) (put (c\<lparr>stdout := Some PIPE\<rparr>))) (commit_op Pipe)
         else if token = ''&&'' then commit_op And p
         else if token = ''||'' then commit_op Or p
         else Inr (put (c\<lparr>argv := argv c @ [token]\<rparr>)))"

definition chdir_token :: "string \<Rightarrow> string option \<Rightarrow> parser \<Rightarrow> parser res" where
  "chdir_token token d p =
     (if token = ''&&'' then commit_op And p
      else py_assert (d = None) (p\<lparr>current_command := Some (Chdir (Some token))\<rparr>))"

text \<open>The file name of a redirection.\<close>

definition file_token :: "string \<Rightarrow> command \<Rightarrow> parser \<Rightarrow> parser res" where
  "file_token token c p =
     (let put = (\<lambda>c'. p\<lparr>current_command := Some (Command c'), pst := COMMAND\<rparr>)
      in case pst p of
           STDOUT \<Rightarrow> py_assert (stdout c = None) (put (c\<lparr>stdout := Some (ToFile token)\<rparr>))
         | STDERR \<Rightarrow> py_assert (stderr c = None) (put (c\<lparr>stderr := Some (ToFile token)\<rparr>))
         | _ \<Rightarrow> py_assert (stdin c = None) (put (c\<lparr>stdin := Some token\<rparr>)))"

text \<open>
  One turn of the loop. In the states other than \<open>BEGIN\<close> there is a current node of the right
  kind; the remaining combinations raise as the missing attribute does.
\<close>

definition parse_step :: "string \<Rightarrow> parser \<Rightarrow> parser res" where
  "parse_step token p =
     (case pst p of
        BEGIN \<Rightarrow> begin_token token p
      | COMMAND \<Rightarrow> (case current_command p of Some (Command c) \<Rightarrow> command_token token c p | _ \<Rightarrow> Inl AttributeError)
      | CHDIR \<Rightarrow> (case current_command p of Some (Chdir d) \<Rightarrow> chdir_token token d p | _ \<Rightarrow> Inl AttributeError)
      | _ \<Rightarrow> (case current_command p of Some (Command c) \<Rightarrow> file_token token c p | _ \<Rightarrow> Inl AttributeError))"

fun parse_loop :: "string list \<Rightarrow> parser \<Rightarrow> parser res" where
  "parse_loop [] p = Inr p"
| "parse_loop (token # tokens) p = rbind (parse_step token p) (parse_loop tokens)"

definition parse_tokens :: "string list \<Rightarrow> node list res" where
  "parse_tokens tokens =
     rbind (parse_loop tokens start_parser) (\<lambda>p. rbind (commit_command p) (\<lambda>q. Inr (pipeline q)))"

definition parse_command :: "string \<Rightarrow> node list res" where
  "parse_command command_line = rbind (shlex_split command_line) parse_tokens"

end
