(* ===== verification/ShellRun.thy ===== *)
theory ShellRun
  imports ShellCmd
begin

text \<open>
  \<open>Pipeline.run\<close> and \<open>_exec_piped_commands\<close> of \<open>waf-tools/shellcmd.py\<close>. The result of a run
  comes with the machine it leaves, so that what was opened and started before an exception
  is visible too.
\<close>

section \<open>The machine\<close>

datatype handle = DevNull | Handle nat string

datatype stdin_from = NoStdin | FromProcess nat | FromFile handle

datatype out_to = NoOut | ToPipe | ToStdout | ToHandle handle

datatype event =
    Opened handle
  | Started nat "string list" stdin_from out_to out_to "(string, string) dict" "string option"
  | Waited nat
  | Closed handle

text \<open>
  \<open>can_open\<close>: the file can be opened; \<open>can_start\<close>: the program is there; \<open>exit_code\<close>: what the
  n-th started process returns.
\<close>

record os_env =
  can_open :: "string \<Rightarrow> bool"
  can_start :: "string list \<Rightarrow> bool"
  exit_code :: "nat \<Rightarrow> int"

record machine =
  trace :: "event list"
  opened :: nat
  started :: nat
  files_to_close :: "handle list"
  piped_commands :: "nat list"
  piped_display :: "string list"
  in_pipe :: bool
  run_cwd :: string
  printed :: "string list"

definition start_machine :: machine where
  "start_machine = \<lparr>trace = [], opened = 0, started = 0, files_to_close = [], piped_commands = [],
     piped_display = [], in_pipe = False, run_cwd = ''.'', printed = []\<rparr>"

definition log_event :: "event \<Rightarrow> machine \<Rightarrow> machine" where
  "log_event e m = m\<lparr>trace := trace m @ [e]\<rparr>"

text \<open>\<open>open(filename)\<close>, put on the list of files to close; \<open>_open_out_file\<close> knows the null device.\<close>

definition open_file :: "os_env \<Rightarrow> string \<Rightarrow> machine \<Rightarrow> handle res \<times> machine" where
  "open_file os filename m =
     (if can_open os filename then
        let h = Handle (opened m) filename
        in (Inr h, (log_event (Opened h) m)\<lparr>opened := opened m + 1, files_to_close := files_to_close m @ [h]\<rparr>)
      else (Inl PyException, m))"

definition open_out_file :: "os_env \<Rightarrow> string \<Rightarrow> machine \<Rightarrow> handle res \<times> machine" where
  "open_out_file os filename m =
     (if filename = ''NUL:'' \<or> filename = ''/dev/null''
      then (Inr DevNull, m\<lparr>files_to_close := files_to_close m @ [DevNull]\<rparr>)
      else open_file os filename m)"

definition show_text :: "bool \<Rightarrow> string \<Rightarrow> machine \<Rightarrow> machine" where
  "show_text verbose s m = (if verbose then m\<lparr>piped_display := piped_display m @ [s]\<rparr> else m)"

text \<open>\<open>for f in files_to_close: if f is not dev_null: f.close()\<close>.\<close>

definition close_files :: "machine \<Rightarrow> machine" where
  "close_files m = m\<lparr>trace := trace m @ map Closed (filter (\<lambda>f. f \<noteq> DevNull) (files_to_close m)),
                     files_to_close := []\<rparr>"

section \<open>Waiting for the processes of a pipe\<close>

definition exec_value :: "int list \<Rightarrow> int" where
  "exec_value retvals = (if \<exists>r \<in> set retvals. py_true r then last retvals else 0)"

text \<open>The search among the return codes decides nothing: the result is the last one in any case.\<close>

lemma exec_value_last: "exec_value (xs @ [x]) = x"
  by (auto simp: exec_value_def py_true_def)

definition exec_piped_commands :: "os_env \<Rightarrow> machine \<Rightarrow> int \<times> machine" where
  "exec_piped_commands os m =
     (exec_value (map (exit_code os) (piped_commands m)),
      m\<lparr>trace := trace m @ map Waited (piped_commands m)\<rparr>)"

section \<open>Starting a command\<close>

definition command_text :: "(string list \<Rightarrow> string list) \<Rightarrow> command \<Rightarrow> string" where
  "command_text ord cmd =
     (if env_vars cmd \<noteq> [] then
        join_with '' '' (map (\<lambda>k. k @ ''='' @ (case d_get (env_vars cmd) k of None \<Rightarrow> '''' | Some v \<Rightarrow> v))
                        (ord (d_keys (env_vars cmd))))
        @ '' '' @ join_with '' '' (argv cmd)
      else join_with '' '' (argv cmd))"

definition choose_stdin :: "os_env \<Rightarrow> bool \<Rightarrow> command \<Rightarrow> machine \<Rightarrow> stdin_from res \<times> machine" where
  "choose_stdin os verbose cmd m =
     (if in_pipe m then
        (case rev (piped_commands m) of [] \<Rightarrow> (Inl IndexError, m) | p # ps \<Rightarrow> (Inr (FromProcess p), m))
      else case stdin cmd of
        Some f \<Rightarrow> (case open_file os f m of
            (Inl e, m') \<Rightarrow> (Inl e, m')
          | (Inr h, m') \<Rightarrow> (Inr (FromFile h), show_text verbose (''< '' @ f) m'))
      | None \<Rightarrow> (Inr NoStdin, m))"

definition choose_out :: "os_env \<Rightarrow> bool \<Rightarrow> string \<Rightarrow> redirect option \<Rightarrow> machine \<Rightarrow> out_to res \<times> machine" where
  "choose_out os verbose label r m =
     (case r of
        None \<Rightarrow> (Inr NoOut, m)
      | Some PIPE \<Rightarrow> (Inr ToPipe, m)
      | Some Stdout \<Rightarrow> (Inr ToStdout, show_text verbose ''2>&1'' m)
      | Some (ToFile f) \<Rightarrow> (case open_out_file os f m of
            (Inl e, m') \<Rightarrow> (Inl e, m')
          | (Inr h, m') \<Rightarrow> (Inr (ToHandle h), show_text verbose (label @ f) m')))"

text \<open>Lines 232 to 290 of \<open>run\<close>: from the command to its process.\<close>

definition start_command ::
  "os_env \<Rightarrow> (string list \<Rightarrow> string list) \<Rightarrow> bool \<Rightarrow> command \<Rightarrow> machine \<Rightarrow> unit res \<times> machine" where
  "start_command os ord verbose cmd m =
     (let m0 = show_text verbose (command_text ord cmd) m
      in case choose_stdin os verbose cmd m0 of
           (Inl e, m1) \<Rightarrow> (Inl e, m1)
         | (Inr i, m1) \<Rightarrow> (case choose_out os verbose ''> '' (stdout cmd) m1 of
             (Inl e, m2) \<Rightarrow> (Inl e, m2)
           | (Inr out, m2) \<Rightarrow> (case choose_out os verbose ''2> '' (stderr cmd) m2 of
               (Inl e, m3) \<Rightarrow> (Inl e, m3)
             | (Inr err, m3) \<Rightarrow>
                 if can_start os (argv cmd) then
                   let proc_cwd = (if run_cwd m3 = ''.'' then None else Some (run_cwd m3));
                       m4 = log_event (Started (started m3) (argv cmd) i out err (env_vars cmd) proc_cwd) m3
                   in (Inr (), m4\<lparr>started := started m3 + 1, piped_commands := piped_commands m3 @ [started m3]\<rparr>)
                 else (Inl PyException, m3))))"

section \<open>run\<close>

text \<open>Waiting and closing, at the end of a pipe.\<close>

definition end_pipe :: "os_env \<Rightarrow> machine \<Rightarrow> int \<times> machine" where
  "end_pipe os m = (case exec_piped_commands os m of (v, m') \<Rightarrow> (v, close_files m'))"

definition next_pipe :: "machine \<Rightarrow> machine" where
  "next_pipe m = m\<lparr>in_pipe := False, piped_commands := [], piped_display := []\<rparr>"

text \<open>
  The two operators: \<open>stop\<close> says which return code ends the run. A verbose run prints the
  variable \<open>retval\<close>, which only the other branch of the function assigns.
\<close>

fun run_loop ::
  "os_env \<Rightarrow> (string list \<Rightarrow> string list) \<Rightarrow> bool \<Rightarrow> node list \<Rightarrow> machine \<Rightarrow> int option res \<times> machine"
where
  "run_loop os ord verbose [] m = (Inr None, m)"
| "run_loop os ord verbose (Chdir d # rest) m =
     (case rest of
        [] \<Rightarrow> (Inl IndexError, m)
      | next_op # rest' \<Rightarrow>
          if next_op \<noteq> And then (Inl AssertionError, m)
          else case d of
              None \<Rightarrow> (Inl AttributeError, m)
            | Some dir \<Rightarrow> run_loop os ord verbose rest'
                (show_text verbose (''cd '' @ dir @ '' &&'') (m\<lparr>run_cwd := path_join (run_cwd m) dir\<rparr>)))"
| "run_loop os ord verbose (Command cmd # rest) m =
     (case start_command os ord verbose cmd m of
        (Inl e, m1) \<Rightarrow> (Inl e, m1)
      | (Inr _, m1) \<Rightarrow> (case rest of
            [] \<Rightarrow> (case exec_piped_commands os m1 of (v, m2) \<Rightarrow>
                (Inr (Some v), close_files
                  (if verbose then m2\<lparr>printed := printed m2
                       @ [join_with '' '' (piped_display m2) @ '': exit code '' @ show_int v]\<rparr> else m2)))
          | next_node # rest' \<Rightarrow> (case next_node of
                Pipe \<Rightarrow> run_loop os ord verbose rest'
                  (m1\<lparr>in_pipe := True, piped_display := piped_display m1 @ [''|'']\<rparr>)
              | Or \<Rightarrow> (case end_pipe os m1 of (v, m2) \<Rightarrow>
                  if verbose then (Inl UnboundLocalError, m2)
                  else if v = 0 then (Inr (Some v), m2)
                  else run_loop os ord verbose rest' (next_pipe m2))
              | And \<Rightarrow> (case end_pipe os m1 of (v, m2) \<Rightarrow>
                  if verbose then (Inl UnboundLocalError, m2)
                  else if v \<noteq> 0 then (Inr (Some v), m2)
                  else run_loop os ord verbose rest' (next_pipe m2))
              | _ \<Rightarrow> run_loop os ord verbose rest' m1)))"
| "run_loop os ord verbose (_ # rest) m = (Inl AssertionError, m)"

definition run :: "os_env \<Rightarrow> (string list \<Rightarrow> string list) \<Rightarrow> bool \<Rightarrow> node list \<Rightarrow> int option res \<times> machine" where
  "run os ord verbose nodes = run_loop os ord verbose nodes start_machine"

section \<open>Files and processes\<close>

definition opened_files :: "event list \<Rightarrow> handle list" where
  "opened_files tr = concat (map (\<lambda>e. case e of Opened h \<Rightarrow> [h] | _ \<Rightarrow> []) tr)"

definition closed_files :: "event list \<Rightarrow> handle list" where
  "closed_files tr = concat (map (\<lambda>e. case e of Closed h \<Rightarrow> [h] | _ \<Rightarrow> []) tr)"

definition started_procs :: "event list \<Rightarrow> nat list" where
  "started_procs tr = concat (map (\<lambda>e. case e of Started i _ _ _ _ _ _ \<Rightarrow> [i] | _ \<Rightarrow> []) tr)"

definition waited_procs :: "event list \<Rightarrow> nat list" where
  "waited_procs tr = concat (map (\<lambda>e. case e of Waited i \<Rightarrow> [i] | _ \<Rightarrow> []) tr)"

lemmas event_lists = opened_files_def closed_files_def started_procs_def waited_procs_def

text \<open>What every point of a run keeps: the open files are on the list, the running processes too.\<close>

definition run_inv :: "machine \<Rightarrow> bool" where
  "run_inv m \<longleftrightarrow>
     opened_files (trace m) = closed_files (trace m) @ filter (\<lambda>f. f \<noteq> DevNull) (files_to_close m)
     \<and> DevNull \<notin> set (opened_files (trace m))
     \<and> distinct (opened_files (trace m))
     \<and> (\<forall>i f. Handle i f \<in> set (opened_files (trace m)) \<longrightarrow> i < opened m)"

text \<open>Nothing is open and nothing is running.\<close>

definition all_done :: "event list \<Rightarrow> bool" where
  "all_done tr \<longleftrightarrow> opened_files tr = closed_files tr \<and> started_procs tr = waited_procs tr
     \<and> distinct (opened_files tr)"

definition procs_inv :: "machine \<Rightarrow> bool" where
  "procs_inv m \<longleftrightarrow> started_procs (trace m) = waited_procs (trace m) @ piped_commands m"

lemma event_lists_append [simp]:
  "opened_files (a @ b) = opened_files a @ opened_files b"
  "closed_files (a @ b) = closed_files a @ closed_files b"
  "started_procs (a @ b) = started_procs a @ started_procs b"
  "waited_procs (a @ b) = waited_procs a @ waited_procs b"
  by (simp_all add: event_lists)

lemma event_lists_map [simp]:
  "opened_files (map Closed hs) = []" "closed_files (map Closed hs) = hs"
  "started_procs (map Closed hs) = []" "waited_procs (map Closed hs) = []"
  "opened_files (map Waited is) = []" "closed_files (map Waited is) = []"
  "started_procs (map Waited is) = []" "waited_procs (map Waited is) = is"
  by (induction hs) (simp_all add: event_lists, (induction "is", simp_all)+)

lemma event_lists_single [simp]:
  "opened_files [] = []" "closed_files [] = []" "started_procs [] = []" "waited_procs [] = []"
  "opened_files [Opened h] = [h]" "closed_files [Opened h] = []"
  "started_procs [Opened h] = []" "waited_procs [Opened h] = []"
  "opened_files [Started i a b c d e f] = []" "closed_files [Started i a b c d e f] = []"
  "started_procs [Started i a b c d e f] = [i]" "waited_procs [Started i a b c d e f] = []"
  by (simp_all add: event_lists)

end
