(* ===== verification/ShellProofs.thy ===== *)
theory ShellProofs
  imports ShellRun
begin

text \<open>
  What \<open>run\<close> guarantees of files and processes, the shape of the pipelines that \<open>parse\<close>
  returns, the exit code of running them, and the round trip of the parser.
\<close>

section \<open>Files are closed and processes waited for\<close>

lemma run_inv_same:
  assumes "opened_files (trace m') = opened_files (trace m)" "closed_files (trace m') = closed_files (trace m)"
    "filter (\<lambda>f. f \<noteq> DevNull) (files_to_close m') = filter (\<lambda>f. f \<noteq> DevNull) (files_to_close m)"
    "opened m' = opened m" "run_inv m"
  shows "run_inv m'"
  using assms(5) unfolding run_inv_def assms(1-4) .

lemma open_file_inv:
  assumes "open_file os f m = (Inr h, m')" "run_inv m" "procs_inv m"
  shows "run_inv m' \<and> procs_inv m'"
proof -
  have h: "h = Handle (opened m) f"
    and m': "m' = (log_event (Opened h) m)\<lparr>opened := opened m + 1, files_to_close := files_to_close m @ [h]\<rparr>"
    using assms(1) by (auto simp: open_file_def Let_def split: if_splits)
  have i1: "opened_files (trace m) = closed_files (trace m) @ filter (\<lambda>f. f \<noteq> DevNull) (files_to_close m)"
    and i2: "DevNull \<notin> set (opened_files (trace m))" "distinct (opened_files (trace m))"
      "\<forall>i f. Handle i f \<in> set (opened_files (trace m)) \<longrightarrow> i < opened m"
    using assms(2) unfolding run_inv_def by blast+
  have tr: "opened_files (trace m') = opened_files (trace m) @ [h]" "closed_files (trace m') = closed_files (trace m)"
    "files_to_close m' = files_to_close m @ [h]" "opened m' = opened m + 1"
    by (simp_all add: m' log_event_def)
  have new: "h \<notin> set (opened_files (trace m))" using i2(3) h by blast
  have "distinct (opened_files (trace m'))" "DevNull \<notin> set (opened_files (trace m'))"
    "\<forall>i f. Handle i f \<in> set (opened_files (trace m')) \<longrightarrow> i < opened m'"
    unfolding tr using i2 new h by (auto simp: less_Suc_eq)
  moreover have "opened_files (trace m') = closed_files (trace m') @ filter (\<lambda>f. f \<noteq> DevNull) (files_to_close m')"
    unfolding tr i1 by (simp add: h)
  ultimately have "run_inv m'" unfolding run_inv_def by blast
  moreover have "procs_inv m'" using assms(3) by (simp add: procs_inv_def m' log_event_def)
  ultimately show ?thesis by blast
qed

lemma open_out_file_inv:
  assumes "open_out_file os f m = (Inr h, m')" "run_inv m" "procs_inv m"
  shows "run_inv m' \<and> procs_inv m'"
proof (cases "f = ''NUL:'' \<or> f = ''/dev/null''")
  case True
  then have m': "m' = m\<lparr>files_to_close := files_to_close m @ [DevNull]\<rparr>"
    using assms(1) by (simp add: open_out_file_def)
  have "run_inv m'" by (rule run_inv_same[OF _ _ _ _ assms(2)]) (simp_all add: m')
  then show ?thesis using assms(3) by (simp add: m' procs_inv_def)
next
  case False
  then show ?thesis using assms open_file_inv by (auto simp: open_out_file_def)
qed

lemma show_text_inv [simp]:
  "run_inv (show_text v s m) = run_inv m" "procs_inv (show_text v s m) = procs_inv m"
  by (simp_all add: show_text_def procs_inv_def run_inv_def)

lemma choose_stdin_inv:
  "choose_stdin os v cmd m = (Inr i, m') \<Longrightarrow> run_inv m \<Longrightarrow> procs_inv m \<Longrightarrow> run_inv m' \<and> procs_inv m'"
  by (auto simp: choose_stdin_def split: if_splits option.splits list.splits prod.splits sum.splits
      dest: open_file_inv)

lemma choose_out_inv:
  "choose_out os v l r m = (Inr i, m') \<Longrightarrow> run_inv m \<Longrightarrow> procs_inv m \<Longrightarrow> run_inv m' \<and> procs_inv m'"
  by (auto simp: choose_out_def split: option.splits redirect.splits prod.splits sum.splits
      dest: open_out_file_inv)

lemma start_command_inv:
  assumes "start_command os ord v cmd m = (Inr (), m')" "run_inv m" "procs_inv m"
  shows "run_inv m' \<and> procs_inv m'"
proof -
  obtain i m1 out m2 err m3 where
    1: "choose_stdin os v cmd (show_text v (command_text ord cmd) m) = (Inr i, m1)"
    and 2: "choose_out os v ''> '' (stdout cmd) m1 = (Inr out, m2)"
    and 3: "choose_out os v ''2> '' (stderr cmd) m2 = (Inr err, m3)"
    and m': "m' = (log_event (Started (started m3) (argv cmd) i out err (env_vars cmd)
               (if run_cwd m3 = ''.'' then None else Some (run_cwd m3))) m3)
               \<lparr>started := started m3 + 1, piped_commands := piped_commands m3 @ [started m3]\<rparr>"
    using assms(1) by (auto simp: start_command_def Let_def split: prod.splits sum.splits if_splits)
  have "run_inv m1 \<and> procs_inv m1" using choose_stdin_inv[OF 1] assms(2,3) by simp
  then have "run_inv m2 \<and> procs_inv m2" using choose_out_inv[OF 2] by simp
  then have "run_inv m3 \<and> procs_inv m3" using choose_out_inv[OF 3] by simp
  then have i: "run_inv m3" and p: "procs_inv m3" by blast+
  have "run_inv m'" by (rule run_inv_same[OF _ _ _ _ i]) (simp_all add: m' log_event_def)
  moreover have "procs_inv m'" using p by (simp add: m' procs_inv_def log_event_def)
  ultimately show ?thesis by blast
qed

text \<open>After the end of a pipe nothing is open and nothing runs.\<close>

lemma end_pipe_done:
  assumes "end_pipe os m = (v, m')" "run_inv m" "procs_inv m"
  shows "all_done (trace m') \<and> run_inv (next_pipe m') \<and> procs_inv (next_pipe m')"
proof -
  have m': "trace m' = trace m @ map Waited (piped_commands m)
      @ map Closed (filter (\<lambda>f. f \<noteq> DevNull) (files_to_close m))"
    "files_to_close m' = []" "opened m' = opened m"
    using assms(1) by (auto simp: end_pipe_def exec_piped_commands_def close_files_def)
  have "opened_files (trace m') = closed_files (trace m')" "started_procs (trace m') = waited_procs (trace m')"
    using assms(2,3) by (simp_all add: m' run_inv_def procs_inv_def)
  moreover have "opened_files (trace m') = opened_files (trace m)" by (simp add: m')
  moreover have "distinct (opened_files (trace m))" using assms(2) unfolding run_inv_def by blast
  moreover have "DevNull \<notin> set (opened_files (trace m))"
    "\<forall>i f. Handle i f \<in> set (opened_files (trace m)) \<longrightarrow> i < opened m"
    using assms(2) unfolding run_inv_def by blast+
  moreover have "trace (next_pipe m') = trace m'" "files_to_close (next_pipe m') = []"
    "opened (next_pipe m') = opened m" "piped_commands (next_pipe m') = []"
    using m'(2,3) by (simp_all add: next_pipe_def)
  ultimately show ?thesis
    unfolding all_done_def run_inv_def procs_inv_def by (metis append_Nil2 filter.simps(1))
qed

lemma final_done:
  assumes "exec_piped_commands os m = (v, m2)" "run_inv m" "procs_inv m" "trace m3 = trace m2"
    "files_to_close m3 = files_to_close m2"
  shows "all_done (trace (close_files m3))"
proof -
  have "end_pipe os m = (v, close_files m2)" using assms(1) by (simp add: end_pipe_def)
  then have "all_done (trace (close_files m2))" using end_pipe_done assms(2,3) by blast
  then show ?thesis using assms(4,5) by (simp add: close_files_def)
qed

lemma run_loop_done:
  "run_loop os ord verbose nodes m = (Inr (Some v), m') \<Longrightarrow> run_inv m \<Longrightarrow> procs_inv m \<Longrightarrow> all_done (trace m')"
proof (induction os ord verbose nodes m rule: run_loop.induct)
  case (2 os ord verbose d rest m)
  then obtain dir rest' where r: "rest = And # rest'" "d = Some dir"
    by (auto split: list.splits if_splits option.splits)
  have "run_inv (m\<lparr>run_cwd := x\<rparr>)" "procs_inv (m\<lparr>run_cwd := x\<rparr>)" for x
    by (rule run_inv_same[OF _ _ _ _ "2.prems"(2)]; simp) (use "2.prems"(3) in \<open>simp add: procs_inv_def\<close>)
  then show ?case using "2.IH"[of And rest' dir] "2.prems" r by simp
next
  case (3 os ord verbose cmd rest m)
  obtain m1 where m1: "start_command os ord verbose cmd m = (Inr (), m1)"
    using "3.prems"(1) by (cases "start_command os ord verbose cmd m") (auto split: sum.splits)
  then have inv: "run_inv m1" "procs_inv m1" using start_command_inv "3.prems" by blast+
  show ?case
  proof (cases rest)
    case Nil
    then obtain v' m2 where m2: "exec_piped_commands os m1 = (v', m2)" by fastforce
    with "3.prems"(1) m1 Nil show ?thesis
      by (auto intro!: final_done[OF m2 inv])
  next
    case (Cons nxt rest')
    obtain v' m2 where e: "end_pipe os m1 = (v', m2)" by fastforce
    note d = end_pipe_done[OF e inv]
    have pipe: "run_inv (m1\<lparr>in_pipe := True, piped_display := x\<rparr>)" "procs_inv (m1\<lparr>in_pipe := True, piped_display := x\<rparr>)" for x
      by (rule run_inv_same[OF _ _ _ _ inv(1)]; simp) (use inv(2) in \<open>simp add: procs_inv_def\<close>)
    show ?thesis
      using "3.prems"(1) m1 Cons e d pipe inv "3.IH"
      by (cases nxt) (auto split: if_splits)
  qed
qed auto

lemma run_inv_start: "run_inv start_machine" "procs_inv start_machine"
  by (simp_all add: run_inv_def procs_inv_def start_machine_def)

section \<open>What the parser returns\<close>

fun chain :: "node list \<Rightarrow> bool" where
  "chain [] = True"
| "chain (Command c # opn # rest) = (opn \<in> {Pipe, And, Or} \<and> (opn = Pipe \<longleftrightarrow> stdout c = Some PIPE) \<and> chain rest)"
| "chain (Chdir d # opn # rest) = (opn = And \<and> chain rest)"
| "chain _ = False"

text \<open>A pipeline: nodes and operators in turn, with a node at the end.\<close>

definition shaped :: "node list \<Rightarrow> bool" where
  "shaped p \<longleftrightarrow> p \<noteq> [] \<and> chain (butlast p)
     \<and> (case last p of Command c \<Rightarrow> stdout c \<noteq> Some PIPE | Chdir d \<Rightarrow> True | _ \<Rightarrow> False)"

lemma chain_append: "chain a \<Longrightarrow> chain (a @ b) = chain b"
  by (induction a rule: chain.induct) auto

definition parser_inv :: "parser \<Rightarrow> bool" where
  "parser_inv p \<longleftrightarrow> chain (pipeline p) \<and>
     (case pst p of
        BEGIN \<Rightarrow> current_command p = None
      | CHDIR \<Rightarrow> (\<exists>d. current_command p = Some (Chdir d))
      | _ \<Rightarrow> (\<exists>c. current_command p = Some (Command c) \<and> stdout c \<noteq> Some PIPE))"

lemma begin_token_inv:
  assumes "begin_token token p = Inr q" "parser_inv p" "pst p = BEGIN"
  shows "parser_inv q"
  using assms by (auto simp: begin_token_def parser_inv_def rbind_Inr_iff py_assert_def new_command_def
      split: option.splits if_splits)

lemma command_token_inv:
  assumes "command_token token c p = Inr q" "parser_inv p" "pst p = COMMAND" "current_command p = Some (Command c)"
  shows "parser_inv q"
  using assms by (auto simp: command_token_def Let_def parser_inv_def rbind_Inr_iff py_assert_def
      commit_op_def commit_command_def chain_append split: if_splits)

lemma chdir_token_inv:
  assumes "chdir_token token d p = Inr q" "parser_inv p" "pst p = CHDIR" "current_command p = Some (Chdir d)"
  shows "parser_inv q"
  using assms by (auto simp: chdir_token_def parser_inv_def rbind_Inr_iff py_assert_def
      commit_op_def commit_command_def chain_append split: if_splits)

lemma file_token_inv:
  assumes "file_token token c p = Inr q" "parser_inv p" "pst p \<in> {STDERR, STDOUT, STDIN}"
    "current_command p = Some (Command c)"
  shows "parser_inv q"
  using assms by (auto simp: file_token_def Let_def parser_inv_def py_assert_def split: if_splits)

lemma parse_step_inv: "parse_step token p = Inr q \<Longrightarrow> parser_inv p \<Longrightarrow> parser_inv q"
  by (auto simp: parse_step_def split: pstate.splits option.splits node.splits
      intro: begin_token_inv command_token_inv chdir_token_inv file_token_inv)

lemma parse_loop_inv: "parse_loop tokens p = Inr q \<Longrightarrow> parser_inv p \<Longrightarrow> parser_inv q"
  by (induction tokens arbitrary: p) (auto simp: rbind_Inr_iff dest: parse_step_inv)

lemma parse_shaped: "parse_tokens tokens = Inr p \<Longrightarrow> shaped p"
proof -
  assume "parse_tokens tokens = Inr p"
  then obtain q r where q: "parse_loop tokens start_parser = Inr q" and r: "commit_command q = Inr r" "p = pipeline r"
    by (auto simp: parse_tokens_def rbind_Inr_iff)
  have "parser_inv q" using parse_loop_inv[OF q] by (simp add: parser_inv_def start_parser_def)
  then show ?thesis using r
    by (auto simp: parser_inv_def commit_command_def shaped_def split: option.splits pstate.splits)
qed

text \<open>The parser raises \<open>AssertionError\<close> or nothing.\<close>

lemma parse_step_error: "parse_step token p = Inl e \<Longrightarrow> parser_inv p \<Longrightarrow> e = AssertionError"
  by (auto simp: parse_step_def parser_inv_def begin_token_def command_token_def chdir_token_def file_token_def
      py_assert_def commit_op_def commit_command_def Let_def
      split: pstate.splits option.splits node.splits if_splits)

lemma parse_loop_error: "parse_loop tokens p = Inl e \<Longrightarrow> parser_inv p \<Longrightarrow> e = AssertionError"
proof (induction tokens arbitrary: p)
  case (Cons t ts)
  then show ?case using parse_step_error parse_step_inv by (cases "parse_step t p") auto
qed simp

lemma parse_error: "parse_tokens tokens = Inl e \<Longrightarrow> e = AssertionError"
proof -
  assume a: "parse_tokens tokens = Inl e"
  have inv: "parser_inv start_parser" by (simp add: parser_inv_def start_parser_def)
  show ?thesis
  proof (cases "parse_loop tokens start_parser")
    case (Inl e')
    then show ?thesis using a parse_loop_error[OF Inl inv] by (simp add: parse_tokens_def)
  next
    case (Inr q)
    then show ?thesis using a by (auto simp: parse_tokens_def commit_command_def split: option.splits)
  qed
qed

section \<open>The exit code of a pipeline\<close>

text \<open>
  The reference: a pipeline is a list of pipes, each with the number of its commands and the
  operator after it; the commands are numbered in the order they are started.
\<close>

fun pipes :: "nat \<Rightarrow> node list \<Rightarrow> (nat \<times> node option) list" where
  "pipes k [] = []"
| "pipes k [Command c] = [(k + 1, None)]"
| "pipes k (Command c # Pipe # rest) = pipes (k + 1) rest"
| "pipes k (Command c # opn # rest) = (k + 1, Some opn) # pipes 0 rest"
| "pipes k (n # opn # rest) = pipes k rest"
| "pipes k [n] = []"

fun list_value :: "(nat \<Rightarrow> int) \<Rightarrow> nat \<Rightarrow> (nat \<times> node option) list \<Rightarrow> int" where
  "list_value code n [] = 0"
| "list_value code n ((k, opn) # ps) =
     (let v = code (n + k - 1)
      in if opn = None \<or> (opn = Some Or \<and> v = 0) \<or> (opn = Some And \<and> v \<noteq> 0) then v
         else list_value code (n + k) ps)"

fun runnable :: "node list \<Rightarrow> bool" where
  "runnable [Command c] = True"
| "runnable (Command c # opn # rest) = (opn \<in> {Pipe, And, Or} \<and> runnable rest)"
| "runnable (Chdir (Some d) # opn # rest) = (opn = And \<and> runnable rest)"
| "runnable _ = False"

lemma shaped_runnable:
  "shaped p \<Longrightarrow> list_all (\<lambda>n. n \<noteq> Chdir None) p \<Longrightarrow> (\<forall>d. last p \<noteq> Chdir d) \<Longrightarrow> runnable p"
  unfolding shaped_def
proof (induction p rule: runnable.induct)
  case (2 c opn rest)
  then show ?case by (cases rest) (auto split: node.splits)
next
  case (3 d opn rest)
  then show ?case by (cases rest) (auto split: node.splits)
qed (auto split: node.splits if_splits)

definition everything_works :: "os_env \<Rightarrow> bool" where
  "everything_works os \<longleftrightarrow> can_open os = (\<lambda>_. True) \<and> can_start os = (\<lambda>_. True)"

definition same_procs :: "machine \<Rightarrow> machine \<Rightarrow> bool" where
  "same_procs m m' \<longleftrightarrow> started m' = started m \<and> piped_commands m' = piped_commands m \<and> in_pipe m' = in_pipe m"

lemma same_procs_trans: "same_procs a b \<Longrightarrow> same_procs b c \<Longrightarrow> same_procs a c"
  by (simp add: same_procs_def)

lemma same_procs_show [simp]: "same_procs m (show_text v s m') = same_procs m m'"
  by (simp add: same_procs_def show_text_def)

lemma open_file_ok: "everything_works os \<Longrightarrow> \<exists>h m'. open_file os f m = (Inr h, m') \<and> same_procs m m'"
  by (simp add: open_file_def everything_works_def Let_def same_procs_def log_event_def)

lemma open_out_file_ok: "everything_works os \<Longrightarrow> \<exists>h m'. open_out_file os f m = (Inr h, m') \<and> same_procs m m'"
  using open_file_ok by (auto simp: open_out_file_def same_procs_def)

lemma choose_stdin_ok:
  assumes "everything_works os" "in_pipe m \<longrightarrow> piped_commands m \<noteq> []"
  shows "\<exists>i m'. choose_stdin os v cmd m = (Inr i, m') \<and> same_procs m m'"
proof (cases "stdin cmd")
  case None
  then show ?thesis using assms(2)
    by (cases "piped_commands m" rule: rev_cases) (auto simp: choose_stdin_def same_procs_def)
next
  case (Some f)
  obtain h m' where "open_file os f m = (Inr h, m')" "same_procs m m'" using open_file_ok[OF assms(1)] by blast
  then show ?thesis using assms(2) Some
    by (cases "piped_commands m" rule: rev_cases) (auto simp: choose_stdin_def same_procs_def show_text_def)
qed

lemma choose_out_ok:
  assumes "everything_works os"
  shows "\<exists>i m'. choose_out os v l r m = (Inr i, m') \<and> same_procs m m'"
proof (cases "\<exists>f. r = Some (ToFile f)")
  case True
  then obtain f where r: "r = Some (ToFile f)" by blast
  obtain h m' where "open_out_file os f m = (Inr h, m')" "same_procs m m'" using open_out_file_ok[OF assms] by blast
  then show ?thesis by (simp add: choose_out_def r)
next
  case False
  then consider "r = None" | "r = Some PIPE" | "r = Some Stdout" by (metis option.exhaust redirect.exhaust)
  then show ?thesis by cases (simp_all add: choose_out_def same_procs_def show_text_def)
qed

lemma start_command_ok:
  assumes ok: "everything_works os" and pipe: "in_pipe m \<longrightarrow> piped_commands m \<noteq> []"
  shows "\<exists>m'. start_command os ord v cmd m = (Inr (), m') \<and> started m' = started m + 1
    \<and> piped_commands m' = piped_commands m @ [started m]"
proof -
  let ?m0 = "show_text v (command_text ord cmd) m"
  have s0: "same_procs m ?m0" by (simp add: same_procs_def show_text_def)
  then have "in_pipe ?m0 \<longrightarrow> piped_commands ?m0 \<noteq> []" using pipe by (simp add: same_procs_def)
  then obtain i m1 where 1: "choose_stdin os v cmd ?m0 = (Inr i, m1)" "same_procs ?m0 m1"
    using choose_stdin_ok[OF ok] by blast
  obtain out m2 where 2: "choose_out os v ''> '' (stdout cmd) m1 = (Inr out, m2)" "same_procs m1 m2"
    using choose_out_ok[OF ok] by blast
  obtain err m3 where 3: "choose_out os v ''2> '' (stderr cmd) m2 = (Inr err, m3)" "same_procs m2 m3"
    using choose_out_ok[OF ok] by blast
  have s: "same_procs m m3" using same_procs_trans s0 1(2) 2(2) 3(2) by blast
  have "can_start os (argv cmd)" using ok by (simp add: everything_works_def)
  with 1(1) 2(1) 3(1) s show ?thesis
    by (simp add: start_command_def Let_def same_procs_def log_event_def)
qed

lemma end_pipe_value:
  "end_pipe os m = (v, m') \<Longrightarrow> v = exec_value (map (exit_code os) (piped_commands m))
     \<and> started m' = started m"
  by (auto simp: end_pipe_def exec_piped_commands_def close_files_def)

lemma run_loop_value:
  "everything_works os \<Longrightarrow> runnable nodes \<Longrightarrow> piped_commands m = [n..<n + k] \<Longrightarrow> started m = n + k \<Longrightarrow>
   (in_pipe m \<longrightarrow> 0 < k) \<Longrightarrow>
   fst (run_loop os ord False nodes m) = Inr (Some (list_value (exit_code os) n (pipes k nodes)))"
proof (induction nodes arbitrary: m n k rule: runnable.induct)
  case (1 c)
  obtain m1 where "start_command os ord False c m = (Inr (), m1)" "piped_commands m1 = piped_commands m @ [started m]"
    using start_command_ok[of os m ord False c] 1 by auto
  then show ?case using 1 by (simp add: exec_piped_commands_def Let_def exec_value_last)
next
  case (2 c opn rest)
  obtain m1 where m1: "start_command os ord False c m = (Inr (), m1)" "started m1 = started m + 1"
    "piped_commands m1 = piped_commands m @ [started m]"
    using start_command_ok[of os m ord False c] 2 by auto
  then have p: "piped_commands m1 = [n..<n + (k + 1)]" "started m1 = n + (k + 1)" using 2 by simp_all
  obtain v m2 where e: "end_pipe os m1 = (v, m2)" by fastforce
  have v: "v = exit_code os (n + k)" "started m2 = n + (k + 1)"
    using end_pipe_value[OF e] p by (simp_all add: exec_value_last)
  have nx: "piped_commands (next_pipe m2) = [n + (k + 1)..<n + (k + 1) + 0]"
    "started (next_pipe m2) = n + (k + 1) + 0" "in_pipe (next_pipe m2) \<longrightarrow> 0 < (0 :: nat)"
    using v(2) by (simp_all add: next_pipe_def)
  have rest: "runnable rest" and opn: "opn = Pipe \<or> opn = And \<or> opn = Or" using 2 by auto
  note ih = 2(1)[OF \<open>everything_works os\<close> rest]
  from opn show ?case
  proof (elim disjE)
    assume "opn = Pipe"
    then show ?thesis
      using m1(1) p ih[of "m1\<lparr>in_pipe := True, piped_display := piped_display m1 @ [''|'']\<rparr>" n "k + 1"]
      by simp
  next
    assume "opn = And"
    then show ?thesis using m1(1) e v(1) ih[OF nx] by (auto simp: Let_def)
  next
    assume "opn = Or"
    then show ?thesis using m1(1) e v(1) ih[OF nx] by (auto simp: Let_def)
  qed
next
  case (3 d opn rest)
  then show ?case
    using "3.IH"[of "show_text False (''cd '' @ d @ '' &&'') (m\<lparr>run_cwd := path_join (run_cwd m) d\<rparr>)" n k]
    by (simp add: show_text_def)
qed auto

end
