(* ===== verification/ShellRoundtrip.thy ===== *)
theory ShellRoundtrip
  imports ShellProofs
begin

text \<open>
  The parser of \<open>waf-tools/shellcmd.py\<close> reads back the tokens a pipeline is written with.
\<close>

fun out_tokens :: "string \<Rightarrow> redirect option \<Rightarrow> string list" where
  "out_tokens sign (Some (ToFile f)) = [sign, f]"
| "out_tokens sign (Some Stdout) = [''2>&1'']"
| "out_tokens sign _ = []"

definition env_tokens :: "(string, string) dict \<Rightarrow> string list" where
  "env_tokens d = map (\<lambda>kv. fst kv @ ''='' @ snd kv) d"

definition command_tokens :: "command \<Rightarrow> string list" where
  "command_tokens c = env_tokens (env_vars c) @ argv c
     @ (case stdin c of None \<Rightarrow> [] | Some f \<Rightarrow> [''<'', f])
     @ out_tokens ''>'' (stdout c) @ out_tokens ''2>'' (stderr c)"

fun node_tokens :: "node \<Rightarrow> string list" where
  "node_tokens (Command c) = command_tokens c"
| "node_tokens (Chdir None) = [''cd'']"
| "node_tokens (Chdir (Some d)) = [''cd'', d]"
| "node_tokens Pipe = [''|'']"
| "node_tokens And = [''&&'']"
| "node_tokens Or = [''||'']"

definition unparse :: "node list \<Rightarrow> string list" where
  "unparse p = concat (map node_tokens p)"

definition special :: "string list" where
  "special = [''>'', ''2>'', ''2>&1'', ''<'', ''|'', ''&&'', ''||'']"

text \<open>The commands the parser can produce.\<close>

definition writable_command :: "command \<Rightarrow> bool" where
  "writable_command c \<longleftrightarrow>
     argv c \<noteq> [] \<and> hd (argv c) \<noteq> ''cd'' \<and> env_var_match (hd (argv c)) = None
     \<and> list_all (\<lambda>t. t \<notin> set special) (tl (argv c))
     \<and> d_ok (env_vars c) \<and> list_all (\<lambda>kv. env_var_match (fst kv @ ''='' @ snd kv) = Some kv) (env_vars c)
     \<and> stdout c \<noteq> Some Stdout \<and> stderr c \<noteq> Some PIPE"

fun writable :: "node \<Rightarrow> bool" where
  "writable (Command c) = writable_command c"
| "writable (Chdir (Some d)) = (d \<noteq> ''&&'')"
| "writable _ = True"

abbreviation parser_at :: "node list \<Rightarrow> pstate \<Rightarrow> node option \<Rightarrow> (string, string) dict \<Rightarrow> parser" where
  "parser_at q st cur env \<equiv> \<lparr>pst = st, current_command = cur, pipeline = q, pending_env = env\<rparr>"

lemma parse_loop_append: "parse_loop (a @ b) p = rbind (parse_loop a p) (parse_loop b)"
proof (induction a arbitrary: p)
  case (Cons t a)
  then show ?case by (cases "parse_step t p") simp_all
qed simp

lemma d_set_fresh: "d_get d k = None \<Longrightarrow> d_set k v d = d @ [(k, v)]"
  unfolding d_get_def d_set_def by (induction d) (auto split: if_splits)

lemma parse_env:
  "d_ok (e @ d) \<Longrightarrow> list_all (\<lambda>kv. env_var_match (fst kv @ ''='' @ snd kv) = Some kv) d \<Longrightarrow>
   parse_loop (env_tokens d) (parser_at q BEGIN None e) = Inr (parser_at q BEGIN None (e @ d))"
proof (induction d arbitrary: e)
  case Nil
  then show ?case by (simp add: env_tokens_def)
next
  case (Cons kv d)
  obtain k v where kv: "kv = (k, v)" by fastforce
  have "k \<notin> fst ` set e" using Cons.prems(1) kv by (auto simp: d_ok_def)
  then have "d_set k v e = e @ [(k, v)]"
    by (intro d_set_fresh) (simp add: d_get_def map_of_eq_None_iff)
  then show ?case
    using Cons.prems Cons.IH[of "e @ [kv]"] kv
    by (simp add: env_tokens_def parse_step_def begin_token_def)
qed

lemma parse_args:
  "list_all (\<lambda>t. t \<notin> set special) ts \<Longrightarrow>
   parse_loop ts (parser_at q COMMAND (Some (Command c)) e)
     = Inr (parser_at q COMMAND (Some (Command (c\<lparr>argv := argv c @ ts\<rparr>))) e)"
proof (induction ts arbitrary: c)
  case (Cons t ts)
  then show ?case
    using Cons.IH[of "c\<lparr>argv := argv c @ [t]\<rparr>"]
    by (simp add: parse_step_def command_token_def Let_def special_def)
qed simp

lemma parse_stdin:
  "stdin c = None \<Longrightarrow>
   parse_loop (case i of None \<Rightarrow> [] | Some f \<Rightarrow> [''<'', f]) (parser_at q COMMAND (Some (Command c)) e)
     = Inr (parser_at q COMMAND (Some (Command (c\<lparr>stdin := i\<rparr>))) e)"
  by (cases i) (simp_all add: parse_step_def command_token_def file_token_def Let_def py_assert_def)

definition no_pipe :: "redirect option \<Rightarrow> redirect option" where
  "no_pipe r = (if r = Some PIPE then None else r)"

lemma parse_stdout:
  "stdout c = None \<Longrightarrow> r \<noteq> Some Stdout \<Longrightarrow>
   parse_loop (out_tokens ''>'' r) (parser_at q COMMAND (Some (Command c)) e)
     = Inr (parser_at q COMMAND (Some (Command (c\<lparr>stdout := no_pipe r\<rparr>))) e)"
  by (cases "(''>'', r)" rule: out_tokens.cases)
    (simp_all add: parse_step_def command_token_def file_token_def Let_def py_assert_def no_pipe_def)

lemma parse_stderr:
  "stderr c = None \<Longrightarrow> r \<noteq> Some PIPE \<Longrightarrow>
   parse_loop (out_tokens ''2>'' r) (parser_at q COMMAND (Some (Command c)) e)
     = Inr (parser_at q COMMAND (Some (Command (c\<lparr>stderr := r\<rparr>))) e)"
  by (cases "(''2>'', r)" rule: out_tokens.cases)
    (simp_all add: parse_step_def command_token_def file_token_def Let_def py_assert_def)

lemma parse_command_tokens:
  assumes "writable_command c"
  shows "parse_loop (command_tokens c) (parser_at q BEGIN None [])
    = Inr (parser_at q COMMAND (Some (Command (c\<lparr>stdout := no_pipe (stdout c)\<rparr>))) [])"
proof -
  obtain nm args where a: "argv c = nm # args" using assms by (cases "argv c") (auto simp: writable_command_def)
  have w: "nm \<noteq> ''cd''" "env_var_match nm = None" "list_all (\<lambda>t. t \<notin> set special) args"
    "stdout c \<noteq> Some Stdout" "stderr c \<noteq> Some PIPE"
    using assms by (auto simp: writable_command_def a)
  have env: "parse_loop (env_tokens (env_vars c)) (parser_at q BEGIN None []) = Inr (parser_at q BEGIN None (env_vars c))"
    using parse_env[of "[]" "env_vars c" q] assms by (simp add: writable_command_def)
  let ?c = "(new_command nm)\<lparr>env_vars := env_vars c\<rparr>"
  have nm: "parse_step nm (parser_at q BEGIN None (env_vars c)) = Inr (parser_at q COMMAND (Some (Command ?c)) [])"
    using w by (simp add: parse_step_def begin_token_def py_assert_def)
  show ?thesis
    unfolding command_tokens_def parse_loop_append env rbind.simps a parse_loop.simps(2) append_Cons nm
      parse_args[OF w(3)]
    using w(4,5)
    by (simp add: parse_stdin parse_stdout parse_stderr new_command_def a[symmetric])
qed

lemma parse_chain:
  "chain a \<Longrightarrow> list_all writable a \<Longrightarrow>
   parse_loop (unparse a) (parser_at q BEGIN None []) = Inr (parser_at (q @ a) BEGIN None [])"
proof (induction a arbitrary: q rule: chain.induct)
  case (2 c opn rest)
  have w: "writable_command c" using 2 by simp
  have "opn = Pipe \<or> opn = And \<or> opn = Or" using 2 by auto
  moreover have "parse_step ''|'' (parser_at q COMMAND (Some (Command (c\<lparr>stdout := no_pipe (stdout c)\<rparr>))) [])
      = Inr (parser_at (q @ [Command c, Pipe]) BEGIN None [])" if "stdout c = Some PIPE"
    using that by (simp add: parse_step_def command_token_def py_assert_def no_pipe_def commit_op_def commit_command_def Let_def)
  moreover have "parse_step ''&&'' (parser_at q COMMAND (Some (Command (c\<lparr>stdout := no_pipe (stdout c)\<rparr>))) [])
      = Inr (parser_at (q @ [Command c, And]) BEGIN None [])" if "stdout c \<noteq> Some PIPE"
    using that by (simp add: parse_step_def command_token_def no_pipe_def commit_op_def commit_command_def Let_def)
  moreover have "parse_step ''||'' (parser_at q COMMAND (Some (Command (c\<lparr>stdout := no_pipe (stdout c)\<rparr>))) [])
      = Inr (parser_at (q @ [Command c, Or]) BEGIN None [])" if "stdout c \<noteq> Some PIPE"
    using that by (simp add: parse_step_def command_token_def no_pipe_def commit_op_def commit_command_def Let_def)
  ultimately show ?case
    using 2 parse_command_tokens[OF w, of q] by (auto simp: unparse_def parse_loop_append)
next
  case (3 d opn rest)
  then show ?case
    by (cases d) (simp_all add: unparse_def parse_step_def begin_token_def chdir_token_def py_assert_def
        env_var_match_def commit_op_def commit_command_def)
qed (simp_all add: unparse_def)

text \<open>Every shaped pipeline of writable nodes is read back.\<close>

lemma parse_unparse:
  assumes sh: "shaped p" and w: "list_all writable p"
  shows "parse_tokens (unparse p) = Inr p"
proof -
  obtain a n where p: "p = a @ [n]" and ch: "chain a" using sh by (cases p rule: rev_cases) (auto simp: shaped_def)
  have wa: "list_all writable a" and wn: "writable n" using w by (simp_all add: p)
  have a: "parse_loop (unparse a) start_parser = Inr (parser_at a BEGIN None [])"
    using parse_chain[OF ch wa, of "[]"] by (simp add: start_parser_def)
  have un: "unparse (a @ [k]) = unparse a @ node_tokens k" for k by (simp add: unparse_def)
  show ?thesis
  proof (cases n)
    case (Command c)
    then have "no_pipe (stdout c) = stdout c" using sh by (simp add: shaped_def p no_pipe_def)
    then show ?thesis
      using parse_command_tokens[of c a] wn a
      by (simp add: parse_tokens_def un parse_loop_append Command commit_command_def p)
  next
    case (Chdir d)
    then show ?thesis
      using wn a
      by (cases d) (simp_all add: parse_tokens_def un parse_loop_append Chdir commit_command_def p parse_step_def
          begin_token_def chdir_token_def py_assert_def env_var_match_def)
  qed (use sh in \<open>simp_all add: shaped_def p\<close>)
qed

end
