(* ===== verification/ToolProps.thy ===== *)
theory ToolProps
  imports NsUtils CheckIndent ShellRoundtrip
begin

text \<open>
  The properties of \<open>utils.py\<close>, \<open>utils/check-style.py\<close> and \<open>waf-tools/shellcmd.py\<close>, each with
  an application to concrete data.
\<close>

section \<open>utils.py\<close>

text \<open>\<open>get_list_from_file\<close> evaluates the text after the first equals sign of the lines from
  the first one that mentions the name up to the first closing bracket, comments removed; where the
  file or the name is missing, or no bracket follows, it returns the empty list.\<close>

theorem list_reading:
  "get_list_from_file ev fs path nm =
     (case fs path of
        None \<Rightarrow> Inr []
      | Some ls \<Rightarrow> (case list_text nm ls of None \<Rightarrow> Inr [] | Some t \<Rightarrow> rbind (after_equals t) ev))"
  using get_list_reads .

text \<open>\<open>get_bool_from_file\<close> of a file that does not exist reads a variable that was
  never assigned, instead of returning the default, but \<open>read_config_file\<close> never calls it so: it does
  not raise \<open>UnboundLocalError\<close>, whatever files there are.\<close>

theorem config_never_unbound:
  assumes "\<And>s. ev s \<noteq> Inl UnboundLocalError" "\<And>s. evb s \<noteq> Inl UnboundLocalError"
  shows "read_config_file ev evb fs home \<noteq> Inl UnboundLocalError
    \<and> get_bool_from_file evb (\<lambda>_. None) path nm missing = Inl UnboundLocalError"
  using read_config_bound[OF assms] by (simp add: get_bool_reads)

theorem config_never_unbound_witness:
  "read_config_file (\<lambda>s. Inr [s]) (\<lambda>s. Inr (s = ''True''))
     (\<lambda>p. if p = ''.ns3rc'' then Some [''tests_enabled = True''] else None) ''~/''
   = Inr (True, [''all_modules''], False, True)
   \<and> get_bool_from_file (\<lambda>s. Inr (s = ''True'')) (\<lambda>_. None) ''x'' ''y'' False = Inl UnboundLocalError"
proof -
  have "read_config_file (\<lambda>s. Inr [s]) (\<lambda>s. Inr (s = ''True''))
     (\<lambda>p. if p = ''.ns3rc'' then Some [''tests_enabled = True''] else None) ''~/''
   = Inr (True, [''all_modules''], False, True)" by code_simp
  then show ?thesis
    using config_never_unbound[of "\<lambda>s. Inr [s]" "\<lambda>s. Inr (s = ''True'')"] by simp
qed

section \<open>check-style.py\<close>

text \<open>C34. A patch set is written and read back unchanged, if no name or line has a newline and no
  removed line starts with two dashes and a blank, no added line with two plus signs and a blank (such
  lines read as the head of a patch).\<close>

theorem patch_roundtrip:
  assumes "list_all good_patch ps"
  shows "\<exists>out. write_all write_patch ps = Inr out \<and> parse_patchset out = Inr ps"
  using patchset_roundtrip[OF assms] .

theorem patch_roundtrip_witness:
  "parse_patchset [endl ''--- a'', endl ''+++ b'', endl ''@@ -3,1 +3,2 @@'', endl ''- x'', endl ''+y'', endl ''+z'']
   = Inr [\<lparr>patch_src = ''a'', patch_dst = ''b'', chunks = [\<lparr>src_pos = 3, dst_pos = 3,
       chunk_lines = [\<lparr>line_type = SRC, line_text = '' x''\<rparr>, \<lparr>line_type = DST, line_text = ''y''\<rparr>,
                      \<lparr>line_type = DST, line_text = ''z''\<rparr>]\<rparr>]\<rparr>]"
proof -
  let ?p = "\<lparr>patch_src = ''a'', patch_dst = ''b'', chunks = [\<lparr>src_pos = 3, dst_pos = 3,
       chunk_lines = [\<lparr>line_type = SRC, line_text = '' x''\<rparr>, \<lparr>line_type = DST, line_text = ''y''\<rparr>,
                      \<lparr>line_type = DST, line_text = ''z''\<rparr>]\<rparr>]\<rparr>"
  have "write_all write_patch [?p] = Inr [endl ''--- a'', endl ''+++ b'', endl ''@@ -3,1 +3,2 @@'', endl ''- x'', endl ''+y'', endl ''+z'']"
    by code_simp
  moreover have "list_all good_patch [?p]" by (simp add: good_patch_def good_line_def starts_with_def)
  ultimately show ?thesis using patch_roundtrip[of "[?p]"] by auto
qed

text \<open>The pass over trailing blanks raises nothing after the patch is parsed and changes
  nothing in it but this: some lines of the destination get one blank or tab at their end. Names,
  positions, the number and the kind of the lines stay, and no line that only the source has changes.\<close>

theorem blanks_only_added:
  assumes "parse_patchset diff = Inr ps"
  shows "\<exists>ps'. remove_trailing_whitespace_changes diff = Inr ps' \<and> list_all2 patch_blanks ps ps'"
  using blank_patches_changes[of ps] assms by (simp add: remove_trailing_whitespace_changes_def)

theorem blanks_only_added_witness:
  "\<exists>ps'. remove_trailing_whitespace_changes [endl ''--- a'', endl ''+++ b'', endl ''@@ -1,1 +1,1 @@'', endl ''-x '', endl ''+x'']
      = Inr ps' \<and> map (\<lambda>l. line_text l) (chunk_lines (hd (chunks (hd ps')))) = [''x '', ''x '']"
proof -
  let ?d = "[endl ''--- a'', endl ''+++ b'', endl ''@@ -1,1 +1,1 @@'', endl ''-x '', endl ''+x'']"
  obtain ps where "parse_patchset ?d = Inr ps" by (cases "parse_patchset ?d") (simp_all, code_simp)
  then obtain ps' where "remove_trailing_whitespace_changes ?d = Inr ps'" using blanks_only_added by blast
  moreover have "rbind (remove_trailing_whitespace_changes ?d)
      (\<lambda>ps'. Inr (map (\<lambda>l. line_text l) (chunk_lines (hd (chunks (hd ps')))))) = Inr [''x '', ''x '']" by code_simp
  ultimately show ?thesis by simp
qed

text \<open>A line of context is one object on both sides of a chunk, so the pass can change it:
  here the removed line before it has one trailing blank, the context line gets that blank although the
  file does not have it, and the patch no longer matches the file.\<close>

theorem context_line_changed:
  "remove_trailing_whitespace_changes [endl ''--- a'', endl ''+++ b'', endl ''@@ -1,2 +1,1 @@'', endl ''-x '', endl '' x'']
   = Inr [\<lparr>patch_src = ''a'', patch_dst = ''b'', chunks = [\<lparr>src_pos = 1, dst_pos = 1,
       chunk_lines = [\<lparr>line_type = SRC, line_text = ''x ''\<rparr>, \<lparr>line_type = BOTH, line_text = ''x ''\<rparr>]\<rparr>]\<rparr>]"
  by code_simp

text \<open>C28. In place, \<open>indent_files\<close> leaves in each named file what indenting the original file
  gives and touches no other file. Otherwise it touches no file, and answers true exactly where
  indenting changes none of the named files.\<close>

theorem files_indented:
  assumes "indent_files t files names diff debug level inplace = Inr (ok, files', out)"
  shows "if inplace
    then ok \<and> (\<forall>f. if f \<in> set names then indent t files debug level f = Inr (files' f) else files' f = files f)
    else files' = files \<and> (ok \<longleftrightarrow> (\<forall>f \<in> set names. indent t files debug level f = Inr (files f)))"
  using indent_files_result[OF assms] .

definition demo_tools :: tools where
  "demo_tools = \<lparr>uncrustify = (\<lambda>cfg s. Some (filter (\<lambda>c. c \<noteq> CHR 0x09) s)),
     unified_diff = (\<lambda>f s d. [endl ''--- f'', endl ''+++ g'', endl ''@@ -1,1 +1,1 @@'', ''-'' @ s, ''+'' @ d]),
     patch_tool = (\<lambda>d s. case d of [a, b, c, x, y] \<Rightarrow> butlast (tl y) | _ \<Rightarrow> s)\<rparr>"

theorem files_indented_witness:
  "\<exists>out. indent_files demo_tools (\<lambda>_. [CHR 0x09, CHR ''x'']) [''a.cc''] False False 0 False
      = Inr (False, \<lambda>_. [CHR 0x09, CHR ''x''], out)
     \<and> indent demo_tools (\<lambda>_. [CHR 0x09, CHR ''x'']) False 0 ''a.cc'' \<noteq> Inr [CHR 0x09, CHR ''x'']"
proof -
  let ?f = "\<lambda>_. [CHR 0x09, CHR ''x'']"
  have i: "indent demo_tools ?f False 0 ''a.cc'' = Inr ''x''" by code_simp
  then obtain out where r: "indent_files demo_tools ?f [''a.cc''] False False 0 False = Inr (False, ?f, out)"
    by (simp add: indent_files_def)
  have "indent demo_tools ?f False 0 ''a.cc'' \<noteq> Inr (?f ''a.cc'')" using files_indented[OF r] by simp
  with r show ?thesis by blast
qed

text \<open>With \<open>--debug\<close> nothing is ever found: writing the difference to the debug file
  uses the generator up, so that patch gets an empty difference, each file stays as it is, and the check
  reports that all files are well indented.\<close>

theorem debug_hides_everything:
  assumes "\<And>s. patch_tool t [] s = s"
    and "indent_files t files names diff True level inplace = Inr (ok, files', out)"
  shows "ok \<and> files' = files \<and> out = []"
proof -
  obtain o' where o': "indent_all t files True level names = Inr o'" using assms(2) by (auto simp: indent_files_def rbind_Inr_iff)
  have same: "\<forall>(f, dst) \<in> set o'. dst = files f" using indent_all_names[OF o'] indent_debug[OF assms(1)] by blast
  then have "foldl (\<lambda>fs (src, dst). fs(src := dst)) files o' = files"
    using foldl_update[of o' files files] by (auto simp: fun_eq_iff split: prod.splits)
  moreover have "filter (\<lambda>(src, dst). files src \<noteq> dst) o' = []" using same by (auto simp: filter_empty_conv)
  ultimately show ?thesis using assms(2) o' by (auto simp: indent_files_def Let_def split: if_splits)
qed

theorem debug_hides_everything_witness:
  "\<exists>out. indent_files demo_tools (\<lambda>_. [CHR 0x09, CHR ''x'']) [''a.cc''] False True 0 False
      = Inr (True, \<lambda>_. [CHR 0x09, CHR ''x''], out)"
proof -
  let ?f = "\<lambda>_. [CHR 0x09, CHR ''x'']"
  have i: "indent demo_tools ?f True 0 ''a.cc'' = Inr [CHR 0x09, CHR ''x'']" by code_simp
  then obtain ok f' out where r: "indent_files demo_tools ?f [''a.cc''] False True 0 False = Inr (ok, f', out)"
    by (simp add: indent_files_def)
  have "\<And>s. patch_tool demo_tools [] s = s" by (simp add: demo_tools_def)
  from debug_hides_everything[OF this r] r show ?thesis by simp
qed

section \<open>shellcmd.py\<close>

text \<open>C16. The parser reads back every well-formed pipeline from the tokens it is written with:
  commands with their variables, arguments and redirections, changes of directory, and the operators
  between them.\<close>

theorem pipeline_roundtrip:
  assumes "shaped p" "list_all writable p"
  shows "parse_tokens (unparse p) = Inr p"
  using parse_unparse[OF assms] .

theorem pipeline_roundtrip_witness:
  "parse_tokens [''A=1'', ''make'', ''all'', ''>'', ''log'', ''2>&1'', ''&&'', ''cd'', ''build'']
   = Inr [Command \<lparr>argv = [''make'', ''all''], stdin = None, stdout = Some (ToFile ''log''), stderr = Some Stdout,
            env_vars = [(''A'', ''1'')]\<rparr>, And, Chdir (Some ''build'')]"
proof -
  let ?c = "\<lparr>argv = [''make'', ''all''], stdin = None, stdout = Some (ToFile ''log''), stderr = Some Stdout,
            env_vars = [(''A'', ''1'')]\<rparr>"
  let ?p = "[Command ?c, And, Chdir (Some ''build'')]"
  have "shaped ?p" by (simp add: shaped_def)
  moreover have "list_all writable ?p" by code_simp
  moreover have "unparse ?p = [''A=1'', ''make'', ''all'', ''>'', ''log'', ''2>&1'', ''&&'', ''cd'', ''build'']"
    by code_simp
  ultimately show ?thesis using pipeline_roundtrip[of ?p] by simp
qed


text \<open>C15. When \<open>run\<close> returns an exit code, every file it opened has been closed, once and in order,
  and every process it started has been waited for, in the order they were started.\<close>

theorem run_cleans_up:
  assumes "run os ord verbose nodes = (Inr (Some v), m)"
  shows "opened_files (trace m) = closed_files (trace m) \<and> distinct (opened_files (trace m))
    \<and> started_procs (trace m) = waited_procs (trace m)"
  using run_loop_done[of os ord verbose nodes start_machine v m, OF _ run_inv_start] assms
  unfolding run_def all_done_def by blast

definition demo_os :: os_env where
  "demo_os = \<lparr>can_open = (\<lambda>_. True), can_start = (\<lambda>_. True), exit_code = (\<lambda>i. int i)\<rparr>"

theorem run_cleans_up_witness:
  "\<exists>v m. run demo_os (\<lambda>ks. ks) False [Command ((new_command ''a'')\<lparr>stdout := Some (ToFile ''f'')\<rparr>), And,
      Command (new_command ''b'')] = (Inr (Some v), m) \<and> started_procs (trace m) = waited_procs (trace m)"
proof -
  let ?p = "[Command ((new_command ''a'')\<lparr>stdout := Some (ToFile ''f'')\<rparr>), And, Command (new_command ''b'')]"
  have "fst (run demo_os (\<lambda>ks. ks) False ?p) = Inr (Some 1)" by code_simp
  then obtain m where r: "run demo_os (\<lambda>ks. ks) False ?p = (Inr (Some 1), m)" by (metis prod.collapse)
  show ?thesis using run_cleans_up[OF r] r by blast
qed



end
