(* ===== verification/GridData.thy ===== *)
theory GridData
  imports PyNum PyStr
begin

text \<open>
  The data of the timeline viewer \<open>utils/grid.py\<close>: ranges and events, the timelines that hold them
  with their binary searches and bounds, the colours, and \<open>read_data\<close>, which fills them from the
  lines of a file. An object that is looked up and then changed is the place it has in its list.
\<close>

section \<open>Sorting with a comparison function\<close>

text \<open>\<open>xs.sort(cmp)\<close> is a stable sort; a negative value of \<open>cmp a b\<close> says that a goes first.\<close>

fun cmp_insert :: "('a \<Rightarrow> 'a \<Rightarrow> int) \<Rightarrow> 'a \<Rightarrow> 'a list \<Rightarrow> 'a list" where
  "cmp_insert cmp x [] = [x]"
| "cmp_insert cmp x (y # ys) = (if cmp x y \<le> 0 then x # y # ys else y # cmp_insert cmp x ys)"

definition cmp_sort :: "('a \<Rightarrow> 'a \<Rightarrow> int) \<Rightarrow> 'a list \<Rightarrow> 'a list" where
  "cmp_sort cmp xs = foldr (cmp_insert cmp) xs []"

lemma cmp_sort_key: "(\<And>x y. cmp x y \<le> 0 \<longleftrightarrow> k x \<le> (k y :: int)) \<Longrightarrow> cmp_sort cmp xs = sort_key k xs"
proof -
  assume "\<And>x y. cmp x y \<le> 0 \<longleftrightarrow> k x \<le> k y"
  then have "cmp_insert cmp x ys = insort_key k x ys" for x ys by (induction ys) auto
  then show ?thesis unfolding cmp_sort_def sort_key_def by (metis ext)
qed

section \<open>Ranges and events\<close>

record data_range =
  range_start :: int
  range_end :: int
  range_value :: string

datatype event_value = StrValue string | IntValue int

record grid_event =
  event_at :: int
  event_val :: event_value

definition ranges_cmp :: "data_range \<Rightarrow> data_range \<Rightarrow> int" where
  "ranges_cmp a b = (let diff = range_start a - range_start b in if diff < 0 then -1 else if diff > 0 then 1 else 0)"

definition events_cmp :: "grid_event \<Rightarrow> grid_event \<Rightarrow> int" where
  "events_cmp a b = (let diff = event_at a - event_at b in if diff < 0 then -1 else if diff > 0 then 1 else 0)"

record data_ranges =
  dr_name :: string
  ranges :: "data_range list"

record event_line =
  ev_name :: string
  events :: "grid_event list"

definition TimelineDataRange :: "string \<Rightarrow> data_ranges" where
  "TimelineDataRange nm = \<lparr>dr_name = nm, ranges = []\<rparr>"

definition TimelineEvent :: "string \<Rightarrow> event_line" where
  "TimelineEvent nm = \<lparr>ev_name = nm, events = []\<rparr>"

definition add_range :: "data_range \<Rightarrow> data_ranges \<Rightarrow> data_ranges" where
  "add_range r d = d\<lparr>ranges := ranges d @ [r]\<rparr>"

definition add_event :: "grid_event \<Rightarrow> event_line \<Rightarrow> event_line" where
  "add_event e v = v\<lparr>events := events v @ [e]\<rparr>"

section \<open>The two searches\<close>

text \<open>A key is an end of the visible window: a number of either kind, here by its value.\<close>

function range_search_loop :: "data_range list \<Rightarrow> rat \<Rightarrow> int \<Rightarrow> int \<Rightarrow> int" where
  "range_search_loop rs key l u =
     (if l \<le> u then
        let i = (l + u) div 2; r = rs ! nat i
        in if of_int (range_start r) \<le> key \<and> key \<le> of_int (range_end r) then i
           else if key < of_int (range_start r) then range_search_loop rs key l (i - 1)
           else range_search_loop rs key (i + 1) u
      else -1)"
  by pat_completeness auto
termination
  by (relation "measure (\<lambda>(rs, key, l, u). nat (u + 1 - l))") auto

declare range_search_loop.simps [simp del]

definition range_search :: "data_ranges \<Rightarrow> rat \<Rightarrow> int" where
  "range_search d key = range_search_loop (ranges d) key 0 (int (length (ranges d)) - 1)"

definition get_ranges :: "data_ranges \<Rightarrow> rat \<Rightarrow> rat \<Rightarrow> data_range list" where
  "get_ranges d start stop =
     (let s = range_search d start; e = range_search d stop
      in if s = -1 \<and> e = -1 then []
         else if s = -1 then py_slice (ranges d) 0 (nat (e + 1))
         else if e = -1 then py_slice (ranges d) (nat s) (length (ranges d))
         else py_slice (ranges d) (nat s) (nat (e + 1)))"

definition get_ranges_bounds :: "data_ranges \<Rightarrow> rat \<Rightarrow> rat \<Rightarrow> nat \<times> nat" where
  "get_ranges_bounds d start stop =
     (let s = range_search d start; e = range_search d stop
      in if s = -1 \<and> e = -1 then (0, 0)
         else if s = -1 then (0, nat (e + 1))
         else if e = -1 then (nat s, length (ranges d))
         else (nat s, nat (e + 1)))"

definition sort_ranges :: "data_ranges \<Rightarrow> data_ranges" where
  "sort_ranges d = d\<lparr>ranges := cmp_sort ranges_cmp (ranges d)\<rparr>"

definition ranges_get_bounds :: "data_ranges \<Rightarrow> int \<times> int" where
  "ranges_get_bounds d =
     (if ranges d \<noteq> [] then (range_start (ranges d ! 0), range_end (ranges d ! (length (ranges d) - 1)))
      else (0, 0))"

function event_search_loop :: "grid_event list \<Rightarrow> rat \<Rightarrow> int \<Rightarrow> int \<Rightarrow> int" where
  "event_search_loop es key l u =
     (if l \<le> u then
        let i = (l + u) div 2; t = of_int (event_at (es ! nat i))
        in if key = t then i
           else if key < t then event_search_loop es key l (i - 1)
           else event_search_loop es key (i + 1) u
      else l)"
  by pat_completeness auto
termination
  by (relation "measure (\<lambda>(es, key, l, u). nat (u + 1 - l))") auto

declare event_search_loop.simps [simp del]

definition event_search :: "event_line \<Rightarrow> rat \<Rightarrow> int" where
  "event_search v key = event_search_loop (events v) key 0 (int (length (events v)) - 1)"

definition get_events :: "event_line \<Rightarrow> rat \<Rightarrow> rat \<Rightarrow> grid_event list" where
  "get_events v start stop = py_slice (events v) (nat (event_search v start)) (nat (event_search v stop + 1))"

definition get_events_bounds :: "event_line \<Rightarrow> rat \<Rightarrow> rat \<Rightarrow> nat \<times> nat" where
  "get_events_bounds v start stop = (nat (event_search v start), nat (event_search v stop + 1))"

definition sort_events :: "event_line \<Rightarrow> event_line" where
  "sort_events v = v\<lparr>events := cmp_sort events_cmp (events v)\<rparr>"

definition events_get_bounds :: "event_line \<Rightarrow> int \<times> int" where
  "events_get_bounds v =
     (if events v \<noteq> [] then (event_at (hd (events v)), event_at (last (events v))) else (0, 0))"

section \<open>Timelines\<close>

text \<open>
  The loop all the look-ups share: the place of the first object of that name, or of a new one that
  is appended to the list.
\<close>

definition get_named :: "('b \<Rightarrow> string) \<Rightarrow> (string \<Rightarrow> 'b) \<Rightarrow> string \<Rightarrow> 'b list \<Rightarrow> nat \<times> 'b list" where
  "get_named name_of new nm xs =
     (let i = length (takeWhile (\<lambda>x. name_of x \<noteq> nm) xs)
      in (i, if i < length xs then xs else xs @ [new nm]))"

record timeline =
  tl_name :: string
  tl_ranges :: "data_ranges list"
  tl_event_str :: "event_line list"
  tl_event_int :: "event_line list"

definition Timeline :: "string \<Rightarrow> timeline" where
  "Timeline nm = \<lparr>tl_name = nm, tl_ranges = [], tl_event_str = [], tl_event_int = []\<rparr>"

definition get_range :: "string \<Rightarrow> timeline \<Rightarrow> nat \<times> timeline" where
  "get_range nm t = (case get_named dr_name TimelineDataRange nm (tl_ranges t) of (i, rs) \<Rightarrow> (i, t\<lparr>tl_ranges := rs\<rparr>))"

definition get_event_str :: "string \<Rightarrow> timeline \<Rightarrow> nat \<times> timeline" where
  "get_event_str nm t = (case get_named ev_name TimelineEvent nm (tl_event_str t) of (i, es) \<Rightarrow> (i, t\<lparr>tl_event_str := es\<rparr>))"

definition get_event_int :: "string \<Rightarrow> timeline \<Rightarrow> nat \<times> timeline" where
  "get_event_int nm t = (case get_named ev_name TimelineEvent nm (tl_event_int t) of (i, es) \<Rightarrow> (i, t\<lparr>tl_event_int := es\<rparr>))"

definition sort_timeline :: "timeline \<Rightarrow> timeline" where
  "sort_timeline t = t\<lparr>tl_ranges := map sort_ranges (tl_ranges t),
     tl_event_int := map sort_events (tl_event_int t), tl_event_str := map sort_events (tl_event_str t)\<rparr>"

text \<open>One step of the loops that widen the bounds.\<close>

definition widen :: "int \<times> int \<Rightarrow> int \<times> int \<Rightarrow> int \<times> int" where
  "widen = (\<lambda>(lo, hi) (l, h). (if l < lo then l else lo, if h > hi then h else hi))"

definition timeline_get_bounds :: "timeline \<Rightarrow> int \<times> int" where
  "timeline_get_bounds t =
     foldl widen (foldl widen (foldl widen (0, 0) (map ranges_get_bounds (tl_ranges t)))
                   (map events_get_bounds (tl_event_str t)))
       (map events_get_bounds (tl_event_int t))"

definition get_timeline :: "string \<Rightarrow> timeline list \<Rightarrow> nat \<times> timeline list" where
  "get_timeline nm ts = get_named tl_name Timeline nm ts"

definition sort_timelines :: "timeline list \<Rightarrow> timeline list" where
  "sort_timelines ts = map sort_timeline ts"

definition get_bounds :: "timeline list \<Rightarrow> int \<times> int" where
  "get_bounds ts = foldl widen (0, 0) (map timeline_get_bounds ts)"

text \<open>The keys of the dictionary of values; \<open>ord\<close> is the order in which Python lists them.\<close>

definition get_all_range_values :: "(string list \<Rightarrow> string list) \<Rightarrow> timeline list \<Rightarrow> string list" where
  "get_all_range_values ord ts =
     ord (d_keys (foldl (\<lambda>d t. foldl (\<lambda>d rs. foldl (\<lambda>d r. d_set (range_value r) 1 d) d (ranges rs)) d (tl_ranges t))
            ([] :: (string, int) dict) ts))"

section \<open>Colours\<close>

record color =
  col_r :: int
  col_g :: int
  col_b :: int

definition Color :: "int \<Rightarrow> int \<Rightarrow> int \<Rightarrow> color" where
  "Color r g b = \<lparr>col_r = r, col_g = g, col_b = b\<rparr>"

text \<open>The list of default colours belongs to the class; \<open>pop\<close> takes its last element away.\<close>

record colors =
  color_map :: "(string, color) dict"
  default_colors :: "color list"

definition Colors :: colors where
  "Colors = \<lparr>color_map = [], default_colors =
     [Color 1 0 0, Color 0 1 0, Color 0 0 1, Color 1 1 0, Color 1 0 1, Color 0 1 1]\<rparr>"

definition add_color :: "string \<Rightarrow> color \<Rightarrow> colors \<Rightarrow> colors" where
  "add_color nm c cs = cs\<lparr>color_map := d_set nm c (color_map cs)\<rparr>"

definition lookup_color :: "string \<Rightarrow> colors \<Rightarrow> (color \<times> colors) res" where
  "lookup_color nm cs =
     rbind (if d_has (color_map cs) nm then Inr cs
            else if default_colors cs = [] then Inl IndexError
            else Inr (add_color nm (last (default_colors cs))
                        (cs\<lparr>default_colors := butlast (default_colors cs)\<rparr>))) (\<lambda>cs'.
     rbind (d_item (color_map cs') nm) (\<lambda>c. Inr (c, cs')))"

text \<open>The loop of \<open>main\<close> that looks the colours of the legend up.\<close>

fun lookup_all :: "string list \<Rightarrow> colors \<Rightarrow> (color list \<times> colors) res" where
  "lookup_all [] cs = Inr ([], cs)"
| "lookup_all (v # vs) cs =
     rbind (lookup_color v cs) (\<lambda>(c, cs). rbind (lookup_all vs cs) (\<lambda>(range_colors, cs). Inr (c # range_colors, cs)))"

section \<open>read_data\<close>

text \<open>The four kinds of line, in the order they are tried; a match need not reach the end of the line.\<close>

datatype data_line =
    RangeLine string string string int int
  | EventStrLine string string string int
  | EventIntLine string string int int
  | ColorLine string int int int

definition is_hex :: "char \<Rightarrow> bool" where
  "is_hex c \<longleftrightarrow> is_digit c \<or> c \<in> set ''abcdefABCDEF''"

definition hex_value :: "char \<Rightarrow> int" where
  "hex_value c = (if is_digit c then int (char_digit c) else of_char (lower_char c) - 87)"

definition eat_hex :: "string \<Rightarrow> (int \<times> string) option" where
  "eat_hex s = (case s of a # b # t \<Rightarrow> if is_hex a \<and> is_hex b then Some (16 * hex_value a + hex_value b, t) else None
                        | _ \<Rightarrow> None)"

definition match_range :: "string \<Rightarrow> data_line option" where
  "match_range line =
     Option.bind (eat ''range '' line) (\<lambda>s. Option.bind (eat_word s) (\<lambda>(a, s).
     Option.bind (eat '' '' s) (\<lambda>s. Option.bind (eat_word s) (\<lambda>(b, s).
     Option.bind (eat '' '' s) (\<lambda>s. Option.bind (eat_word s) (\<lambda>(c, s).
     Option.bind (eat '' '' s) (\<lambda>s. Option.bind (eat_number s) (\<lambda>(m, s).
     Option.bind (eat '' '' s) (\<lambda>s. Option.bind (eat_number s) (\<lambda>(n, s).
       Some (RangeLine a b c (int m) (int n))))))))))))"

definition match_event_str :: "string \<Rightarrow> data_line option" where
  "match_event_str line =
     Option.bind (eat ''event-str '' line) (\<lambda>s. Option.bind (eat_word s) (\<lambda>(a, s).
     Option.bind (eat '' '' s) (\<lambda>s. Option.bind (eat_word s) (\<lambda>(b, s).
     Option.bind (eat '' '' s) (\<lambda>s. Option.bind (eat_word s) (\<lambda>(c, s).
     Option.bind (eat '' '' s) (\<lambda>s. Option.bind (eat_number s) (\<lambda>(n, s).
       Some (EventStrLine a b c (int n))))))))))"

definition match_event_int :: "string \<Rightarrow> data_line option" where
  "match_event_int line =
     Option.bind (eat ''event-int '' line) (\<lambda>s. Option.bind (eat_word s) (\<lambda>(a, s).
     Option.bind (eat '' '' s) (\<lambda>s. Option.bind (eat_word s) (\<lambda>(b, s).
     Option.bind (eat '' '' s) (\<lambda>s. Option.bind (eat_number s) (\<lambda>(m, s).
     Option.bind (eat '' '' s) (\<lambda>s. Option.bind (eat_number s) (\<lambda>(n, s).
       Some (EventIntLine a b (int m) (int n))))))))))"

definition match_color :: "string \<Rightarrow> data_line option" where
  "match_color line =
     Option.bind (eat ''color '' line) (\<lambda>s. Option.bind (eat_word s) (\<lambda>(a, s).
     Option.bind (eat '' #'' s) (\<lambda>s. Option.bind (eat_hex s) (\<lambda>(r, s).
     Option.bind (eat_hex s) (\<lambda>(g, s). Option.bind (eat_hex s) (\<lambda>(b, s).
       Some (ColorLine a r g b)))))))"

fun first_match :: "(string \<Rightarrow> data_line option) list \<Rightarrow> string \<Rightarrow> data_line option" where
  "first_match [] line = None"
| "first_match (m # ms) line = (case m line of Some d \<Rightarrow> Some d | None \<Rightarrow> first_match ms line)"

definition parse_data_line :: "string \<Rightarrow> data_line option" where
  "parse_data_line line = first_match [match_range, match_event_str, match_event_int, match_color] line"

text \<open>A line of data goes to the timeline and the row of its name, which are made where they are new.\<close>

fun apply_line :: "data_line \<Rightarrow> colors \<times> timeline list \<Rightarrow> colors \<times> timeline list" where
  "apply_line (RangeLine tn rn v s e) (cs, ts) =
     (let (i, ts) = get_timeline tn ts; (j, t) = get_range rn (ts ! i)
      in (cs, ts[i := t\<lparr>tl_ranges := (tl_ranges t)[j :=
            add_range \<lparr>range_start = s, range_end = e, range_value = v\<rparr> (tl_ranges t ! j)]\<rparr>]))"
| "apply_line (EventStrLine tn en v a) (cs, ts) =
     (let (i, ts) = get_timeline tn ts; (j, t) = get_event_str en (ts ! i)
      in (cs, ts[i := t\<lparr>tl_event_str := (tl_event_str t)[j :=
            add_event \<lparr>event_at = a, event_val = StrValue v\<rparr> (tl_event_str t ! j)]\<rparr>]))"
| "apply_line (EventIntLine tn en v a) (cs, ts) =
     (let (i, ts) = get_timeline tn ts; (j, t) = get_event_int en (ts ! i)
      in (cs, ts[i := t\<lparr>tl_event_int := (tl_event_int t)[j :=
            add_event \<lparr>event_at = a, event_val = IntValue v\<rparr> (tl_event_int t ! j)]\<rparr>]))"
| "apply_line (ColorLine nm r g b) (cs, ts) = (add_color nm (Color (r div 255) (g div 255) (b div 255)) cs, ts)"

definition read_line :: "colors \<times> timeline list \<Rightarrow> string \<Rightarrow> colors \<times> timeline list" where
  "read_line s line = (case parse_data_line line of None \<Rightarrow> s | Some d \<Rightarrow> apply_line d s)"

definition read_data :: "string list \<Rightarrow> colors \<times> timeline list" where
  "read_data lines = (case foldl read_line (Colors, []) lines of (cs, ts) \<Rightarrow> (cs, sort_timelines ts))"

end
