(* ===== verification/PyState.thy ===== *)
theory PyState
  imports Prelude
begin

text \<open>
  Methods that change an object and may raise: a method takes the state and gives its result or
  the exception, and the state it leaves, which holds what was changed before an exception. The
  predicate \<open>keeps\<close> says that a method leaves a property of the state as it was, whether it raises
  or not; its rules are in the collection \<open>keeps\<close>.
\<close>

named_theorems keeps_rules \<open>rules that show that a method keeps a property\<close>

type_synonym ('s, 'a) act = "'s \<Rightarrow> 'a res \<times> 's"

definition act_ret :: "'a \<Rightarrow> ('s, 'a) act" where
  "act_ret x = (\<lambda>s. (Inr x, s))"

definition act_raise :: "py_error \<Rightarrow> ('s, 'a) act" where
  "act_raise e = (\<lambda>s. (Inl e, s))"

definition act_lift :: "'a res \<Rightarrow> ('s, 'a) act" where
  "act_lift r = (\<lambda>s. (r, s))"

definition act_get :: "('s \<Rightarrow> 'a) \<Rightarrow> ('s, 'a) act" where
  "act_get f = (\<lambda>s. (Inr (f s), s))"

definition act_do :: "('s \<Rightarrow> 's) \<Rightarrow> ('s, unit) act" where
  "act_do f = (\<lambda>s. (Inr (), f s))"

definition act_bind :: "('s, 'a) act \<Rightarrow> ('a \<Rightarrow> ('s, 'b) act) \<Rightarrow> ('s, 'b) act" where
  "act_bind m f = (\<lambda>s. case m s of (Inl e, s') \<Rightarrow> (Inl e, s') | (Inr x, s') \<Rightarrow> f x s')"

definition act_then :: "('s, 'a) act \<Rightarrow> ('s, 'b) act \<Rightarrow> ('s, 'b) act" where
  "act_then m n = act_bind m (\<lambda>_. n)"

fun act_each :: "('x \<Rightarrow> ('s, unit) act) \<Rightarrow> 'x list \<Rightarrow> ('s, unit) act" where
  "act_each f [] = act_ret ()"
| "act_each f (x # xs) = act_then (f x) (act_each f xs)"

text \<open>A loop that carries a value from one round to the next.\<close>

fun act_fold :: "('x \<Rightarrow> 'y \<Rightarrow> ('s, 'y) act) \<Rightarrow> 'x list \<Rightarrow> 'y \<Rightarrow> ('s, 'y) act" where
  "act_fold f [] y = act_ret y"
| "act_fold f (x # xs) y = act_bind (f x y) (act_fold f xs)"

definition act_seq :: "('s, unit) act list \<Rightarrow> ('s, unit) act" where
  "act_seq ms = act_each (\<lambda>m. m) ms"

lemma act_simps [simp]:
  "act_ret x s = (Inr x, s)" "act_raise e s = (Inl e, s)" "act_lift r s = (r, s)"
  "act_get f s = (Inr (f s), s)" "act_do g s = (Inr (), g s)"
  by (simp_all add: act_ret_def act_raise_def act_lift_def act_get_def act_do_def)

lemma act_bind_Inr_iff:
  "act_bind m f s = (Inr y, s'') \<longleftrightarrow> (\<exists>x s'. m s = (Inr x, s') \<and> f x s' = (Inr y, s''))"
  by (auto simp: act_bind_def split: prod.splits sum.splits)

lemma act_bind_run [simp]:
  "m s = (Inr x, s') \<Longrightarrow> act_bind m f s = f x s'" "m s = (Inl e, s') \<Longrightarrow> act_bind m f s = (Inl e, s')"
  "m s = (Inr x, s') \<Longrightarrow> act_then m n s = n s'" "m s = (Inl e, s') \<Longrightarrow> act_then m n s = (Inl e, s')"
  by (simp_all add: act_bind_def act_then_def)

lemma act_bind_basic [simp]:
  "act_bind (act_ret x) f s = f x s" "act_bind (act_lift (Inr x)) f s = f x s"
  "act_bind (act_lift (Inl e)) f s = (Inl e, s)" "act_bind (act_get g) f s = f (g s) s"
  "act_then (act_do g) n s = n (g s)" "act_then (act_ret x) n s = n s"
  by (simp_all add: act_bind_def act_then_def)

lemma act_assoc:
  "act_then (act_then m n) k = act_then m (act_then n k)" "act_bind (act_then m n) f = act_then m (act_bind n f)"
  "act_then (act_bind m g) n = act_bind m (\<lambda>x. act_then (g x) n)" "act_bind (act_bind m g) h = act_bind m (\<lambda>x. act_bind (g x) h)"
  by (auto simp: act_then_def act_bind_def fun_eq_iff split: prod.splits sum.splits)

lemma act_seq_simps [simp]: "act_seq [] = act_ret ()" "act_seq (m # ms) = act_then m (act_seq ms)"
  by (simp_all add: act_seq_def)

section \<open>Properties a method keeps\<close>

definition keeps :: "('s \<Rightarrow> bool) \<Rightarrow> ('s, 'a) act \<Rightarrow> bool" where
  "keeps P m \<longleftrightarrow> (\<forall>s. P s \<longrightarrow> P (snd (m s)))"

lemma keepsD: "keeps P m \<Longrightarrow> P s \<Longrightarrow> m s = (r, s') \<Longrightarrow> P s'"
  by (force simp: keeps_def)

lemma keeps_basic [keeps_rules]:
  "keeps P (act_ret x)" "keeps P (act_raise e)" "keeps P (act_lift r)" "keeps P (act_get f)"
  by (simp_all add: keeps_def)

lemma keeps_do [keeps_rules]: "(\<And>s. P s \<Longrightarrow> P (f s)) \<Longrightarrow> keeps P (act_do f)"
  by (simp add: keeps_def)

lemma keeps_bind [keeps_rules]: "keeps P m \<Longrightarrow> (\<And>x. keeps P (f x)) \<Longrightarrow> keeps P (act_bind m f)"
  by (auto simp: keeps_def act_bind_def split: prod.splits sum.splits)

lemma keeps_then [keeps_rules]: "keeps P m \<Longrightarrow> keeps P n \<Longrightarrow> keeps P (act_then m n)"
  by (simp add: act_then_def keeps_bind)

lemma keeps_each [keeps_rules]: "(\<And>x. x \<in> set xs \<Longrightarrow> keeps P (f x)) \<Longrightarrow> keeps P (act_each f xs)"
  by (induction xs) (auto intro: keeps_rules)

lemma keeps_fold [keeps_rules]: "(\<And>x y. x \<in> set xs \<Longrightarrow> keeps P (f x y)) \<Longrightarrow> keeps P (act_fold f xs y)"
  by (induction xs arbitrary: y) (auto intro: keeps_rules)

lemma keeps_if [keeps_rules]: "(b \<Longrightarrow> keeps P m) \<Longrightarrow> (\<not> b \<Longrightarrow> keeps P n) \<Longrightarrow> keeps P (if b then m else n)"
  by simp

lemma keeps_prod [keeps_rules]: "(\<And>a b. keeps P (f a b)) \<Longrightarrow> keeps P (case x of (a, b) \<Rightarrow> f a b)"
  by (cases x) simp

lemma keeps_let [keeps_rules]: "(\<And>y. keeps P (f y)) \<Longrightarrow> keeps P (Let x f)"
  by simp

text \<open>A look at the state, remembered by what follows.\<close>

lemma keeps_get_bind: "(\<And>x s. P s \<Longrightarrow> x = g s \<Longrightarrow> P (snd (f x s))) \<Longrightarrow> keeps P (act_bind (act_get g) f)"
  by (simp add: keeps_def)

end
