(* ===== verification/GridDraw.thy ===== *)
theory GridDraw
  imports GridData PyState
begin

text \<open>
  What \<open>utils/grid.py\<close> draws: the calls of a cairo context as a list, the legend
  (\<open>TopLegendRenderer\<close>) and the scales (\<open>ScaleRenderer\<close>). The extents of a text come from cairo: they
  are a parameter \<open>ext\<close>, of which the code reads the bearing, the width and the height.

  The attributes a \<open>layout\<close> method sets hold 0 before the first call; the code reads none of them
  before, as \<open>main\<close> calls \<open>set_range\<close>, which lays everything out, before anything is drawn.
\<close>

record text_extents =
  te_y_bearing :: pynum
  te_width :: pynum
  te_height :: pynum

datatype cairo =
    MoveTo pynum pynum
  | LineTo pynum pynum
  | RelLineTo pynum pynum
  | Rectangle pynum pynum pynum pynum
  | ClosePath
  | Stroke
  | StrokePreserve
  | Fill
  | SetSourceRgb pynum pynum pynum
  | SetLineWidth pynum
  | SetOperatorSource
  | SetDash "pynum list" pynum
  | ShowText string
  | Save
  | Restore
  | Translate pynum pynum
  | Clip
  | SetSourceSurface
  | Paint

text \<open>
  The state of a drawing: the calls so far, and the attributes of \<open>TimelinesRenderer\<close> that drawing
  changes: the colours (a look-up can add one) and \<open>grey_background\<close>.
\<close>

record pen =
  pen_out :: "cairo list"
  pen_colors :: colors
  pen_grey :: int

definition emit :: "cairo list \<Rightarrow> (pen, unit) act" where
  "emit cs = act_do (\<lambda>p. p\<lparr>pen_out := pen_out p @ cs\<rparr>)"

definition color_rgb :: "color \<Rightarrow> cairo" where
  "color_rgb c = SetSourceRgb (PyInt (col_r c)) (PyInt (col_g c)) (PyInt (col_b c))"

definition decimal :: "int \<Rightarrow> pynum" where
  "decimal n = PyFloat (of_int n / 10)"

definition light_grey :: cairo where
  "light_grey = SetSourceRgb (decimal 9) (decimal 9) (decimal 9)"

definition black :: cairo where
  "black = SetSourceRgb 0 0 0"

definition all_letters :: string where
  "all_letters = ''ABCDEFGHIJKLMNOPQRSTUVWXYZabcedefghijklmnopqrstuvwxyz0123456789''"

text \<open>Python's \<open>range\<close> with a step.\<close>

definition py_range :: "int \<Rightarrow> int \<Rightarrow> int \<Rightarrow> int list res" where
  "py_range a b step =
     (if step = 0 then Inl ValueError
      else Inr (map (\<lambda>k. a + int k * step)
        [0..<nat (if step > 0 then (b - a + step - 1) div step else (a - b - step - 1) div (- step))]))"

section \<open>The legend\<close>

record top_legend =
  lg_padding :: pynum
  legends :: "string list"
  legend_colors :: "color list"
  lg_width :: pynum
  lg_height :: pynum

definition TopLegendRenderer :: top_legend where
  "TopLegendRenderer = \<lparr>lg_padding = 10, legends = [], legend_colors = [], lg_width = 0, lg_height = 0\<rparr>"

definition set_legends :: "string list \<Rightarrow> color list \<Rightarrow> top_legend \<Rightarrow> top_legend" where
  "set_legends ls cs t = t\<lparr>legends := ls, legend_colors := cs\<rparr>"

text \<open>
  The arithmetic \<open>layout\<close> and \<open>draw\<close> have in common: the place of the next legend, from the height of
  the line, the height above it and the width that is used of it.
\<close>

definition legend_place :: "(string \<Rightarrow> text_extents) \<Rightarrow> pynum \<Rightarrow> pynum \<Rightarrow> string \<Rightarrow> pynum \<times> pynum \<times> pynum
    \<Rightarrow> pynum \<times> (pynum \<times> pynum \<times> pynum)" where
  "legend_place ext padding width legend = (\<lambda>(line_height, total_height, line_used).
     let item_width = padding + padding + te_width (ext legend) + padding;
         item_height = te_height (ext legend) + padding;
         line_height = (if item_height > line_height then item_height else line_height);
         (total_height, line_used) =
           (if line_used + item_width > width then (total_height + line_height, padding + item_width)
            else (total_height, line_used + item_width))
     in (line_used - item_width, (line_height, total_height, line_used)))"

definition legend_layout :: "(string \<Rightarrow> text_extents) \<Rightarrow> pynum \<Rightarrow> top_legend \<Rightarrow> top_legend" where
  "legend_layout ext width t =
     (let (line_height, total_height, line_used) =
        foldl (\<lambda>s legend. snd (legend_place ext (lg_padding t) width legend s)) (0, lg_padding t, lg_padding t) (legends t)
      in t\<lparr>lg_width := width, lg_height := total_height + line_height\<rparr>)"

fun legend_draw_loop :: "(string \<Rightarrow> text_extents) \<Rightarrow> top_legend \<Rightarrow> int \<Rightarrow> string list \<Rightarrow> pynum \<times> pynum \<times> pynum
    \<Rightarrow> (pen, unit) act" where
  "legend_draw_loop ext t i [] s = act_ret ()"
| "legend_draw_loop ext t i (legend # ls) s =
     (let padding = lg_padding t;
          (x, line_height, total_height, line_used) = legend_place ext padding (lg_width t) legend s
      in act_then (emit [Rectangle x total_height padding padding, black, SetLineWidth 2, StrokePreserve])
        (act_bind (act_lift (py_nth (legend_colors t) i)) (\<lambda>c.
         act_then (emit [color_rgb c, Fill, MoveTo (x + padding * 2) (total_height + te_height (ext legend)), black,
             ShowText legend])
           (legend_draw_loop ext t (i + 1) ls (line_height, total_height, line_used)))))"

definition legend_draw :: "(string \<Rightarrow> text_extents) \<Rightarrow> top_legend \<Rightarrow> (pen, unit) act" where
  "legend_draw ext t = legend_draw_loop ext t 0 (legends t) (0, lg_padding t, lg_padding t)"

section \<open>The scales\<close>

record scale =
  sc_top :: int
  sc_lo :: pynum
  sc_hi :: pynum
  sc_delta :: pynum
  sc_width :: pynum
  sc_text_height :: pynum
  sc_height :: pynum

definition ScaleRenderer :: scale where
  "ScaleRenderer = \<lparr>sc_top = 0, sc_lo = 0, sc_hi = 0, sc_delta = 0, sc_width = 0, sc_text_height = 0, sc_height = 0\<rparr>"

definition set_bounds :: "pynum \<Rightarrow> pynum \<Rightarrow> scale \<Rightarrow> scale" where
  "set_bounds lo hi s = s\<lparr>sc_lo := lo, sc_hi := hi\<rparr>"

definition get_position :: "scale \<Rightarrow> pynum \<Rightarrow> pynum res" where
  "get_position s x = n_div ((x - sc_lo s) * sc_width s) (sc_hi s - sc_lo s)"

text \<open>The largest power of ten of which ten are not less than the data; the loop starts at 1.\<close>

function closest_loop :: "int \<Rightarrow> rat \<Rightarrow> int" where
  "closest_loop closest data_delta =
     (if 1 \<le> closest \<and> of_int (closest * 10) < data_delta then closest_loop (closest * 10) data_delta else closest)"
  by pat_completeness auto
termination
proof (relation "measure (\<lambda>(c, d). nat (\<lceil>d\<rceil> - c))")
  fix c :: int and d :: rat
  assume a: "1 \<le> c \<and> of_int (c * 10) < d"
  then have "c * 10 \<le> \<lceil>d\<rceil>" by (metis le_of_int_ceiling less_ceiling_iff less_le_not_le linear)
  then show "((c * 10, d), (c, d)) \<in> measure (\<lambda>(c, d). nat (\<lceil>d\<rceil> - c))" using a by simp
qed simp

declare closest_loop.simps [simp del]

definition scale_delta :: "pynum \<Rightarrow> pynum \<Rightarrow> int res" where
  "scale_delta lo hi =
     (let data_delta = hi - lo; closest = closest_loop 1 (val data_delta)
      in rbind (n_div data_delta (PyInt closest)) (\<lambda>q.
         if val q = 0 then Inr closest
         else rbind (n_div data_delta (PyInt closest)) (\<lambda>q.
         if val q = 1 then Inr (closest div 10) else Inr closest)))"

text \<open>Where the ticks of a distance start and end.\<close>

definition scale_ends :: "pynum \<Rightarrow> pynum \<Rightarrow> pynum \<Rightarrow> (pynum \<times> pynum) res" where
  "scale_ends lo hi delta =
     rbind (n_mod lo delta) (\<lambda>m. rbind (n_mod hi delta) (\<lambda>n. Inr (lo - m + delta, hi - n)))"

definition scale_layout :: "(string \<Rightarrow> text_extents) \<Rightarrow> pynum \<Rightarrow> scale \<Rightarrow> scale res" where
  "scale_layout ext width s =
     rbind (scale_delta (sc_lo s) (sc_hi s)) (\<lambda>delta.
     rbind (scale_ends (sc_lo s) (sc_hi s) (PyInt delta)) (\<lambda>(start, end).
       let max_text_height = te_height (ext all_letters)
       in Inr (s\<lparr>sc_delta := PyInt delta, sc_width := width, sc_text_height := max_text_height,
                 sc_height := max_text_height + 10\<rparr>)))"

definition scale_ticks :: "pynum \<Rightarrow> pynum \<Rightarrow> pynum \<Rightarrow> int list res" where
  "scale_ticks lo hi delta =
     rbind (scale_ends lo hi delta) (\<lambda>(start, end). py_range (n_int start) (n_int (end + delta)) (n_int delta))"

definition draw_tick :: "(string \<Rightarrow> text_extents) \<Rightarrow> scale \<Rightarrow> pynum \<Rightarrow> int \<Rightarrow> (pen, unit) act" where
  "draw_tick ext s dir x =
     act_bind (act_lift (get_position s (PyInt x))) (\<lambda>real_x.
     act_then (emit [MoveTo real_x 0, LineTo real_x (5 * dir), ClosePath, Stroke])
       (let e = ext (show_int x);
            text_delta = (if sc_top s \<noteq> 0 then te_height e + te_y_bearing e else - te_y_bearing e)
        in act_bind (act_lift (n_div (te_width e) 2)) (\<lambda>half.
             emit [MoveTo (real_x - half) ((5 + 5 + text_delta) * dir), ShowText (show_int x)])))"

definition draw_subtick :: "scale \<Rightarrow> pynum \<Rightarrow> int \<Rightarrow> (pen, unit) act" where
  "draw_subtick s dir x =
     act_bind (act_lift (get_position s (PyInt x))) (\<lambda>real_x.
       emit [MoveTo real_x 0, LineTo real_x (3 * dir), ClosePath, Stroke])"

definition scale_draw :: "(string \<Rightarrow> text_extents) \<Rightarrow> scale \<Rightarrow> (pen, unit) act" where
  "scale_draw ext s =
     (let dir = (if sc_top s = 1 then - 1 else 1)
      in act_bind (act_lift (scale_ends (sc_lo s) (sc_hi s) (sc_delta s))) (\<lambda>_.
         act_then (emit [black, SetLineWidth (PyFloat 1)])
        (act_bind (act_lift (scale_ticks (sc_lo s) (sc_hi s) (sc_delta s))) (\<lambda>ticks.
         act_then (act_each (draw_tick ext s dir) ticks)
        (act_bind (act_lift (n_div (sc_delta s) 10)) (\<lambda>delta.
           if delta > 0
           then act_bind (act_lift (scale_ticks (sc_lo s) (sc_hi s) delta)) (act_each (draw_subtick s dir))
           else act_ret ()))))))"

end
