(* ===== verification/GridTimelines.thy ===== *)
theory GridTimelines
  imports GridDraw
begin

text \<open>
  \<open>TimelinesRenderer\<close> of \<open>utils/grid.py\<close>: the rows of events and ranges, laid out and drawn. Its
  padding is 10 all along, an integer, so that half of it is a floor division. The colours that
  drawing looks up, and its count of rows, are in the state of the drawing.
\<close>

record timelines_renderer =
  tr_padding :: int
  tr_timelines :: "timeline list"
  tr_colors :: colors
  tr_start :: pynum
  tr_end :: pynum
  tr_left_width :: pynum
  tr_right_width :: pynum
  tr_text_height :: pynum
  tr_width :: pynum
  tr_height :: pynum

definition TimelinesRenderer :: timelines_renderer where
  "TimelinesRenderer = \<lparr>tr_padding = 10, tr_timelines = [], tr_colors = Colors, tr_start = 0, tr_end = 0,
     tr_left_width = 0, tr_right_width = 0, tr_text_height = 0, tr_width = 0, tr_height = 0\<rparr>"

definition set_timelines :: "timeline list \<Rightarrow> colors \<Rightarrow> timelines_renderer \<Rightarrow> timelines_renderer" where
  "set_timelines ts cs r = r\<lparr>tr_timelines := ts, tr_colors := cs\<rparr>"

definition set_render_range :: "pynum \<Rightarrow> pynum \<Rightarrow> timelines_renderer \<Rightarrow> timelines_renderer" where
  "set_render_range start end r = r\<lparr>tr_start := start, tr_end := end\<rparr>"

definition half_padding :: "timelines_renderer \<Rightarrow> pynum" where
  "half_padding r = PyInt (tr_padding r div 2)"

definition get_data_x_start :: "timelines_renderer \<Rightarrow> pynum" where
  "get_data_x_start r = half_padding r + tr_left_width r + PyInt (tr_padding r) + tr_right_width r + half_padding r"

section \<open>Layout\<close>

text \<open>The names of the rows of a timeline, in the order the widths are taken.\<close>

definition row_names :: "timeline \<Rightarrow> string list" where
  "row_names t = map dr_name (tl_ranges t) @ map ev_name (tl_event_int t) @ map ev_name (tl_event_str t)"

definition widest :: "(string \<Rightarrow> text_extents) \<Rightarrow> string list \<Rightarrow> pynum" where
  "widest ext names = foldl (\<lambda>w s. n_max w (te_width (ext s))) 0 names"

definition count_rows :: "(timeline \<Rightarrow> 'a list) \<Rightarrow> timeline list \<Rightarrow> int" where
  "count_rows f ts = (\<Sum>t\<leftarrow>ts. int (length (f t)))"

definition timelines_layout :: "(string \<Rightarrow> text_extents) \<Rightarrow> pynum \<Rightarrow> timelines_renderer \<Rightarrow> timelines_renderer" where
  "timelines_layout ext width r =
     (let max_text_height = te_height (ext all_letters);
          ts = tr_timelines r;
          padding = PyInt (tr_padding r);
          left_width = widest ext (map tl_name ts);
          right_width = widest ext (concat (map row_names ts));
          left_n_lines = int (length ts);
          range_n = count_rows tl_ranges ts;
          eventint_n = count_rows tl_event_int ts;
          eventstr_n = count_rows tl_event_str ts;
          left_height = PyInt left_n_lines * max_text_height + PyInt (left_n_lines - 1) * padding;
          right_n_lines = range_n + eventint_n + eventstr_n;
          right_height = PyInt (right_n_lines - 1) * padding + PyInt right_n_lines * max_text_height;
          right_data_height = PyInt (eventint_n + eventstr_n) * (max_text_height + 5) + PyInt range_n * 10;
          right_data_height = right_data_height + PyInt (right_n_lines - 1) * padding;
          height = n_max left_height right_height;
          height = n_max height right_data_height
      in r\<lparr>tr_left_width := left_width, tr_right_width := right_width, tr_text_height := max_text_height,
           tr_width := width, tr_height := height + padding\<rparr>)"

section \<open>Drawing one row\<close>

definition draw_line :: "pynum \<Rightarrow> pynum \<Rightarrow> pynum \<Rightarrow> pynum \<Rightarrow> (pen, unit) act" where
  "draw_line x y width height =
     emit [MoveTo x y, RelLineTo width height, ClosePath, SetOperatorSource, SetLineWidth (PyFloat 1), black, Stroke]"

definition draw_background :: "timelines_renderer \<Rightarrow> pynum \<Rightarrow> pynum \<Rightarrow> pynum \<Rightarrow> pynum \<Rightarrow> (pen, unit) act" where
  "draw_background r x y width height =
     act_bind (act_get pen_grey) (\<lambda>g.
       if g mod 2 = 0
       then emit [Rectangle x (y - half_padding r) width (height + PyInt (tr_padding r)), light_grey, Fill]
       else act_ret ())"

definition next_background :: "(pen, unit) act" where
  "next_background = act_do (\<lambda>p. p\<lparr>pen_grey := pen_grey p + 1\<rparr>)"

text \<open>How far into the width a time of the visible window is drawn.\<close>

definition data_offset :: "timelines_renderer \<Rightarrow> pynum \<Rightarrow> pynum \<Rightarrow> pynum res" where
  "data_offset r width t = n_div ((t - tr_start r) * width) (tr_end r - tr_start r)"

fun event_text :: "event_value \<Rightarrow> string" where
  "event_text (StrValue s) = s"
| "event_text (IntValue i) = show_int i"

fun draw_events_loop :: "timelines_renderer \<Rightarrow> pynum \<Rightarrow> pynum \<Rightarrow> pynum \<Rightarrow> int \<Rightarrow> grid_event list \<Rightarrow> (pen, unit) act" where
  "draw_events_loop r x y width last_x_drawn [] = act_ret ()"
| "draw_events_loop r x y width last_x_drawn (event # es) =
     act_bind (act_lift (data_offset r width (PyInt (event_at event)))) (\<lambda>q.
       let real_x = n_int (x + q)
       in if real_x > last_x_drawn + 2
          then act_then (emit [Rectangle (PyInt real_x) y 1 1, SetSourceRgb 1 0 0, Stroke,
                   MoveTo (PyInt real_x) (y + tr_text_height r), black, ShowText (event_text (event_val event))])
                 (draw_events_loop r x y width real_x es)
          else draw_events_loop r x y width last_x_drawn es)"

definition draw_events :: "timelines_renderer \<Rightarrow> event_line \<Rightarrow> pynum \<Rightarrow> pynum \<Rightarrow> pynum \<Rightarrow> pynum \<Rightarrow> (pen, unit) act" where
  "draw_events r v x y width height =
     act_then (draw_background r x y width height)
       (let (lo, hi) = get_events_bounds v (val (tr_start r)) (val (tr_end r))
        in act_then (draw_events_loop r x y width (n_int x) (py_slice (events v) lo hi)) next_background)"

definition pen_lookup :: "string \<Rightarrow> (pen, color) act" where
  "pen_lookup v = (\<lambda>p. case lookup_color v (pen_colors p) of Inl e \<Rightarrow> (Inl e, p)
                      | Inr (c, cs) \<Rightarrow> (Inr c, p\<lparr>pen_colors := cs\<rparr>))"

fun draw_ranges_loop :: "timelines_renderer \<Rightarrow> pynum \<Rightarrow> pynum \<Rightarrow> pynum \<Rightarrow> int \<Rightarrow> data_range list \<Rightarrow> (pen, unit) act" where
  "draw_ranges_loop r x y width last_x_drawn [] = act_ret ()"
| "draw_ranges_loop r x y width last_x_drawn (dr # rs) =
     (let s = n_max (PyInt (range_start dr)) (tr_start r); e = n_min (PyInt (range_end dr)) (tr_end r)
      in act_bind (act_lift (data_offset r width s)) (\<lambda>qs.
         act_bind (act_lift (data_offset r width e)) (\<lambda>qe.
           let x_start = n_int (x + qs); x_end = n_int (x + qe)
           in if x_end > last_x_drawn
              then act_then (emit [Rectangle (PyInt x_start) y (PyInt (x_end - x_start)) 10, black, StrokePreserve])
                    (act_bind (pen_lookup (range_value dr)) (\<lambda>color.
                     act_then (emit [color_rgb color, Fill]) (draw_ranges_loop r x y width x_end rs)))
              else draw_ranges_loop r x y width last_x_drawn rs)))"

definition draw_ranges :: "timelines_renderer \<Rightarrow> data_ranges \<Rightarrow> pynum \<Rightarrow> pynum \<Rightarrow> pynum \<Rightarrow> pynum \<Rightarrow> (pen, unit) act" where
  "draw_ranges r d x y width height =
     act_then (draw_background r x y width height)
       (let (lo, hi) = get_ranges_bounds d (val (tr_start r)) (val (tr_end r))
        in act_then (draw_ranges_loop r x y width (n_int (x - 1)) (py_slice (ranges d) lo hi)) next_background)"

section \<open>Drawing all rows\<close>

definition draw_name :: "(string \<Rightarrow> text_extents) \<Rightarrow> timelines_renderer \<Rightarrow> pynum \<Rightarrow> pynum \<Rightarrow> string \<Rightarrow> (pen, unit) act" where
  "draw_name ext r x cur_y nm =
     emit [MoveTo x (cur_y + tr_text_height r - (te_height (ext nm) + te_y_bearing (ext nm))), ShowText nm]"

text \<open>A row, drawn at a height, gives the height of the next one.\<close>

definition left_x_start :: "timelines_renderer \<Rightarrow> pynum" where
  "left_x_start r = half_padding r"

definition left_x_end :: "timelines_renderer \<Rightarrow> pynum" where
  "left_x_end r = left_x_start r + tr_left_width r"

definition right_x_start :: "timelines_renderer \<Rightarrow> pynum" where
  "right_x_start r = left_x_end r + PyInt (tr_padding r)"

definition right_x_end :: "timelines_renderer \<Rightarrow> pynum" where
  "right_x_end r = right_x_start r + tr_right_width r"

definition data_x_start :: "timelines_renderer \<Rightarrow> pynum" where
  "data_x_start r = right_x_end r + half_padding r"

definition end_row :: "timelines_renderer \<Rightarrow> pynum \<Rightarrow> (pen, pynum) act" where
  "end_row r cur_y =
     act_then (draw_line (right_x_start r - half_padding r) (cur_y - half_padding r)
                 (tr_right_width r + PyInt (tr_padding r)) 0) (act_ret cur_y)"

definition draw_event_row :: "(string \<Rightarrow> text_extents) \<Rightarrow> timelines_renderer \<Rightarrow> event_line \<Rightarrow> pynum \<Rightarrow> (pen, pynum) act" where
  "draw_event_row ext r v cur_y =
     act_then (draw_name ext r (right_x_start r) cur_y (ev_name v))
    (act_then (draw_events r v (data_x_start r) cur_y (tr_width r - data_x_start r) (tr_text_height r + 5))
       (end_row r (cur_y + (tr_text_height r + 5 + PyInt (tr_padding r)))))"

definition draw_range_row :: "(string \<Rightarrow> text_extents) \<Rightarrow> timelines_renderer \<Rightarrow> data_ranges \<Rightarrow> pynum \<Rightarrow> (pen, pynum) act" where
  "draw_range_row ext r d cur_y =
     act_then (draw_name ext r (right_x_start r) cur_y (dr_name d))
    (act_then (draw_ranges r d (data_x_start r) cur_y (tr_width r - data_x_start r) 10)
       (end_row r (cur_y + (tr_text_height r + PyInt (tr_padding r)))))"

definition draw_timeline :: "(string \<Rightarrow> text_extents) \<Rightarrow> timelines_renderer \<Rightarrow> timeline \<Rightarrow> pynum \<Rightarrow> (pen, pynum) act" where
  "draw_timeline ext r t cur_y =
     act_then (draw_name ext r (left_x_start r) cur_y (tl_name t))
    (act_bind (act_fold (draw_event_row ext r) (tl_event_int t) cur_y) (\<lambda>cur_y.
     act_bind (act_fold (draw_event_row ext r) (tl_event_str t) cur_y) (\<lambda>cur_y.
     act_bind (act_fold (draw_range_row ext r) (tl_ranges t) cur_y) (\<lambda>cur_y.
     act_then (draw_line 0 (cur_y - half_padding r) (tr_width r) 0) (act_ret cur_y)))))"

definition timelines_draw :: "(string \<Rightarrow> text_extents) \<Rightarrow> timelines_renderer \<Rightarrow> (pen, unit) act" where
  "timelines_draw ext r =
     act_then (draw_line 0 0 (tr_width r) 0)
    (act_then (act_do (\<lambda>p. p\<lparr>pen_grey := 1\<rparr>))
    (act_bind (act_fold (draw_timeline ext r) (tr_timelines r) (half_padding r)) (\<lambda>cur_y.
       let bot_y = cur_y - half_padding r
       in act_then (draw_line (left_x_end r + half_padding r) 0 0 bot_y)
            (draw_line (right_x_end r + half_padding r) 0 0 bot_y))))"

end
