(* ===== verification/GridGraphic.thy ===== *)
theory GridGraphic
  imports GridTimelines
begin

text \<open>
  \<open>GraphicRenderer\<close> of \<open>utils/grid.py\<close>, which puts the legend, the rows and two scales together and
  holds the visible window, and the start of \<open>main\<close>.
\<close>

record graphic =
  g_start :: pynum
  g_end :: pynum
  g_mid :: scale
  g_bot :: scale
  g_width :: pynum
  g_height :: pynum
  g_legend :: top_legend
  g_data :: timelines_renderer
  r_start :: pynum
  r_end :: pynum

definition GraphicRenderer :: "pynum \<Rightarrow> pynum \<Rightarrow> graphic" where
  "GraphicRenderer start end =
     \<lparr>g_start = n_float start, g_end = n_float end, g_mid = ScaleRenderer\<lparr>sc_top := 1\<rparr>,
      g_bot = set_bounds start end (ScaleRenderer\<lparr>sc_top := 0\<rparr>), g_width = 1, g_height = 1,
      g_legend = TopLegendRenderer, g_data = TimelinesRenderer, r_start = 0, r_end = 0\<rparr>"

definition get_data_rectangle :: "graphic \<Rightarrow> pynum \<times> pynum \<times> pynum \<times> pynum" where
  "get_data_rectangle g =
     (let y_start = lg_height (g_legend g); x_start = get_data_x_start (g_data g)
      in (x_start, y_start, g_width g - x_start, tr_height (g_data g)))"

definition scale_data :: "graphic \<Rightarrow> pynum \<Rightarrow> pynum res" where
  "scale_data g x =
     (let x_start = get_data_x_start (g_data g)
      in rbind (n_div x (g_width g - x_start)) (\<lambda>q. Inr (q * (r_end g - r_start g))))"

definition get_selection_rectangle :: "graphic \<Rightarrow> (pynum \<times> pynum \<times> pynum \<times> pynum) res" where
  "get_selection_rectangle g =
     (let y_start = lg_height (g_legend g) + tr_height (g_data g) + sc_height (g_mid g) + 20;
          y_height = sc_height (g_bot g) + 20
      in rbind (get_position (g_bot g) (r_start g)) (\<lambda>x_start.
         rbind (get_position (g_bot g) (r_end g)) (\<lambda>x_end.
           Inr (x_start, y_start, x_end - x_start, y_height))))"

definition scale_selection :: "graphic \<Rightarrow> pynum \<Rightarrow> pynum res" where
  "scale_selection g x = rbind (n_div x (g_width g)) (\<lambda>q. Inr (q * (g_end g - g_start g)))"

text \<open>
  The layouts of the parts, one after the other: where a scale cannot be laid out, what was laid out
  before stays.
\<close>

definition graphic_layout :: "(string \<Rightarrow> text_extents) \<Rightarrow> pynum \<Rightarrow> pynum \<Rightarrow> (graphic, unit) act" where
  "graphic_layout ext width height =
     act_then (act_do (\<lambda>g. g\<lparr>g_width := width, g_height := height, g_legend := legend_layout ext width (g_legend g),
                 g_data := timelines_layout ext width (g_data g)\<rparr>))
    (act_bind (act_get (\<lambda>g. scale_layout ext (width - get_data_x_start (g_data g)) (g_mid g))) (\<lambda>mid.
     act_bind (act_lift mid) (\<lambda>mid.
     act_then (act_do (\<lambda>g. g\<lparr>g_mid := mid\<rparr>))
    (act_bind (act_get (\<lambda>g. scale_layout ext width (g_bot g))) (\<lambda>bot.
     act_bind (act_lift bot) (\<lambda>bot.
     act_do (\<lambda>g. g\<lparr>g_bot := bot\<rparr>)))))))"

definition show_range :: "pynum \<Rightarrow> pynum \<Rightarrow> graphic \<Rightarrow> graphic" where
  "show_range start end g =
     (let s = n_min start end; e = n_max start end; start = n_max (g_start g) s; end = n_min (g_end g) e
      in g\<lparr>r_start := start, r_end := end, g_data := set_render_range start end (g_data g),
           g_mid := set_bounds start end (g_mid g)\<rparr>)"

definition set_range :: "(string \<Rightarrow> text_extents) \<Rightarrow> pynum \<Rightarrow> pynum \<Rightarrow> (graphic, unit) act" where
  "set_range ext start end =
     act_then (act_do (show_range start end))
    (act_bind (act_get (\<lambda>g. (g_width g, g_height g))) (\<lambda>(w, h). graphic_layout ext w h))"

section \<open>Drawing\<close>

definition draw_frame :: "(string \<Rightarrow> text_extents) \<Rightarrow> graphic \<Rightarrow> (pen, unit) act" where
  "draw_frame ext g =
     (let top_legend_height = lg_height (g_legend g);
          x = get_data_x_start (g_data g);
          height_used = top_legend_height + tr_height (g_data g) + sc_height (g_mid g)
      in act_seq
       [emit [Save, SetSourceRgb 1 1 1, SetOperatorSource, Rectangle 0 0 (g_width g) (g_height g), Fill],
        emit [Save], legend_draw ext (g_legend g), emit [Restore],
        emit [MoveTo 0 top_legend_height, LineTo (g_width g) top_legend_height, ClosePath, SetLineWidth 2, black, Stroke],
        emit [Save, Translate 0 top_legend_height], timelines_draw ext (g_data g), emit [Restore],
        emit [Save, Translate x height_used], scale_draw ext (g_mid g), emit [Restore],
        emit [MoveTo x height_used, RelLineTo 0 (- sc_height (g_mid g)), ClosePath, black, SetLineWidth 2, Stroke],
        emit [MoveTo 0 height_used, LineTo (g_width g) height_used, ClosePath, SetLineWidth 2, black, Stroke]])"

definition draw_connections :: "graphic \<Rightarrow> pynum \<Rightarrow> pynum \<Rightarrow> pynum \<Rightarrow> (pen, unit) act" where
  "draw_connections g height_used select_start select_end =
     emit [MoveTo 0 height_used, LineTo (get_data_x_start (g_data g)) height_used, LineTo select_start (height_used + 20),
           LineTo 0 (height_used + 20), LineTo 0 height_used, black, SetLineWidth 1, StrokePreserve, light_grey, Fill,
           MoveTo (g_width g) height_used, LineTo (g_width g) (height_used + 20), LineTo select_end (height_used + 20),
           LineTo (g_width g) height_used, black, SetLineWidth 1, StrokePreserve, light_grey, Fill]"

definition draw_unused :: "graphic \<Rightarrow> pynum \<Rightarrow> pynum \<Rightarrow> pynum \<Rightarrow> (pen, unit) act" where
  "draw_unused g height_used unused_start unused_end =
     (let unused_height = sc_height (g_bot g) + 20; width = g_width g
      in emit [Rectangle 0 height_used unused_start unused_height,
               Rectangle unused_end height_used (width - unused_end) unused_height, light_grey, Fill,
               MoveTo unused_end height_used, LineTo width height_used, LineTo width (height_used + unused_height),
               LineTo 0 (height_used + unused_height), LineTo 0 height_used, LineTo unused_start height_used, ClosePath,
               SetLineWidth 2, black, Stroke,
               MoveTo unused_start height_used, LineTo unused_end height_used, ClosePath, SetLineWidth 1, light_grey, Stroke,
               Save, MoveTo (n_max unused_start 2) height_used, RelLineTo 0 unused_height,
               MoveTo (n_min unused_end (width - 2)) height_used, RelLineTo 0 unused_height, SetDash [5] 0, black,
               SetLineWidth 1, Stroke, Restore])"

definition graphic_draw :: "(string \<Rightarrow> text_extents) \<Rightarrow> graphic \<Rightarrow> (pen, unit) act" where
  "graphic_draw ext g =
     (let height_used = lg_height (g_legend g) + tr_height (g_data g) + sc_height (g_mid g)
      in act_then (draw_frame ext g)
        (act_bind (act_lift (get_position (g_bot g) (r_start g))) (\<lambda>select_start.
         act_bind (act_lift (get_position (g_bot g) (r_end g))) (\<lambda>select_end.
         act_seq
          [draw_connections g height_used select_start select_end,
           draw_unused g (height_used + 20) select_start select_end,
           emit [Save, Translate 0 (height_used + 20)], scale_draw ext (g_bot g), emit [Restore]]))))"

section \<open>main, up to the window\<close>

definition default_range :: "int \<Rightarrow> int \<Rightarrow> pynum \<times> pynum" where
  "default_range lower_bound upper_bound =
     (let range_mid = (upper_bound - lower_bound) div 2;
          range_width = (upper_bound - lower_bound) div 10
      in (PyInt (range_mid - range_width div 2), PyInt (range_mid + range_width div 2)))"

definition main_graphic :: "(string \<Rightarrow> text_extents) \<Rightarrow> (string list \<Rightarrow> string list) \<Rightarrow> string list \<Rightarrow> graphic res" where
  "main_graphic ext ord lines =
     (let (colors, timelines) = read_data lines;
          (lower_bound, upper_bound) = get_bounds timelines;
          g = GraphicRenderer (PyInt lower_bound) (PyInt upper_bound);
          range_values = get_all_range_values ord timelines
      in rbind (lookup_all range_values colors) (\<lambda>(range_colors, colors).
         let g = g\<lparr>g_legend := set_legends range_values range_colors TopLegendRenderer,
                   g_data := set_timelines timelines colors TimelinesRenderer\<rparr>;
             (range_lo, range_hi) = default_range lower_bound upper_bound
         in case set_range ext range_lo range_hi g of (Inl e, g) \<Rightarrow> Inl e | (Inr u, g) \<Rightarrow> Inr g))"

end
