(* ===== verification/GridUi.thy ===== *)
theory GridUi
  imports GridGraphic
begin

text \<open>
  \<open>GtkGraphicRenderer\<close> of \<open>utils/grid.py\<close>, the widget of the viewer: its handlers as methods that
  change the widget and can raise, the events of the toolkit, and the states a session reaches. An
  exception in a handler ends the handler; the toolkit prints it and goes on with the next event.
  The coordinates of an event are floats, the sizes of an allocation are integers. An attribute
  that the code may read before it is set is an option; \<open>moving_right\<close> is a number, as one handler
  stores the width there.
\<close>

record ui =
  u_graphic :: graphic
  moving_left :: bool
  moving_right :: pynum
  moving_both :: bool
  moving_top :: bool
  moving_left_cur :: "pynum option"
  moving_right_cur :: "pynum option"
  moving_both_start :: "pynum option"
  moving_both_cur :: "pynum option"
  moving_top_start :: "pynum option"
  moving_top_cur :: "pynum option"
  force_full_redraw :: bool
  u_width :: "pynum option"
  u_height :: "pynum option"
  buffer_surface :: "cairo list option"
  u_window :: "cairo list"
  u_cursor :: "string option"
  u_files :: "(string \<times> cairo list) list"

definition GtkGraphicRenderer :: "graphic \<Rightarrow> ui" where
  "GtkGraphicRenderer data =
     \<lparr>u_graphic = data, moving_left = False, moving_right = 0, moving_both = False, moving_top = False,
      moving_left_cur = None, moving_right_cur = None, moving_both_start = None, moving_both_cur = None,
      moving_top_start = None, moving_top_cur = None, force_full_redraw = True, u_width = None, u_height = None,
      buffer_surface = None, u_window = [], u_cursor = None, u_files = []\<rparr>"

text \<open>Reading an attribute that may not be there; a method of the graphic run on the widget.\<close>

definition u_attr :: "(ui \<Rightarrow> 'a option) \<Rightarrow> (ui, 'a) act" where
  "u_attr f = (\<lambda>u. case f u of None \<Rightarrow> (Inl AttributeError, u) | Some x \<Rightarrow> (Inr x, u))"

definition on_graphic :: "(graphic, 'a) act \<Rightarrow> (ui, 'a) act" where
  "on_graphic m = (\<lambda>u. case m (u_graphic u) of (r, g) \<Rightarrow> (r, u\<lparr>u_graphic := g\<rparr>))"

definition ask :: "(graphic \<Rightarrow> 'a res) \<Rightarrow> (ui, 'a) act" where
  "ask f = (\<lambda>u. (f (u_graphic u), u))"

definition u_range :: "(ui, pynum \<times> pynum) act" where
  "u_range = act_get (\<lambda>u. (r_start (u_graphic u), r_end (u_graphic u)))"

text \<open>The asking for a redraw of all: \<open>queue_draw\<close> itself only makes the toolkit send an expose event.\<close>

definition force_redraw :: "(ui, unit) act" where
  "force_redraw = act_do (\<lambda>u. u\<lparr>force_full_redraw := True\<rparr>)"

definition set_smaller_zoom :: "(string \<Rightarrow> text_extents) \<Rightarrow> (ui, unit) act" where
  "set_smaller_zoom ext =
     act_bind u_range (\<lambda>(start, end).
     act_then (on_graphic (set_range ext start (start + (end - start) * 2))) force_redraw)"

definition set_bigger_zoom :: "(string \<Rightarrow> text_extents) \<Rightarrow> (ui, unit) act" where
  "set_bigger_zoom ext =
     act_bind u_range (\<lambda>(start, end).
     act_bind (act_lift (n_div (end - start) 2)) (\<lambda>half.
     act_then (on_graphic (set_range ext start (start + half))) force_redraw))"

section \<open>Drawing into the buffer\<close>

text \<open>Draws the graphic on the buffer surface, after what it holds; a look-up may change the colours.\<close>

definition draw_buffer :: "(string \<Rightarrow> text_extents) \<Rightarrow> (ui, unit) act" where
  "draw_buffer ext =
     act_bind (u_attr buffer_surface) (\<lambda>b. \<lambda>u.
       let g = u_graphic u
       in case graphic_draw ext g \<lparr>pen_out = b, pen_colors = tr_colors (g_data g), pen_grey = 1\<rparr> of
            (r, p) \<Rightarrow> (r, u\<lparr>buffer_surface := Some (pen_out p),
                            u_graphic := g\<lparr>g_data := (g_data g)\<lparr>tr_colors := pen_colors p\<rparr>\<rparr>\<rparr>))"

text \<open>The surface that is written is a new one; the drawing goes to the buffer.\<close>

definition output_png :: "(string \<Rightarrow> text_extents) \<Rightarrow> string \<Rightarrow> (ui, unit) act" where
  "output_png ext filename =
     (let surface = []
      in act_then (draw_buffer ext) (act_do (\<lambda>u. u\<lparr>u_files := u_files u @ [(filename, surface)]\<rparr>)))"

definition cursor_line :: "pynum \<Rightarrow> pynum \<Rightarrow> pynum \<Rightarrow> cairo list" where
  "cursor_line x y height = [MoveTo x y, RelLineTo 0 height, ClosePath, SetLineWidth 1, black, Stroke]"

definition on_window :: "cairo list \<Rightarrow> (ui, unit) act" where
  "on_window cs = act_do (\<lambda>u. u\<lparr>u_window := u_window u @ cs\<rparr>)"

definition expose :: "(string \<Rightarrow> text_extents) \<Rightarrow> pynum \<times> pynum \<times> pynum \<times> pynum \<Rightarrow> (ui, bool) act" where
  "expose ext area =
     (let (ax, ay, aw, ah) = area
      in act_then (act_bind (act_get force_full_redraw) (\<lambda>full.
           if full then act_then (act_do (\<lambda>u. u\<lparr>buffer_surface := Some []\<rparr>))
                       (act_then (draw_buffer ext) (act_do (\<lambda>u. u\<lparr>force_full_redraw := False\<rparr>)))
           else act_ret ()))
        (act_then (on_window [Rectangle ax ay aw ah, Clip])
        (act_then (u_attr buffer_surface)
        (act_then (on_window [SetSourceSurface, Paint])
        (act_bind (ask get_selection_rectangle) (\<lambda>(x, y, width, height).
         act_then (act_bind (act_get moving_left) (\<lambda>b. if b
            then act_bind (u_attr moving_left_cur) (\<lambda>cur. on_window (cursor_line (n_max cur 2) y height))
            else act_ret ()))
        (act_then (act_bind (act_get moving_right) (\<lambda>m. if val m \<noteq> 0
            then act_bind (u_attr moving_right_cur) (\<lambda>cur.
                 act_bind (u_attr u_width) (\<lambda>w. on_window (cursor_line (n_min cur (w - 2)) y height)))
            else act_ret ()))
        (act_then (act_bind (act_get moving_both) (\<lambda>b. if b
            then act_bind (u_attr moving_both_cur) (\<lambda>cur.
                 act_bind (u_attr moving_both_start) (\<lambda>start.
                   let delta_x = cur - start
                   in on_window [MoveTo (x + delta_x) y, RelLineTo 0 height, ClosePath,
                        MoveTo (x + width + delta_x) y, RelLineTo 0 height, ClosePath, black, SetLineWidth 1, Stroke]))
            else act_ret ()))
         (act_ret False)))))))))"

section \<open>The mouse\<close>

definition button_press :: "pynum \<Rightarrow> pynum \<Rightarrow> (ui, bool) act" where
  "button_press ex ey =
     act_bind (ask get_selection_rectangle) (\<lambda>(x, y, width, height).
     act_bind (ask (\<lambda>g. Inr (get_data_rectangle g))) (\<lambda>(d_x, d_y, d_width, d_height).
       if ey > y \<and> ey < y + height \<and> n_abs (ex - x) < 5
       then act_then (act_do (\<lambda>u. u\<lparr>moving_left := True\<rparr>)) (act_ret True)
       else if ey > y \<and> ey < y + height \<and> n_abs (ex - (x + width)) < 5
       then act_then (act_do (\<lambda>u. u\<lparr>moving_right := 1\<rparr>)) (act_ret True)
       else if ey > y \<and> ey < y + height \<and> ex > x \<and> ex < x + width
       then act_then (act_do (\<lambda>u. u\<lparr>moving_both := True, moving_both_start := Some ex, moving_both_cur := Some ex\<rparr>))
              (act_ret True)
       else if ey > d_y \<and> ey < d_y + d_height \<and> ex > d_x \<and> ex < d_x + d_width
       then act_then (act_do (\<lambda>u. u\<lparr>moving_top := True, moving_top_start := Some ex, moving_top_cur := Some ex\<rparr>))
              (act_ret True)
       else act_ret False))"

definition release_left :: "(string \<Rightarrow> text_extents) \<Rightarrow> (ui, bool) act" where
  "release_left ext =
     act_then (act_do (\<lambda>u. u\<lparr>moving_left := False\<rparr>))
    (act_bind (u_attr moving_left_cur) (\<lambda>cur.
     act_bind (ask (\<lambda>g. scale_selection g cur)) (\<lambda>left.
     act_bind u_range (\<lambda>(start, right).
     act_then (on_graphic (set_range ext left right)) (act_then force_redraw (act_ret True))))))"

definition release_right :: "(string \<Rightarrow> text_extents) \<Rightarrow> (ui, bool) act" where
  "release_right ext =
     act_then (act_do (\<lambda>u. u\<lparr>moving_right := 0\<rparr>))
    (act_bind (u_attr moving_right_cur) (\<lambda>cur.
     act_bind (ask (\<lambda>g. scale_selection g cur)) (\<lambda>right.
     act_bind u_range (\<lambda>(left, end).
     act_then (on_graphic (set_range ext left right)) (act_then force_redraw (act_ret True))))))"

definition release_both :: "(string \<Rightarrow> text_extents) \<Rightarrow> (ui, bool) act" where
  "release_both ext =
     act_then (act_do (\<lambda>u. u\<lparr>moving_both := False\<rparr>))
    (act_bind (u_attr moving_both_cur) (\<lambda>cur. act_bind (u_attr moving_both_start) (\<lambda>start.
     act_bind (ask (\<lambda>g. scale_selection g (cur - start))) (\<lambda>delta.
     act_bind u_range (\<lambda>(left, right).
     act_then (on_graphic (set_range ext (left + delta) (right + delta))) (act_then force_redraw (act_ret True)))))))"

definition button_release :: "(string \<Rightarrow> text_extents) \<Rightarrow> (ui, bool) act" where
  "button_release ext =
     act_bind (act_get (\<lambda>u. u)) (\<lambda>u.
       if moving_left u then release_left ext
       else if val (moving_right u) \<noteq> 0 then release_right ext
       else if moving_both u then release_both ext
       else act_then (act_do (\<lambda>u. u\<lparr>moving_top := False\<rparr>)) (act_ret False))"

text \<open>The part of the window that is redrawn while an edge moves needs the width of the widget.\<close>

definition queue_draw_area :: "(ui, bool) act" where
  "queue_draw_area = act_bind (u_attr u_width) (\<lambda>w. act_ret True)"

definition motion_left :: "pynum \<Rightarrow> pynum \<Rightarrow> pynum \<Rightarrow> (ui, bool) act" where
  "motion_left x width ex =
     act_then (act_do (\<lambda>u. u\<lparr>moving_left_cur := Some (if ex \<le> 0 then 0 else if ex \<ge> x + width then x + width else ex)\<rparr>))
       queue_draw_area"

definition motion_right :: "pynum \<Rightarrow> pynum \<Rightarrow> (ui, bool) act" where
  "motion_right x ex =
     act_bind (u_attr u_width) (\<lambda>w.
     act_then (act_do (\<lambda>u. if ex \<ge> w then u\<lparr>moving_right := w\<rparr>
                           else if ex < x then u\<lparr>moving_right_cur := Some x\<rparr>
                           else u\<lparr>moving_right_cur := Some ex\<rparr>))
       queue_draw_area)"

definition motion_both :: "pynum \<Rightarrow> pynum \<Rightarrow> pynum \<Rightarrow> (ui, bool) act" where
  "motion_both x width ex =
     act_bind (u_attr u_width) (\<lambda>w. act_bind (u_attr moving_both_start) (\<lambda>start.
       let cur_e = w - (x + width - start); cur_s = start - x
       in act_then (act_do (\<lambda>u. u\<lparr>moving_both_cur := Some (if ex < cur_s then cur_s else if ex > cur_e then cur_e else ex)\<rparr>))
            queue_draw_area))"

definition motion_top :: "(string \<Rightarrow> text_extents) \<Rightarrow> pynum \<Rightarrow> (ui, bool) act" where
  "motion_top ext ex =
     act_then (act_do (\<lambda>u. u\<lparr>moving_top_cur := Some ex\<rparr>))
    (act_bind (u_attr moving_top_start) (\<lambda>start.
     act_bind (ask (\<lambda>g. scale_data g (start - ex))) (\<lambda>delta.
     act_bind u_range (\<lambda>(left, right).
     act_then (on_graphic (set_range ext (left + delta) (right + delta)))
    (act_then force_redraw
    (act_then (act_do (\<lambda>u. u\<lparr>moving_top_start := Some ex\<rparr>)) (act_ret True)))))))"

definition set_cursor :: "string option \<Rightarrow> bool \<Rightarrow> (ui, bool) act" where
  "set_cursor c b = act_then (act_do (\<lambda>u. u\<lparr>u_cursor := c\<rparr>)) (act_ret b)"

definition motion_notify :: "(string \<Rightarrow> text_extents) \<Rightarrow> pynum \<Rightarrow> pynum \<Rightarrow> (ui, bool) act" where
  "motion_notify ext ex ey =
     act_bind (ask get_selection_rectangle) (\<lambda>(x, y, width, height).
     act_bind (act_get (\<lambda>u. u)) (\<lambda>u.
       if moving_left u then motion_left x width ex
       else if val (moving_right u) \<noteq> 0 then motion_right x ex
       else if moving_both u then motion_both x width ex
       else if moving_top u then motion_top ext ex
       else
         act_bind (ask (\<lambda>g. Inr (get_data_rectangle g))) (\<lambda>(d_x, d_y, d_width, d_height).
           if ey > y \<and> ey < y + height \<and> (n_abs (ex - x) < 5 \<or> n_abs (ex - (x + width)) < 5)
           then set_cursor (Some ''SB_H_DOUBLE_ARROW'') True
           else if ey > y \<and> ey < y + height \<and> ex > x \<and> ex < x + width
           then set_cursor (Some ''FLEUR'') True
           else if ey > d_y \<and> ey < d_y + d_height \<and> ex > d_x \<and> ex < d_x + d_width
           then set_cursor (Some ''FLEUR'') True
           else set_cursor None False)))"

definition size_allocate :: "(string \<Rightarrow> text_extents) \<Rightarrow> pynum \<Rightarrow> pynum \<Rightarrow> (ui, unit) act" where
  "size_allocate ext width height =
     act_then (act_do (\<lambda>u. u\<lparr>u_width := Some width, u_height := Some height\<rparr>))
    (act_then (on_graphic (graphic_layout ext width height)) force_redraw)"

section \<open>Sessions\<close>

datatype ui_event =
    ZoomOut
  | ZoomIn
  | OutputPng string
  | Press rat rat
  | Release
  | Motion rat rat
  | Allocate int int
  | Expose int int int int

fun handle_event :: "(string \<Rightarrow> text_extents) \<Rightarrow> ui_event \<Rightarrow> (ui, bool) act" where
  "handle_event ext ZoomOut = act_then (set_smaller_zoom ext) (act_ret False)"
| "handle_event ext ZoomIn = act_then (set_bigger_zoom ext) (act_ret False)"
| "handle_event ext (OutputPng f) = act_then (output_png ext f) (act_ret False)"
| "handle_event ext (Press x y) = button_press (PyFloat x) (PyFloat y)"
| "handle_event ext Release = button_release ext"
| "handle_event ext (Motion x y) = motion_notify ext (PyFloat x) (PyFloat y)"
| "handle_event ext (Allocate w h) = act_then (size_allocate ext (PyInt w) (PyInt h)) (act_ret False)"
| "handle_event ext (Expose x y w h) = expose ext (PyInt x, PyInt y, PyInt w, PyInt h)"

inductive reaches :: "(string \<Rightarrow> text_extents) \<Rightarrow> ui \<Rightarrow> ui \<Rightarrow> bool" for ext u0 where
  start: "reaches ext u0 u0"
| event: "reaches ext u0 u \<Longrightarrow> handle_event ext e u = (r, u') \<Longrightarrow> reaches ext u0 u'"

definition session :: "(string \<Rightarrow> text_extents) \<Rightarrow> ui_event list \<Rightarrow> ui \<Rightarrow> ui" where
  "session ext es u = foldl (\<lambda>u e. snd (handle_event ext e u)) u es"

end
