(* ===== verification/GridDataProofs.thy ===== *)
theory GridDataProofs
  imports GridData
begin

text \<open>
  Lemmas on the data of \<open>utils/grid.py\<close>: the two binary searches, what the rows of \<open>read_data\<close> hold,
  the bounds, and the supply of colours.
\<close>

section \<open>The search among ranges\<close>

text \<open>Ranges in order that do not overlap; neighbours may touch.\<close>

definition in_line :: "data_range list \<Rightarrow> bool" where
  "in_line rs \<longleftrightarrow> sorted_wrt (\<lambda>a b. range_end a \<le> range_start b) rs \<and> (\<forall>r \<in> set rs. range_start r \<le> range_end r)"

definition holds_key :: "rat \<Rightarrow> data_range \<Rightarrow> bool" where
  "holds_key key r \<longleftrightarrow> of_int (range_start r) \<le> key \<and> key \<le> of_int (range_end r)"

lemma in_line_before: "in_line rs \<Longrightarrow> i < j \<Longrightarrow> j < length rs \<Longrightarrow> range_end (rs ! i) \<le> range_start (rs ! j)"
  by (simp add: in_line_def sorted_wrt_iff_nth_less)

lemma in_line_range: "in_line rs \<Longrightarrow> i < length rs \<Longrightarrow> range_start (rs ! i) \<le> range_end (rs ! i)"
  by (simp add: in_line_def)

lemma in_line_mono:
  assumes "in_line rs" "i \<le> j" "j < length rs"
  shows "range_start (rs ! i) \<le> range_start (rs ! j)" "range_end (rs ! i) \<le> range_end (rs ! j)"
  using in_line_before[OF assms(1), of i j] in_line_range[OF assms(1), of i] in_line_range[OF assms(1), of j] assms
  by (cases "i = j"; force)+

lemma range_search_loop_spec:
  "in_line rs \<Longrightarrow> 0 \<le> l \<Longrightarrow> u < int (length rs) \<Longrightarrow> l \<le> u + 1 \<Longrightarrow>
   (\<forall>i < length rs. int i < l \<longrightarrow> of_int (range_end (rs ! i)) < key) \<Longrightarrow>
   (\<forall>i < length rs. u < int i \<longrightarrow> key < of_int (range_start (rs ! i))) \<Longrightarrow>
   (let r = range_search_loop rs key l u
    in if r = -1 then \<not> (\<exists>x \<in> set rs. holds_key key x)
       else 0 \<le> r \<and> nat r < length rs \<and> holds_key key (rs ! nat r))"
proof (induction rs key l u rule: range_search_loop.induct)
  case (1 rs key l u)
  define i where "i = (l + u) div 2"
  show ?case
  proof (cases "l \<le> u")
    case False
    have "\<not> holds_key key (rs ! j)" if "j < length rs" for j
      using False 1(6,7,8) that by (cases "int j < l") (force simp: holds_key_def)+
    then have "\<not> (\<exists>x \<in> set rs. holds_key key x)" by (metis in_set_conv_nth)
    then show ?thesis using False by (simp add: range_search_loop.simps[of rs key l u])
  next
    case lu: True
    then have i: "l \<le> i" "i \<le> u" by (simp_all add: i_def)
    then have len: "nat i < length rs" using 1(4,5) by simp
    show ?thesis
    proof (cases "holds_key key (rs ! nat i)")
      case True
      then have "range_search_loop rs key l u = i"
        by (simp add: range_search_loop.simps[of rs key l u] lu holds_key_def i_def[symmetric])
      then show ?thesis using True i 1(4) len by simp
    next
      case no: False
      show ?thesis
      proof (cases "key < of_int (range_start (rs ! nat i))")
        case True
        have up: "\<forall>j < length rs. i - 1 < int j \<longrightarrow> key < of_int (range_start (rs ! j))"
        proof clarify
          fix j assume j: "j < length rs" "i - 1 < int j"
          then show "key < of_int (range_start (rs ! j))"
            using True in_line_mono(1)[OF 1(3), of "nat i" j] by (force intro: less_le_trans simp: nat_le_iff)
        qed
        have "range_search_loop rs key l u = range_search_loop rs key l (i - 1)"
          using True no lu by (simp add: range_search_loop.simps[of rs key l u] Let_def holds_key_def i_def[symmetric])
        moreover have "\<not> (of_int (range_start (rs ! nat i)) \<le> key \<and> key \<le> of_int (range_end (rs ! nat i)))"
          using no by (simp add: holds_key_def)
        ultimately show ?thesis
          using 1(1)[OF lu i_def refl _ True 1(3,4) _ _ 1(7) up] i 1(5) by simp
      next
        case False
        then have gt: "of_int (range_end (rs ! nat i)) < key" using no by (simp add: holds_key_def)
        have dn: "\<forall>j < length rs. int j < i + 1 \<longrightarrow> of_int (range_end (rs ! j)) < key"
        proof clarify
          fix j assume j: "j < length rs" "int j < i + 1"
          then have "range_end (rs ! j) \<le> range_end (rs ! nat i)"
            using in_line_mono(2)[OF 1(3), of j "nat i"] len by simp
          then show "of_int (range_end (rs ! j)) < key" using gt by (metis le_less_trans of_int_le_iff)
        qed
        have "range_search_loop rs key l u = range_search_loop rs key (i + 1) u"
          using False no lu by (simp add: range_search_loop.simps[of rs key l u] Let_def holds_key_def i_def[symmetric])
        moreover have "\<not> (of_int (range_start (rs ! nat i)) \<le> key \<and> key \<le> of_int (range_end (rs ! nat i)))"
          using no by (simp add: holds_key_def)
        ultimately show ?thesis
          using 1(2)[OF lu i_def refl _ False 1(3) _ 1(5) _ dn 1(8)] i 1(4) by simp
      qed
    qed
  qed
qed

lemma range_search_spec:
  assumes "in_line (ranges d)"
  shows "if range_search d key = -1 then \<not> (\<exists>r \<in> set (ranges d). holds_key key r)
    else 0 \<le> range_search d key \<and> nat (range_search d key) < length (ranges d)
         \<and> holds_key key (ranges d ! nat (range_search d key))"
  using range_search_loop_spec[of "ranges d" 0 "int (length (ranges d)) - 1" key] assms
  by (simp add: range_search_def Let_def split: if_splits)

section \<open>The visible ranges\<close>

definition crosses :: "rat \<Rightarrow> rat \<Rightarrow> data_range \<Rightarrow> bool" where
  "crosses start stop r \<longleftrightarrow> of_int (range_start r) < stop \<and> start < of_int (range_end r)"

lemma ranges_bounds_window:
  assumes line: "in_line (ranges d)" and b: "get_ranges_bounds d start stop = (lo, hi)"
  shows "hi \<le> length (ranges d)"
    and "\<not> (\<exists>r \<in> set (ranges d). holds_key start r \<or> holds_key stop r) \<Longrightarrow> lo = 0 \<and> hi = 0"
    and "\<exists>r \<in> set (ranges d). holds_key start r \<or> holds_key stop r \<Longrightarrow>
         i < length (ranges d) \<Longrightarrow> crosses start stop (ranges d ! i) \<Longrightarrow> lo \<le> i \<and> i < hi"
proof -
  define s e where "s = range_search d start" and "e = range_search d stop"
  note S = range_search_spec[OF line, of start, folded s_def] and E = range_search_spec[OF line, of stop, folded e_def]
  have b': "(lo, hi) = (if s = -1 \<and> e = -1 then (0, 0) else if s = -1 then (0, nat (e + 1))
      else if e = -1 then (nat s, length (ranges d)) else (nat s, nat (e + 1)))"
    using b unfolding get_ranges_bounds_def s_def e_def Let_def by (rule sym)
  show "hi \<le> length (ranges d)" using b' S E by (auto split: if_splits)
  show "lo = 0 \<and> hi = 0" if "\<not> (\<exists>r \<in> set (ranges d). holds_key start r \<or> holds_key stop r)"
    using b' S E that by (auto split: if_splits)
  assume ex: "\<exists>r \<in> set (ranges d). holds_key start r \<or> holds_key stop r"
    and i: "i < length (ranges d)" and c: "crosses start stop (ranges d ! i)"
  have "nat s \<le> i" if "s \<noteq> -1"
  proof (rule ccontr)
    assume "\<not> nat s \<le> i"
    then have "range_end (ranges d ! i) \<le> range_start (ranges d ! nat s)"
      using S that in_line_before[OF line, of i "nat s"] by simp
    then show False using S that c by (force simp: holds_key_def crosses_def)
  qed
  moreover have "i < nat (e + 1)" if "e \<noteq> -1"
  proof (rule ccontr)
    assume "\<not> i < nat (e + 1)"
    then have "nat e < i" using E that by (simp add: nat_add_distrib)
    then have "range_end (ranges d ! nat e) \<le> range_start (ranges d ! i)"
      using i in_line_before[OF line, of "nat e" i] by simp
    then show False using E that c by (force simp: holds_key_def crosses_def)
  qed
  moreover have "\<not> (s = -1 \<and> e = -1)" using S E ex by auto
  ultimately show "lo \<le> i \<and> i < hi" using b' i by (auto split: if_splits)
qed

lemma filter_window:
  assumes "\<And>i. P (xs ! i) \<Longrightarrow> i < length xs \<Longrightarrow> lo \<le> i \<and> i < hi"
  shows "filter P (drop lo (take hi xs)) = filter P xs"
proof -
  have "filter P (drop hi xs) = []" using assms[of "hi + i" for i] by (fastforce simp: filter_empty_conv in_set_conv_nth)
  moreover have "filter P (take lo (take hi xs)) = []" using assms by (fastforce simp: filter_empty_conv in_set_conv_nth)
  ultimately show ?thesis by (metis append_take_drop_id filter_append self_append_conv self_append_conv2)
qed

lemma get_ranges_slice: "get_ranges_bounds d start stop = (lo, hi) \<Longrightarrow> get_ranges d start stop = py_slice (ranges d) lo hi"
  by (auto simp: get_ranges_bounds_def get_ranges_def Let_def py_slice_def split: if_splits)

section \<open>The search among events\<close>

definition strictly_timed :: "grid_event list \<Rightarrow> bool" where
  "strictly_timed es \<longleftrightarrow> sorted_wrt (\<lambda>a b. event_at a < event_at b) es"

lemma strictly_timed_less: "strictly_timed es \<Longrightarrow> i < j \<Longrightarrow> j < length es \<Longrightarrow> event_at (es ! i) < event_at (es ! j)"
  by (simp add: strictly_timed_def sorted_wrt_iff_nth_less)

lemma event_search_loop_spec:
  "strictly_timed es \<Longrightarrow> 0 \<le> l \<Longrightarrow> u < int (length es) \<Longrightarrow> l \<le> u + 1 \<Longrightarrow>
   (\<forall>i < length es. int i < l \<longrightarrow> of_int (event_at (es ! i)) < key) \<Longrightarrow>
   (\<forall>i < length es. u < int i \<longrightarrow> key < of_int (event_at (es ! i))) \<Longrightarrow>
   (let r = event_search_loop es key l u
    in 0 \<le> r \<and> nat r \<le> length es
       \<and> (\<forall>i < length es. i < nat r \<longleftrightarrow> of_int (event_at (es ! i)) < key))"
proof (induction es key l u rule: event_search_loop.induct)
  case (1 es key l u)
  define i where "i = (l + u) div 2"
  show ?case
  proof (cases "l \<le> u")
    case False
    then have "event_search_loop es key l u = l" by (simp add: event_search_loop.simps[of es key l u])
    moreover have "j < nat l \<longleftrightarrow> of_int (event_at (es ! j)) < key" if "j < length es" for j
      using False 1(6,7,8) that by (cases "int j < l") force+
    ultimately show ?thesis using False 1(4,5,6) by (simp add: Let_def)
  next
    case lu: True
    then have i: "l \<le> i" "i \<le> u" by (simp_all add: i_def)
    then have len: "nat i < length es" "0 \<le> i" using 1(4,5) by simp_all
    define t :: rat where "t = of_int (event_at (es ! nat i))"
    have less: "event_at (es ! j) < event_at (es ! nat i)" if "int j < i" for j
      using strictly_timed_less[OF 1(3), of j "nat i"] that len by simp
    have more: "event_at (es ! nat i) < event_at (es ! j)" if "i < int j" "j < length es" for j
      using strictly_timed_less[OF 1(3), of "nat i" j] that len by simp
    consider "key = t" | "key < t" | "t < key" by fastforce
    then show ?thesis
    proof cases
      case 1
      then have "event_search_loop es key l u = i"
        by (subst event_search_loop.simps) (simp add: lu Let_def i_def[symmetric] t_def)
      moreover have "j < nat i \<longleftrightarrow> of_int (event_at (es ! j)) < key" if "j < length es" for j
        using less[of j] more[of j] that 1 by (cases "int j" i rule: linorder_cases) (auto simp: t_def)
      ultimately show ?thesis using len by simp
    next
      case 2
      have up: "\<forall>j < length es. i - 1 < int j \<longrightarrow> key < of_int (event_at (es ! j))"
      proof clarify
        fix j assume j: "j < length es" "i - 1 < int j"
        show "key < of_int (event_at (es ! j))"
          using more[of j] j 2 by (cases "int j = i") (force simp: t_def)+
      qed
      have "event_search_loop es key l u = event_search_loop es key l (i - 1)"
        using 2 lu by (simp add: event_search_loop.simps[of es key l u] Let_def i_def[symmetric] t_def)
      then show ?thesis
        using 1(1)[OF lu i_def t_def _ 2 1(3,4) _ _ 1(7) up] 2 i 1(5) by simp
    next
      case 3
      have dn: "\<forall>j < length es. int j < i + 1 \<longrightarrow> of_int (event_at (es ! j)) < key"
      proof clarify
        fix j assume j: "j < length es" "int j < i + 1"
        show "of_int (event_at (es ! j)) < key"
          using less[of j] j 3 by (cases "int j = i") (force simp: t_def)+
      qed
      have "event_search_loop es key l u = event_search_loop es key (i + 1) u"
        using 3 lu by (simp add: event_search_loop.simps[of es key l u] Let_def i_def[symmetric] t_def)
      then show ?thesis
        using 1(2)[OF lu i_def t_def _ _ 1(3) _ 1(5) _ dn 1(8)] 3 i 1(4) by simp
    qed
  qed
qed

lemma event_search_spec:
  assumes "strictly_timed (events v)"
  shows "0 \<le> event_search v key" "nat (event_search v key) \<le> length (events v)"
    "i < length (events v) \<Longrightarrow> i < nat (event_search v key) \<longleftrightarrow> of_int (event_at (events v ! i)) < key"
  using event_search_loop_spec[of "events v" 0 "int (length (events v)) - 1" key] assms
  by (simp_all add: event_search_def Let_def)

text \<open>A list split at a key: what is before it, and what is not.\<close>

lemma timed_filter_take:
  assumes "\<And>i. i < length es \<Longrightarrow> i < n \<longleftrightarrow> P (es ! i)" "n \<le> length es"
  shows "filter P es = take n es" "filter (\<lambda>e. \<not> P e) es = drop n es"
proof -
  have t: "\<forall>x \<in> set (take n es). P x" using assms(2) by (auto simp: in_set_conv_nth assms(1)[symmetric])
  have d: "\<forall>x \<in> set (drop n es). \<not> P x"
    by (auto simp: in_set_conv_nth assms(1)[symmetric] dest!: assms(1)[THEN iffD2, rotated])
  have split: "filter Q es = filter Q (take n es) @ filter Q (drop n es)" for Q
    by (metis append_take_drop_id filter_append)
  have "filter P (take n es) = take n es" "filter P (drop n es) = []"
    "filter (\<lambda>e. \<not> P e) (take n es) = []" "filter (\<lambda>e. \<not> P e) (drop n es) = drop n es"
    using t d by (simp_all add: filter_id_conv filter_empty_conv)
  then show "filter P es = take n es" "filter (\<lambda>e. \<not> P e) es = drop n es"
    using split by simp_all
qed

lemma get_events_window:
  assumes timed: "strictly_timed (events v)" and le: "start \<le> stop"
  shows "get_events v start stop =
     filter (\<lambda>e. start \<le> of_int (event_at e) \<and> of_int (event_at e) \<le> stop) (events v)
     @ (if \<exists>e \<in> set (events v). of_int (event_at e) = stop then []
        else take 1 (filter (\<lambda>e. stop < of_int (event_at e)) (events v)))"
proof -
  let ?es = "events v"
  define m n where "m = nat (event_search v start)" and "n = nat (event_search v stop)"
  note M = event_search_spec(2)[OF timed, of start, folded m_def] event_search_spec(3)[OF timed, of _ start, folded m_def]
  note N = event_search_spec(3)[OF timed, of _ stop, folded n_def]
  have nl: "n \<le> length ?es" using event_search_spec(2)[OF timed, of stop] by (simp add: n_def)
  have mn: "m \<le> n"
  proof (rule ccontr)
    assume "\<not> m \<le> n"
    then have "n < length ?es" "n < m" using M(1) by simp_all
    then show False using M(2)[of n] N[of n] le by simp
  qed
  have get: "get_events v start stop = drop m (take (n + 1) ?es)"
    using event_search_spec(1)[OF timed, of stop] by (simp add: get_events_def py_slice_def m_def n_def nat_add_distrib)
  have low: "filter (\<lambda>e. of_int (event_at e) < stop) ?es = take n ?es"
    "filter (\<lambda>e. \<not> of_int (event_at e) < stop) ?es = drop n ?es"
    using timed_filter_take[of ?es n "\<lambda>e. of_int (event_at e) < stop"] N nl by blast+
  have late: "filter (\<lambda>e. \<not> of_int (event_at e) < start) ?es = drop m ?es"
    using timed_filter_take[of ?es m "\<lambda>e. of_int (event_at e) < start"] M(1,2) by blast
  have inner: "filter (\<lambda>e. start \<le> of_int (event_at e) \<and> of_int (event_at e) < stop) ?es = drop m (take n ?es)"
  proof -
    have "filter (\<lambda>e. start \<le> of_int (event_at e) \<and> of_int (event_at e) < stop) ?es
        = filter (\<lambda>e. of_int (event_at e) < stop) (drop m ?es)"
      by (simp add: late[symmetric] not_less conj_commute)
    also have "\<dots> = take (n - m) (drop m ?es)"
    proof (rule timed_filter_take(1))
      show "i < n - m \<longleftrightarrow> of_int (event_at (drop m ?es ! i)) < stop" if "i < length (drop m ?es)" for i
      proof -
        have "m + i < length ?es" using that by simp
        then have "m + i < n \<longleftrightarrow> of_int (event_at (?es ! (m + i))) < stop" by (rule N)
        then show ?thesis using that by (auto simp: add.commute)
      qed
    qed (use nl in simp)
    finally show ?thesis by (simp add: drop_take)
  qed
  have win: "filter (\<lambda>e. start \<le> of_int (event_at e) \<and> of_int (event_at e) \<le> stop) ?es
      = drop m (take n ?es) @ filter (\<lambda>e. of_int (event_at e) = stop) (drop n ?es)"
  proof -
    have parts: "filter Q ?es = filter Q (take n ?es) @ filter Q (drop n ?es)" for Q
      by (metis append_take_drop_id filter_append)
    have tn: "of_int (event_at e) < stop" if "e \<in> set (take n ?es)" for e using that unfolding low(1)[symmetric] by simp
    have dn: "\<not> of_int (event_at e) < stop" if "e \<in> set (drop n ?es)" for e using that unfolding low(2)[symmetric] by simp
    let ?W = "\<lambda>e. start \<le> of_int (event_at e) \<and> of_int (event_at e) \<le> stop"
    let ?V = "\<lambda>e. start \<le> of_int (event_at e) \<and> of_int (event_at e) < stop"
    have "filter ?W (take n ?es) = filter ?V (take n ?es)" using tn by (force intro: filter_cong)
    moreover have "filter ?V (drop n ?es) = []" using dn by (auto simp: filter_empty_conv)
    moreover have "filter ?W (drop n ?es) = filter (\<lambda>e. of_int (event_at e) = stop) (drop n ?es)"
      using dn le by (force intro: filter_cong)
    ultimately show ?thesis using inner parts[of ?W] parts[of ?V] by simp
  qed
  show ?thesis
  proof (cases "n < length ?es")
    case False
    then have "drop n ?es = []" "take (n + 1) ?es = take n ?es" using nl by simp_all
    moreover have "filter (\<lambda>e. stop < of_int (event_at e)) ?es = []" "\<not> (\<exists>e \<in> set ?es. of_int (event_at e) = stop)"
      using low(2) \<open>drop n ?es = []\<close> by (auto simp: filter_empty_conv)
    ultimately show ?thesis using get win by simp
  next
    case True
    let ?x = "?es ! n"
    have x: "drop n ?es = ?x # drop (n + 1) ?es" "take (n + 1) ?es = take n ?es @ [?x]"
      using True by (simp_all add: Cons_nth_drop_Suc take_Suc_conv_app_nth)
    have ge: "stop \<le> of_int (event_at ?x)" using N[OF True] by simp
    have gt: "of_int (event_at ?x) < (of_int (event_at e) :: rat)" if "e \<in> set (drop (n + 1) ?es)" for e
      using that strictly_timed_less[OF timed, of n] by (auto simp: in_set_conv_nth)
    have rest: "filter (\<lambda>e. of_int (event_at e) = stop) (drop (n + 1) ?es) = []"
      using gt ge by (force simp: filter_empty_conv)
    have some: "(\<exists>e \<in> set ?es. of_int (event_at e) = stop) \<longleftrightarrow> of_int (event_at ?x) = stop"
    proof
      assume "\<exists>e \<in> set ?es. of_int (event_at e) = stop"
      then have "filter (\<lambda>e. of_int (event_at e) = stop) (filter (\<lambda>e. \<not> of_int (event_at e) < stop) ?es) \<noteq> []"
        by (auto simp: filter_empty_conv)
      then show "of_int (event_at ?x) = stop" using rest unfolding low(2) x(1) by (simp split: if_splits)
    qed (use True nth_mem in blast)
    have after: "filter (\<lambda>e. stop < of_int (event_at e)) ?es = filter (\<lambda>e. stop < of_int (event_at e)) (drop n ?es)"
      unfolding low(2)[symmetric] by (auto intro!: filter_cong)
    show ?thesis
    proof (cases "of_int (event_at ?x) = stop")
      case True
      then show ?thesis using get win rest some mn nl unfolding x by simp
    next
      case False
      then have "stop < of_int (event_at ?x)" using ge by simp
      then show ?thesis using get win rest some after mn nl False unfolding x by simp
    qed
  qed
qed

section \<open>Rows found by name\<close>

lemma get_named_Cons:
  "get_named name_of new nm (x # xs) =
     (if name_of x = nm then (0, x # xs) else (case get_named name_of new nm xs of (i, ys) \<Rightarrow> (Suc i, x # ys)))"
  by (auto simp: get_named_def)

definition named_row :: "('b \<Rightarrow> string) \<Rightarrow> (string \<Rightarrow> 'b) \<Rightarrow> string \<Rightarrow> 'b list \<Rightarrow> 'b" where
  "named_row name_of new nm xs = (case find (\<lambda>x. name_of x = nm) xs of None \<Rightarrow> new nm | Some x \<Rightarrow> x)"

text \<open>
  What the look-ups of the timelines and of their rows share: the object of a name is the first of
  that name in the list, or a new one. The locale has the law of the constructor; its lemmas say
  what a look-up followed by a change of the object does to the object of each name.
\<close>

locale named_rows =
  fixes name_of :: "'b \<Rightarrow> string" and new :: "string \<Rightarrow> 'b"
  assumes name_new: "name_of (new nm) = nm"
begin

lemma row_Nil [simp]: "named_row name_of new nm [] = new nm"
  by (simp add: named_row_def)

lemma row_Cons: "named_row name_of new nm (x # xs) = (if name_of x = nm then x else named_row name_of new nm xs)"
  by (simp add: named_row_def)

lemma row_name: "name_of (named_row name_of new nm xs) = nm"
  by (induction xs) (simp_all add: row_Cons name_new)

lemma get_named_row:
  "get_named name_of new nm xs = (i, ys) \<Longrightarrow> i < length ys \<and> ys ! i = named_row name_of new nm xs
     \<and> (name_of y = nm \<longrightarrow> named_row name_of new m (ys[i := y]) = (if m = nm then y else named_row name_of new m xs))"
proof (induction xs arbitrary: i ys)
  case Nil
  then show ?case by (auto simp: get_named_def row_Cons)
next
  case (Cons x xs)
  obtain j zs where j: "get_named name_of new nm xs = (j, zs)" by fastforce
  show ?case
  proof (cases "name_of x = nm")
    case True
    then show ?thesis using Cons.prems by (auto simp: get_named_Cons row_Cons)
  next
    case False
    then have "i = Suc j" "ys = x # zs" using Cons.prems j by (simp_all add: get_named_Cons)
    then show ?thesis using Cons.IH[OF j] False by (auto simp: row_Cons)
  qed
qed

lemma get_named_names:
  "get_named name_of new nm xs = (i, ys) \<Longrightarrow>
     i < length ys \<and> name_of (ys ! i) = nm \<and> (distinct (map name_of xs) \<longrightarrow> distinct (map name_of ys))
     \<and> set (map name_of ys) = insert nm (set (map name_of xs))"
proof (induction xs arbitrary: i ys)
  case Nil
  then show ?case by (auto simp: get_named_def name_new)
next
  case (Cons x xs)
  obtain j zs where j: "get_named name_of new nm xs = (j, zs)" by fastforce
  show ?case
  proof (cases "name_of x = nm")
    case True
    then show ?thesis using Cons.prems by (auto simp: get_named_Cons)
  next
    case False
    then have "i = Suc j" "ys = x # zs" using Cons.prems j by (simp_all add: get_named_Cons)
    then show ?thesis using Cons.IH[OF j] False by auto
  qed
qed

lemma get_named_distinct:
  assumes "get_named name_of new nm xs = (i, ys)" "distinct (map name_of xs)" "name_of y = nm"
  shows "distinct (map name_of (ys[i := y]))"
  using get_named_names[OF assms(1)] assms(2,3) by (metis length_map list_update_id map_update nth_map)

lemma row_map: "(\<And>x. name_of (f x) = name_of x) \<Longrightarrow> f (new nm) = new nm \<Longrightarrow> named_row name_of new nm (map f xs) = f (named_row name_of new nm xs)"
  by (induction xs) (simp_all add: row_Cons)

lemma row_mem: "distinct (map name_of xs) \<Longrightarrow> x \<in> set xs \<Longrightarrow> named_row name_of new (name_of x) xs = x"
  by (induction xs) (auto simp: row_Cons image_iff)

end

interpretation rng: named_rows dr_name TimelineDataRange
  by unfold_locales (simp add: TimelineDataRange_def)

interpretation evt: named_rows ev_name TimelineEvent
  by unfold_locales (simp add: TimelineEvent_def)

interpretation tml: named_rows tl_name Timeline
  by unfold_locales (simp add: Timeline_def)

section \<open>What read_data holds\<close>

abbreviation row_of_timeline :: "timeline list \<Rightarrow> string \<Rightarrow> timeline" where
  "row_of_timeline ts tn \<equiv> named_row tl_name Timeline tn ts"

definition ranges_of :: "timeline list \<Rightarrow> string \<Rightarrow> string \<Rightarrow> data_range list" where
  "ranges_of ts tn rn = ranges (named_row dr_name TimelineDataRange rn (tl_ranges (row_of_timeline ts tn)))"

definition events_str_of :: "timeline list \<Rightarrow> string \<Rightarrow> string \<Rightarrow> grid_event list" where
  "events_str_of ts tn en = events (named_row ev_name TimelineEvent en (tl_event_str (row_of_timeline ts tn)))"

definition events_int_of :: "timeline list \<Rightarrow> string \<Rightarrow> string \<Rightarrow> grid_event list" where
  "events_int_of ts tn en = events (named_row ev_name TimelineEvent en (tl_event_int (row_of_timeline ts tn)))"

text \<open>What one line has for a row.\<close>

fun line_ranges :: "string \<Rightarrow> string \<Rightarrow> data_line \<Rightarrow> data_range list" where
  "line_ranges tn rn (RangeLine a b v s e) =
     (if a = tn \<and> b = rn then [\<lparr>range_start = s, range_end = e, range_value = v\<rparr>] else [])"
| "line_ranges tn rn _ = []"

fun line_events_str :: "string \<Rightarrow> string \<Rightarrow> data_line \<Rightarrow> grid_event list" where
  "line_events_str tn en (EventStrLine a b v t) =
     (if a = tn \<and> b = en then [\<lparr>event_at = t, event_val = StrValue v\<rparr>] else [])"
| "line_events_str tn en _ = []"

fun line_events_int :: "string \<Rightarrow> string \<Rightarrow> data_line \<Rightarrow> grid_event list" where
  "line_events_int tn en (EventIntLine a b v t) =
     (if a = tn \<and> b = en then [\<lparr>event_at = t, event_val = IntValue v\<rparr>] else [])"
| "line_events_int tn en _ = []"

lemma get_rows_name [simp]:
  "get_range rn t = (j, t') \<Longrightarrow> tl_name t' = tl_name t"
  "get_event_str en t = (j, t') \<Longrightarrow> tl_name t' = tl_name t"
  "get_event_int en t = (j, t') \<Longrightarrow> tl_name t' = tl_name t"
  by (auto simp: get_range_def get_event_str_def get_event_int_def split: prod.splits)

lemma add_names [simp]: "dr_name (add_range r d) = dr_name d" "ranges (add_range r d) = ranges d @ [r]"
  "ev_name (add_event e v) = ev_name v" "events (add_event e v) = events v @ [e]"
  by (simp_all add: add_range_def add_event_def)

text \<open>The timeline a line goes to, before and after.\<close>

lemma update_timeline:
  assumes "get_timeline tn ts = (i, ts')" "tl_name y = tn"
  shows "ts' ! i = row_of_timeline ts tn"
    "row_of_timeline (ts'[i := y]) m = (if m = tn then y else row_of_timeline ts m)"
  using tml.get_named_row[of tn ts i ts' y m] assms by (simp_all add: get_timeline_def)

lemma timeline_name: "tl_name (row_of_timeline ts tn) = tn"
  by (rule tml.row_name)

lemma apply_line_rows:
  assumes "apply_line d (cs, ts) = (cs', ts')"
  shows "ranges_of ts' tn n = ranges_of ts tn n @ line_ranges tn n d"
    and "events_str_of ts' tn n = events_str_of ts tn n @ line_events_str tn n d"
    and "events_int_of ts' tn n = events_int_of ts tn n @ line_events_int tn n d"
proof -
  have "ranges_of ts' tn n = ranges_of ts tn n @ line_ranges tn n d
    \<and> events_str_of ts' tn n = events_str_of ts tn n @ line_events_str tn n d
    \<and> events_int_of ts' tn n = events_int_of ts tn n @ line_events_int tn n d"
  proof (cases d)
    case (RangeLine a b v s e)
    obtain i us where i: "get_timeline a ts = (i, us)" by fastforce
    have ui: "us ! i = row_of_timeline ts a" using update_timeline(1)[OF i timeline_name] .
    obtain j rs where j: "get_named dr_name TimelineDataRange b (tl_ranges (row_of_timeline ts a)) = (j, rs)" by fastforce
    define r where "r = \<lparr>range_start = s, range_end = e, range_value = v\<rparr>"
    define y where "y = (row_of_timeline ts a)\<lparr>tl_ranges := rs[j := add_range r (rs ! j)]\<rparr>"
    have ts': "ts' = us[i := y]" using assms i ui j by (simp add: RangeLine get_range_def y_def r_def)
    have R: "rs ! j = named_row dr_name TimelineDataRange b (tl_ranges (row_of_timeline ts a))"
      using rng.get_named_row[OF j] by blast
    have "named_row dr_name TimelineDataRange n (rs[j := add_range r (rs ! j)])
        = (if n = b then add_range r (rs ! j) else named_row dr_name TimelineDataRange n (tl_ranges (row_of_timeline ts a)))"
      using rng.get_named_row[OF j, of "add_range r (rs ! j)" n] R rng.row_name[of b] by simp
    moreover have "row_of_timeline ts' tn = (if tn = a then y else row_of_timeline ts tn)"
      unfolding ts' by (rule update_timeline(2)[OF i]) (simp add: y_def timeline_name)
    ultimately show ?thesis
      using R by (auto simp: RangeLine ranges_of_def events_str_of_def events_int_of_def y_def r_def)
  next
    case (EventStrLine a b v s)
    obtain i us where i: "get_timeline a ts = (i, us)" by fastforce
    have ui: "us ! i = row_of_timeline ts a" using update_timeline(1)[OF i timeline_name] .
    obtain j es where j: "get_named ev_name TimelineEvent b (tl_event_str (row_of_timeline ts a)) = (j, es)" by fastforce
    define r where "r = \<lparr>event_at = s, event_val = StrValue v\<rparr>"
    define y where "y = (row_of_timeline ts a)\<lparr>tl_event_str := es[j := add_event r (es ! j)]\<rparr>"
    have ts': "ts' = us[i := y]" using assms i ui j by (simp add: EventStrLine get_event_str_def y_def r_def)
    have R: "es ! j = named_row ev_name TimelineEvent b (tl_event_str (row_of_timeline ts a))"
      using evt.get_named_row[OF j] by blast
    have "named_row ev_name TimelineEvent n (es[j := add_event r (es ! j)])
        = (if n = b then add_event r (es ! j) else named_row ev_name TimelineEvent n (tl_event_str (row_of_timeline ts a)))"
      using evt.get_named_row[OF j, of "add_event r (es ! j)" n] R evt.row_name[of b] by simp
    moreover have "row_of_timeline ts' tn = (if tn = a then y else row_of_timeline ts tn)"
      unfolding ts' by (rule update_timeline(2)[OF i]) (simp add: y_def timeline_name)
    ultimately show ?thesis
      using R by (auto simp: EventStrLine ranges_of_def events_str_of_def events_int_of_def y_def r_def)
  next
    case (EventIntLine a b v s)
    obtain i us where i: "get_timeline a ts = (i, us)" by fastforce
    have ui: "us ! i = row_of_timeline ts a" using update_timeline(1)[OF i timeline_name] .
    obtain j es where j: "get_named ev_name TimelineEvent b (tl_event_int (row_of_timeline ts a)) = (j, es)" by fastforce
    define r where "r = \<lparr>event_at = s, event_val = IntValue v\<rparr>"
    define y where "y = (row_of_timeline ts a)\<lparr>tl_event_int := es[j := add_event r (es ! j)]\<rparr>"
    have ts': "ts' = us[i := y]" using assms i ui j by (simp add: EventIntLine get_event_int_def y_def r_def)
    have R: "es ! j = named_row ev_name TimelineEvent b (tl_event_int (row_of_timeline ts a))"
      using evt.get_named_row[OF j] by blast
    have "named_row ev_name TimelineEvent n (es[j := add_event r (es ! j)])
        = (if n = b then add_event r (es ! j) else named_row ev_name TimelineEvent n (tl_event_int (row_of_timeline ts a)))"
      using evt.get_named_row[OF j, of "add_event r (es ! j)" n] R evt.row_name[of b] by simp
    moreover have "row_of_timeline ts' tn = (if tn = a then y else row_of_timeline ts tn)"
      unfolding ts' by (rule update_timeline(2)[OF i]) (simp add: y_def timeline_name)
    ultimately show ?thesis
      using R by (auto simp: EventIntLine ranges_of_def events_str_of_def events_int_of_def y_def r_def)
  next
    case (ColorLine a b c e)
    then show ?thesis using assms by simp
  qed
  then show "ranges_of ts' tn n = ranges_of ts tn n @ line_ranges tn n d"
    "events_str_of ts' tn n = events_str_of ts tn n @ line_events_str tn n d"
    "events_int_of ts' tn n = events_int_of ts tn n @ line_events_int tn n d" by blast+
qed


text \<open>What a list of lines has for a row; lines that match nothing have nothing.\<close>

definition data_lines :: "string list \<Rightarrow> data_line list" where
  "data_lines lines = List.map_filter parse_data_line lines"

lemma data_lines_simps [simp]: "data_lines [] = []"
  "data_lines (l # ls) = (case parse_data_line l of None \<Rightarrow> data_lines ls | Some d \<Rightarrow> d # data_lines ls)"
  by (auto simp: data_lines_def List.map_filter_def split: option.splits)

lemma read_lines_rows:
  "foldl read_line (cs, ts) lines = (cs', ts') \<Longrightarrow>
     ranges_of ts' tn n = ranges_of ts tn n @ concat (map (line_ranges tn n) (data_lines lines))
   \<and> events_str_of ts' tn n = events_str_of ts tn n @ concat (map (line_events_str tn n) (data_lines lines))
   \<and> events_int_of ts' tn n = events_int_of ts tn n @ concat (map (line_events_int tn n) (data_lines lines))"
proof (induction lines arbitrary: cs ts)
  case (Cons l ls)
  show ?case
  proof (cases "parse_data_line l")
    case None
    then show ?thesis using Cons by (simp add: read_line_def)
  next
    case (Some d)
    obtain c1 t1 where 1: "apply_line d (cs, ts) = (c1, t1)" by fastforce
    then have "foldl read_line (c1, t1) ls = (cs', ts')" using Cons.prems Some by (simp add: read_line_def[of _ l])
    from Cons.IH[OF this] show ?thesis using apply_line_rows[OF 1, of tn n] Some by simp
  qed
qed simp

lemma range_order: "ranges_cmp a b \<le> 0 \<longleftrightarrow> range_start a \<le> range_start b"
  by (simp add: ranges_cmp_def Let_def)

lemma event_order: "events_cmp a b \<le> 0 \<longleftrightarrow> event_at a \<le> event_at b"
  by (simp add: events_cmp_def Let_def)

lemma sort_rows: "ranges (sort_ranges d) = sort_key range_start (ranges d)"
  "events (sort_events v) = sort_key event_at (events v)"
  by (simp_all add: sort_ranges_def sort_events_def cmp_sort_key[OF range_order] cmp_sort_key[OF event_order])

lemma sort_timelines_rows:
  "ranges_of (sort_timelines ts) tn n = sort_key range_start (ranges_of ts tn n)"
  "events_str_of (sort_timelines ts) tn n = sort_key event_at (events_str_of ts tn n)"
  "events_int_of (sort_timelines ts) tn n = sort_key event_at (events_int_of ts tn n)"
proof -
  have t: "row_of_timeline (sort_timelines ts) tn = sort_timeline (row_of_timeline ts tn)"
    unfolding sort_timelines_def by (rule tml.row_map) (simp_all add: sort_timeline_def Timeline_def)
  have r: "named_row dr_name TimelineDataRange n (map sort_ranges ds) = sort_ranges (named_row dr_name TimelineDataRange n ds)" for ds
    by (rule rng.row_map) (simp_all add: sort_ranges_def TimelineDataRange_def cmp_sort_def)
  have e: "named_row ev_name TimelineEvent n (map sort_events es) = sort_events (named_row ev_name TimelineEvent n es)" for es
    by (rule evt.row_map) (simp_all add: sort_events_def TimelineEvent_def cmp_sort_def)
  show "ranges_of (sort_timelines ts) tn n = sort_key range_start (ranges_of ts tn n)"
    "events_str_of (sort_timelines ts) tn n = sort_key event_at (events_str_of ts tn n)"
    "events_int_of (sort_timelines ts) tn n = sort_key event_at (events_int_of ts tn n)"
    unfolding ranges_of_def events_str_of_def events_int_of_def t
    by (simp_all add: sort_timeline_def r e sort_rows)
qed

lemma empty_rows: "ranges_of [] tn n = []" "events_str_of [] tn n = []" "events_int_of [] tn n = []"
  by (simp_all add: ranges_of_def events_str_of_def events_int_of_def Timeline_def TimelineDataRange_def TimelineEvent_def)

lemma read_data_split:
  obtains cs ts where "foldl read_line (Colors, []) lines = (cs, ts)" "read_data lines = (cs, sort_timelines ts)"
  by (cases "foldl read_line (Colors, []) lines") (auto simp: read_data_def)

lemma read_rows:
  "ranges_of (snd (read_data lines)) tn n = sort_key range_start (concat (map (line_ranges tn n) (data_lines lines)))"
  "events_str_of (snd (read_data lines)) tn n = sort_key event_at (concat (map (line_events_str tn n) (data_lines lines)))"
  "events_int_of (snd (read_data lines)) tn n = sort_key event_at (concat (map (line_events_int tn n) (data_lines lines)))"
proof -
  obtain cs ts where 1: "foldl read_line (Colors, []) lines = (cs, ts)" "read_data lines = (cs, sort_timelines ts)"
    by (rule read_data_split)
  show "ranges_of (snd (read_data lines)) tn n = sort_key range_start (concat (map (line_ranges tn n) (data_lines lines)))"
    "events_str_of (snd (read_data lines)) tn n = sort_key event_at (concat (map (line_events_str tn n) (data_lines lines)))"
    "events_int_of (snd (read_data lines)) tn n = sort_key event_at (concat (map (line_events_int tn n) (data_lines lines)))"
    using read_lines_rows[OF 1(1), of tn n] 1(2) by (simp_all add: sort_timelines_rows empty_rows)
qed

section \<open>One object for every name\<close>

definition rows_distinct :: "timeline list \<Rightarrow> bool" where
  "rows_distinct ts \<longleftrightarrow> distinct (map tl_name ts) \<and> (\<forall>t \<in> set ts. distinct (map dr_name (tl_ranges t))
     \<and> distinct (map ev_name (tl_event_str t)) \<and> distinct (map ev_name (tl_event_int t)))"

lemma rows_distinct_update:
  assumes "get_timeline tn ts = (i, us)" "rows_distinct ts" "tl_name y = tn"
    "distinct (map dr_name (tl_ranges y))" "distinct (map ev_name (tl_event_str y))" "distinct (map ev_name (tl_event_int y))"
  shows "rows_distinct (us[i := y])"
proof -
  have g: "get_named tl_name Timeline tn ts = (i, us)" using assms(1) by (simp add: get_timeline_def)
  have "set us \<subseteq> insert (Timeline tn) (set ts)"
    using g by (auto simp: get_named_def Let_def split: if_splits)
  then have "\<forall>t \<in> set us. distinct (map dr_name (tl_ranges t)) \<and> distinct (map ev_name (tl_event_str t))
      \<and> distinct (map ev_name (tl_event_int t))"
    using assms(2) by (auto simp: rows_distinct_def Timeline_def)
  moreover have "distinct (map tl_name (us[i := y]))"
    using tml.get_named_distinct[OF g _ assms(3)] assms(2) by (simp add: rows_distinct_def)
  ultimately show ?thesis
    using assms(4,5,6) set_update_subset_insert[of us i y] by (auto simp: rows_distinct_def)
qed

lemma row_in_or_new: "named_row name_of new nm xs \<in> set xs \<or> named_row name_of new nm xs = new nm"
  by (auto simp: named_row_def find_Some_iff split: option.splits)

lemma rows_distinct_row:
  "rows_distinct ts \<Longrightarrow> distinct (map dr_name (tl_ranges (row_of_timeline ts tn)))
     \<and> distinct (map ev_name (tl_event_str (row_of_timeline ts tn))) \<and> distinct (map ev_name (tl_event_int (row_of_timeline ts tn)))"
  using row_in_or_new[of tl_name Timeline tn ts] by (auto simp: rows_distinct_def Timeline_def)

lemma apply_line_distinct:
  assumes "rows_distinct ts"
  shows "rows_distinct (snd (apply_line d (cs, ts)))"
proof (cases d)
  case (RangeLine a b v s e)
  obtain i us where i: "get_timeline a ts = (i, us)" by fastforce
  obtain j rs where j: "get_named dr_name TimelineDataRange b (tl_ranges (row_of_timeline ts a)) = (j, rs)" by fastforce
  note R = rng.get_named_distinct[OF j, of "add_range r (rs ! j)" for r] rng.get_named_names[OF j]
  show ?thesis
    using update_timeline(1)[OF i timeline_name] j rows_distinct_row[OF assms, of a] R
      timeline_name[of a ts]
    by (auto simp: RangeLine i get_range_def intro!: rows_distinct_update[OF i assms])
next
  case (EventStrLine a b v s)
  obtain i us where i: "get_timeline a ts = (i, us)" by fastforce
  obtain j rs where j: "get_named ev_name TimelineEvent b (tl_event_str (row_of_timeline ts a)) = (j, rs)" by fastforce
  note R = evt.get_named_distinct[OF j, of "add_event r (rs ! j)" for r] evt.get_named_names[OF j]
  show ?thesis
    using update_timeline(1)[OF i timeline_name] j rows_distinct_row[OF assms, of a] R
      timeline_name[of a ts]
    by (auto simp: EventStrLine i get_event_str_def intro!: rows_distinct_update[OF i assms])
next
  case (EventIntLine a b v s)
  obtain i us where i: "get_timeline a ts = (i, us)" by fastforce
  obtain j rs where j: "get_named ev_name TimelineEvent b (tl_event_int (row_of_timeline ts a)) = (j, rs)" by fastforce
  note R = evt.get_named_distinct[OF j, of "add_event r (rs ! j)" for r] evt.get_named_names[OF j]
  show ?thesis
    using update_timeline(1)[OF i timeline_name] j rows_distinct_row[OF assms, of a] R
      timeline_name[of a ts]
    by (auto simp: EventIntLine i get_event_int_def intro!: rows_distinct_update[OF i assms])
next
  case (ColorLine a b c e)
  then show ?thesis using assms by simp
qed


lemma read_lines_distinct: "rows_distinct ts \<Longrightarrow> rows_distinct (snd (foldl read_line (cs, ts) lines))"
proof (induction lines arbitrary: cs ts)
  case (Cons l ls)
  show ?case
  proof (cases "parse_data_line l")
    case None
    then show ?thesis using Cons by (simp add: read_line_def[of _ l])
  next
    case (Some d)
    obtain c1 t1 where 1: "apply_line d (cs, ts) = (c1, t1)" by fastforce
    then have "rows_distinct t1" using apply_line_distinct[OF Cons.prems, of d cs] by simp
    then show ?thesis using Cons.IH[of t1 c1] 1 Some by (simp add: read_line_def[of _ l])
  qed
qed simp

lemma read_data_distinct: "rows_distinct (snd (read_data lines))"
proof -
  obtain cs ts where 1: "foldl read_line (Colors, []) lines = (cs, ts)" "read_data lines = (cs, sort_timelines ts)"
    by (rule read_data_split)
  have "rows_distinct ts" using read_lines_distinct[of "[]" Colors lines] 1(1) by (simp add: rows_distinct_def)
  moreover have "dr_name \<circ> sort_ranges = dr_name" "ev_name \<circ> sort_events = ev_name" "tl_name \<circ> sort_timeline = tl_name"
    by (auto simp: sort_ranges_def sort_events_def sort_timeline_def)
  ultimately show ?thesis using 1(2) by (auto simp: rows_distinct_def sort_timelines_def sort_timeline_def)
qed

section \<open>The bounds of the data\<close>

lemma widen_fold:
  "foldl widen b xs = (foldl min (fst b) (map fst xs), foldl max (snd b) (map snd xs))"
  by (induction xs arbitrary: b) (auto simp: widen_def split: prod.splits)

lemma fold_min_max:
  "foldl min a xs = (Min (insert a (set xs)) :: int)" "foldl max a xs = (Max (insert a (set xs)) :: int)"
proof -
  have "fold min xs a = Min (insert a (set xs))" "fold max xs a = Max (insert a (set xs))" for a
    by (simp_all add: Min.set_eq_fold Max.set_eq_fold flip: list.set(2))
  moreover have "foldl min a xs = fold min xs a" "foldl max a xs = fold max xs a"
    by (simp_all add: foldl_conv_fold min.commute max.commute)
  ultimately show "foldl min a xs = Min (insert a (set xs))" "foldl max a xs = Max (insert a (set xs))" by simp_all
qed

text \<open>The bounds of all rows of a timeline, in the order they are read.\<close>

definition row_bounds :: "timeline \<Rightarrow> (int \<times> int) list" where
  "row_bounds t = map ranges_get_bounds (tl_ranges t) @ map events_get_bounds (tl_event_str t)
     @ map events_get_bounds (tl_event_int t)"

lemma timeline_bounds: "timeline_get_bounds t = foldl widen (0, 0) (row_bounds t)"
  by (simp add: timeline_get_bounds_def row_bounds_def)

lemma bounds_spec:
  assumes "get_bounds ts = (lo, hi)"
  shows "lo \<le> 0" "0 \<le> hi" "t \<in> set ts \<Longrightarrow> b \<in> set (row_bounds t) \<Longrightarrow> lo \<le> fst b \<and> snd b \<le> hi"
    "(\<And>t b. t \<in> set ts \<Longrightarrow> b \<in> set (row_bounds t) \<Longrightarrow> 0 \<le> fst b) \<Longrightarrow> lo = 0"
    "hi = 0 \<or> (\<exists>t \<in> set ts. \<exists>b \<in> set (row_bounds t). snd b = hi)"
proof -
  have t: "timeline_get_bounds t = (Min (insert 0 (fst ` set (row_bounds t))), Max (insert 0 (snd ` set (row_bounds t))))" for t
    by (simp add: timeline_bounds widen_fold fold_min_max)
  have lo: "lo = Min (insert 0 ((\<lambda>t. Min (insert 0 (fst ` set (row_bounds t)))) ` set ts))"
    and hi: "hi = Max (insert 0 ((\<lambda>t. Max (insert 0 (snd ` set (row_bounds t)))) ` set ts))"
    using assms by (simp_all add: get_bounds_def widen_fold fold_min_max t image_image)
  show "lo \<le> 0" "0 \<le> hi" unfolding lo hi by (simp_all add: Min_le Max_ge)
  show "lo \<le> fst b \<and> snd b \<le> hi" if 1: "t \<in> set ts" "b \<in> set (row_bounds t)" for t b
  proof
    have "lo \<le> Min (insert 0 (fst ` set (row_bounds t)))" unfolding lo using 1 by (intro Min_le) auto
    also have "\<dots> \<le> fst b" using 1 by (intro Min_le) auto
    finally show "lo \<le> fst b" .
    have "snd b \<le> Max (insert 0 (snd ` set (row_bounds t)))" using 1 by (intro Max_ge) auto
    also have "\<dots> \<le> hi" unfolding hi using 1 by (intro Max_ge) auto
    finally show "snd b \<le> hi" .
  qed
  show "lo = 0" if 1: "\<And>t b. t \<in> set ts \<Longrightarrow> b \<in> set (row_bounds t) \<Longrightarrow> 0 \<le> fst b"
    unfolding lo using 1 by (intro Min_eqI) (auto intro!: Min_eqI[symmetric])
  have "hi \<in> insert 0 ((\<lambda>t. Max (insert 0 (snd ` set (row_bounds t)))) ` set ts)"
    unfolding hi by (rule Max_in) auto
  moreover have "Max (insert 0 (snd ` set (row_bounds t))) \<in> insert 0 (snd ` set (row_bounds t))" for t
    by (rule Max_in) auto
  ultimately show "hi = 0 \<or> (\<exists>t \<in> set ts. \<exists>b \<in> set (row_bounds t). snd b = hi)"
    by (smt (verit, best) image_iff insert_iff)
qed


text \<open>The numbers of a file have no sign.\<close>

fun unsigned_line :: "data_line \<Rightarrow> bool" where
  "unsigned_line (RangeLine a b v s e) \<longleftrightarrow> 0 \<le> s \<and> 0 \<le> e"
| "unsigned_line (EventStrLine a b v t) \<longleftrightarrow> 0 \<le> t"
| "unsigned_line (EventIntLine a b v t) \<longleftrightarrow> 0 \<le> v \<and> 0 \<le> t"
| "unsigned_line (ColorLine a r g b) \<longleftrightarrow> True"

lemma matched_unsigned:
  "match_range l = Some d \<Longrightarrow> unsigned_line d" "match_event_str l = Some d \<Longrightarrow> unsigned_line d"
  "match_event_int l = Some d \<Longrightarrow> unsigned_line d" "match_color l = Some d \<Longrightarrow> unsigned_line d"
  by (auto simp: match_range_def match_event_str_def match_event_int_def match_color_def bind_eq_Some_conv)

lemma data_lines_unsigned: "d \<in> set (data_lines lines) \<Longrightarrow> unsigned_line d"
  by (induction lines) (auto simp: parse_data_line_def matched_unsigned split: option.splits if_splits)

lemma rows_unsigned:
  "r \<in> set (ranges_of (snd (read_data lines)) tn n) \<Longrightarrow> 0 \<le> range_start r \<and> 0 \<le> range_end r"
  "e \<in> set (events_str_of (snd (read_data lines)) tn n) \<Longrightarrow> 0 \<le> event_at e"
  "e \<in> set (events_int_of (snd (read_data lines)) tn n) \<Longrightarrow> 0 \<le> event_at e"
proof -
  have "unsigned_line d \<Longrightarrow> r \<in> set (line_ranges tn n d) \<Longrightarrow> 0 \<le> range_start r \<and> 0 \<le> range_end r"
    "unsigned_line d \<Longrightarrow> e \<in> set (line_events_str tn n d) \<Longrightarrow> 0 \<le> event_at e"
    "unsigned_line d \<Longrightarrow> e \<in> set (line_events_int tn n d) \<Longrightarrow> 0 \<le> event_at e" for d r e
    by (cases d; auto split: if_splits)+
  then show "r \<in> set (ranges_of (snd (read_data lines)) tn n) \<Longrightarrow> 0 \<le> range_start r \<and> 0 \<le> range_end r"
    "e \<in> set (events_str_of (snd (read_data lines)) tn n) \<Longrightarrow> 0 \<le> event_at e"
    "e \<in> set (events_int_of (snd (read_data lines)) tn n) \<Longrightarrow> 0 \<le> event_at e"
    using data_lines_unsigned[of _ lines] by (fastforce simp: read_rows)+
qed

text \<open>Every object is the row of its names, and every row that is not empty is an object.\<close>

lemma rows_are_objects:
  assumes "rows_distinct ts" "t \<in> set ts"
  shows "d \<in> set (tl_ranges t) \<Longrightarrow> ranges_of ts (tl_name t) (dr_name d) = ranges d"
    "v \<in> set (tl_event_str t) \<Longrightarrow> events_str_of ts (tl_name t) (ev_name v) = events v"
    "v \<in> set (tl_event_int t) \<Longrightarrow> events_int_of ts (tl_name t) (ev_name v) = events v"
  using assms tml.row_mem[of ts t] rng.row_mem[of "tl_ranges t" d] evt.row_mem[of "tl_event_str t" v]
    evt.row_mem[of "tl_event_int t" v]
  by (auto simp: rows_distinct_def ranges_of_def events_str_of_def events_int_of_def)

lemma row_objects:
  "ranges_of ts tn n \<noteq> [] \<Longrightarrow> \<exists>t \<in> set ts. \<exists>d \<in> set (tl_ranges t). ranges d = ranges_of ts tn n"
  "events_str_of ts tn n \<noteq> [] \<Longrightarrow> \<exists>t \<in> set ts. \<exists>v \<in> set (tl_event_str t). events v = events_str_of ts tn n"
  "events_int_of ts tn n \<noteq> [] \<Longrightarrow> \<exists>t \<in> set ts. \<exists>v \<in> set (tl_event_int t). events v = events_int_of ts tn n"
  using row_in_or_new[of tl_name Timeline tn ts]
    row_in_or_new[of dr_name TimelineDataRange n "tl_ranges (row_of_timeline ts tn)"]
    row_in_or_new[of ev_name TimelineEvent n "tl_event_str (row_of_timeline ts tn)"]
    row_in_or_new[of ev_name TimelineEvent n "tl_event_int (row_of_timeline ts tn)"]
  by (auto simp: ranges_of_def events_str_of_def events_int_of_def Timeline_def TimelineDataRange_def TimelineEvent_def)

lemma range_bounds_cases:
  "ranges d \<noteq> [] \<Longrightarrow> ranges_get_bounds d = (range_start (hd (ranges d)), range_end (last (ranges d)))"
  "ranges d = [] \<Longrightarrow> ranges_get_bounds d = (0, 0)"
  by (simp_all add: ranges_get_bounds_def hd_conv_nth last_conv_nth)

lemma events_in_bounds:
  assumes "sorted (map event_at (events v))" "e \<in> set (events v)"
  shows "fst (events_get_bounds v) \<le> event_at e" "event_at e \<le> snd (events_get_bounds v)"
proof -
  obtain i where i: "i < length (events v)" "events v ! i = e" using assms(2) by (auto simp: in_set_conv_nth)
  then have "events v \<noteq> []" by auto
  then show "fst (events_get_bounds v) \<le> event_at e" "event_at e \<le> snd (events_get_bounds v)"
    using sorted_nth_mono[OF assms(1), of 0 i] sorted_nth_mono[OF assms(1), of i "length (events v) - 1"] i
    by (simp_all add: events_get_bounds_def hd_conv_nth last_conv_nth)
qed

lemma ranges_in_bounds:
  assumes "in_line (ranges d)" "r \<in> set (ranges d)"
  shows "fst (ranges_get_bounds d) \<le> range_start r" "range_end r \<le> snd (ranges_get_bounds d)"
proof -
  obtain i where i: "i < length (ranges d)" "ranges d ! i = r" using assms(2) by (auto simp: in_set_conv_nth)
  then have "ranges d \<noteq> []" by auto
  then show "fst (ranges_get_bounds d) \<le> range_start r" "range_end r \<le> snd (ranges_get_bounds d)"
    using in_line_mono[OF assms(1), of 0 i] in_line_mono[OF assms(1), of i "length (ranges d) - 1"] i
    by (simp_all add: ranges_get_bounds_def)
qed


section \<open>The supply of colours\<close>

lemma lookup_color_known: "d_get (color_map cs) nm = Some c \<Longrightarrow> lookup_color nm cs = Inr (c, cs)"
  by (simp add: lookup_color_def d_has_def d_item_def)

lemma lookup_color_new:
  "d_get (color_map cs) nm = None \<Longrightarrow> default_colors cs \<noteq> [] \<Longrightarrow>
     lookup_color nm cs = Inr (last (default_colors cs),
       cs\<lparr>color_map := d_set nm (last (default_colors cs)) (color_map cs), default_colors := butlast (default_colors cs)\<rparr>)"
  by (simp add: lookup_color_def add_color_def d_has_def d_item_def dict_simps)

lemma lookup_color_none:
  "d_get (color_map cs) nm = None \<Longrightarrow> default_colors cs = [] \<Longrightarrow> lookup_color nm cs = Inl IndexError"
  by (simp add: lookup_color_def d_has_def)

text \<open>How many of the values have no colour of their own.\<close>

definition undeclared :: "colors \<Rightarrow> string list \<Rightarrow> nat" where
  "undeclared cs vs = length (filter (\<lambda>v. d_get (color_map cs) v = None) vs)"

lemma lookup_all_spec:
  "distinct vs \<Longrightarrow>
   (if undeclared cs vs \<le> length (default_colors cs)
    then \<exists>rc cs'. lookup_all vs cs = Inr (rc, cs') \<and> length rc = length vs
       \<and> (\<forall>i < length vs. d_get (color_map cs') (vs ! i) = Some (rc ! i))
       \<and> (\<forall>v c. d_get (color_map cs) v = Some c \<longrightarrow> d_get (color_map cs') v = Some c)
    else lookup_all vs cs = Inl IndexError)"
proof (induction vs arbitrary: cs)
  case Nil
  then show ?case by (simp add: undeclared_def)
next
  case (Cons v vs)
  have d: "distinct vs" "v \<notin> set vs" using Cons.prems by simp_all
  show ?case
  proof (cases "d_get (color_map cs) v")
    case (Some c)
    have "undeclared cs (v # vs) = undeclared cs vs" by (simp add: undeclared_def Some)
    then show ?thesis using Cons.IH[OF d(1), of cs] Some
      by (fastforce simp: lookup_color_known nth_Cons split: nat.splits if_splits)
  next
    case None
    show ?thesis
    proof (cases "default_colors cs = []")
      case True
      then show ?thesis using None by (simp add: undeclared_def lookup_color_none)
    next
      case False
      define c where "c = last (default_colors cs)"
      define cs1 where "cs1 = cs\<lparr>color_map := d_set v c (color_map cs), default_colors := butlast (default_colors cs)\<rparr>"
      have l: "lookup_color v cs = Inr (c, cs1)"
        using lookup_color_new[OF None False] by (simp add: c_def cs1_def)
      have "filter (\<lambda>v. d_get (color_map cs1) v = None) vs = filter (\<lambda>v. d_get (color_map cs) v = None) vs"
        using d(2) by (intro filter_cong) (auto simp: cs1_def dict_simps)
      then have u: "undeclared cs (v # vs) = Suc (undeclared cs1 vs)" "d_get (color_map cs1) v = Some c"
        "Suc (length (default_colors cs1)) = length (default_colors cs)"
        using False None by (simp_all add: undeclared_def) (simp_all add: cs1_def dict_simps)
      have k: "d_get (color_map cs) w = Some e \<Longrightarrow> d_get (color_map cs1) w = Some e" for w e
        using None by (auto simp: cs1_def dict_simps)
      show ?thesis
      proof (cases "undeclared cs1 vs \<le> length (default_colors cs1)")
        case True
        then obtain rc cs' where "lookup_all vs cs1 = Inr (rc, cs')" "length rc = length vs"
          "\<forall>i < length vs. d_get (color_map cs') (vs ! i) = Some (rc ! i)"
          "\<forall>v c. d_get (color_map cs1) v = Some c \<longrightarrow> d_get (color_map cs') v = Some c"
          using Cons.IH[OF d(1), of cs1] by auto
        then show ?thesis using u k True by (auto simp: l nth_Cons split: nat.splits)
      next
        case False
        then show ?thesis using Cons.IH[OF d(1), of cs1] u by (simp add: l)
      qed
    qed
  qed
qed

lemma read_data_defaults: "default_colors (fst (read_data lines)) = default_colors Colors"
proof -
  have a: "default_colors (fst (apply_line d (cs, ts))) = default_colors cs" for d cs ts
    by (cases d) (auto simp: add_color_def Let_def split: prod.splits)
  have "default_colors (fst (foldl read_line s ls)) = default_colors (fst s)" for s ls
    by (induction ls arbitrary: s) (auto simp: read_line_def a split: option.splits)
  then show ?thesis by (simp add: read_data_def split: prod.splits) (metis fst_conv)
qed


section \<open>The bounds of what is read\<close>

lemma row_bounds_cases:
  assumes "b \<in> set (row_bounds t)"
  obtains d where "d \<in> set (tl_ranges t)" "b = ranges_get_bounds d"
  | v where "v \<in> set (tl_event_str t)" "b = events_get_bounds v"
  | v where "v \<in> set (tl_event_int t)" "b = events_get_bounds v"
  using assms by (auto simp: row_bounds_def)

lemma read_row_low:
  assumes t: "t \<in> set (snd (read_data lines))" and b: "b \<in> set (row_bounds t)"
  shows "0 \<le> fst b"
  using b
proof (cases rule: row_bounds_cases)
  note O = rows_are_objects[OF read_data_distinct t]
  case (1 d)
  show ?thesis
  proof (cases "ranges d = []")
    case False
    then have "hd (ranges d) \<in> set (ranges d)" by simp
    then show ?thesis using rows_unsigned(1)[of _ lines "tl_name t" "dr_name d"] O(1)[OF 1(1)] False
      by (simp add: 1(2) range_bounds_cases)
  qed (simp add: 1(2) range_bounds_cases)
next
  case (2 v)
  then show ?thesis using rows_unsigned(2)[of _ lines "tl_name t" "ev_name v"] rows_are_objects(2)[OF read_data_distinct t 2(1)]
    by (cases "events v") (auto simp: events_get_bounds_def)
next
  case (3 v)
  then show ?thesis using rows_unsigned(3)[of _ lines "tl_name t" "ev_name v"] rows_are_objects(3)[OF read_data_distinct t 3(1)]
    by (cases "events v") (auto simp: events_get_bounds_def)
qed

lemma read_bounds_low: "get_bounds (snd (read_data lines)) = (lo, hi) \<Longrightarrow> lo = 0"
  by (rule bounds_spec(4)) (auto intro: read_row_low)

lemma read_bounds_events:
  assumes "get_bounds (snd (read_data lines)) = (lo, hi)"
  shows "e \<in> set (events_str_of (snd (read_data lines)) tn n) \<Longrightarrow> event_at e \<le> hi"
    "e \<in> set (events_int_of (snd (read_data lines)) tn n) \<Longrightarrow> event_at e \<le> hi"
proof -
  let ?ts = "snd (read_data lines)"
  have le: "event_at e \<le> hi" if "t \<in> set ?ts" "v \<in> set (tl_event_str t) \<union> set (tl_event_int t)"
    "sorted (map event_at (events v))" "e \<in> set (events v)" for t v
  proof -
    have "events_get_bounds v \<in> set (row_bounds t)" using that(2) by (auto simp: row_bounds_def)
    from bounds_spec(3)[OF assms that(1) this] show ?thesis using events_in_bounds(2)[OF that(3,4)] by linarith
  qed
  show "event_at e \<le> hi" if e: "e \<in> set (events_str_of ?ts tn n)"
  proof -
    have "events_str_of ?ts tn n \<noteq> []" using e by auto
    from row_objects(2)[OF this] obtain t v where "t \<in> set ?ts" "v \<in> set (tl_event_str t)" "events v = events_str_of ?ts tn n"
      by blast
    with e show ?thesis by (intro le[of t v]) (simp_all add: read_rows)
  qed
  show "event_at e \<le> hi" if e: "e \<in> set (events_int_of ?ts tn n)"
  proof -
    have "events_int_of ?ts tn n \<noteq> []" using e by auto
    from row_objects(3)[OF this] obtain t v where "t \<in> set ?ts" "v \<in> set (tl_event_int t)" "events v = events_int_of ?ts tn n"
      by blast
    with e show ?thesis by (intro le[of t v]) (simp_all add: read_rows)
  qed
qed

lemma read_bounds_ranges:
  assumes "get_bounds (snd (read_data lines)) = (lo, hi)" "in_line (ranges_of (snd (read_data lines)) tn n)"
    "r \<in> set (ranges_of (snd (read_data lines)) tn n)"
  shows "range_end r \<le> hi"
proof -
  have "ranges_of (snd (read_data lines)) tn n \<noteq> []" using assms(3) by auto
  from row_objects(1)[OF this] obtain t d where t: "t \<in> set (snd (read_data lines))" "d \<in> set (tl_ranges t)"
    "ranges d = ranges_of (snd (read_data lines)) tn n" by blast
  then have "range_end r \<le> snd (ranges_get_bounds d)" using assms(2,3) by (intro ranges_in_bounds(2)) simp_all
  moreover have "ranges_get_bounds d \<in> set (row_bounds t)" using t(2) by (simp add: row_bounds_def)
  ultimately show ?thesis using bounds_spec(3)[OF assms(1) t(1)] by fastforce
qed

end
