(* ===== verification/GridDrawProofs.thy ===== *)
theory GridDrawProofs
  imports GridDraw
begin

text \<open>
  Lemmas on what \<open>utils/grid.py\<close> draws: the distance and the ticks of a scale, and the places of the
  legends.
\<close>

section \<open>Python's range\<close>

lemma le_div_int: "0 < s \<Longrightarrow> k \<le> c div s \<longleftrightarrow> k * s \<le> (c :: int)"
proof
  assume "0 < s" "k \<le> c div s"
  then have "k * s \<le> c div s * s" by simp
  also have "\<dots> \<le> c" using pos_mod_sign[OF \<open>0 < s\<close>, of c] by (simp add: minus_mod_eq_div_mult [symmetric])
  finally show "k * s \<le> c" .
next
  assume "0 < s" "k * s \<le> c"
  then show "k \<le> c div s" using zdiv_mono1[of "k * s" c s] by simp
qed

lemma py_range_spec:
  assumes "0 < step"
  shows "\<exists>xs. py_range a b step = Inr xs \<and> sorted_wrt (<) xs \<and> set xs = {a + k * step | k. 0 \<le> k \<and> a + k * step < b}"
proof -
  let ?q = "(b - a + step - 1) div step"
  let ?xs = "map (\<lambda>k. a + int k * step) [0..<nat ?q]"
  have iff: "k < ?q \<longleftrightarrow> a + k * step < b" for k
    using le_div_int[OF assms, of "k + 1" "b - a + step - 1"] by (simp add: algebra_simps) linarith
  have "sorted_wrt (<) ?xs" using assms by (auto simp: sorted_wrt_map intro: sorted_wrt_mono_rel[OF _ sorted_wrt_upt])
  moreover have "set ?xs = {a + k * step | k. 0 \<le> k \<and> a + k * step < b}"
  proof (intro subset_antisym subsetI)
    fix x assume "x \<in> {a + k * step | k. 0 \<le> k \<and> a + k * step < b}"
    then obtain k where "x = a + k * step" "0 \<le> k" "k < ?q" by (auto simp: iff)
    then show "x \<in> set ?xs" by (auto intro!: image_eqI[of _ _ "nat k"])
  qed (auto simp: iff[symmetric])
  ultimately show ?thesis using assms by (simp add: py_range_def)
qed

section \<open>The distance of the ticks\<close>

lemma closest_loop_spec:
  "1 \<le> c \<Longrightarrow> (\<exists>n. c = 10 ^ n) \<Longrightarrow> (c = 1 \<or> of_int c < d) \<Longrightarrow>
   (let r = closest_loop c d in 1 \<le> r \<and> (\<exists>n. r = 10 ^ n) \<and> (r = 1 \<or> of_int r < d) \<and> d \<le> of_int (r * 10))"
proof (induction c d rule: closest_loop.induct)
  case (1 c d)
  show ?case
  proof (cases "of_int (c * 10) < d")
    case True
    obtain n where "c = 10 ^ n" using 1(3) by blast
    then have "c * 10 = 10 ^ Suc n" by simp
    then show ?thesis using 1(1)[OF conjI[OF 1(2) True]] 1(2) True
      by (subst closest_loop.simps) (auto simp del: power_Suc)
  next
    case False
    then show ?thesis using 1 by (subst closest_loop.simps) (simp add: Let_def)
  qed
qed

lemma val_n_mod: "val y \<noteq> 0 \<Longrightarrow> \<exists>m. n_mod x y = Inr m \<and> val m = val x - val y * of_int \<lfloor>val x / val y\<rfloor>
   \<and> (is_int m \<longleftrightarrow> is_int x \<and> is_int y)"
  by (cases x; cases y) (auto simp: floor_divide_of_int_eq minus_mult_div_eq_mod[symmetric])

lemma n_mod_zero: "val y = 0 \<Longrightarrow> n_mod x y = Inl ZeroDivisionError"
  by (cases x; cases y) auto

lemma scale_delta_spec:
  assumes "val lo < val hi"
  obtains d where "scale_delta lo hi = Inr d" "d = 0 \<longleftrightarrow> val hi - val lo = 1" "0 \<le> d"
    "val hi - val lo \<le> 20 * of_int d \<or> d = 0"
proof -
  define dd where "dd = val hi - val lo"
  define c where "c = closest_loop 1 dd"
  have pos: "0 < dd" using assms by (simp add: dd_def)
  have C: "1 \<le> c" "\<exists>n. c = 10 ^ n" "c = 1 \<or> of_int c < dd" "dd \<le> of_int (c * 10)"
    using closest_loop_spec[of 1 dd] by (simp_all add: c_def Let_def) (metis power_0)+
  have cn: "c = 1 \<or> c \<ge> 10 \<and> c div 10 * 10 = c"
  proof -
    obtain n where "c = 10 ^ n" using C(2) by blast
    then show ?thesis by (cases n) auto
  qed
  have "val (PyInt c) \<noteq> 0" using C(1) by simp
  from n_div_Inr[OF this, of "hi - lo"] obtain q where q: "n_div (hi - lo) (PyInt c) = Inr q"
    "val q = (if is_int (hi - lo) then of_int \<lfloor>dd / of_int c\<rfloor> else dd / of_int c)"
    unfolding dd_def by (auto cong: if_cong)
  have s: "scale_delta lo hi = Inr (if val q = 0 then c else if val q = 1 then c div 10 else c)"
    using q by (simp add: scale_delta_def c_def dd_def)
  have small: "dd < 2 * of_int c" if "val q = 1"
  proof -
    have "dd / of_int c < 2" using that q(2) by (auto split: if_splits) linarith+
    then show ?thesis using C(1) by (simp add: field_simps)
  qed
  have one: "dd = 1" if "val q = 1" "c = 1"
  proof (cases "is_int (hi - lo)")
    case True
    then obtain a b where "hi = PyInt a" "lo = PyInt b" by (cases hi; cases lo) auto
    then have "dd = of_int (a - b)" by (simp add: dd_def)
    then show ?thesis using that q(2) True by simp
  next
    case False
    then have "val q = dd / of_int c" using q(2) by (simp only: if_False)
    then show ?thesis using that by simp
  qed
  have q1: "val q = 1" "c = 1" if "dd = 1"
  proof -
    show "c = 1" using C(1,3) that by auto
    then show "val q = 1" using q(2) that by simp
  qed
  define d where "d = (if val q = 0 then c else if val q = 1 then c div 10 else c)"
  have "d = 0 \<longleftrightarrow> dd = 1"
  proof
    assume "d = 0"
    then have "val q = 1" "c div 10 = 0" using C(1) by (simp_all add: d_def split: if_splits)
    then show "dd = 1" using cn one by (metis mult_zero_left not_one_le_zero C(1))
  qed (simp add: d_def q1)
  moreover have "dd \<le> 20 * of_int d \<or> d = 0"
  proof (cases "val q = 1")
    case True
    then have "d = c div 10" by (simp add: d_def)
    then have "d = 0 \<or> c = 10 * d" using cn by (metis mult.commute one_div_numeral div_by_1 div_pos_pos_trivial zero_le_one one_less_numeral_iff semiring_norm(76))
    then have "d = 0 \<or> of_int c = 10 * (of_int d :: rat)" by auto
    then show ?thesis using small[OF True] by linarith
  next
    case False
    then have "d = c" by (simp add: d_def)
    then show ?thesis using C(1,4) by simp
  qed
  moreover have "0 \<le> d" using C(1) by (auto simp: d_def pos_imp_zdiv_nonneg_iff)
  moreover have "scale_delta lo hi = Inr d" by (simp only: s d_def)
  ultimately show thesis by (intro that[of d]) (simp_all add: dd_def)
qed


section \<open>The ticks\<close>

lemma n_int_of: "val x = of_int i \<Longrightarrow> n_int x = i"
  by (cases x) auto

lemma scale_ends_spec:
  assumes "0 < d"
  obtains a b where "scale_ends lo hi (PyInt d) = Inr (a, b)"
    "n_int a = d * (\<lfloor>val lo / of_int d\<rfloor> + 1)" "n_int (b + PyInt d) = d * (\<lfloor>val hi / of_int d\<rfloor> + 1)"
proof -
  have nz: "val (PyInt d) \<noteq> 0" using assms by simp
  obtain m n where m: "n_mod lo (PyInt d) = Inr m" "val m = val lo - of_int d * of_int \<lfloor>val lo / of_int d\<rfloor>"
    and n: "n_mod hi (PyInt d) = Inr n" "val n = val hi - of_int d * of_int \<lfloor>val hi / of_int d\<rfloor>"
    using val_n_mod[OF nz, of lo] val_n_mod[OF nz, of hi] by auto
  show thesis
    by (rule that[of "lo - m + PyInt d" "hi - n"])
      (simp_all add: scale_ends_def m n n_int_of algebra_simps)
qed

lemma scale_ticks_spec:
  assumes "0 < d"
  obtains ts where "scale_ticks lo hi (PyInt d) = Inr ts" "sorted_wrt (<) ts"
    "set ts = {x. d dvd x \<and> val lo < of_int x \<and> of_int x \<le> val hi}"
    "val hi - val lo \<le> 20 * of_int d \<Longrightarrow> length ts \<le> 20"
proof -
  define A B where "A = \<lfloor>val lo / of_int d\<rfloor>" and "B = \<lfloor>val hi / of_int d\<rfloor>"
  obtain a b where ab: "scale_ends lo hi (PyInt d) = Inr (a, b)" "n_int a = d * (A + 1)" "n_int (b + PyInt d) = d * (B + 1)"
    using scale_ends_spec[OF assms, of lo hi] unfolding A_def B_def by blast
  obtain ts where ts: "py_range (d * (A + 1)) (d * (B + 1)) d = Inr ts" "sorted_wrt (<) ts"
    "set ts = {d * (A + 1) + k * d | k. 0 \<le> k \<and> d * (A + 1) + k * d < d * (B + 1)}"
    using py_range_spec[OF assms] by blast
  have "set ts = (\<lambda>j. d * j) ` {A<..B}"
  proof (intro subset_antisym subsetI)
    fix x assume "x \<in> set ts"
    then obtain k where k: "x = d * (A + 1 + k)" "0 \<le> k" "d * (A + 1 + k) < d * (B + 1)"
      unfolding ts(3) by (auto simp: algebra_simps)
    then have "A + 1 + k < B + 1" using assms by simp
    then show "x \<in> (\<lambda>j. d * j) ` {A<..B}" using k by (intro image_eqI[of _ _ "A + 1 + k"]) auto
  next
    fix x assume "x \<in> (\<lambda>j. d * j) ` {A<..B}"
    then obtain j where j: "x = d * j" "A < j" "j \<le> B"
      by (metis (no_types) greaterThanAtMost_iff imageE)
    then have "x = d * (A + 1) + (j - A - 1) * d" "0 \<le> j - A - 1"
      by (simp_all add: algebra_simps)
    moreover have "d * j < d * (B + 1)" using assms j by (intro mult_strict_left_mono) simp_all
    ultimately show "x \<in> set ts" unfolding ts(3) using j(1) by auto
  qed
  moreover have "A < j \<longleftrightarrow> val lo < of_int (d * j)" "j \<le> B \<longleftrightarrow> of_int (d * j) \<le> val hi" for j
    using assms by (simp_all add: A_def B_def floor_less_iff le_floor_iff field_simps)
  ultimately have set: "set ts = {x. d dvd x \<and> val lo < of_int x \<and> of_int x \<le> val hi}" by (auto simp: dvd_def)
  have "length ts \<le> 20" if "val hi - val lo \<le> 20 * of_int d"
  proof -
    have "length ts = card (set ts)"
      using ts(2) by (simp add: distinct_card strict_sorted_iff)
    also have "\<dots> = card {A<..B}"
      unfolding \<open>set ts = (\<lambda>j. d * j) ` {A<..B}\<close> using assms by (intro card_image) (auto simp: inj_on_def)
    also have "\<dots> = nat (B - A)" by simp
    finally have l: "length ts = nat (B - A)" .
    have "val hi / of_int d \<le> val lo / of_int d + 20" using that assms by (simp add: field_simps)
    then have "B \<le> A + 20" unfolding A_def B_def by linarith
    then show ?thesis using l by simp
  qed
  then show thesis using that[of ts] ts(1,2) set by (simp add: scale_ticks_def ab)
qed

lemma get_position_bounds:
  assumes "val (sc_lo s) < val (sc_hi s)" "val (sc_lo s) \<le> val x" "val x \<le> val (sc_hi s)" "0 \<le> val (sc_width s)"
  obtains p where "get_position s x = Inr p" "0 \<le> val p" "val p \<le> val (sc_width s)"
proof -
  define y where "y = (x - sc_lo s) * sc_width s"
  define z where "z = sc_hi s - sc_lo s"
  have v: "val z > 0" "val y = (val x - val (sc_lo s)) * val (sc_width s)" using assms by (simp_all add: y_def z_def)
  have y: "0 \<le> val y / val z" "val y / val z \<le> val (sc_width s)"
  proof -
    show "0 \<le> val y / val z" using v assms by simp
    have "val y \<le> val z * val (sc_width s)" unfolding v(2) z_def
      using assms by (intro mult_right_mono) simp_all
    then show "val y / val z \<le> val (sc_width s)" using v(1) by (simp add: field_simps)
  qed
  from v(1) obtain p where p: "n_div y z = Inr p" "val p = (if is_int y \<and> is_int z then of_int \<lfloor>val y / val z\<rfloor> else val y / val z)"
    using n_div_Inr[of z y] by auto
  have "0 \<le> val p \<and> val p \<le> val (sc_width s)" unfolding p(2) using y by (auto intro: order_trans[OF of_int_floor_le])
  then show thesis using that[of p] p(1) by (simp add: get_position_def y_def z_def)
qed

text \<open>A layout fails exactly where the data are one unit wide.\<close>

lemma scale_layout_spec:
  assumes "val (sc_lo s) < val (sc_hi s)"
  shows "val (sc_hi s) - val (sc_lo s) = 1 \<Longrightarrow> scale_layout ext w s = Inl ZeroDivisionError"
    "val (sc_hi s) - val (sc_lo s) \<noteq> 1 \<Longrightarrow> \<exists>d s'. scale_layout ext w s = Inr s' \<and> sc_delta s' = PyInt d \<and> 1 \<le> d
       \<and> val (sc_hi s) - val (sc_lo s) \<le> 20 * of_int d \<and> sc_width s' = w \<and> sc_lo s' = sc_lo s \<and> sc_hi s' = sc_hi s"
proof -
  obtain d where d: "scale_delta (sc_lo s) (sc_hi s) = Inr d" "d = 0 \<longleftrightarrow> val (sc_hi s) - val (sc_lo s) = 1" "0 \<le> d"
    "val (sc_hi s) - val (sc_lo s) \<le> 20 * of_int d \<or> d = 0"
    by (rule scale_delta_spec[OF assms])
  show "scale_layout ext w s = Inl ZeroDivisionError" if "val (sc_hi s) - val (sc_lo s) = 1"
    using d(1,2) that by (simp add: scale_layout_def scale_ends_def n_mod_zero)
  assume "val (sc_hi s) - val (sc_lo s) \<noteq> 1"
  then have "1 \<le> d" "val (sc_hi s) - val (sc_lo s) \<le> 20 * of_int d" using d(2,3,4) by auto
  moreover obtain a b where "scale_ends (sc_lo s) (sc_hi s) (PyInt d) = Inr (a, b)"
    by (rule scale_ends_spec[of d "sc_lo s" "sc_hi s"]) (use \<open>1 \<le> d\<close> in auto)
  ultimately show "\<exists>d s'. scale_layout ext w s = Inr s' \<and> sc_delta s' = PyInt d \<and> 1 \<le> d
       \<and> val (sc_hi s) - val (sc_lo s) \<le> 20 * of_int d \<and> sc_width s' = w \<and> sc_lo s' = sc_lo s \<and> sc_hi s' = sc_hi s"
    using d(1) by (auto simp: scale_layout_def Let_def)
qed


section \<open>The places of the legends\<close>

text \<open>The box of a legend: its corner, its width and its height, by value.\<close>

record box =
  box_x :: rat
  box_y :: rat
  box_w :: rat
  box_h :: rat

fun legend_boxes :: "(string \<Rightarrow> text_extents) \<Rightarrow> pynum \<Rightarrow> pynum \<Rightarrow> string list \<Rightarrow> pynum \<times> pynum \<times> pynum \<Rightarrow> box list" where
  "legend_boxes ext pad width [] s = []"
| "legend_boxes ext pad width (l # ls) s =
     (let (x, lh, th, lu) = legend_place ext pad width l s
      in \<lparr>box_x = val x, box_y = val th, box_w = 3 * val pad + val (te_width (ext l)), box_h = val (te_height (ext l)) + val pad\<rparr>
         # legend_boxes ext pad width ls (lh, th, lu))"

definition apart :: "box \<Rightarrow> box \<Rightarrow> bool" where
  "apart a b \<longleftrightarrow> box_y a = box_y b \<and> box_x a + box_w a \<le> box_x b \<or> box_y a + box_h a \<le> box_y b"

definition inside_legend :: "rat \<Rightarrow> rat \<Rightarrow> rat \<Rightarrow> box \<Rightarrow> bool" where
  "inside_legend pad width height b \<longleftrightarrow> pad \<le> box_x b \<and> (box_x b + box_w b \<le> width \<or> box_x b = pad)
     \<and> pad \<le> box_y b \<and> box_y b + box_h b \<le> height"

definition sized :: "(string \<Rightarrow> text_extents) \<Rightarrow> bool" where
  "sized ext \<longleftrightarrow> (\<forall>s. 0 \<le> val (te_width (ext s)) \<and> 0 \<le> val (te_height (ext s)))"

lemma legend_place_spec:
  assumes "legend_place ext pad width l (lh, th, lu) = (x, lh', th', lu')"
    and "sized ext" "0 \<le> val pad" "0 \<le> val lh" "val pad \<le> val lu"
  shows "val lh \<le> val lh'" "val (te_height (ext l)) + val pad \<le> val lh'"
    "val lu' = val x + (3 * val pad + val (te_width (ext l)))" "val pad \<le> val x"
    "val x + (3 * val pad + val (te_width (ext l))) \<le> val width \<or> val x = val pad"
    "val th' = val th \<and> val x = val lu \<or> val th' = val th + val lh'"
proof -
  define iw ih where "iw = pad + pad + te_width (ext l) + pad" and "ih = te_height (ext l) + pad"
  have e: "x = lu' - iw" "lh' = (if ih > lh then ih else lh)"
    "th' = (if lu + iw > width then th + lh' else th)" "lu' = (if lu + iw > width then pad + iw else lu + iw)"
    using assms(1) by (auto simp: legend_place_def Let_def iw_def ih_def split: if_splits)
  have v: "val iw = 3 * val pad + val (te_width (ext l))" "val ih = val (te_height (ext l)) + val pad"
    by (simp_all add: iw_def ih_def)
  show "val lh \<le> val lh'" "val (te_height (ext l)) + val pad \<le> val lh'" using e(2) v(2) by auto
  show "val lu' = val x + (3 * val pad + val (te_width (ext l)))" using e(1) v(1) by simp
  show "val pad \<le> val x" "val x + (3 * val pad + val (te_width (ext l))) \<le> val width \<or> val x = val pad"
    "val th' = val th \<and> val x = val lu \<or> val th' = val th + val lh'"
    using e(1,3,4) v(1) assms(5) by (auto split: if_splits)
qed

lemma legend_boxes_spec:
  assumes "sized ext" "0 \<le> val pad"
  shows "0 \<le> val lh \<Longrightarrow> val pad \<le> val lu \<Longrightarrow> val pad \<le> val th \<Longrightarrow>
     foldl (\<lambda>s l. snd (legend_place ext pad width l s)) (lh, th, lu) ls = (lh2, th2, lu2) \<Longrightarrow>
     val th + val lh \<le> val th2 + val lh2
     \<and> (\<forall>b \<in> set (legend_boxes ext pad width ls (lh, th, lu)).
          inside_legend (val pad) (val width) (val th2 + val lh2) b
          \<and> (box_y b = val th \<and> val lu \<le> box_x b \<or> val th + val lh \<le> box_y b))
     \<and> sorted_wrt apart (legend_boxes ext pad width ls (lh, th, lu))"
proof (induction ls arbitrary: lh th lu)
  case Nil
  then show ?case by simp
next
  case (Cons l ls)
  obtain x lh' th' lu' where p: "legend_place ext pad width l (lh, th, lu) = (x, lh', th', lu')"
    by (metis prod_cases4)
  note P = legend_place_spec[OF p assms Cons.prems(1,2)]
  have up: "0 \<le> val lh'" "val pad \<le> val lu'" "val pad \<le> val th'" "val th + val lh \<le> val th' + val lh'"
    using P Cons.prems assms by (auto simp: sized_def intro: add_nonneg_nonneg)
  have IH: "val th' + val lh' \<le> val th2 + val lh2"
    "\<forall>b \<in> set (legend_boxes ext pad width ls (lh', th', lu')). inside_legend (val pad) (val width) (val th2 + val lh2) b
          \<and> (box_y b = val th' \<and> val lu' \<le> box_x b \<or> val th' + val lh' \<le> box_y b)"
    "sorted_wrt apart (legend_boxes ext pad width ls (lh', th', lu'))"
    using Cons.IH[OF up(1-3)] Cons.prems(4) p by simp_all
  define h where "h = \<lparr>box_x = val x, box_y = val th', box_w = 3 * val pad + val (te_width (ext l)),
     box_h = val (te_height (ext l)) + val pad\<rparr>"
  have bs: "legend_boxes ext pad width (l # ls) (lh, th, lu) = h # legend_boxes ext pad width ls (lh', th', lu')"
    by (simp add: p h_def)
  have w: "0 \<le> 3 * val pad + val (te_width (ext l))" using assms by (simp add: sized_def)
  have 1: "inside_legend (val pad) (val width) (val th2 + val lh2) h" "box_y h = val th \<and> val lu \<le> box_x h \<or> val th + val lh \<le> box_y h"
    using P up(3) IH(1) by (auto simp: inside_legend_def h_def)
  have 2: "apart h b" "box_y b = val th \<and> val lu \<le> box_x b \<or> val th + val lh \<le> box_y b"
    if "b \<in> set (legend_boxes ext pad width ls (lh', th', lu'))" for b
    using that IH(2) P w Cons.prems(1) by (force simp: apart_def h_def)+
  show ?case unfolding bs using 1 2 IH up(4) by auto
qed


text \<open>What a list of calls shows: the corners of its rectangles, its texts, the colours of its fills.\<close>

fun corners :: "cairo list \<Rightarrow> (rat \<times> rat) list" where
  "corners [] = []"
| "corners (c # cs) = (case c of Rectangle x y w h \<Rightarrow> (val x, val y) # corners cs | _ \<Rightarrow> corners cs)"

fun shown_texts :: "cairo list \<Rightarrow> string list" where
  "shown_texts [] = []"
| "shown_texts (c # cs) = (case c of ShowText s \<Rightarrow> s # shown_texts cs | _ \<Rightarrow> shown_texts cs)"

fun fill_sources :: "cairo list \<Rightarrow> cairo list" where
  "fill_sources (c # Fill # cs) = c # fill_sources cs"
| "fill_sources (c # cs) = fill_sources cs"
| "fill_sources [] = []"

lemma emit_run [simp]: "emit cs p = (Inr (), p\<lparr>pen_out := pen_out p @ cs\<rparr>)"
  "act_then (emit cs) m p = m (p\<lparr>pen_out := pen_out p @ cs\<rparr>)"
  by (simp_all add: emit_def)

lemma legend_draw_loop_spec:
  "i + length ls \<le> length (legend_colors t) \<Longrightarrow>
   \<exists>cs. legend_draw_loop ext t (int i) ls s p = (Inr (), p\<lparr>pen_out := pen_out p @ cs\<rparr>)
     \<and> (cs = [] \<or> (\<exists>x y w h r. cs = Rectangle x y w h # r))
     \<and> corners cs = map (\<lambda>b. (box_x b, box_y b)) (legend_boxes ext (lg_padding t) (lg_width t) ls s)
     \<and> shown_texts cs = ls \<and> fill_sources cs = map color_rgb (take (length ls) (drop i (legend_colors t)))"
proof (induction ls arbitrary: i s p)
  case Nil
  then show ?case by (intro exI[of _ "[]"]) simp
next
  case (Cons l ls)
  obtain x lh th lu where q: "legend_place ext (lg_padding t) (lg_width t) l s = (x, lh, th, lu)" by (metis prod_cases4)
  have i: "i < length (legend_colors t)" "Suc i + length ls \<le> length (legend_colors t)" using Cons.prems by simp_all
  define a where "a = [Rectangle x th (lg_padding t) (lg_padding t), black, SetLineWidth 2, StrokePreserve]"
  define b where "b = [color_rgb (legend_colors t ! i), Fill, MoveTo (x + lg_padding t * 2) (th + te_height (ext l)),
      black, ShowText l]"
  have nx: "int i + 1 = int (Suc i)" by simp
  obtain cs where cs: "legend_draw_loop ext t (int (Suc i)) ls (lh, th, lu) (p\<lparr>pen_out := (pen_out p @ a) @ b\<rparr>)
       = (Inr (), p\<lparr>pen_out := pen_out p @ a @ b @ cs\<rparr>)"
    "cs = [] \<or> (\<exists>x y w h r. cs = Rectangle x y w h # r)"
    "corners cs = map (\<lambda>b. (box_x b, box_y b)) (legend_boxes ext (lg_padding t) (lg_width t) ls (lh, th, lu))"
    "shown_texts cs = ls" "fill_sources cs = map color_rgb (take (length ls) (drop (Suc i) (legend_colors t)))"
    using Cons.IH[OF i(2), of "(lh, th, lu)" "p\<lparr>pen_out := (pen_out p @ a) @ b\<rparr>"] by auto
  have run: "legend_draw_loop ext t (int i) (l # ls) s p = (Inr (), p\<lparr>pen_out := pen_out p @ a @ b @ cs\<rparr>)"
    using cs(1) i(1) by (simp add: q nx a_def b_def Let_def add.commute)
  have "fill_sources (a @ b @ cs) = color_rgb (legend_colors t ! i) # fill_sources cs"
    using cs(2) by (auto simp: a_def b_def black_def color_rgb_def)
  moreover have "take (length (l # ls)) (drop i (legend_colors t))
      = legend_colors t ! i # take (length ls) (drop (Suc i) (legend_colors t))"
    using i(1) by (metis Cons_nth_drop_Suc length_Cons take_Suc_Cons)
  moreover have "corners (a @ b @ cs) = (val x, val th) # corners cs" "shown_texts (a @ b @ cs) = l # shown_texts cs"
    by (simp_all add: a_def b_def black_def color_rgb_def)
  ultimately show ?case
    using run cs(3-5) by (intro exI[of _ "a @ b @ cs"]) (auto simp: q a_def)
qed


lemma scale_layout_empty:
  assumes "val (sc_lo s) = val (sc_hi s)"
  shows "\<exists>s'. scale_layout ext w s = Inr s'"
proof -
  have c: "closest_loop 1 0 = 1" by (subst closest_loop.simps) simp
  have "val (PyInt 1) \<noteq> 0" by simp
  from n_div_Inr[OF this, of "sc_hi s - sc_lo s"] obtain q where "n_div (sc_hi s - sc_lo s) (PyInt 1) = Inr q" "val q = 0"
    using assms by (auto cong: if_cong)
  then have "scale_delta (sc_lo s) (sc_hi s) = Inr 1" using assms c by (simp add: scale_delta_def)
  moreover obtain a b where "scale_ends (sc_lo s) (sc_hi s) (PyInt 1) = Inr (a, b)"
    by (rule scale_ends_spec[of 1 "sc_lo s" "sc_hi s"]) auto
  ultimately show ?thesis by (simp add: scale_layout_def Let_def)
qed

lemma scale_layout_total:
  assumes "val (sc_lo s) \<le> val (sc_hi s)"
  shows "scale_layout ext w s = (if val (sc_hi s) - val (sc_lo s) = 1 then Inl ZeroDivisionError
     else Inr (projr (scale_layout ext w s)))"
  using scale_layout_empty[of s ext w] scale_layout_spec[of s ext w] assms
  by (cases "val (sc_lo s) = val (sc_hi s)") (fastforce simp: le_less)+

end
