(* ===== verification/GridTimelinesProofs.thy ===== *)
theory GridTimelinesProofs
  imports GridTimelines GridDataProofs GridDrawProofs
begin

text \<open>
  Lemmas on the rows of \<open>TimelinesRenderer\<close>: where the times of the window are drawn, that the bars
  of the ranges and the marks of the events are inside the area of the data, in order and apart,
  and how far down the rows go.
\<close>

section \<open>From a time to a pixel\<close>

definition trunc :: "rat \<Rightarrow> int" where
  "trunc v = (if v \<ge> 0 then \<lfloor>v\<rfloor> else \<lceil>v\<rceil>)"

lemma n_int_trunc: "n_int x = trunc (val x)"
  by (cases x) (auto simp: trunc_def)

lemma trunc_mono: "a \<le> b \<Longrightarrow> trunc a \<le> trunc b"
  using n_int_mono[of "PyFloat a" "PyFloat b"] by (simp add: n_int_trunc)

definition window_ok :: "timelines_renderer \<Rightarrow> pynum \<Rightarrow> bool" where
  "window_ok r width \<longleftrightarrow> val (tr_start r) < val (tr_end r) \<and> 0 \<le> val width"

text \<open>The offset of a time by value: cut to an integer where all the numbers are integers.\<close>

definition place :: "timelines_renderer \<Rightarrow> pynum \<Rightarrow> rat \<Rightarrow> rat" where
  "place r width t =
     (let q = (t - val (tr_start r)) * val width / (val (tr_end r) - val (tr_start r))
      in if is_int (tr_start r) \<and> is_int (tr_end r) \<and> is_int width then of_int \<lfloor>q\<rfloor> else q)"

definition of_window :: "timelines_renderer \<Rightarrow> pynum \<Rightarrow> bool" where
  "of_window r t \<longleftrightarrow> (is_int (tr_start r) \<and> is_int (tr_end r) \<longrightarrow> is_int t)"

lemma data_offset_place:
  assumes "window_ok r width" "of_window r t"
  obtains q where "data_offset r width t = Inr q" "val q = place r width (val t)"
proof -
  let ?d = "tr_end r - tr_start r"
  have "val ?d \<noteq> 0" using assms by (simp add: window_ok_def)
  from n_div_Inr[OF this, of "(t - tr_start r) * width"] obtain q where
    "n_div ((t - tr_start r) * width) ?d = Inr q"
    "val q = (if is_int ((t - tr_start r) * width) \<and> is_int ?d then of_int \<lfloor>val ((t - tr_start r) * width) / val ?d\<rfloor>
       else val ((t - tr_start r) * width) / val ?d)" by blast
  moreover have "is_int ((t - tr_start r) * width) \<and> is_int ?d \<longleftrightarrow> is_int (tr_start r) \<and> is_int (tr_end r) \<and> is_int width"
    using assms(2) by (auto simp: of_window_def)
  ultimately show thesis using that by (simp only: data_offset_def place_def Let_def val_ops)
qed

lemma place_mono:
  assumes "window_ok r width" "t \<le> t'"
  shows "place r width t \<le> place r width t'"
proof -
  have "(t - val (tr_start r)) * val width / (val (tr_end r) - val (tr_start r))
      \<le> (t' - val (tr_start r)) * val width / (val (tr_end r) - val (tr_start r))"
    using assms by (intro divide_right_mono mult_right_mono) (simp_all add: window_ok_def)
  then show ?thesis by (auto simp: place_def Let_def intro: floor_mono)
qed

lemma place_ends:
  assumes "window_ok r width"
  shows "place r width (val (tr_start r)) = 0" "place r width (val (tr_end r)) = val width"
proof -
  show "place r width (val (tr_start r)) = 0" by (simp add: place_def)
  have "val (tr_end r) - val (tr_start r) \<noteq> 0" using assms by (simp add: window_ok_def)
  then have "(val (tr_end r) - val (tr_start r)) * val width / (val (tr_end r) - val (tr_start r)) = val width" by simp
  then show "place r width (val (tr_end r)) = val width" by (cases width) (simp_all add: place_def Let_def)
qed

definition pixel :: "timelines_renderer \<Rightarrow> pynum \<Rightarrow> pynum \<Rightarrow> rat \<Rightarrow> int" where
  "pixel r x width t = trunc (val x + place r width t)"

lemma pixel_mono: "window_ok r width \<Longrightarrow> t \<le> t' \<Longrightarrow> pixel r x width t \<le> pixel r x width t'"
  by (simp add: pixel_def trunc_mono place_mono)

lemma pixel_ends: "window_ok r width \<Longrightarrow> pixel r x width (val (tr_start r)) = n_int x"
  "window_ok r width \<Longrightarrow> pixel r x width (val (tr_end r)) = n_int (x + width)"
  by (simp_all add: pixel_def place_ends n_int_trunc)

section \<open>The bars of the ranges\<close>

text \<open>The left and the right end of every rectangle.\<close>

fun bars :: "cairo list \<Rightarrow> (int \<times> int) list" where
  "bars [] = []"
| "bars (c # cs) = (case c of Rectangle x y w h \<Rightarrow> (n_int x, n_int (x + w)) # bars cs | _ \<Rightarrow> bars cs)"

lemma bars_append: "bars (as @ bs) = bars as @ bars bs"
  by (induction as) (auto split: cairo.splits)

lemma pen_lookup_known:
  "d_get (color_map (pen_colors p)) v = Some c \<Longrightarrow> pen_lookup v p = (Inr c, p)"
  by (simp add: pen_lookup_def lookup_color_known)

definition colored :: "pen \<Rightarrow> data_range \<Rightarrow> bool" where
  "colored p dr \<longleftrightarrow> d_get (color_map (pen_colors p)) (range_value dr) \<noteq> None"

lemma bars_spec:
  assumes "window_ok r width"
  shows "in_line rs \<Longrightarrow> (\<forall>dr \<in> set rs. crosses (val (tr_start r)) (val (tr_end r)) dr \<and> colored p dr) \<Longrightarrow>
     (\<forall>dr \<in> set rs. low \<le> pixel r x width (max (of_int (range_start dr)) (val (tr_start r)))) \<Longrightarrow>
     \<exists>cs. draw_ranges_loop r x y width prev rs p = (Inr (), p\<lparr>pen_out := pen_out p @ cs\<rparr>)
       \<and> sorted_wrt (\<lambda>a b. snd a \<le> fst b) (bars cs)
       \<and> (\<forall>(a, b) \<in> set (bars cs). n_int x \<le> a \<and> low \<le> a \<and> a \<le> b \<and> b \<le> n_int (x + width) \<and> prev < b)"
proof (induction rs arbitrary: prev low p)
  case Nil
  then show ?case by (intro exI[of _ "[]"]) simp
next
  case (Cons dr rs)
  define s e where "s = n_max (PyInt (range_start dr)) (tr_start r)" and "e = n_min (PyInt (range_end dr)) (tr_end r)"
  have c: "of_int (range_start dr) < val (tr_end r)" "val (tr_start r) < of_int (range_end dr)"
    "range_start dr \<le> range_end dr" "colored p dr"
    using Cons.prems(1,2) by (simp_all add: crosses_def in_line_def)
  have "of_window r s" "of_window r e" by (auto simp: of_window_def s_def e_def n_max_def n_min_def)
  then obtain qs qe where q: "data_offset r width s = Inr qs" "val qs = place r width (val s)"
    "data_offset r width e = Inr qe" "val qe = place r width (val e)"
    using data_offset_place[OF assms] by metis
  have n: "n_int (x + qs) = pixel r x width (val s)" "n_int (x + qe) = pixel r x width (val e)"
    by (simp_all add: n_int_trunc pixel_def q)
  have se: "val (tr_start r) \<le> val s" "val s \<le> val e" "val e \<le> val (tr_end r)"
    using c assms by (auto simp: s_def e_def window_ok_def)
  have px: "n_int x \<le> pixel r x width (val s)" "pixel r x width (val s) \<le> pixel r x width (val e)"
    "pixel r x width (val e) \<le> n_int (x + width)"
    using pixel_mono[OF assms se(1), of x] pixel_mono[OF assms se(2), of x] pixel_mono[OF assms se(3), of x]
    by (simp_all add: pixel_ends[OF assms])
  have rest: "in_line rs" "\<forall>dr \<in> set rs. crosses (val (tr_start r)) (val (tr_end r)) dr"
    "\<forall>d \<in> set rs. range_end dr \<le> range_start d"
    using Cons.prems(1,2) by (auto simp: in_line_def)
  have after: "\<forall>d \<in> set rs. pixel r x width (val e) \<le> pixel r x width (max (of_int (range_start d)) (val (tr_start r)))"
  proof
    fix d assume "d \<in> set rs"
    then have "range_end dr \<le> range_start d" using rest(3) by blast
    then have "(of_int (range_end dr) :: rat) \<le> of_int (range_start d)" by simp
    then have "val e \<le> max (of_int (range_start d)) (val (tr_start r))" unfolding e_def by simp
    then show "pixel r x width (val e) \<le> pixel r x width (max (of_int (range_start d)) (val (tr_start r)))"
      by (rule pixel_mono[OF assms])
  qed
  have low: "low \<le> pixel r x width (val s)" using Cons.prems(3) by (simp add: s_def)
  show ?case
  proof (cases "pixel r x width (val e) > prev")
    case True
    obtain col where col: "d_get (color_map (pen_colors p)) (range_value dr) = Some col"
      using c(4) by (auto simp: colored_def)
    define h where "h = [Rectangle (PyInt (pixel r x width (val s))) y (PyInt (pixel r x width (val e) - pixel r x width (val s))) 10,
      black, StrokePreserve, color_rgb col, Fill]"
    define p1 where "p1 = p\<lparr>pen_out := pen_out p @ h\<rparr>"
    have "\<forall>dr \<in> set rs. crosses (val (tr_start r)) (val (tr_end r)) dr \<and> colored p1 dr"
      using Cons.prems(2) by (simp add: colored_def p1_def)
    from Cons.IH[OF rest(1) this after, of "pixel r x width (val e)"]
    obtain cs where cs: "draw_ranges_loop r x y width (pixel r x width (val e)) rs p1 = (Inr (), p1\<lparr>pen_out := pen_out p1 @ cs\<rparr>)"
      "sorted_wrt (\<lambda>a b. snd a \<le> fst b) (bars cs)"
      "\<forall>(a, b) \<in> set (bars cs). n_int x \<le> a \<and> pixel r x width (val e) \<le> a \<and> a \<le> b \<and> b \<le> n_int (x + width)
         \<and> pixel r x width (val e) < b" by blast
    have "draw_ranges_loop r x y width prev (dr # rs) p = (Inr (), p\<lparr>pen_out := pen_out p @ h @ cs\<rparr>)"
      using cs(1) True
      by (simp add: s_def[symmetric] e_def[symmetric] q n Let_def p1_def h_def)
         (subst act_bind_run(1)[OF pen_lookup_known[of _ _ col]], simp_all add: col)
    moreover have "bars (h @ cs) = (pixel r x width (val s), pixel r x width (val e)) # bars cs"
      by (simp add: bars_append) (simp add: h_def black_def color_rgb_def)
    ultimately show ?thesis using cs(2,3) px low True by (intro exI[of _ "h @ cs"]) force
  next
    case False
    have l: "\<forall>dr \<in> set rs. low \<le> pixel r x width (max (of_int (range_start dr)) (val (tr_start r)))"
      using Cons.prems(3) by simp
    have "draw_ranges_loop r x y width prev (dr # rs) p = draw_ranges_loop r x y width prev rs p"
      using False by (simp add: s_def[symmetric] e_def[symmetric] q n Let_def)
    then show ?thesis using Cons.IH[OF rest(1) _ l, of p prev] Cons.prems(2) by simp
  qed
qed

section \<open>The marks of the events\<close>

lemma marks_spec:
  assumes "window_ok r width"
  shows "(\<forall>e \<in> set es. of_int (event_at e) \<le> val (tr_end r)) \<Longrightarrow>
     \<exists>cs. draw_events_loop r x y width prev es p = (Inr (), p\<lparr>pen_out := pen_out p @ cs\<rparr>)
       \<and> sorted_wrt (\<lambda>a b. fst a + 2 < fst b) (bars cs)
       \<and> (\<forall>(a, b) \<in> set (bars cs). prev + 2 < a \<and> a \<le> n_int (x + width) \<and> b = a + 1)"
proof (induction es arbitrary: prev p)
  case Nil
  then show ?case by (intro exI[of _ "[]"]) simp
next
  case (Cons e es)
  have "of_window r (PyInt (event_at e))" by (simp add: of_window_def)
  then obtain q where q: "data_offset r width (PyInt (event_at e)) = Inr q" "val q = place r width (of_int (event_at e))"
    using data_offset_place[OF assms] by (metis val.simps(1))
  define z where "z = pixel r x width (of_int (event_at e))"
  have n: "n_int (x + q) = z" by (simp add: n_int_trunc pixel_def q z_def)
  have zw: "z \<le> n_int (x + width)"
    using pixel_mono[OF assms, of "of_int (event_at e)" "val (tr_end r)" x] Cons.prems by (simp add: z_def pixel_ends[OF assms])
  have es: "\<forall>e \<in> set es. of_int (event_at e) \<le> val (tr_end r)" using Cons.prems by simp
  show ?case
  proof (cases "z > prev + 2")
    case True
    define h where "h = [Rectangle (PyInt z) y 1 1, SetSourceRgb 1 0 0, Stroke, MoveTo (PyInt z) (y + tr_text_height r), black,
      ShowText (event_text (event_val e))]"
    obtain cs where cs: "draw_events_loop r x y width z es (p\<lparr>pen_out := pen_out p @ h\<rparr>) = (Inr (), p\<lparr>pen_out := pen_out p @ h @ cs\<rparr>)"
      "sorted_wrt (\<lambda>a b. fst a + 2 < fst b) (bars cs)"
      "\<forall>(a, b) \<in> set (bars cs). z + 2 < a \<and> a \<le> n_int (x + width) \<and> b = a + 1"
      using Cons.IH[OF es, of z "p\<lparr>pen_out := pen_out p @ h\<rparr>"] by auto
    have "draw_events_loop r x y width prev (e # es) p = (Inr (), p\<lparr>pen_out := pen_out p @ h @ cs\<rparr>)"
      using cs(1) True by (simp add: q n Let_def h_def)
    moreover have "bars (h @ cs) = (z, z + 1) # bars cs"
      by (simp add: bars_append) (simp add: h_def black_def one_pynum_def)
    ultimately show ?thesis using cs(2,3) zw True by (intro exI[of _ "h @ cs"]) force
  next
    case False
    then have "draw_events_loop r x y width prev (e # es) p = draw_events_loop r x y width prev es p"
      by (simp add: q n Let_def)
    then show ?thesis using Cons.IH[OF es, of prev p] by simp
  qed
qed


section \<open>How far down the rows go\<close>

lemma act_then_Inr_iff: "act_then m n s = (Inr y, s'') \<longleftrightarrow> (\<exists>x s'. m s = (Inr x, s') \<and> n s' = (Inr y, s''))"
  by (simp add: act_then_def act_bind_Inr_iff)

lemma act_fold_sum:
  assumes "\<And>x y p y' p'. f x y p = (Inr y', p') \<Longrightarrow> val y' = val y + h x"
  shows "act_fold f xs y p = (Inr y', p') \<Longrightarrow> val y' = val y + (\<Sum>x\<leftarrow>xs. h x)"
proof (induction xs arbitrary: y p)
  case (Cons x xs)
  then obtain z q where "f x y p = (Inr z, q)" "act_fold f xs z q = (Inr y', p')"
    by (auto simp: act_bind_Inr_iff)
  then show ?case using Cons.IH[of z q] assms[of x y p z q] by simp
qed simp

lemma draw_line_run [simp]: "draw_line x y w h p =
    (Inr (), p\<lparr>pen_out := pen_out p @ [MoveTo x y, RelLineTo w h, ClosePath, SetOperatorSource, SetLineWidth (PyFloat 1), black, Stroke]\<rparr>)"
  "act_then (draw_line x y w h) m p =
    m (p\<lparr>pen_out := pen_out p @ [MoveTo x y, RelLineTo w h, ClosePath, SetOperatorSource, SetLineWidth (PyFloat 1), black, Stroke]\<rparr>)"
  by (simp_all add: draw_line_def)

lemma event_row_down: "draw_event_row ext r v y p = (Inr y', p') \<Longrightarrow> val y' = val y + (val (tr_text_height r) + 5 + of_int (tr_padding r))"
  by (auto simp: draw_event_row_def end_row_def act_then_Inr_iff)

lemma range_row_down: "draw_range_row ext r v y p = (Inr y', p') \<Longrightarrow> val y' = val y + (val (tr_text_height r) + of_int (tr_padding r))"
  by (auto simp: draw_range_row_def end_row_def act_then_Inr_iff)

text \<open>The numbers of rows of events and of ranges.\<close>

definition event_rows :: "timeline list \<Rightarrow> int" where
  "event_rows ts = count_rows tl_event_int ts + count_rows tl_event_str ts"

definition range_rows :: "timeline list \<Rightarrow> int" where
  "range_rows ts = count_rows tl_ranges ts"

lemma sum_const: "(\<Sum>x\<leftarrow>xs. (c :: rat)) = of_int (int (length xs)) * c"
  by (induction xs) (simp_all add: algebra_simps)

lemma timeline_down:
  assumes "draw_timeline ext r t y p = (Inr y', p')"
  shows "val y' = val y + of_int (event_rows [t]) * (val (tr_text_height r) + 5 + of_int (tr_padding r))
     + of_int (range_rows [t]) * (val (tr_text_height r) + of_int (tr_padding r))"
proof -
  obtain y1 p1 y2 p2 y3 p3 q where
    1: "act_fold (draw_event_row ext r) (tl_event_int t) y q = (Inr y1, p1)" and
    2: "act_fold (draw_event_row ext r) (tl_event_str t) y1 p1 = (Inr y2, p2)" and
    3: "act_fold (draw_range_row ext r) (tl_ranges t) y2 p2 = (Inr y3, p3)" and "y' = y3"
    using assms by (auto simp: draw_timeline_def act_then_Inr_iff act_bind_Inr_iff)
  then show ?thesis
    using act_fold_sum[OF event_row_down 1] act_fold_sum[OF event_row_down 2] act_fold_sum[OF range_row_down 3]
    by (simp add: sum_const event_rows_def range_rows_def count_rows_def algebra_simps)
qed

lemma rows_sum: "(\<Sum>t\<leftarrow>ts. of_int (event_rows [t]) * a + of_int (range_rows [t]) * b)
    = of_int (event_rows ts) * a + of_int (range_rows ts) * (b :: rat)"
  by (induction ts) (simp_all add: event_rows_def range_rows_def count_rows_def algebra_simps)

lemma timelines_down:
  assumes "timelines_draw ext r p = (Inr (), p')"
  obtains out bottom where "pen_out p' = out @ [RelLineTo 0 bottom, ClosePath, SetOperatorSource, SetLineWidth (PyFloat 1), black, Stroke]"
    "val bottom = of_int (event_rows (tr_timelines r)) * (val (tr_text_height r) + 5 + of_int (tr_padding r))
       + of_int (range_rows (tr_timelines r)) * (val (tr_text_height r) + of_int (tr_padding r))"
proof -
  obtain y q p1 where y: "act_fold (draw_timeline ext r) (tr_timelines r) (half_padding r) q = (Inr y, p1)"
    "p' = p1\<lparr>pen_out := pen_out p1 @ [MoveTo (left_x_end r + half_padding r) 0, RelLineTo 0 (y - half_padding r), ClosePath,
       SetOperatorSource, SetLineWidth (PyFloat 1), black, Stroke] @ [MoveTo (right_x_end r + half_padding r) 0,
       RelLineTo 0 (y - half_padding r), ClosePath, SetOperatorSource, SetLineWidth (PyFloat 1), black, Stroke]\<rparr>"
    using assms by (auto simp: timelines_draw_def act_bind_Inr_iff Let_def)
  let ?h = "\<lambda>t. of_int (event_rows [t]) * (val (tr_text_height r) + 5 + of_int (tr_padding r))
     + of_int (range_rows [t]) * (val (tr_text_height r) + of_int (tr_padding r))"
  have "val y = val (half_padding r) + (\<Sum>t\<leftarrow>tr_timelines r. ?h t)"
    by (rule act_fold_sum[OF _ y(1)]) (simp add: timeline_down add.assoc)
  then have "val (y - half_padding r) = (\<Sum>t\<leftarrow>tr_timelines r. ?h t)" by simp
  then show thesis using that[of "pen_out p1 @ [MoveTo (left_x_end r + half_padding r) 0, RelLineTo 0 (y - half_padding r), ClosePath,
       SetOperatorSource, SetLineWidth (PyFloat 1), black, Stroke] @ [MoveTo (right_x_end r + half_padding r) 0]" "y - half_padding r"] y(2)
    by (simp add: rows_sum)
qed

lemma count_rows_nonneg: "0 \<le> count_rows f ts"
  by (auto simp: count_rows_def intro!: sum_list_nonneg)

lemma layout_height:
  assumes "\<forall>t \<in> set (tr_timelines r). row_names t \<noteq> []" "tr_padding r = 10"
    "0 \<le> val (te_height (ext all_letters))"
  shows "of_int (event_rows (tr_timelines r)) * (val (te_height (ext all_letters)) + 15)
         + of_int (range_rows (tr_timelines r)) * (val (te_height (ext all_letters)) + 10)
           \<le> val (tr_height (timelines_layout ext w r))
     \<longleftrightarrow> val (te_height (ext all_letters)) \<le> 10 \<or> event_rows (tr_timelines r) = 0 \<or> range_rows (tr_timelines r) = 0"
proof -
  define h where "h = val (te_height (ext all_letters))"
  define T E R :: rat where "T = of_int (int (length (tr_timelines r)))" and "E = of_int (event_rows (tr_timelines r))"
    and "R = of_int (range_rows (tr_timelines r))"
  have nn: "0 \<le> E" "0 \<le> R"
    by (simp_all add: E_def R_def event_rows_def range_rows_def count_rows_nonneg add_nonneg_nonneg flip: of_int_add)
  have TE: "T \<le> E + R"
  proof -
    have "\<forall>t \<in> set ts. row_names t \<noteq> [] \<Longrightarrow> int (length ts) \<le> event_rows ts + range_rows ts" for ts
    proof (induction ts)
      case (Cons t ts)
      then have "1 \<le> length (row_names t)" by (cases "row_names t") auto
      then show ?case using Cons by (simp add: event_rows_def range_rows_def count_rows_def row_names_def)
    qed (simp add: event_rows_def range_rows_def count_rows_def)
    from this[OF assms(1)] have "of_int (int (length (tr_timelines r))) \<le> (of_int (event_rows (tr_timelines r) + range_rows (tr_timelines r)) :: rat)"
      by (rule of_int_le_iff[THEN iffD2])
    then show ?thesis by (simp add: T_def E_def R_def)
  qed
  have ht: "val (tr_height (timelines_layout ext w r))
      = max (max (T * h + (T - 1) * 10) ((E + R - 1) * 10 + (E + R) * h)) (E * (h + 5) + R * 10 + (E + R - 1) * 10) + 10"
    by (simp add: timelines_layout_def Let_def assms(2) h_def T_def E_def R_def event_rows_def range_rows_def algebra_simps)
  have 1: "T * h + (T - 1) * 10 \<le> (E + R - 1) * 10 + (E + R) * h"
    using mult_right_mono[OF TE, of h] TE assms(3) by (simp add: h_def algebra_simps)
  have "E * (h + 15) + R * (h + 10) \<le> (E + R - 1) * 10 + (E + R) * h + 10 \<longleftrightarrow> E = 0"
    using nn(1) by (auto simp: algebra_simps)
  moreover have "E * (h + 15) + R * (h + 10) \<le> E * (h + 5) + R * 10 + (E + R - 1) * 10 + 10 \<longleftrightarrow> R * h \<le> R * 10"
    by (simp add: algebra_simps)
  moreover have "R * h \<le> R * 10 \<longleftrightarrow> R = 0 \<or> h \<le> 10" using nn(2) by (auto simp: mult_le_cancel_left)
  ultimately have "E * (h + 15) + R * (h + 10) \<le> val (tr_height (timelines_layout ext w r)) \<longleftrightarrow> h \<le> 10 \<or> E = 0 \<or> R = 0"
    unfolding ht using 1 by (auto simp: le_max_iff_disj)
  then show ?thesis by (simp add: h_def E_def R_def)
qed

end
