(* ===== verification/GridUiProofs.thy ===== *)
theory GridUiProofs
  imports GridUi GridTimelinesProofs
begin

text \<open>
  Lemmas on sessions with the viewer of \<open>utils/grid.py\<close>: what every event keeps of the visible window
  and of the drags, what a zoom and a drag do to the window.
\<close>

section \<open>The window\<close>

definition window_of :: "pynum \<Rightarrow> pynum \<Rightarrow> scale \<Rightarrow> graphic \<Rightarrow> bool" where
  "window_of lo hi sc g \<longleftrightarrow> g_start g = lo \<and> g_end g = hi \<and> sc_lo (g_bot g) = sc_lo sc \<and> sc_hi (g_bot g) = sc_hi sc
     \<and> val lo \<le> val (r_start g) \<and> val (r_end g) \<le> val hi
     \<and> tr_start (g_data g) = r_start g \<and> tr_end (g_data g) = r_end g
     \<and> sc_lo (g_mid g) = r_start g \<and> sc_hi (g_mid g) = r_end g"

lemma scale_layout_bounds:
  "scale_layout ext w s = Inr s' \<Longrightarrow> sc_lo s' = sc_lo s \<and> sc_hi s' = sc_hi s \<and> sc_width s' = w"
  by (auto simp: scale_layout_def rbind_Inr_iff Let_def)

lemma timelines_layout_window [simp]:
  "tr_start (timelines_layout ext w r) = tr_start r" "tr_end (timelines_layout ext w r) = tr_end r"
  by (simp_all add: timelines_layout_def Let_def)

lemma graphic_layout_fields:
  assumes "graphic_layout ext w h g = (res, g')"
  shows "g_start g' = g_start g" "g_end g' = g_end g" "r_start g' = r_start g" "r_end g' = r_end g"
    "sc_lo (g_mid g') = sc_lo (g_mid g)" "sc_hi (g_mid g') = sc_hi (g_mid g)"
    "sc_lo (g_bot g') = sc_lo (g_bot g)" "sc_hi (g_bot g') = sc_hi (g_bot g)"
    "tr_start (g_data g') = tr_start (g_data g)" "tr_end (g_data g') = tr_end (g_data g)"
    "g_width g' = w" "g_height g' = h" "res = Inr () \<Longrightarrow> sc_width (g_bot g') = w"
proof -
  define g1 where "g1 = g\<lparr>g_width := w, g_height := h, g_legend := legend_layout ext w (g_legend g),
                 g_data := timelines_layout ext w (g_data g)\<rparr>"
  have "(\<exists>e. g' = g1 \<and> res = Inl e) \<or> (\<exists>e mid. scale_layout ext (w - get_data_x_start (g_data g1)) (g_mid g) = Inr mid \<and>
     (g' = g1\<lparr>g_mid := mid\<rparr> \<and> res = Inl e
      \<or> (\<exists>sc. scale_layout ext w (g_bot g) = Inr sc \<and> g' = g1\<lparr>g_mid := mid, g_bot := sc\<rparr>)))"
    using assms by (cases "scale_layout ext (w - get_data_x_start (g_data g1)) (g_mid g)"; cases "scale_layout ext w (g_bot g)")
      (auto simp: graphic_layout_def g1_def)
  then show "g_start g' = g_start g" "g_end g' = g_end g" "r_start g' = r_start g" "r_end g' = r_end g"
    "sc_lo (g_mid g') = sc_lo (g_mid g)" "sc_hi (g_mid g') = sc_hi (g_mid g)"
    "sc_lo (g_bot g') = sc_lo (g_bot g)" "sc_hi (g_bot g') = sc_hi (g_bot g)"
    "tr_start (g_data g') = tr_start (g_data g)" "tr_end (g_data g') = tr_end (g_data g)"
    "g_width g' = w" "g_height g' = h" "res = Inr () \<Longrightarrow> sc_width (g_bot g') = w"
    by (auto simp: g1_def dest: scale_layout_bounds)
qed

lemma layout_keeps: "keeps (window_of lo hi sc) (graphic_layout ext w h)"
  unfolding keeps_def
proof (intro allI impI)
  fix g assume "window_of lo hi sc g"
  moreover obtain res g' where "graphic_layout ext w h g = (res, g')" by fastforce
  ultimately show "window_of lo hi sc (snd (graphic_layout ext w h g))"
    using graphic_layout_fields[of ext w h g res g'] by (simp add: window_of_def)
qed

lemma show_range_fields:
  "r_start (show_range a b g) = n_max (g_start g) (n_min a b)" "r_end (show_range a b g) = n_min (g_end g) (n_max a b)"
  "g_start (show_range a b g) = g_start g" "g_end (show_range a b g) = g_end g"
  "g_bot (show_range a b g) = g_bot g" "g_width (show_range a b g) = g_width g" "g_height (show_range a b g) = g_height g"
  "tr_start (g_data (show_range a b g)) = r_start (show_range a b g)" "tr_end (g_data (show_range a b g)) = r_end (show_range a b g)"
  "sc_lo (g_mid (show_range a b g)) = r_start (show_range a b g)" "sc_hi (g_mid (show_range a b g)) = r_end (show_range a b g)"
  by (simp_all add: show_range_def Let_def set_render_range_def set_bounds_def)

lemma show_range_window:
  "g_start g = lo \<Longrightarrow> g_end g = hi \<Longrightarrow> sc_lo (g_bot g) = sc_lo sc \<Longrightarrow> sc_hi (g_bot g) = sc_hi sc \<Longrightarrow>
     window_of lo hi sc (show_range a b g)"
  by (simp add: window_of_def show_range_fields)

lemma set_range_run: "set_range ext a b g = graphic_layout ext (g_width g) (g_height g) (show_range a b g)"
  by (simp add: set_range_def show_range_fields)

lemma set_range_keeps: "keeps (window_of lo hi sc) (set_range ext a b)"
  unfolding keeps_def
proof (intro allI impI)
  fix g assume "window_of lo hi sc g"
  then have "window_of lo hi sc (show_range a b g)" by (intro show_range_window) (simp_all add: window_of_def)
  then show "window_of lo hi sc (snd (set_range ext a b g))"
    using layout_keeps[of lo hi sc ext "g_width g" "g_height g"] by (simp add: set_range_run keeps_def)
qed

section \<open>What every event keeps\<close>

text \<open>A drag of both edges, or of the data, has the attributes it reads.\<close>

definition drags_set :: "ui \<Rightarrow> bool" where
  "drags_set u \<longleftrightarrow> (moving_both u \<longrightarrow> moving_both_start u \<noteq> None \<and> moving_both_cur u \<noteq> None)
     \<and> (moving_top u \<longrightarrow> moving_top_start u \<noteq> None)"

definition ui_ok :: "pynum \<Rightarrow> pynum \<Rightarrow> scale \<Rightarrow> ui \<Rightarrow> bool" where
  "ui_ok lo hi sc u \<longleftrightarrow> window_of lo hi sc (u_graphic u) \<and> drags_set u"

lemma keeps_ui_reads [keeps_rules]: "keeps P (u_attr f)" "keeps P (ask q)" "keeps P u_range"
  by (auto simp: keeps_def u_attr_def ask_def u_range_def split: option.splits)

lemma keeps_on_graphic [keeps_rules]: "keeps (window_of lo hi sc) m \<Longrightarrow> keeps (ui_ok lo hi sc) (on_graphic m)"
  by (auto simp: keeps_def ui_ok_def on_graphic_def drags_set_def split: prod.splits)

lemma keeps_draw_buffer [keeps_rules]: "keeps (ui_ok lo hi sc) (draw_buffer ext)"
  unfolding draw_buffer_def by (rule keeps_bind[OF keeps_ui_reads(1)])
    (auto simp: keeps_def Let_def ui_ok_def window_of_def drags_set_def split: prod.splits)

lemma handle_keeps: "keeps (ui_ok lo hi sc) (handle_event ext e)"
proof (cases e)
  case ZoomOut
  show ?thesis unfolding ZoomOut handle_event.simps set_smaller_zoom_def force_redraw_def
    by (intro keeps_rules set_range_keeps) (simp add: ui_ok_def drags_set_def)
next
  case ZoomIn
  show ?thesis unfolding ZoomIn handle_event.simps set_bigger_zoom_def force_redraw_def
    by (intro keeps_rules set_range_keeps) (simp add: ui_ok_def drags_set_def)
next
  case (OutputPng f)
  show ?thesis unfolding OutputPng handle_event.simps output_png_def
    by (intro keeps_rules) (simp add: ui_ok_def drags_set_def)
next
  case (Press x y)
  show ?thesis unfolding Press handle_event.simps button_press_def
    by (intro keeps_rules; simp add: ui_ok_def drags_set_def)
next
  case Release
  show ?thesis unfolding Release handle_event.simps button_release_def release_left_def release_right_def release_both_def
      force_redraw_def
    by (intro keeps_rules set_range_keeps; simp add: ui_ok_def drags_set_def)
next
  case (Motion x y)
  show ?thesis unfolding Motion handle_event.simps motion_notify_def motion_left_def motion_right_def motion_both_def
      motion_top_def queue_draw_area_def set_cursor_def force_redraw_def
    by (intro keeps_rules set_range_keeps; simp add: ui_ok_def drags_set_def)
next
  case (Allocate w h)
  show ?thesis unfolding Allocate handle_event.simps size_allocate_def force_redraw_def
    by (intro keeps_rules layout_keeps; simp add: ui_ok_def drags_set_def)
next
  case (Expose x y w h)
  show ?thesis unfolding Expose handle_event.simps expose_def on_window_def
    by (intro keeps_rules; simp add: ui_ok_def drags_set_def)
qed

lemma reaches_keeps: "reaches ext u0 u \<Longrightarrow> ui_ok lo hi sc u0 \<Longrightarrow> ui_ok lo hi sc u"
proof (induction rule: reaches.induct)
  case (event u e r u')
  then show ?case using keepsD[OF handle_keeps[of lo hi sc ext e]] by blast
qed

lemma session_reaches: "reaches ext u (session ext es u)"
proof -
  have "reaches ext u v \<Longrightarrow> reaches ext u (foldl (\<lambda>u e. snd (handle_event ext e u)) v es)" for v
  proof (induction es arbitrary: v)
    case (Cons e es)
    have "reaches ext u (snd (handle_event ext e v))" by (rule reaches.event[OF Cons.prems]) (rule prod.collapse[symmetric])
    then show ?case using Cons.IH by simp
  qed simp
  then show ?thesis by (simp add: session_def reaches.start)
qed

lemma main_graphic_window:
  assumes "main_graphic ext ord lines = Inr g" "get_bounds (snd (read_data lines)) = (lo, hi)"
  shows "window_of (n_float (PyInt lo)) (n_float (PyInt hi)) (set_bounds (PyInt lo) (PyInt hi) ScaleRenderer) g"
proof -
  obtain cs ts where r: "read_data lines = (cs, ts)" by fastforce
  obtain a b where ab: "default_range lo hi = (a, b)" by fastforce
  obtain rc cs' where l: "lookup_all (get_all_range_values ord ts) cs = Inr (rc, cs')"
    using assms r by (auto simp: main_graphic_def rbind_Inr_iff Let_def)
  define g0 where "g0 = (GraphicRenderer (PyInt lo) (PyInt hi))
    \<lparr>g_legend := set_legends (get_all_range_values ord ts) rc TopLegendRenderer, g_data := set_timelines ts cs' TimelinesRenderer\<rparr>"
  obtain q h where q: "set_range ext a b g0 = (q, h)" by fastforce
  have "main_graphic ext ord lines = (case set_range ext a b g0 of (Inl e, g) \<Rightarrow> Inl e | (Inr u, g) \<Rightarrow> Inr g)"
    using assms(2) by (simp add: main_graphic_def Let_def r l ab g0_def)
  then have "set_range ext a b g0 = (Inr (), g)" using assms(1) by (cases q) (simp_all add: q)
  then have g: "graphic_layout ext (g_width g0) (g_height g0) (show_range a b g0) = (Inr (), g)" by (simp add: set_range_run)
  have "window_of (n_float (PyInt lo)) (n_float (PyInt hi)) (set_bounds (PyInt lo) (PyInt hi) ScaleRenderer) (show_range a b g0)"
    by (rule show_range_window) (simp_all add: g0_def GraphicRenderer_def set_bounds_def)
  then show ?thesis using keepsD[OF layout_keeps _ g] by blast
qed


section \<open>Zooming\<close>

lemma set_range_window:
  assumes "set_range ext a b g = (res, g')"
  shows "r_start g' = n_max (g_start g) (n_min a b)" "r_end g' = n_min (g_end g) (n_max a b)"
    "g_start g' = g_start g" "g_end g' = g_end g" "g_width g' = g_width g"
    "sc_lo (g_bot g') = sc_lo (g_bot g)" "sc_hi (g_bot g') = sc_hi (g_bot g)"
  using graphic_layout_fields[of ext "g_width g" "g_height g" "show_range a b g" res g'] assms
  by (simp_all add: set_range_run show_range_fields)

lemma on_graphic_then:
  "act_then (on_graphic m) n u = (case m (u_graphic u) of (Inl e, g) \<Rightarrow> (Inl e, u\<lparr>u_graphic := g\<rparr>)
     | (Inr x, g) \<Rightarrow> n (u\<lparr>u_graphic := g\<rparr>))"
  by (simp add: act_then_def act_bind_def on_graphic_def split: prod.splits sum.splits)

lemma act_then_ret: "snd (act_then m (act_ret x) s) = snd (m s)"
  by (auto simp: act_then_def act_bind_def split: prod.splits sum.splits)

lemma u_range_bind: "act_bind u_range f u = f (r_start (u_graphic u), r_end (u_graphic u)) u"
  by (simp add: u_range_def)

lemma zoom_graphic:
  "u_graphic (snd (handle_event ext ZoomOut u)) =
     snd (set_range ext (r_start (u_graphic u)) (r_start (u_graphic u) + (r_end (u_graphic u) - r_start (u_graphic u)) * 2) (u_graphic u))"
  "n_div (r_end (u_graphic u) - r_start (u_graphic u)) 2 = Inr half \<Longrightarrow>
   u_graphic (snd (handle_event ext ZoomIn u)) =
     snd (set_range ext (r_start (u_graphic u)) (r_start (u_graphic u) + half) (u_graphic u))"
  by (auto simp: set_smaller_zoom_def set_bigger_zoom_def act_then_ret u_range_bind on_graphic_then force_redraw_def
      split: prod.splits sum.splits)

lemma zoom_out_in:
  assumes ok: "window_of lo hi sc (u_graphic u)" and "\<not> is_int lo" "\<not> is_int hi"
    and w: "w = val (r_end (u_graphic u)) - val (r_start (u_graphic u))" "0 \<le> w"
    and room: "val (r_start (u_graphic u)) + 2 * w \<le> val hi"
    and u': "u' = snd (handle_event ext ZoomIn (snd (handle_event ext ZoomOut u)))"
  shows "val (r_start (u_graphic u')) = val (r_start (u_graphic u))" "val (r_end (u_graphic u')) = val (r_end (u_graphic u))"
proof -
  define g where "g = u_graphic u"
  define g1 where "g1 = u_graphic (snd (handle_event ext ZoomOut u))"
  have G: "g_start g = lo" "g_end g = hi" "val lo \<le> val (r_start g)" using ok by (simp_all add: g_def window_of_def)
  have 1: "r_start g1 = n_max lo (n_min (r_start g) (r_start g + (r_end g - r_start g) * 2))"
    "r_end g1 = n_min hi (n_max (r_start g) (r_start g + (r_end g - r_start g) * 2))" "g_start g1 = lo" "g_end g1 = hi"
    using set_range_window[OF prod.collapse[symmetric], of ext "r_start g" "r_start g + (r_end g - r_start g) * 2" g] G
    by (simp_all add: g1_def zoom_graphic(1) g_def del: handle_event.simps)
  have v1: "val (r_start g1) = val (r_start g)" "val (r_end g1) = val (r_start g) + 2 * w"
    using G w room by (auto simp: 1(1,2) g_def)
  have ints: "\<exists>i. w = of_int i" if "is_int (r_start g1) \<and> is_int (r_end g1)"
  proof -
    have "is_int (r_start g + (r_end g - r_start g) * 2) \<or> is_int (r_start g) \<and> n_max (r_start g) (r_start g + (r_end g - r_start g) * 2) = r_start g"
      using that assms(2,3) unfolding 1(1,2) by (auto simp: n_max_def n_min_def split: if_splits)
    moreover have "w = 0" if "n_max (r_start g) (r_start g + (r_end g - r_start g) * 2) = r_start g"
      using arg_cong[OF that, of val] w by (simp add: g_def max_def split: if_splits)
    ultimately consider "is_int (r_start g)" "is_int (r_end g)" | "w = 0" by auto
    then show ?thesis
    proof cases
      case 1
      then obtain a b where "r_start g = PyInt a" "r_end g = PyInt b" by (cases "r_start g"; cases "r_end g") auto
      then have "w = of_int (b - a)" using w by (simp add: g_def)
      then show ?thesis by blast
    qed (auto intro: exI[of _ 0])
  qed
  have "val 2 \<noteq> 0" by simp
  from n_div_Inr[OF this, of "r_end g1 - r_start g1"] obtain half where half: "n_div (r_end g1 - r_start g1) 2 = Inr half"
    "val half = (if is_int (r_end g1 - r_start g1) \<and> is_int 2 then of_int \<lfloor>val (r_end g1 - r_start g1) / val 2\<rfloor>
       else val (r_end g1 - r_start g1) / val 2)" by blast
  have "val (r_end g1 - r_start g1) / val 2 = w" using v1 by simp
  then have vh: "val half = w" unfolding half(2) using ints by (auto simp del: val_ops)
  have 2: "r_start (u_graphic u') = n_max lo (n_min (r_start g1) (r_start g1 + half))"
    "r_end (u_graphic u') = n_min hi (n_max (r_start g1) (r_start g1 + half))"
    using set_range_window[OF prod.collapse[symmetric], of ext "r_start g1" "r_start g1 + half" g1] 1(3,4)
      zoom_graphic(2)[of "snd (handle_event ext ZoomOut u)" half ext] half(1) by (simp_all add: u' g1_def del: handle_event.simps)
  show "val (r_start (u_graphic u')) = val (r_start (u_graphic u))" "val (r_end (u_graphic u')) = val (r_end (u_graphic u))"
    using 2 v1 vh G w room by (auto simp: g_def)
qed


section \<open>Dragging the selection\<close>

text \<open>A widget whose last layout went through: all widths are the one of the allocation.\<close>

definition laid_out :: "pynum \<Rightarrow> ui \<Rightarrow> bool" where
  "laid_out w u \<longleftrightarrow> u_width u = Some w \<and> g_width (u_graphic u) = w \<and> sc_width (g_bot (u_graphic u)) = w \<and> 0 < val w
     \<and> val (sc_lo (g_bot (u_graphic u))) = val (g_start (u_graphic u)) \<and> val (sc_hi (g_bot (u_graphic u))) = val (g_end (u_graphic u))
     \<and> val (g_start (u_graphic u)) < val (g_end (u_graphic u))"

definition exact_window :: "graphic \<Rightarrow> bool" where
  "exact_window g \<longleftrightarrow> \<not> is_int (r_start g) \<and> \<not> is_int (r_end g) \<and> val (r_start g) \<le> val (r_end g)"

lemma selection_exact:
  assumes "laid_out w u" "\<not> is_int x"
  obtains p where "get_position (g_bot (u_graphic u)) x = Inr p" "\<not> is_int p"
    "val p = (val x - val (g_start (u_graphic u))) * val w / (val (g_end (u_graphic u)) - val (g_start (u_graphic u)))"
proof -
  have "val (sc_hi (g_bot (u_graphic u)) - sc_lo (g_bot (u_graphic u))) \<noteq> 0" using assms(1) by (simp add: laid_out_def)
  from n_div_Inr[OF this, of "(x - sc_lo (g_bot (u_graphic u))) * sc_width (g_bot (u_graphic u))"] assms
  show thesis by (auto simp: get_position_def laid_out_def intro: that)
qed

lemma scale_selection_exact:
  assumes "laid_out w u" "\<not> is_int x"
  obtains d where "scale_selection (u_graphic u) x = Inr d"
    "val d = val x / val w * (val (g_end (u_graphic u)) - val (g_start (u_graphic u)))"
proof -
  have "val w \<noteq> 0" "g_width (u_graphic u) = w" using assms(1) by (simp_all add: laid_out_def)
  with n_div_Inr[of w x] assms(2) show thesis by (auto simp: scale_selection_def intro: that)
qed

definition sel_rect :: "graphic \<Rightarrow> pynum \<Rightarrow> pynum \<Rightarrow> pynum \<times> pynum \<times> pynum \<times> pynum" where
  "sel_rect g p q = (p, lg_height (g_legend g) + tr_height (g_data g) + sc_height (g_mid g) + 20, q - p, sc_height (g_bot g) + 20)"

lemma selection_rect:
  "get_position (g_bot g) (r_start g) = Inr p \<Longrightarrow> get_position (g_bot g) (r_end g) = Inr q \<Longrightarrow>
     get_selection_rectangle g = Inr (sel_rect g p q)"
  by (simp add: get_selection_rectangle_def sel_rect_def Let_def)

lemma ask_bind: "act_bind (ask f) h u = (case f (u_graphic u) of Inl e \<Rightarrow> (Inl e, u) | Inr x \<Rightarrow> h x u)"
  by (simp add: act_bind_def ask_def split: sum.splits)

lemma attr_bind: "act_bind (u_attr f) h u = (case f u of None \<Rightarrow> (Inl AttributeError, u) | Some x \<Rightarrow> h x u)"
  by (simp add: act_bind_def u_attr_def split: option.splits)

text \<open>Where the pointer goes while both edges move.\<close>

lemma motion_both_cur:
  assumes "get_selection_rectangle (u_graphic u) = Inr (x, y, width, height)"
    "\<not> moving_left u" "val (moving_right u) = 0" "moving_both u" "u_width u = Some w" "moving_both_start u = Some x0"
  shows "snd (handle_event ext (Motion x' y') u) =
     u\<lparr>moving_both_cur := Some (if PyFloat x' < x0 - x then x0 - x
          else if PyFloat x' > w - (x + width - x0) then w - (x + width - x0) else PyFloat x')\<rparr>"
  using assms by (simp add: motion_notify_def ask_bind attr_bind motion_both_def queue_draw_area_def)

lemma release_both_window:
  assumes "\<not> moving_left u" "val (moving_right u) = 0" "moving_both u" "moving_both_start u = Some x0" "moving_both_cur u = Some cur"
    "scale_selection (u_graphic u) (cur - x0) = Inr d"
  shows "u_graphic (snd (handle_event ext Release u)) =
     snd (set_range ext (r_start (u_graphic u) + d) (r_end (u_graphic u) + d) (u_graphic u))"
  using assms
  by (auto simp: button_release_def release_both_def ask_bind attr_bind u_range_bind on_graphic_then force_redraw_def
      split: prod.splits sum.splits)

lemma drag_both:
  assumes ok: "window_of lo hi sc (u_graphic u)" and laid: "laid_out w u" and ex: "exact_window (u_graphic u)"
    and no: "\<not> moving_left u" "val (moving_right u) = 0" and both: "moving_both u" "moving_both_start u = Some (PyFloat x)"
    and u': "u' = snd (handle_event ext Release (snd (handle_event ext (Motion x' y') u)))"
  shows "val (r_end (u_graphic u')) - val (r_start (u_graphic u')) = val (r_end (u_graphic u)) - val (r_start (u_graphic u))"
    "val (r_start (u_graphic u')) =
       max (val lo) (min (val hi - (val (r_end (u_graphic u)) - val (r_start (u_graphic u))))
         (val (r_start (u_graphic u)) + (x' - x) * (val hi - val lo) / val w))"
proof -
  define g where "g = u_graphic u"
  define S E a b W where "S = val lo" and "E = val hi" and "a = val (r_start g)" and "b = val (r_end g)" and "W = val w"
  have G: "g_start g = lo" "g_end g = hi" "S \<le> a" "b \<le> E" "a \<le> b" "0 < W" "S < E"
    using ok laid ex by (simp_all add: window_of_def laid_out_def exact_window_def g_def S_def E_def a_def b_def W_def)
  define k where "k = (E - S) / W"
  have k: "0 < k" using G by (simp add: k_def)
  obtain p where p: "get_position (g_bot g) (r_start g) = Inr p" "\<not> is_int p" "val p = (a - S) / k"
    using selection_exact[OF laid, of "r_start g"] ex G(1,2) unfolding exact_window_def g_def[symmetric]
    by (auto simp: S_def E_def a_def W_def k_def)
  obtain q where q: "get_position (g_bot g) (r_end g) = Inr q" "\<not> is_int q" "val q = (b - S) / k"
    using selection_exact[OF laid, of "r_end g"] ex G(1,2) unfolding exact_window_def g_def[symmetric]
    by (auto simp: S_def E_def b_def W_def k_def)
  define cur where "cur = (if PyFloat x' < PyFloat x - p then PyFloat x - p
      else if PyFloat x' > w - (p + (q - p) - PyFloat x) then w - (p + (q - p) - PyFloat x) else PyFloat x')"
  have u1: "snd (handle_event ext (Motion x' y') u) = u\<lparr>moving_both_cur := Some cur\<rparr>"
    unfolding cur_def by (rule motion_both_cur[OF _ no both(1) _ both(2)])
      (use laid selection_rect[OF p(1) q(1)] in \<open>simp_all add: g_def sel_rect_def laid_out_def\<close>)
  have c: "\<not> is_int (cur - PyFloat x)" by simp
  define t where "t = val (cur - PyFloat x)"
  have t: "t = (if x' - x < - val p then - val p else if x' - x > W - val q then W - val q else x' - x)"
    by (auto simp: t_def cur_def W_def)
  obtain d where d: "scale_selection g (cur - PyFloat x) = Inr d" "val d = t * k"
    using scale_selection_exact[OF laid c] G(1,2) unfolding g_def[symmetric]
    by (auto simp: t_def k_def S_def E_def W_def)
  have g': "u_graphic u' = snd (set_range ext (r_start g + d) (r_end g + d) g)"
    unfolding u' u1 using release_both_window[of "u\<lparr>moving_both_cur := Some cur\<rparr>" "PyFloat x" cur d ext] no both d(1)
    by (simp add: g_def del: handle_event.simps)
  have pk: "val p * k = a - S" "val q * k = b - S" "W * k = E - S" using k G(6) by (simp_all add: p(3) q(3)) (simp add: k_def)
  have tk: "t * k = max (S - a) (min (E - b) ((x' - x) * k))"
  proof -
    have "- val p \<le> W - val q"
    proof -
      have "0 \<le> val p" using k G(3) by (simp add: p(3))
      moreover have "val q * k \<le> W * k" using pk(2,3) G(4) by simp
      then have "val q \<le> W" using k by simp
      ultimately show ?thesis by simp
    qed
    then have "t = max (- val p) (min (W - val q) (x' - x))" by (auto simp: t)
    then have "t * k = max (- val p * k) (min ((W - val q) * k) ((x' - x) * k))"
      using k by (simp add: max_mult_distrib_right min_mult_distrib_right)
    then show ?thesis using pk by (simp add: algebra_simps)
  qed
  have new: "val (r_start (u_graphic u')) = max S (a + t * k)" "val (r_end (u_graphic u')) = min E (b + t * k)"
    using set_range_window[OF prod.collapse[symmetric], of ext "r_start g + d" "r_end g + d" g] G d(2)
    by (simp_all add: g' S_def E_def a_def b_def)
  have clamp: "a + max (S - a) (min (E - b) z) = max S (min (E - (b - a)) (a + z))" for z :: rat
    by (auto simp: max_def min_def)
  have "max S (a + t * k) = a + t * k" "min E (b + t * k) = b + t * k" using tk G by auto
  with new show "val (r_end (u_graphic u')) - val (r_start (u_graphic u')) = val (r_end (u_graphic u)) - val (r_start (u_graphic u))"
    by (simp add: a_def b_def g_def)
  show "val (r_start (u_graphic u')) =
       max (val lo) (min (val hi - (val (r_end (u_graphic u)) - val (r_start (u_graphic u))))
         (val (r_start (u_graphic u)) + (x' - x) * (val hi - val lo) / val w))"
    using new(1) \<open>max S (a + t * k) = a + t * k\<close> tk clamp[of "(x' - x) * k"]
    by (simp add: a_def b_def g_def S_def E_def k_def W_def)
qed


section \<open>How main starts\<close>

lemma range_values_distinct: "key_order ord \<Longrightarrow> distinct (get_all_range_values ord ts)"
proof -
  have 1: "d_ok (foldl (\<lambda>d r. d_set (range_value r) 1 d) d rs)" if "d_ok d" for d :: "(string, int) dict" and rs
    using that by (induction rs arbitrary: d) simp_all
  have 2: "d_ok (foldl (\<lambda>d rs. foldl (\<lambda>d r. d_set (range_value r) 1 d) d (ranges rs)) d dss)" if "d_ok d"
    for d :: "(string, int) dict" and dss
    using that by (induction dss arbitrary: d) (simp_all add: 1)
  have 3: "d_ok (foldl (\<lambda>d t. foldl (\<lambda>d rs. foldl (\<lambda>d r. d_set (range_value r) 1 d) d (ranges rs)) d (tl_ranges t)) d ts)"
    if "d_ok d" for d :: "(string, int) dict" and ts
    using that by (induction ts arbitrary: d) (simp_all add: 2)
  assume "key_order ord"
  then show ?thesis
    using 3[OF d_ok_Nil, of ts] by (simp add: get_all_range_values_def key_order_distinct d_ok_distinct_keys)
qed

lemma default_range_spec:
  assumes "0 \<le> hi" "default_range 0 hi = (a, b)"
  shows "0 \<le> val a" "val a \<le> val b" "val b \<le> of_int hi" "val b - val a \<noteq> 1" "val a = val b \<longleftrightarrow> hi < 20"
proof -
  define w where "w = hi div 10 div 2"
  have w: "w = hi div 20" by (simp add: w_def zdiv_zmult2_eq[symmetric])
  have ab: "a = PyInt (hi div 2 - w)" "b = PyInt (hi div 2 + w)" using assms(2) by (simp_all add: default_range_def w_def Let_def)
  have i: "0 \<le> hi div 2 - w" "hi div 2 + w \<le> hi" "0 \<le> w" "w = 0 \<longleftrightarrow> hi < 20" using assms(1) unfolding w by auto
  then have "(0 :: rat) \<le> of_int (hi div 2 - w)" "(of_int (hi div 2 + w) :: rat) \<le> of_int hi" "(0 :: rat) \<le> of_int w"
    by (simp_all only: of_int_0_le_iff of_int_le_iff)
  then show "0 \<le> val a" "val a \<le> val b" "val b \<le> of_int hi" "val a = val b \<longleftrightarrow> hi < 20"
    using i(4) by (auto simp: ab)
  have "val b - val a = of_int (2 * w)" by (simp add: ab)
  moreover have "2 * w \<noteq> 1" by presburger
  ultimately show "val b - val a \<noteq> 1" by (metis of_int_eq_1_iff)
qed

lemma main_graphic_cases:
  assumes r: "read_data lines = (cs, ts)" and b: "get_bounds ts = (0, hi)" "0 \<le> hi"
    and l: "lookup_all (get_all_range_values ord ts) cs = Inr (rc, cs')"
  shows "hi = 1 \<Longrightarrow> main_graphic ext ord lines = Inl ZeroDivisionError"
    "hi \<noteq> 1 \<Longrightarrow> \<exists>g. main_graphic ext ord lines = Inr g \<and> legend_colors (g_legend g) = rc
       \<and> tr_colors (g_data g) = cs' \<and> (val (r_start g) = val (r_end g) \<longleftrightarrow> hi < 20)"
proof -
  obtain x y where xy: "default_range 0 hi = (x, y)" by fastforce
  note D = default_range_spec[OF b(2) xy]
  define g0 where "g0 = (GraphicRenderer (PyInt 0) (PyInt hi))
    \<lparr>g_legend := set_legends (get_all_range_values ord ts) rc TopLegendRenderer, g_data := set_timelines ts cs' TimelinesRenderer\<rparr>"
  define g1 where "g1 = show_range x y g0"
  have m: "main_graphic ext ord lines = (case graphic_layout ext 1 1 g1 of (Inl e, g) \<Rightarrow> Inl e | (Inr u, g) \<Rightarrow> Inr g)"
    using b r l xy by (simp add: main_graphic_def Let_def g0_def g1_def set_range_run GraphicRenderer_def)
  have f: "val (r_start g1) = val x" "val (r_end g1) = val y" "sc_lo (g_mid g1) = r_start g1" "sc_hi (g_mid g1) = r_end g1"
    "sc_lo (g_bot g1) = PyInt 0" "sc_hi (g_bot g1) = PyInt hi"
    using D(1-3) by (simp_all add: g1_def show_range_fields) (simp_all add: g0_def GraphicRenderer_def set_bounds_def)
  have c: "legend_colors (g_legend g1) = rc" "tr_colors (g_data g1) = cs'"
    by (simp_all add: g1_def show_range_def Let_def g0_def set_legends_def set_timelines_def set_render_range_def)
  have mid: "\<exists>s. scale_layout ext w (g_mid g1) = Inr s" for w
    using scale_layout_total[of "g_mid g1" ext w] f D(2,4) by auto
  have bot: "scale_layout ext 1 (g_bot g1) = (if hi = 1 then Inl ZeroDivisionError else Inr (projr (scale_layout ext 1 (g_bot g1))))"
    using scale_layout_total[of "g_bot g1" ext 1] f b(2) by (simp cong: if_cong)
  obtain s where s: "scale_layout ext (1 - get_data_x_start (timelines_layout ext 1 (g_data g1))) (g_mid g1) = Inr s"
    using mid by blast
  show "main_graphic ext ord lines = Inl ZeroDivisionError" if "hi = 1"
    using bot that s by (simp add: m graphic_layout_def)
  assume "hi \<noteq> 1"
  then obtain t where t: "scale_layout ext 1 (g_bot g1) = Inr t" using bot by auto
  have "main_graphic ext ord lines = Inr (g1\<lparr>g_width := 1, g_height := 1, g_legend := legend_layout ext 1 (g_legend g1),
       g_data := timelines_layout ext 1 (g_data g1), g_mid := s, g_bot := t\<rparr>)"
    using s t by (simp add: m graphic_layout_def)
  moreover have "legend_colors (legend_layout ext 1 (g_legend g1)) = rc" "tr_colors (timelines_layout ext 1 (g_data g1)) = cs'"
    using c by (simp_all add: legend_layout_def timelines_layout_def Let_def split: prod.splits)
  ultimately show "\<exists>g. main_graphic ext ord lines = Inr g \<and> legend_colors (g_legend g) = rc
       \<and> tr_colors (g_data g) = cs' \<and> (val (r_start g) = val (r_end g) \<longleftrightarrow> hi < 20)"
    using D(5) f(1,2) by auto
qed

end
