(* ===== verification/GridProps.thy ===== *)
theory GridProps
  imports GridUiProofs
begin

text \<open>The properties of the timeline viewer \<open>utils/grid.py\<close>.\<close>

section \<open>Data\<close>

text \<open>C12. After \<open>read_data\<close> every row, found by the name of its timeline and its own,
  holds what the lines of the file have for it and nothing else: its ranges sorted by their start, its
  events by their time, those of equal keys in the order of the file. No two timelines, and no two
  rows of a kind in one timeline, have the same name.\<close>

theorem grid_rows:
  "rows_distinct (snd (read_data lines))
   \<and> ranges_of (snd (read_data lines)) tn n = sort_key range_start (concat (map (line_ranges tn n) (data_lines lines)))
   \<and> events_str_of (snd (read_data lines)) tn n = sort_key event_at (concat (map (line_events_str tn n) (data_lines lines)))
   \<and> events_int_of (snd (read_data lines)) tn n = sort_key event_at (concat (map (line_events_int tn n) (data_lines lines)))"
  by (simp only: read_data_distinct read_rows simp_thms)

text \<open>The bounds of the data start at 0, enclose every event, and enclose every range
  of a row whose ranges do not overlap; the upper bound is 0 or is reached by an object.\<close>

theorem grid_bounds:
  assumes "get_bounds (snd (read_data lines)) = (lo, hi)"
  shows "lo = 0 \<and> 0 \<le> hi
    \<and> (\<forall>tn n. \<forall>e \<in> set (events_str_of (snd (read_data lines)) tn n @ events_int_of (snd (read_data lines)) tn n).
         lo \<le> event_at e \<and> event_at e \<le> hi)
    \<and> (\<forall>tn n. in_line (ranges_of (snd (read_data lines)) tn n) \<longrightarrow>
         (\<forall>r \<in> set (ranges_of (snd (read_data lines)) tn n). lo \<le> range_start r \<and> range_end r \<le> hi))"
  using read_bounds_low[OF assms] bounds_spec(2)[OF assms] read_bounds_events[OF assms] read_bounds_ranges[OF assms]
    rows_unsigned[of _ lines] by (simp add: ball_Un)


theorem grid_bounds_witness:
  "get_bounds (snd (read_data [''range n r on 0 50'', ''event-int n e 3 90''])) = (0, 90)
   \<and> list_all (\<lambda>e. event_at e \<le> 90) (events_int_of (snd (read_data [''range n r on 0 50'', ''event-int n e 3 90''])) ''n'' ''e'')"
proof -
  have b: "get_bounds (snd (read_data [''range n r on 0 50'', ''event-int n e 3 90''])) = (0, 90)" by code_simp
  show ?thesis using b grid_bounds[OF b] by (auto simp: list_all_iff)
qed



text \<open>In a row of events at different times, the events that are drawn are
  those of the window, with both its ends, and the first one after it where no event is at its end.\<close>

theorem grid_visible_events:
  assumes "strictly_timed (events v)" "start \<le> stop"
  shows "get_events v start stop =
     filter (\<lambda>e. start \<le> of_int (event_at e) \<and> of_int (event_at e) \<le> stop) (events v)
     @ (if \<exists>e \<in> set (events v). of_int (event_at e) = stop then []
        else take 1 (filter (\<lambda>e. stop < of_int (event_at e)) (events v)))"
  by (rule get_events_window[OF assms])

theorem grid_visible_events_witness:
  "get_events \<lparr>ev_name = ''e'', events = [\<lparr>event_at = 1, event_val = IntValue 7\<rparr>, \<lparr>event_at = 5, event_val = IntValue 8\<rparr>,
      \<lparr>event_at = 9, event_val = IntValue 9\<rparr>]\<rparr> 2 6
   = [\<lparr>event_at = 5, event_val = IntValue 8\<rparr>, \<lparr>event_at = 9, event_val = IntValue 9\<rparr>]"
  using grid_visible_events[of "\<lparr>ev_name = ''e'', events = [\<lparr>event_at = 1, event_val = IntValue 7\<rparr>,
      \<lparr>event_at = 5, event_val = IntValue 8\<rparr>, \<lparr>event_at = 9, event_val = IntValue 9\<rparr>]\<rparr>" 2 6]
  by (simp add: strictly_timed_def)

text \<open>\<open>main\<close> finds a colour for every value of a range exactly if at most six of the
  values have no colour of their own in the file, and raises \<open>IndexError\<close> otherwise; afterwards the
  look-up that drawing makes for a value gives the colour the legend has for it, and takes no default
  away, and a declared colour is the one of the file.\<close>

theorem grid_colors:
  assumes "key_order ord" "read_data lines = (cs, ts)" "vs = get_all_range_values ord ts"
  shows "if undeclared cs vs \<le> 6
    then \<exists>rc cs'. lookup_all vs cs = Inr (rc, cs') \<and> length rc = length vs
      \<and> (\<forall>i < length vs. lookup_color (vs ! i) cs' = Inr (rc ! i, cs'))
      \<and> (\<forall>i < length vs. d_get (color_map cs) (vs ! i) = Some c \<longrightarrow> rc ! i = c)
    else lookup_all vs cs = Inl IndexError"
proof -
  have d: "distinct vs" using range_values_distinct[OF assms(1)] assms(3) by simp
  have n: "length (default_colors cs) = 6" using read_data_defaults[of lines] assms(2) by (simp add: Colors_def)
  show ?thesis using lookup_all_spec[OF d, of cs] n by (fastforce simp: lookup_color_known)
qed

theorem grid_colors_witness:
  "lookup_all [''on''] (fst (read_data [''range n r on 0 50''])) \<noteq> Inl IndexError"
proof -
  obtain cs ts where r: "read_data [''range n r on 0 50''] = (cs, ts)" by fastforce
  have "get_all_range_values id (snd (read_data [''range n r on 0 50''])) = [''on'']"
    "color_map (fst (read_data [''range n r on 0 50''])) = []" by code_simp+
  then have "[''on''] = get_all_range_values id ts" "undeclared cs [''on''] \<le> 6" by (simp_all add: r undeclared_def)
  then show ?thesis using grid_colors[OF _ r, of id "[''on'']"] by (auto simp: r)
qed


text \<open>\<open>main\<close> gets to the window unless more than six values have no colour
  (\<open>IndexError\<close>) or the data end at 1 (\<open>ZeroDivisionError\<close> in the layout of the bottom scale); the window
  it starts with is empty exactly if the data end before 20.\<close>

theorem main_starts:
  assumes "key_order ord" "read_data lines = (cs, ts)" "get_bounds ts = (lo, hi)"
    "n = undeclared cs (get_all_range_values ord ts)"
  shows "if n > 6 then main_graphic ext ord lines = Inl IndexError
    else if hi = 1 then main_graphic ext ord lines = Inl ZeroDivisionError
    else \<exists>g. main_graphic ext ord lines = Inr g \<and> (val (r_start g) = val (r_end g) \<longleftrightarrow> hi < 20)"
proof -
  have d: "distinct (get_all_range_values ord ts)" by (rule range_values_distinct[OF assms(1)])
  have c: "length (default_colors cs) = 6" using read_data_defaults[of lines] assms(2) by (simp add: Colors_def)
  have b: "lo = 0" "0 \<le> hi" using read_bounds_low[of lines] bounds_spec(2)[of ts] assms(2,3) by auto
  note L = lookup_all_spec[OF d, of cs, folded assms(4)]
  show ?thesis
  proof (cases "n \<le> 6")
    case True
    then obtain rc cs' where "lookup_all (get_all_range_values ord ts) cs = Inr (rc, cs')" using L c by auto
    from main_graphic_cases[OF assms(2) _ b(2) this] assms(3) b True show ?thesis by fastforce
  next
    case False
    then show ?thesis using L c assms(2,3) by (simp add: main_graphic_def Let_def)
  qed
qed

definition demo_ext :: "string \<Rightarrow> text_extents" where
  "demo_ext = (\<lambda>_. \<lparr>te_y_bearing = PyFloat (-7), te_width = PyFloat 30, te_height = PyFloat 8\<rparr>)"

lemma demo_read:
  "get_bounds (snd (read_data [''range n r on 0 50''])) = (0, 50)"
  "undeclared (fst (read_data [''range n r on 0 50''])) (get_all_range_values id (snd (read_data [''range n r on 0 50'']))) = 1"
  by code_simp+

theorem main_starts_witness: "\<exists>g. main_graphic demo_ext id [''range n r on 0 50''] = Inr g"
proof -
  obtain cs ts where r: "read_data [''range n r on 0 50''] = (cs, ts)" by fastforce
  then show ?thesis using main_starts[OF _ r, of id 0 50 1 demo_ext] demo_read by auto
qed

section \<open>The window\<close>



text \<open>Zooming out and then in gives the window there was, where the larger
  window ends within the data.\<close>

theorem zoom_roundtrip:
  assumes "window_of lo hi sc (u_graphic u)" "\<not> is_int lo" "\<not> is_int hi"
    "val (r_start (u_graphic u)) \<le> val (r_end (u_graphic u))"
    "2 * val (r_end (u_graphic u)) - val (r_start (u_graphic u)) \<le> val hi"
  shows "let u' = snd (handle_event ext ZoomIn (snd (handle_event ext ZoomOut u)))
    in val (r_start (u_graphic u')) = val (r_start (u_graphic u)) \<and> val (r_end (u_graphic u')) = val (r_end (u_graphic u))"
  unfolding Let_def using zoom_out_in[OF assms(1-3) refl, of u] zoom_out_in[OF assms(1-3) refl _ _ refl] assms(4,5) by simp

definition demo_scale :: "rat \<Rightarrow> rat \<Rightarrow> scale" where
  "demo_scale lo hi = \<lparr>sc_top = 0, sc_lo = PyFloat lo, sc_hi = PyFloat hi, sc_delta = 10, sc_width = PyInt 400,
     sc_text_height = PyFloat 8, sc_height = PyFloat 18\<rparr>"

definition demo_graphic :: graphic where
  "demo_graphic = \<lparr>g_start = PyFloat 0, g_end = PyFloat 100, g_mid = demo_scale 20 40, g_bot = demo_scale 0 100,
     g_width = PyInt 400, g_height = PyInt 300, g_legend = TopLegendRenderer,
     g_data = set_render_range (PyFloat 20) (PyFloat 40) TimelinesRenderer, r_start = PyFloat 20, r_end = PyFloat 40\<rparr>"

lemma demo_window: "window_of (PyFloat 0) (PyFloat 100) (demo_scale 0 100) demo_graphic"
  by (simp add: window_of_def demo_graphic_def demo_scale_def set_render_range_def)

theorem zoom_roundtrip_witness:
  "val (r_end (u_graphic (snd (handle_event demo_ext ZoomIn (snd (handle_event demo_ext ZoomOut (GtkGraphicRenderer demo_graphic))))))) = 40"
  using zoom_roundtrip[of "PyFloat 0" "PyFloat 100" "demo_scale 0 100" "GtkGraphicRenderer demo_graphic" demo_ext] demo_window
  by (simp add: Let_def GtkGraphicRenderer_def demo_graphic_def del: handle_event.simps)


text \<open>Dragging the selection by its middle moves the window by the distance of
  the pointer in units of the data, no further than the ends of the data, and keeps its width; the
  window's ends are floats here, as they are after any drag.\<close>

theorem selection_drag:
  assumes "window_of lo hi sc (u_graphic u)" "laid_out w u" "exact_window (u_graphic u)" "\<not> moving_left u"
    "val (moving_right u) = 0" "moving_both u" "moving_both_start u = Some (PyFloat x)"
  shows "let u' = snd (handle_event ext Release (snd (handle_event ext (Motion x' y') u)));
           a = val (r_start (u_graphic u)); b = val (r_end (u_graphic u))
    in val (r_start (u_graphic u')) = max (val lo) (min (val hi - (b - a)) (a + (x' - x) * (val hi - val lo) / val w))
       \<and> val (r_end (u_graphic u')) - val (r_start (u_graphic u')) = b - a"
  unfolding Let_def using drag_both[OF assms refl] by blast

definition demo_drag :: ui where
  "demo_drag = (GtkGraphicRenderer demo_graphic)
     \<lparr>moving_both := True, moving_both_start := Some (PyFloat 100), moving_both_cur := Some (PyFloat 100), u_width := Some (PyInt 400)\<rparr>"

theorem selection_drag_witness:
  "val (r_start (u_graphic (snd (handle_event demo_ext Release (snd (handle_event demo_ext (Motion 500 200) demo_drag)))))) = 80"
  using selection_drag[of "PyFloat 0" "PyFloat 100" "demo_scale 0 100" demo_drag "PyInt 400" 100 demo_ext 500 200] demo_window
  by (simp add: Let_def demo_drag_def laid_out_def exact_window_def GtkGraphicRenderer_def demo_graphic_def demo_scale_def
      del: handle_event.simps)

text \<open>When the right edge is dragged to the right end of the widget at once, the
  handler stores the width in the wrong attribute: letting go raises \<open>AttributeError\<close> and the window
  stays as it was.\<close>

theorem right_edge_lost:
  assumes "get_selection_rectangle (u_graphic u) = Inr rect" "\<not> moving_left u" "val (moving_right u) \<noteq> 0"
    "moving_right_cur u = None" "u_width u = Some w" "0 < val w" "val w \<le> x'"
  shows "let u1 = snd (handle_event ext (Motion x' y') u); (r, u2) = handle_event ext Release u1
    in r = Inl AttributeError \<and> u_graphic u2 = u_graphic u"
proof -
  obtain x y wd ht where "rect = (x, y, wd, ht)" by (metis prod_cases4)
  then show ?thesis using assms
    by (simp add: motion_notify_def ask_bind attr_bind motion_right_def queue_draw_area_def button_release_def release_right_def)
qed

theorem right_edge_lost_witness:
  "fst (handle_event demo_ext Release (snd (handle_event demo_ext (Motion 450 200)
      ((GtkGraphicRenderer demo_graphic)\<lparr>moving_right := 1, u_width := Some (PyInt 400)\<rparr>)))) = Inl AttributeError"
proof -
  have "\<exists>rect. get_selection_rectangle demo_graphic = Inr rect"
    by (simp add: get_selection_rectangle_def get_position_def demo_graphic_def demo_scale_def Let_def)
  then show ?thesis
    using right_edge_lost[of "(GtkGraphicRenderer demo_graphic)\<lparr>moving_right := 1, u_width := Some (PyInt 400)\<rparr>" _ "PyInt 400" 450
        demo_ext 200]
    by (auto simp: GtkGraphicRenderer_def Let_def simp del: handle_event.simps split: prod.splits)
qed

section \<open>Drawing\<close>

text \<open>The legend is drawn as it was laid out: one square per value, in the order of
  the values, filled with the value's colour and followed by its text; no two items overlap, none
  sticks out of the height the layout gives, and each fits in the width or begins a line.\<close>

theorem legend_drawn:
  assumes "sized ext" "0 \<le> val (lg_padding t)" "length (legends t) \<le> length (legend_colors t)" "t' = legend_layout ext w t"
  shows "\<exists>cs boxes. legend_draw ext t' p = (Inr (), p\<lparr>pen_out := pen_out p @ cs\<rparr>)
    \<and> shown_texts cs = legends t \<and> fill_sources cs = map color_rgb (take (length (legends t)) (legend_colors t))
    \<and> corners cs = map (\<lambda>b. (box_x b, box_y b)) boxes \<and> sorted_wrt apart boxes
    \<and> list_all (inside_legend (val (lg_padding t)) (val w) (val (lg_height t'))) boxes"
proof -
  let ?s = "(0, lg_padding t, lg_padding t)"
  obtain lh th lu where f: "foldl (\<lambda>s l. snd (legend_place ext (lg_padding t) w l s)) ?s (legends t) = (lh, th, lu)"
    by (metis prod_cases3)
  have t': "legends t' = legends t" "legend_colors t' = legend_colors t" "lg_padding t' = lg_padding t" "lg_width t' = w"
    "lg_height t' = th + lh"
    using f by (simp_all add: assms(4) legend_layout_def)
  have "list_all (inside_legend (val (lg_padding t)) (val w) (val (lg_height t'))) (legend_boxes ext (lg_padding t) w (legends t) ?s)"
    "sorted_wrt apart (legend_boxes ext (lg_padding t) w (legends t) ?s)"
    using legend_boxes_spec[OF assms(1,2) _ _ _ f] t'(5) by (simp_all add: list_all_iff)
  moreover obtain cs where "legend_draw_loop ext t' (int 0) (legends t') ?s p = (Inr (), p\<lparr>pen_out := pen_out p @ cs\<rparr>)"
    "corners cs = map (\<lambda>b. (box_x b, box_y b)) (legend_boxes ext (lg_padding t') (lg_width t') (legends t') ?s)"
    "shown_texts cs = legends t'" "fill_sources cs = map color_rgb (take (length (legends t')) (drop 0 (legend_colors t')))"
    using legend_draw_loop_spec[of 0 "legends t'" t' ext ?s p] assms(3) t' by auto
  ultimately show ?thesis unfolding t' by (auto simp: legend_draw_def t')
qed

theorem legend_drawn_witness:
  "\<exists>cs. legend_draw demo_ext (legend_layout demo_ext 100 (set_legends [''on'', ''off''] [Color 1 0 0, Color 0 1 0] TopLegendRenderer))
     \<lparr>pen_out = [], pen_colors = Colors, pen_grey = 1\<rparr> = (Inr (), \<lparr>pen_out = cs, pen_colors = Colors, pen_grey = 1\<rparr>)
     \<and> shown_texts cs = [''on'', ''off'']"
  using legend_drawn[OF _ _ _ refl, of demo_ext "set_legends [''on'', ''off''] [Color 1 0 0, Color 0 1 0] TopLegendRenderer" 100
      "\<lparr>pen_out = [], pen_colors = Colors, pen_grey = 1\<rparr>"]
  by (auto simp: sized_def demo_ext_def set_legends_def TopLegendRenderer_def)




text \<open>The ranges of a row that cross the window, whose values have colours, are drawn
  as bars inside the area of the data, from left to right and without overlapping.\<close>

theorem bars_drawn:
  assumes "window_ok r width" "in_line rs"
    "\<forall>dr \<in> set rs. crosses (val (tr_start r)) (val (tr_end r)) dr \<and> colored p dr"
  shows "\<exists>cs. draw_ranges_loop r x y width (n_int (x - 1)) rs p = (Inr (), p\<lparr>pen_out := pen_out p @ cs\<rparr>)
    \<and> sorted_wrt (\<lambda>a b. snd a \<le> fst b) (bars cs)
    \<and> list_all (\<lambda>(a, b). n_int x \<le> a \<and> a \<le> b \<and> b \<le> n_int (x + width)) (bars cs)"
proof -
  have "\<forall>dr \<in> set rs. n_int x \<le> pixel r x width (max (of_int (range_start dr)) (val (tr_start r)))"
    using pixel_mono[OF assms(1), of "val (tr_start r)" _ x] by (auto simp: pixel_ends[OF assms(1)])
  from bars_spec[OF assms this, of y "n_int (x - 1)"] show ?thesis by (fastforce simp: list_all_iff)
qed

theorem bars_drawn_witness:
  "\<exists>cs. draw_ranges_loop (set_render_range 10 60 TimelinesRenderer) 50 5 100 49
      [\<lparr>range_start = 0, range_end = 20, range_value = ''on''\<rparr>, \<lparr>range_start = 30, range_end = 40, range_value = ''on''\<rparr>]
      \<lparr>pen_out = [], pen_colors = add_color ''on'' (Color 1 0 0) Colors, pen_grey = 1\<rparr>
    = (Inr (), \<lparr>pen_out = cs, pen_colors = add_color ''on'' (Color 1 0 0) Colors, pen_grey = 1\<rparr>)
    \<and> list_all (\<lambda>(a, b). 50 \<le> a \<and> b \<le> 150) (bars cs)"
proof -
  have n: "n_int (50 - 1) = 49" "n_int 50 = 50" "n_int 150 = 150" by (simp_all add: numeral_pynum one_pynum_def)
  show ?thesis
    using bars_drawn[of "set_render_range 10 60 TimelinesRenderer" 100
      "[\<lparr>range_start = 0, range_end = 20, range_value = ''on''\<rparr>, \<lparr>range_start = 30, range_end = 40, range_value = ''on''\<rparr>]"
      "\<lparr>pen_out = [], pen_colors = add_color ''on'' (Color 1 0 0) Colors, pen_grey = 1\<rparr>" 50 5]
    by (auto simp: n window_ok_def in_line_def crosses_def colored_def add_color_def dict_simps set_render_range_def list_all_iff
        simp del: draw_ranges_loop.simps)
qed

text \<open>Drawing ends the two lines beside the rows at the bottom of the last row; that is
  within the height of the layout exactly if the letters are at most 10 high or the rows are only of
  events or only of ranges. With both and larger letters the rows run into the scale below.\<close>

theorem rows_fit:
  assumes "\<forall>t \<in> set (tr_timelines r). row_names t \<noteq> []" "tr_padding r = 10" "0 \<le> val (te_height (ext all_letters))"
    "timelines_draw ext (timelines_layout ext w r) p = (Inr (), p')"
  shows "\<exists>out bottom. pen_out p' = out @ [RelLineTo 0 bottom, ClosePath, SetOperatorSource, SetLineWidth (PyFloat 1), black, Stroke]
    \<and> (val bottom \<le> val (tr_height (timelines_layout ext w r)) \<longleftrightarrow>
         val (te_height (ext all_letters)) \<le> 10 \<or> event_rows (tr_timelines r) = 0 \<or> range_rows (tr_timelines r) = 0)"
proof -
  let ?r = "timelines_layout ext w r"
  have l: "tr_timelines ?r = tr_timelines r" "tr_padding ?r = tr_padding r" "tr_text_height ?r = te_height (ext all_letters)"
    by (simp_all add: timelines_layout_def Let_def)
  obtain out bottom where o: "pen_out p' = out @ [RelLineTo 0 bottom, ClosePath, SetOperatorSource, SetLineWidth (PyFloat 1), black, Stroke]"
    "val bottom = of_int (event_rows (tr_timelines r)) * (val (te_height (ext all_letters)) + 15)
       + of_int (range_rows (tr_timelines r)) * (val (te_height (ext all_letters)) + 10)"
    using timelines_down[OF assms(4)] unfolding l by (auto simp: assms(2) add.assoc)
  show ?thesis using o layout_height[of r ext w, OF assms(1-3)] by (intro exI[of _ out] exI[of _ bottom]) simp
qed


definition demo_rows :: timelines_renderer where
  "demo_rows = set_timelines [\<lparr>tl_name = ''n'', tl_ranges = [TimelineDataRange ''r''], tl_event_str = [], tl_event_int = []\<rparr>]
     Colors TimelinesRenderer"

lemma demo_rows_draw:
  "\<exists>p'. timelines_draw demo_ext (timelines_layout demo_ext 300 demo_rows) \<lparr>pen_out = [], pen_colors = Colors, pen_grey = 0\<rparr> = (Inr (), p')"
proof -
  have "range_search (TimelineDataRange m) k = -1" for m k
    by (simp add: range_search_def TimelineDataRange_def range_search_loop.simps)
  then have "get_ranges_bounds (TimelineDataRange m) a b = (0, 0)" for m a b by (simp add: get_ranges_bounds_def)
  then show ?thesis
    by (simp add: timelines_draw_def timelines_layout_def demo_rows_def set_timelines_def draw_timeline_def draw_name_def
        draw_range_row_def draw_ranges_def draw_background_def next_background_def end_row_def act_assoc Let_def py_slice_def)
qed

theorem rows_fit_witness:
  "\<exists>p' out bottom. timelines_draw demo_ext (timelines_layout demo_ext 300 demo_rows) \<lparr>pen_out = [], pen_colors = Colors, pen_grey = 0\<rparr>
       = (Inr (), p')
     \<and> pen_out p' = out @ [RelLineTo 0 bottom, ClosePath, SetOperatorSource, SetLineWidth (PyFloat 1), black, Stroke]
     \<and> val bottom \<le> val (tr_height (timelines_layout demo_ext 300 demo_rows))"
proof -
  obtain p' where p': "timelines_draw demo_ext (timelines_layout demo_ext 300 demo_rows) \<lparr>pen_out = [], pen_colors = Colors, pen_grey = 0\<rparr>
       = (Inr (), p')" using demo_rows_draw by blast
  have "tr_padding demo_rows = 10" "\<forall>t \<in> set (tr_timelines demo_rows). row_names t \<noteq> []" "val (te_height (demo_ext all_letters)) = 8"
    by (simp_all add: demo_rows_def set_timelines_def TimelinesRenderer_def row_names_def demo_ext_def)
  then show ?thesis using rows_fit[OF _ _ _ p'] p' by auto
qed

end
