(* ===== verification/RunConfig.thy ===== *)
theory RunConfig
  imports PyStr
begin

text \<open>
  \<open>run.py\<close>, the script that starts one simulation: it computes the parameters of the congestion
  control scheme from its arguments, writes them into a configuration file and runs the simulator on
  it. The arguments are those \<open>argparse\<close> has read; the result is how the script ends and what it
  wrote, printed and ran. The template is a list of lines, each of literal pieces and fields.
\<close>

section \<open>The template\<close>

datatype config_piece = Text string | Field string

definition config_template :: "config_piece list list" where
  "config_template =
    [[Text ''ENABLE_QCN 1''],
     [Text ''USE_DYNAMIC_PFC_THRESHOLD 1''],
     [],
     [Text ''PACKET_PAYLOAD_SIZE 1000''],
     [],
     [Text ''TOPOLOGY_FILE mix/'', Field ''topo'', Text ''.txt''],
     [Text ''FLOW_FILE mix/'', Field ''trace'', Text ''.txt''],
     [Text ''TRACE_FILE mix/trace.txt''],
     [Text ''TRACE_OUTPUT_FILE mix/mix_'', Field ''topo'', Text ''_'', Field ''trace'', Text ''_'', Field ''cc'', Field ''failure'', Text ''.tr''],
     [Text ''FCT_OUTPUT_FILE mix/fct_'', Field ''topo'', Text ''_'', Field ''trace'', Text ''_'', Field ''cc'', Field ''failure'', Text ''.txt''],
     [Text ''PFC_OUTPUT_FILE mix/pfc_'', Field ''topo'', Text ''_'', Field ''trace'', Text ''_'', Field ''cc'', Field ''failure'', Text ''.txt''],
     [],
     [Text ''SIMULATOR_STOP_TIME 4.00''],
     [],
     [Text ''CC_MODE '', Field ''mode''],
     [Text ''ALPHA_RESUME_INTERVAL '', Field ''t_alpha''],
     [Text ''RATE_DECREASE_INTERVAL '', Field ''t_dec''],
     [Text ''CLAMP_TARGET_RATE 0''],
     [Text ''RP_TIMER '', Field ''t_inc''],
     [Text ''EWMA_GAIN '', Field ''g''],
     [Text ''FAST_RECOVERY_TIMES 1''],
     [Text ''RATE_AI '', Field ''ai'', Text ''Mb/s''],
     [Text ''RATE_HAI '', Field ''hai'', Text ''Mb/s''],
     [Text ''MIN_RATE 100Mb/s''],
     [Text ''DCTCP_RATE_AI '', Field ''dctcp_ai'', Text ''Mb/s''],
     [],
     [Text ''ERROR_RATE_PER_LINK 0.0000''],
     [Text ''L2_CHUNK_SIZE 4000''],
     [Text ''L2_ACK_INTERVAL 1''],
     [Text ''L2_BACK_TO_ZERO 0''],
     [],
     [Text ''HAS_WIN '', Field ''has_win''],
     [Text ''GLOBAL_T 1''],
     [Text ''VAR_WIN '', Field ''vwin''],
     [Text ''FAST_REACT '', Field ''us''],
     [Text ''U_TARGET '', Field ''u_tgt''],
     [Text ''MI_THRESH '', Field ''mi''],
     [Text ''INT_MULTI '', Field ''int_multi''],
     [Text ''MULTI_RATE 0''],
     [Text ''SAMPLE_FEEDBACK 0''],
     [],
     [Text ''RATE_BOUND 1''],
     [],
     [Text ''ACK_HIGH_PRIO '', Field ''ack_prio''],
     [],
     [Text ''LINK_DOWN '', Field ''link_down''],
     [],
     [Text ''ENABLE_TRACE 1''],
     [],
     [Text ''KMAX_MAP '', Field ''kmax_map''],
     [Text ''KMIN_MAP '', Field ''kmin_map''],
     [Text ''PMAX_MAP '', Field ''pmax_map''],
     [Text ''BUFFER_SIZE '', Field ''buffer_size''],
     [Text ''QLEN_MON_FILE mix/qlen_'', Field ''topo'', Text ''_'', Field ''trace'', Text ''_'', Field ''cc'', Field ''failure'', Text ''.txt''],
     [Text ''QLEN_MON_START 2000000000''],
     [Text ''QLEN_MON_END 3000000000'']]"

text \<open>\<open>str.format\<close> raises \<open>KeyError\<close> for a field it is not given.\<close>

fun format_pieces :: "(string, string) dict \<Rightarrow> config_piece list \<Rightarrow> string res" where
  "format_pieces d [] = Inr []"
| "format_pieces d (Text s # ps) = rbind (format_pieces d ps) (\<lambda>t. Inr (s @ t))"
| "format_pieces d (Field f # ps) = rbind (d_item d f) (\<lambda>s. rbind (format_pieces d ps) (\<lambda>t. Inr (s @ t)))"

fun format_lines :: "(string, string) dict \<Rightarrow> config_piece list list \<Rightarrow> string list res" where
  "format_lines d [] = Inr []"
| "format_lines d (l # ls) = rbind (format_pieces d l) (\<lambda>s. rbind (format_lines d ls) (\<lambda>ss. Inr (s # ss)))"

definition format_template :: "(string, string) dict \<Rightarrow> string res" where
  "format_template d = rbind (format_lines d config_template) (\<lambda>ls. Inr (concat (map endl ls)))"

section \<open>The parameters\<close>

record run_args =
  a_cc :: string
  a_trace :: string
  a_bw :: string
  a_down :: string
  a_topo :: string
  a_utgt :: int
  a_mi :: int
  a_hpai :: int

definition default_args :: run_args where
  "default_args = \<lparr>a_cc = ''hp'', a_trace = ''flow'', a_bw = ''50'', a_down = ''0 0 0'', a_topo = ''fat'', a_utgt = 95, a_mi = 0, a_hpai = 0\<rparr>"

text \<open>How \<open>str\<close> writes the float \<open>n / 100.\<close> for an integer of up to twelve digits.\<close>

definition show_hundredths :: "int \<Rightarrow> string" where
  "show_hundredths n =
     (let m = nat \<bar>n\<bar>; r = m mod 100
      in (if n < 0 then ''-'' else '''') @ show_nat (m div 100) @ ''.'' @ show_nat (r div 10)
         @ (if r mod 10 = 0 then '''' else show_nat (r mod 10)))"

definition ecn_map :: "int \<Rightarrow> string \<Rightarrow> string \<Rightarrow> string" where
  "ecn_map bw a b = ''2 '' @ show_int (bw * 1000000000) @ '' '' @ a @ '' '' @ show_int (bw * 4 * 1000000000) @ '' '' @ b"

record cc_params =
  p_cc :: string
  p_mode :: int
  p_t_alpha :: int
  p_t_dec :: int
  p_t_inc :: int
  p_g :: string
  p_ai :: int
  p_hai :: int
  p_dctcp_ai :: int
  p_has_win :: int
  p_vwin :: int
  p_us :: int
  p_int_multi :: int
  p_ack_prio :: int
  p_kmax :: string
  p_kmin :: string
  p_pmax :: string

definition default_maps :: "int \<Rightarrow> string \<times> string \<times> string" where
  "default_maps bw =
     (ecn_map bw (show_int (400 * bw div 25)) (show_int (400 * bw * 4 div 25)),
      ecn_map bw (show_int (100 * bw div 25)) (show_int (100 * bw * 4 div 25)),
      ecn_map bw ''0.20'' ''0.20'')"

definition params :: "string \<Rightarrow> int \<Rightarrow> int \<times> int \<times> int \<times> int \<Rightarrow> string \<Rightarrow> int \<times> int \<times> int \<Rightarrow> int \<times> int \<times> int \<Rightarrow> int \<times> int
    \<Rightarrow> cc_params" where
  "params cc bw = (\<lambda>(mode, t_alpha, t_dec, t_inc) g (ai, hai, dctcp_ai) (has_win, vwin, us) (int_multi, ack_prio).
     let (kmax, kmin, pmax) = default_maps bw
     in \<lparr>p_cc = cc, p_mode = mode, p_t_alpha = t_alpha, p_t_dec = t_dec, p_t_inc = t_inc, p_g = g, p_ai = ai, p_hai = hai,
         p_dctcp_ai = dctcp_ai, p_has_win = has_win, p_vwin = vwin, p_us = us, p_int_multi = int_multi,
         p_ack_prio = ack_prio, p_kmax = kmax, p_kmin = kmin, p_pmax = pmax\<rparr>)"

text \<open>The name of the scheme \<open>hp\<close> with the parameters that differ from the default.\<close>

definition hp_name :: "run_args \<Rightarrow> int \<Rightarrow> string" where
  "hp_name args ai =
     a_cc args @ show_int (a_utgt args) @ (if a_mi args > 0 then ''mi'' @ show_int (a_mi args) else '''')
     @ (if a_hpai args > 0 then ''ai'' @ show_int ai else '''')"

text \<open>The branches of the script: the parameters, no value at all for \<open>config\<close>, or the exit.\<close>

datatype choice = Params cc_params | NoConfig | UnknownCC

definition choose_cc :: "run_args \<Rightarrow> int \<Rightarrow> choice" where
  "choose_cc args bw =
     (let cc = a_cc args; small = ''0.00390625''
      in if starts_with ''dcqcn'' cc then
           (let ai = 5 * bw div 25; hai = 50 * bw div 25
            in if cc = ''dcqcn'' then Params (params cc bw (1, 1, 4, 300) small (ai, hai, 1000) (0, 0, 0) (1, 1))
               else if cc = ''dcqcn_paper'' then Params (params cc bw (1, 50, 50, 55) small (ai, hai, 1000) (0, 0, 0) (1, 1))
               else if cc = ''dcqcn_vwin'' then Params (params cc bw (1, 1, 4, 300) small (ai, hai, 1000) (1, 1, 0) (1, 0))
               else if cc = ''dcqcn_paper_vwin'' then Params (params cc bw (1, 50, 50, 55) small (ai, hai, 1000) (1, 1, 0) (1, 0))
               else NoConfig)
         else if cc = ''hp'' then
           (let ai = (if a_hpai args > 0 then a_hpai args else 10 * bw div 25)
            in Params (params (hp_name args ai) bw (3, 1, 4, 300) small (ai, ai, 1000) (1, 1, 1) (bw div 25, 0)))
         else if cc = ''dctcp'' then
           Params ((params cc bw (8, 1, 4, 300) ''0.0625'' (10, 10, 615) (1, 1, 0) (1, 0))
             \<lparr>p_kmax := ecn_map bw (show_int (30 * bw div 10)) (show_int (30 * bw * 4 div 10)),
              p_kmin := ecn_map bw (show_int (30 * bw div 10)) (show_int (30 * bw * 4 div 10)),
              p_pmax := ecn_map bw ''1.00'' ''1.00''\<rparr>)
         else if cc = ''timely'' then
           Params (params cc bw (7, 1, 4, 300) small (10 * bw div 10, 50 * bw div 10, 1000) (0, 0, 0) (1, 1))
         else if cc = ''timely_vwin'' then
           Params (params cc bw (7, 1, 4, 300) small (10 * bw div 10, 50 * bw div 10, 1000) (1, 1, 0) (1, 1))
         else UnknownCC)"

section \<open>The run\<close>

definition failure_of :: "run_args \<Rightarrow> string" where
  "failure_of args = (if a_down args \<noteq> ''0 0 0'' then ''_down'' else '''')"

definition config_name :: "run_args \<Rightarrow> string \<Rightarrow> string" where
  "config_name args cc = ''mix/config_'' @ a_topo args @ ''_'' @ a_trace args @ ''_'' @ cc @ failure_of args @ ''.txt''"

definition config_fields :: "run_args \<Rightarrow> int \<Rightarrow> cc_params \<Rightarrow> (string, string) dict" where
  "config_fields args bw p =
     [(''bw'', show_int bw), (''trace'', a_trace args), (''topo'', a_topo args), (''cc'', p_cc p), (''mode'', show_int (p_mode p)),
      (''t_alpha'', show_int (p_t_alpha p)), (''t_dec'', show_int (p_t_dec p)), (''t_inc'', show_int (p_t_inc p)), (''g'', p_g p),
      (''ai'', show_int (p_ai p)), (''hai'', show_int (p_hai p)), (''dctcp_ai'', show_int (p_dctcp_ai p)),
      (''has_win'', show_int (p_has_win p)), (''vwin'', show_int (p_vwin p)), (''us'', show_int (p_us p)),
      (''u_tgt'', show_hundredths (a_utgt args)), (''mi'', show_int (a_mi args)), (''int_multi'', show_int (p_int_multi p)),
      (''ack_prio'', show_int (p_ack_prio p)), (''link_down'', a_down args), (''failure'', failure_of args),
      (''kmax_map'', p_kmax p), (''kmin_map'', p_kmin p), (''pmax_map'', p_pmax p), (''buffer_size'', show_int (16 * bw div 50))]"

record run_effects =
  written :: "(string \<times> string) list"
  printed :: "string list"
  system_calls :: "string list"

definition no_effects :: run_effects where
  "no_effects = \<lparr>written = [], printed = [], system_calls = []\<rparr>"

text \<open>
  The file is opened, and emptied, before \<open>config\<close> is read: a script without a \<open>config\<close> leaves an
  empty file.
\<close>

definition simulate :: "run_args \<Rightarrow> unit res \<times> run_effects" where
  "simulate args =
     (case read_int (a_bw args) of
        Inl e \<Rightarrow> (Inl e, no_effects)
      | Inr bw \<Rightarrow>
          (case choose_cc args bw of
             UnknownCC \<Rightarrow> (Inl (SystemExit 1), no_effects\<lparr>printed := [''unknown cc: '' @ a_cc args]\<rparr>)
           | NoConfig \<Rightarrow> (Inl NameError, no_effects\<lparr>written := [(config_name args (a_cc args), [])]\<rparr>)
           | Params p \<Rightarrow>
               (case format_template (config_fields args bw p) of
                  Inl e \<Rightarrow> (Inl e, no_effects)
                | Inr config \<Rightarrow>
                    (let name = config_name args (p_cc p)
                     in (Inr (), no_effects\<lparr>written := [(name, config)],
                           system_calls := [''./waf --run 'scratch/third '' @ name @ [CHR 0x27]]\<rparr>)))))"

end
