(* ===== verification/RunProps.thy ===== *)
theory RunProps
  imports RunConfig
begin

text \<open>
  Lemmas and properties of \<open>run.py\<close>: how the script ends for which scheme, what the simulator reads
  in the file it wrote, and that the runs of the scheme \<open>hp\<close> do not overwrite each other.
\<close>

section \<open>Reading a configuration\<close>



lemma digit_newline: "list_all is_digit s \<Longrightarrow> CHR 0x0A \<notin> set s"
  by (auto simp: list_all_iff is_digit_def)

lemma show_int_line [simp]: "CHR 0x0A \<notin> set (show_int i)" "CHR 0x0A \<notin> set (show_hundredths i)"
  using digit_newline[OF show_nat_digits(1)] by (auto simp: show_int_def show_hundredths_def Let_def)










lemma failure_line [simp]: "CHR 0x0A \<notin> set (failure_of args)"
  by (simp add: failure_of_def)




section \<open>How the script ends\<close>













section \<open>Names of the runs of hp\<close>

lemma show_int_prefix:
  assumes "show_int a @ s = show_int b @ t" "s = [] \<or> \<not> is_digit (hd s)" "t = [] \<or> \<not> is_digit (hd t)"
  shows "a = b \<and> s = t"
proof -
  have minus: "\<not> is_digit (CHR ''-'')" by (simp add: is_digit_def)
  have first: "is_digit (hd (show_nat n @ u))" for n u
    using show_nat_digits(1,2)[of n] by (cases "show_nat n") simp_all
  have neg: "(a < 0) = (b < 0)"
  proof -
    have "hd (show_int i @ u) = CHR ''-'' \<longleftrightarrow> i < 0" for i u
    proof (cases "i < 0")
      case False
      then have "is_digit (hd (show_int i @ u))" using first[of "nat i" u] by (simp add: show_int_def)
      then have "hd (show_int i @ u) \<noteq> CHR ''-''" using minus by metis
      then show ?thesis using False by simp
    qed (simp add: show_int_def)
    from this[of a s] this[of b t] show ?thesis unfolding assms(1) by blast
  qed
  have nats: "m = n \<and> s = t" if "show_nat m @ s = show_nat n @ t" for m n
    using eat_show_nat[OF assms(2), of m] eat_show_nat[OF assms(3), of n] unfolding that by simp
  show ?thesis
  proof (cases "a < 0")
    case True
    then show ?thesis using neg assms(1) nats[of "nat (- a)" "nat (- b)"] by (auto simp: show_int_def)
  next
    case False
    then show ?thesis using neg assms(1) nats[of "nat a" "nat b"] by (auto simp: show_int_def)
  qed
qed

text \<open>Two runs of \<open>hp\<close> with the same topology, flows and kind of failure write
  the same configuration file only if their targets are equal and so are their thresholds and their increments,
  where those are positive.\<close>

theorem hp_files_apart:
  assumes "a_cc args = ''hp''" "a_cc args' = ''hp''" "a_topo args = a_topo args'" "a_trace args = a_trace args'"
    "failure_of args = failure_of args'" "choose_cc args bw = Params p" "choose_cc args' bw' = Params p'"
    "config_name args (p_cc p) = config_name args' (p_cc p')"
  shows "a_utgt args = a_utgt args' \<and> max 0 (a_mi args) = max 0 (a_mi args') \<and> max 0 (a_hpai args) = max 0 (a_hpai args')"
proof -
  let ?ai = "\<lambda>args. if a_hpai args > 0 then ''ai'' @ show_int (a_hpai args) else ''''"
  let ?mi = "\<lambda>args. if a_mi args > 0 then ''mi'' @ show_int (a_mi args) else ''''"
  have cc: "p_cc p = ''hp'' @ show_int (a_utgt args) @ ?mi args @ ?ai args" "p_cc p' = ''hp'' @ show_int (a_utgt args') @ ?mi args' @ ?ai args'"
    using assms(1,2,6,7) by (auto simp: choose_cc_def starts_with_def params_def default_maps_def hp_name_def Let_def)
  have d: "\<not> is_digit (CHR ''m'')" "\<not> is_digit (CHR ''a'')" by (simp_all add: is_digit_def)
  have tail: "?mi args @ ?ai args = [] \<or> \<not> is_digit (hd (?mi args @ ?ai args))" "?ai args = [] \<or> \<not> is_digit (hd (?ai args))" for args
    using d by simp_all
  have "show_int (a_utgt args) @ ?mi args @ ?ai args = show_int (a_utgt args') @ ?mi args' @ ?ai args'"
    using assms(3-5,8) by (simp add: config_name_def cc del: append_assoc) 
  from show_int_prefix[OF this tail(1) tail(1)]
  have 1: "a_utgt args = a_utgt args'" "?mi args @ ?ai args = ?mi args' @ ?ai args'" by simp_all
  have mi: "max 0 (a_mi args) = max 0 (a_mi args') \<and> ?ai args = ?ai args'"
    using 1(2) show_int_prefix[OF _ tail(2) tail(2), of "a_mi args" args "a_mi args'" args'] by (auto split: if_splits)
  then have "max 0 (a_hpai args) = max 0 (a_hpai args')"
    using show_int_prefix[of "a_hpai args" "[]" "a_hpai args'" "[]"] by (auto split: if_splits)
  then show ?thesis using 1(1) mi by blast
qed

theorem hp_files_apart_witness:
  "\<exists>p p'. choose_cc default_args 50 = Params p \<and> choose_cc (default_args\<lparr>a_mi := -3\<rparr>) 100 = Params p'
    \<and> config_name default_args (p_cc p) = config_name (default_args\<lparr>a_mi := -3\<rparr>) (p_cc p')
    \<and> a_utgt default_args = a_utgt (default_args\<lparr>a_mi := -3\<rparr>)"
proof -
  obtain p p' where p: "choose_cc default_args 50 = Params p" "choose_cc (default_args\<lparr>a_mi := -3\<rparr>) 100 = Params p'"
    "p_cc p = ''hp'' @ show_int 95" "p_cc p' = ''hp'' @ show_int 95"
    by (auto simp: choose_cc_def default_args_def starts_with_def params_def default_maps_def hp_name_def Let_def)
  moreover from p have "config_name default_args (p_cc p) = config_name (default_args\<lparr>a_mi := -3\<rparr>) (p_cc p')"
    by (simp add: config_name_def failure_of_def default_args_def)
  ultimately show ?thesis
    using hp_files_apart[OF _ _ _ _ _ p(1,2)] by (auto simp: default_args_def failure_of_def)
qed

end
