(* ===== verification/BuildFlags.thy ===== *)
theory BuildFlags
  imports PyStr
begin

text \<open>
  \<open>waf-tools/cflags.py\<close>: the compiler flags of a build profile. A compiler is a traits object, here
  its class; the environment of waf gives the empty list for a variable that is not set, and the
  names of the two compilers are options, as \<open>configure\<close> turns what is false into \<open>None\<close>.
\<close>

section \<open>Compiler traits\<close>

datatype traits = GccTraits | IccTraits | MsvcTraits

text \<open>The loop over the levels, which all three have, stops at the first one without a list.\<close>

fun warnings_loop :: "string list list \<Rightarrow> nat list \<Rightarrow> string list \<Rightarrow> string list" where
  "warnings_loop flags [] warnings = warnings"
| "warnings_loop flags (l # ls) warnings =
     (if l < length flags then warnings_loop flags ls (warnings @ flags ! l) else warnings)"

text \<open>A level that no branch has gives \<open>None\<close>.\<close>

definition gcc_warnings_flags :: "int \<Rightarrow> string list" where
  "gcc_warnings_flags level = warnings_loop [] [0..<nat level] []"

definition gcc_optimization_flags :: "int \<Rightarrow> string list option" where
  "gcc_optimization_flags level =
     (if level = 0 then Some [''-O0''] else if level = 1 then Some [''-O'']
      else if level = 2 then Some [''-O2''] else if level = 3 then Some [''-O3''] else None)"

definition gcc_debug_flags :: "int \<Rightarrow> (string list \<times> string list) option" where
  "gcc_debug_flags level =
     (if level = 0 then Some ([''-g0''], [''NDEBUG'']) else if level = 1 then Some ([''-g''], [])
      else if level \<ge> 2 then Some ([''-ggdb'', ''-g3''], [''_DEBUG'']) else None)"

definition icc_warnings_flags :: "int \<Rightarrow> string list" where
  "icc_warnings_flags level = warnings_loop [[], [], [''-Wall'']] [0..<nat level] []"

definition icc_optimization_flags :: "int \<Rightarrow> string list option" where
  "icc_optimization_flags level =
     (if level = 0 then Some [''-O0''] else if level = 1 then Some [''-O'']
      else if level = 2 then Some [''-O2''] else if level = 3 then Some [''-O3''] else None)"

definition icc_debug_flags :: "int \<Rightarrow> (string list \<times> string list) option" where
  "icc_debug_flags level =
     (if level = 0 then Some ([''-g0''], [''NDEBUG'']) else if level = 1 then Some ([''-g''], [])
      else if level \<ge> 2 then Some ([''-ggdb'', ''-g3''], [''_DEBUG'']) else None)"

definition msvc_warnings_flags :: "int \<Rightarrow> string list" where
  "msvc_warnings_flags level = warnings_loop [[''/W2''], [''/WX''], [''/Wall'']] [0..<nat level] []"

definition msvc_optimization_flags :: "int \<Rightarrow> string list option" where
  "msvc_optimization_flags level =
     (if level = 0 then Some [''/Od''] else if level = 1 then Some []
      else if level = 2 then Some [''/O2''] else if level = 3 then Some [''/Ox''] else None)"

definition msvc_debug_flags :: "int \<Rightarrow> (string list \<times> string list) option" where
  "msvc_debug_flags level =
     (if level = 0 then Some ([], [''NDEBUG'']) else if level = 1 then Some ([''/ZI'', ''/RTC1''], [])
      else if level \<ge> 2 then Some ([''/ZI'', ''/RTC1''], [''_DEBUG'']) else None)"

text \<open>The calls of the methods on whichever traits object was found.\<close>

fun get_warnings_flags :: "traits \<Rightarrow> int \<Rightarrow> string list" where
  "get_warnings_flags GccTraits level = gcc_warnings_flags level"
| "get_warnings_flags IccTraits level = icc_warnings_flags level"
| "get_warnings_flags MsvcTraits level = msvc_warnings_flags level"

fun get_optimization_flags :: "traits \<Rightarrow> int \<Rightarrow> string list option" where
  "get_optimization_flags GccTraits level = gcc_optimization_flags level"
| "get_optimization_flags IccTraits level = icc_optimization_flags level"
| "get_optimization_flags MsvcTraits level = msvc_optimization_flags level"

fun get_debug_flags :: "traits \<Rightarrow> int \<Rightarrow> (string list \<times> string list) option" where
  "get_debug_flags GccTraits level = gcc_debug_flags level"
| "get_debug_flags IccTraits level = icc_debug_flags level"
| "get_debug_flags MsvcTraits level = msvc_debug_flags level"

lemmas flag_defs = gcc_optimization_flags_def gcc_debug_flags_def icc_optimization_flags_def icc_debug_flags_def
  msvc_optimization_flags_def msvc_debug_flags_def

text \<open>Only the traits of gcc have this method.\<close>

fun get_cxx_version_flags :: "traits \<Rightarrow> string list res" where
  "get_cxx_version_flags GccTraits = Inr [''-std=gnu++11'']"
| "get_cxx_version_flags t = Inl AttributeError"

definition compiler_mapping :: "(string, traits) dict" where
  "compiler_mapping = [(''gcc'', GccTraits), (''g++'', GccTraits), (''msvc'', MsvcTraits), (''icc'', IccTraits), (''icpc'', IccTraits)]"

definition profiles :: "(string, int \<times> int \<times> int) dict" where
  "profiles = [(''default'', 2, 1, 1), (''debug'', 0, 2, 3), (''release'', 3, 1, 0)]"

section \<open>configure\<close>

record build_env =
  compiler_cc :: "string option"
  compiler_cxx :: "string option"
  env_vars :: "(string, string list) dict"

definition env_get :: "build_env \<Rightarrow> string \<Rightarrow> string list" where
  "env_get e v = (case d_get (env_vars e) v of None \<Rightarrow> [] | Some xs \<Rightarrow> xs)"

definition append_value :: "string \<Rightarrow> string list \<Rightarrow> build_env \<Rightarrow> build_env" where
  "append_value v xs e = e\<lparr>env_vars := d_set v (env_get e v @ xs) (env_vars e)\<rparr>"

text \<open>The traits of the C compiler, or else of the C++ compiler.\<close>

definition find_compiler :: "build_env \<Rightarrow> traits option" where
  "find_compiler e =
     (case Option.bind (compiler_cc e) (d_get compiler_mapping) of
        Some t \<Rightarrow> Some t
      | None \<Rightarrow> Option.bind (compiler_cxx e) (d_get compiler_mapping))"

text \<open>A flag list that is \<open>None\<close> cannot be appended.\<close>

definition need :: "'a option \<Rightarrow> 'a res" where
  "need x = (case x of None \<Rightarrow> Inl TypeError | Some a \<Rightarrow> Inr a)"

definition configure :: "string \<Rightarrow> build_env \<Rightarrow> build_env res" where
  "configure build_profile e =
     (let cc = compiler_cc e; cxx = compiler_cxx e
      in if cc = None \<and> cxx = None then Inl WafError
         else case find_compiler e of
           None \<Rightarrow> Inr e
         | Some compiler \<Rightarrow>
             rbind (d_item profiles build_profile) (\<lambda>(opt_level, warn_level, dbg_level).
             rbind (need (get_optimization_flags compiler opt_level)) (\<lambda>optimizations.
             rbind (need (get_debug_flags compiler dbg_level)) (\<lambda>(debug, debug_defs).
             let warnings = get_warnings_flags compiler warn_level
             in rbind (get_cxx_version_flags compiler) (\<lambda>cxx_version.
                  let e = (if cc \<noteq> None \<and> env_get e ''CCFLAGS'' = []
                           then append_value ''CCDEFINES'' debug_defs (append_value ''CCFLAGS'' warnings
                                  (append_value ''CCFLAGS'' debug (append_value ''CCFLAGS'' optimizations e)))
                           else e)
                  in Inr (if cxx \<noteq> None \<and> env_get e ''CXXFLAGS'' = []
                          then append_value ''CXXDEFINES'' debug_defs (append_value ''CXXFLAGS'' cxx_version
                                 (append_value ''CXXFLAGS'' warnings (append_value ''CXXFLAGS'' debug
                                   (append_value ''CXXFLAGS'' optimizations e))))
                          else e))))))"

section \<open>Lemmas\<close>

lemma env_get_append: "env_get (append_value v xs e) w = (if w = v then env_get e v @ xs else env_get e w)"
  by (simp add: env_get_def append_value_def dict_simps split: option.splits)

lemma append_value_compilers [simp]: "compiler_cc (append_value v xs e) = compiler_cc e" "compiler_cxx (append_value v xs e) = compiler_cxx e"
  by (simp_all add: append_value_def)

lemma warnings_loop_take: "warnings_loop flags [m..<n] ws = ws @ concat (take (n - m) (drop m flags))"
proof (induction "n - m" arbitrary: m ws)
  case (Suc k)
  then have m: "[m..<n] = m # [Suc m..<n]" "n - m = Suc (n - Suc m)" by (simp_all add: upt_conv_Cons)
  show ?case
  proof (cases "m < length flags")
    case True
    then have "drop m flags = flags ! m # drop (Suc m) flags" by (rule Cons_nth_drop_Suc[symmetric])
    then show ?thesis using Suc(1)[of "Suc m"] Suc(2) True unfolding m(1) by (simp add: m(2))
  qed (simp add: m)
qed simp

lemma profiles_ok: "d_get profiles p = Some (o1, w, d) \<Longrightarrow> o1 \<in> {0..3} \<and> 0 \<le> d"
  by (auto simp: profiles_def d_get_def split: if_splits)

lemma flags_there: "o1 \<in> {0..3} \<Longrightarrow> 0 \<le> d \<Longrightarrow> \<exists>os ds defs. get_optimization_flags t o1 = Some os \<and> get_debug_flags t d = Some (ds, defs)
    \<and> (t \<noteq> MsvcTraits \<longrightarrow> os \<noteq> [])"
proof -
  assume a: "o1 \<in> {0..3}" "0 \<le> d"
  then consider "o1 = 0" | "o1 = 1" | "o1 = 2" | "o1 = 3" by fastforce
  then show ?thesis using a(2) by cases (cases t; force simp: flag_defs)+
qed

end
