(* ===== verification/BuildProps.thy ===== *)
theory BuildProps
  imports BuildFlags
begin




end
