(* ===== verification/WafUtils.thy ===== *)
theory WafUtils
  imports Shlex
begin

text \<open>
  \<open>wutils.py\<close>: how the build script finds a program of the simulator, sets up its environment and
  runs it. The build context \<open>bld\<close>, the options and the operating system are records; starting a
  process is a parameter that gives its exit code and the lines of its standard error, or that it
  could not be started. Paths of nodes are absolute.
\<close>

datatype waf_error =
    CommandTemplateAndValgrind
  | NoValgrind
  | NotStarted "string list"
  | TerminatedBy "string list" string
  | ExitedWith "string list" int
  | ProgramNotFound string "string list"
  | Other py_error

record task_gen =
  is_ns3_program :: bool
  tg_path :: string
  tg_bld_path :: string
  tg_name :: string
  tg_program :: string

record build_context =
  all_task_gen :: "task_gen list"
  ns3_module_path :: "string list"
  ns3_executable_path :: "string list"
  valgrind_program :: "string option"
  python_program :: string
  pymoddir :: string
  pyvizdir :: string

record waf_options =
  opt_command_template :: "string option"
  opt_valgrind :: bool
  opt_cwd_launch :: "string option"
  start_cwd_launch :: string

record platform =
  sys_platform :: string
  pathsep :: string
  os_environ :: "(string, string) dict"
  launch_dir :: string

section \<open>Templates and paths\<close>

definition get_command_template :: "waf_options \<Rightarrow> string list \<Rightarrow> string" where
  "get_command_template opts arguments =
     foldl (\<lambda>cmd arg. cmd @ '' '' @ arg)
       (case opt_command_template opts of Some t \<Rightarrow> if t = [] then ''%s'' else t | None \<Rightarrow> ''%s'') arguments"

text \<open>\<open>os.path.commonprefix\<close> of two lists, by its length; \<open>os.path.join\<close> of several names.\<close>

fun common_length :: "'a list \<Rightarrow> 'a list \<Rightarrow> nat" where
  "common_length (x # xs) (y # ys) = (if x = y then Suc (common_length xs ys) else 0)"
| "common_length xs ys = 0"

fun join_all :: "string list \<Rightarrow> string" where
  "join_all [] = []"
| "join_all (p # ps) = foldl path_join p ps"

text \<open>The function for Pythons before 2.6, with the current directory as a parameter.\<close>

definition relpath :: "string \<Rightarrow> string \<Rightarrow> string \<Rightarrow> string res" where
  "relpath cwd path start =
     (if path = [] then Inl ValueError
      else
        let start_list = split_on (CHR ''/'') (abspath cwd start);
            path_list = split_on (CHR ''/'') (abspath cwd path);
            i = common_length start_list path_list;
            rel_list = replicate (length start_list - i) ''..'' @ drop i path_list
        in if rel_list = [] then Inr ''.'' else Inr (join_all rel_list))"

text \<open>The library's function, used from 2.6 on, drops the empty parts of the paths first.\<close>

definition os_relpath :: "string \<Rightarrow> string \<Rightarrow> string \<Rightarrow> string res" where
  "os_relpath cwd path start =
     (if path = [] then Inl ValueError
      else
        let start_list = filter (\<lambda>x. x \<noteq> []) (split_on (CHR ''/'') (abspath cwd start));
            path_list = filter (\<lambda>x. x \<noteq> []) (split_on (CHR ''/'') (abspath cwd path));
            i = common_length start_list path_list;
            rel_list = replicate (length start_list - i) ''..'' @ drop i path_list
        in if rel_list = [] then Inr ''.'' else Inr (join_all rel_list))"

section \<open>find_program\<close>

definition in_subtree :: "string \<Rightarrow> task_gen \<Rightarrow> bool" where
  "in_subtree dir obj \<longleftrightarrow> starts_with dir (tg_path obj) \<or> starts_with dir (tg_bld_path obj)"

definition program_names :: "string \<Rightarrow> task_gen \<Rightarrow> string list res" where
  "program_names dir obj = rbind (os_relpath dir (tg_path obj) dir) (\<lambda>r. Inr [tg_name obj, path_join r (tg_name obj)])"

text \<open>The loop over the task generators; the names found so far are for the message.\<close>

fun find_loop :: "string \<Rightarrow> string \<Rightarrow> string list \<Rightarrow> task_gen list \<Rightarrow> waf_error + task_gen" where
  "find_loop dir program_name found_programs [] = Inl (ProgramNotFound program_name found_programs)"
| "find_loop dir program_name found_programs (obj # objs) =
     (if \<not> is_ns3_program obj \<or> \<not> in_subtree dir obj then find_loop dir program_name found_programs objs
      else case program_names dir obj of
          Inl e \<Rightarrow> Inl (Other e)
        | Inr names \<Rightarrow> if program_name \<in> set names then Inr obj
                       else find_loop dir program_name (found_programs @ names) objs)"

definition find_program :: "platform \<Rightarrow> build_context \<Rightarrow> string \<Rightarrow> waf_error + task_gen" where
  "find_program pl bld program_name = find_loop (launch_dir pl) program_name [] (all_task_gen bld)"

section \<open>The environment of a process\<close>

definition pathvar :: "string \<Rightarrow> string" where
  "pathvar plat =
     (if plat = ''linux2'' then ''LD_LIBRARY_PATH''
      else if plat = ''darwin'' then ''DYLD_LIBRARY_PATH''
      else if plat = ''win32'' then ''PATH''
      else if plat = ''cygwin'' then ''PATH''
      else if starts_with ''freebsd'' plat then ''LD_LIBRARY_PATH''
      else ''LD_LIBRARY_PATH'')"

definition dict_update :: "('k, 'v) dict \<Rightarrow> ('k, 'v) dict \<Rightarrow> ('k, 'v) dict" where
  "dict_update d new = foldl (\<lambda>d (k, v). d_set k v d) d new"

text \<open>Puts directories in front of what a variable has.\<close>

definition prepend_path :: "string \<Rightarrow> string \<Rightarrow> string list \<Rightarrow> (string, string) dict \<Rightarrow> (string, string) dict" where
  "prepend_path sep var dirs d =
     (case d_get d var of
        Some old \<Rightarrow> d_set var (join_with sep (dirs @ [old])) d
      | None \<Rightarrow> d_set var (join_with sep dirs) d)"

definition get_proc_env :: "platform \<Rightarrow> build_context \<Rightarrow> (string, string) dict option \<Rightarrow> (string, string) dict" where
  "get_proc_env pl bld os_env =
     (let sep = pathsep pl;
          proc_env = os_environ pl;
          proc_env = (case os_env of None \<Rightarrow> proc_env | Some e \<Rightarrow> dict_update proc_env e);
          proc_env = prepend_path sep (pathvar (sys_platform pl)) (ns3_module_path bld) proc_env;
          proc_env = prepend_path sep ''PYTHONPATH'' [pymoddir bld, pyvizdir bld] proc_env
      in prepend_path sep ''PATH'' (ns3_executable_path bld) proc_env)"

section \<open>Running\<close>

text \<open>
  Starting a process with its arguments, environment and directory: nothing where it could not be
  started, or its exit code and its standard error. The names of the signals are a parameter too.
\<close>

type_synonym start_process = "string list \<Rightarrow> (string, string) dict \<Rightarrow> string option \<Rightarrow> (int \<times> string list) option"

definition valgrind_args :: "string \<Rightarrow> string list" where
  "valgrind_args valgrind = [valgrind, ''--leak-check=full'', ''--show-reachable=yes'', ''--error-exitcode=1'']"

definition check_exit :: "(int \<Rightarrow> string option) \<Rightarrow> string list \<Rightarrow> int \<Rightarrow> waf_error + int" where
  "check_exit signame argv retval =
     (if retval \<noteq> 0 then
        (case (if retval < 0 then signame (- retval) else None) of
           Some nm \<Rightarrow> Inl (TerminatedBy argv nm)
         | None \<Rightarrow> Inl (ExitedWith argv retval))
      else Inr retval)"

definition run_argv :: "start_process \<Rightarrow> (int \<Rightarrow> string option) \<Rightarrow> platform \<Rightarrow> build_context \<Rightarrow> waf_options
    \<Rightarrow> string list \<Rightarrow> (string, string) dict option \<Rightarrow> string option \<Rightarrow> bool \<Rightarrow> waf_error + int" where
  "run_argv popen signame pl bld opts argv os_env cwd force_no_valgrind =
     (let proc_env = get_proc_env pl bld os_env
      in if opt_valgrind opts \<and> \<not> force_no_valgrind then
           (if opt_command_template opts \<noteq> None \<and> opt_command_template opts \<noteq> Some [] then Inl CommandTemplateAndValgrind
            else case valgrind_program bld of
                None \<Rightarrow> Inl NoValgrind
              | Some valgrind \<Rightarrow>
                  (let argv = valgrind_args valgrind @ argv
                   in case popen argv proc_env cwd of
                        None \<Rightarrow> Inl (NotStarted argv)
                      | Some (retval, stderr) \<Rightarrow>
                          (let error = list_ex (contains ''== LEAK SUMMARY'') stderr
                           in check_exit signame argv (if retval = 0 \<and> error then 1 else retval))))
         else case popen argv proc_env cwd of
                None \<Rightarrow> Inl (NotStarted argv)
              | Some (retval, stderr) \<Rightarrow> check_exit signame argv retval)"

text \<open>
  Formatting with one string: \<open>%s\<close> takes it and two percent signs stand for one; anything else, and
  an argument that is missing or left over, is an error.
\<close>

fun percent_format :: "string \<Rightarrow> string list \<Rightarrow> string res" where
  "percent_format [] args = (if args = [] then Inr [] else Inl TypeError)"
| "percent_format [c] args = (if c = CHR ''%'' then Inl ValueError else if args = [] then Inr [c] else Inl TypeError)"
| "percent_format (c # d # s) args =
     (if c \<noteq> CHR ''%'' then rbind (percent_format (d # s) args) (\<lambda>t. Inr (c # t))
      else if d = CHR ''%'' then rbind (percent_format s args) (\<lambda>t. Inr (CHR ''%'' # t))
      else if d = CHR ''s'' then
        (case args of [] \<Rightarrow> Inl TypeError | a # as \<Rightarrow> rbind (percent_format s as) (\<lambda>t. Inr (a @ t)))
      else Inl TypeError)"

definition double_backslashes :: "string \<Rightarrow> string" where
  "double_backslashes s = concat (map (\<lambda>c. if c = backslash then [backslash, backslash] else [c]) s)"

definition lift_res :: "'a res \<Rightarrow> waf_error + 'a" where
  "lift_res r = (case r of Inl e \<Rightarrow> Inl (Other e) | Inr x \<Rightarrow> Inr x)"

definition get_run_program :: "platform \<Rightarrow> build_context \<Rightarrow> string \<Rightarrow> string option \<Rightarrow> waf_error + (string \<times> string list)" where
  "get_run_program pl bld program_string command_template =
     (if command_template \<in> {None, Some ''%s''} then
        rbind (lift_res (shlex_split program_string)) (\<lambda>argv.
        rbind (lift_res (py_nth argv 0)) (\<lambda>program_name.
        rbind (find_program pl bld program_name) (\<lambda>program_obj.
          Inr (program_name, tg_program program_obj # drop 1 argv))))
      else
        rbind (find_program pl bld program_string) (\<lambda>program_obj.
        rbind (lift_res (percent_format (the command_template) [tg_program program_obj])) (\<lambda>tmpl.
        rbind (lift_res (shlex_split (double_backslashes tmpl))) (\<lambda>execvec.
          Inr (program_string, execvec)))))"

definition visual_args :: "bool \<Rightarrow> string list" where
  "visual_args visualize = (if visualize then [''--SimulatorImplementationType=ns3::VisualSimulatorImpl''] else [])"

definition launch_cwd :: "waf_options \<Rightarrow> string" where
  "launch_cwd opts = (case opt_cwd_launch opts of Some d \<Rightarrow> if d = [] then start_cwd_launch opts else d
                      | None \<Rightarrow> start_cwd_launch opts)"

definition run_program :: "start_process \<Rightarrow> (int \<Rightarrow> string option) \<Rightarrow> platform \<Rightarrow> build_context \<Rightarrow> waf_options
    \<Rightarrow> string \<Rightarrow> string option \<Rightarrow> string option \<Rightarrow> bool \<Rightarrow> waf_error + int" where
  "run_program popen signame pl bld opts program_string command_template cwd visualize =
     rbind (get_run_program pl bld program_string command_template) (\<lambda>(_, execvec).
       let cwd = (case cwd of None \<Rightarrow> launch_cwd opts | Some d \<Rightarrow> d)
       in run_argv popen signame pl bld opts (execvec @ visual_args visualize) None (Some cwd) False)"

definition run_python_program :: "start_process \<Rightarrow> (int \<Rightarrow> string option) \<Rightarrow> platform \<Rightarrow> build_context \<Rightarrow> waf_options
    \<Rightarrow> string \<Rightarrow> bool \<Rightarrow> waf_error + int" where
  "run_python_program popen signame pl bld opts program_string visualize =
     rbind (lift_res (shlex_split program_string)) (\<lambda>execvec.
       run_argv popen signame pl bld opts (python_program bld # execvec @ visual_args visualize) None
         (Some (launch_cwd opts)) False)"

end
