(* ===== verification/WafProps.thy ===== *)
theory WafProps
  imports WafUtils
begin

text \<open>
  Lemmas and properties of \<open>wutils.py\<close>: relative paths, the program that is found, the environment and
  the exit of a run, and the arguments that come out of a command template.
\<close>

section \<open>Paths of good names\<close>

definition good_name :: "string \<Rightarrow> bool" where
  "good_name c \<longleftrightarrow> c \<noteq> [] \<and> c \<noteq> ''.'' \<and> c \<noteq> ''..'' \<and> CHR ''/'' \<notin> set c"

definition path_of :: "string list \<Rightarrow> string" where
  "path_of cs = ''/'' @ join_with ''/'' cs"

lemma norm_good: "list_all good_name cs \<Longrightarrow> foldl (norm_step True) xs cs = xs @ cs"
  by (induction cs arbitrary: xs) (auto simp: norm_step_def good_name_def)

lemma norm_up: "list_all good_name (xs @ ys) \<Longrightarrow> foldl (norm_step True) (xs @ ys) (replicate (length ys) ''..'') = xs"
proof (induction ys rule: rev_induct)
  case (snoc y ys)
  then have "y \<noteq> ''..''" by (auto simp: good_name_def)
  then have "norm_step True (xs @ ys @ [y]) ''..'' = xs @ ys" by (simp add: norm_step_def butlast_append)
  then show ?case using snoc by simp
qed simp

definition part :: "string \<Rightarrow> bool" where
  "part c \<longleftrightarrow> c \<noteq> [] \<and> CHR ''/'' \<notin> set c"

lemma join_part: "list_all part (c # cs) \<Longrightarrow> \<exists>x xs. join_with ''/'' (c # cs) = x # xs \<and> x \<noteq> CHR ''/''"
  by (cases c; cases cs) (auto simp: part_def)

lemma good_part: "list_all good_name cs \<Longrightarrow> list_all part cs"
  by (auto simp: list_all_iff good_name_def part_def)

lemma split_path_of: "list_all part cs \<Longrightarrow> split_on (CHR ''/'') (path_of cs) = [] # (if cs = [] then [[]] else cs)"
  using split_on_join[of cs "CHR ''/''"] by (auto simp: path_of_def list_all_iff part_def)

lemma norm_path_of:
  assumes "list_all part cs"
  shows "normpath (path_of cs) = path_of (foldl (norm_step True) [] cs)"
proof -
  have i: "starts_with ''/'' (path_of cs)" "\<not> starts_with ''//'' (path_of cs)"
    using assms join_part[of "hd cs" "tl cs"] by (cases cs; force simp: path_of_def starts_with_def)+
  have "foldl (norm_step True) [] (split_on (CHR ''/'') (path_of cs)) = foldl (norm_step True) [] cs"
    by (simp add: split_path_of[OF assms] norm_step_def)
  then show ?thesis using i by (simp add: normpath_def Let_def path_of_def)
qed

lemma abspath_path_of: "list_all good_name cs \<Longrightarrow> abspath cwd (path_of cs) = path_of cs"
  using norm_path_of[OF good_part] norm_good[of cs "[]"] by (simp add: abspath_def path_of_def starts_with_def)

lemma join_snoc: "ps \<noteq> [] \<Longrightarrow> join_with s (ps @ [q]) = join_with s ps @ s @ q"
  by (induction s ps rule: join_with.induct) auto

lemma join_append: "ps \<noteq> [] \<Longrightarrow> qs \<noteq> [] \<Longrightarrow> join_with s (ps @ qs) = join_with s ps @ s @ join_with s qs"
  by (induction s ps rule: join_with.induct) (auto simp: neq_Nil_conv)

lemma no_slash_end: "part c \<Longrightarrow> \<not> ends_with ''/'' (s @ c)" "part c \<Longrightarrow> \<not> starts_with ''/'' c"
  by (cases c rule: rev_cases; auto simp: part_def ends_with_def starts_with_def)
     (cases c; auto simp: part_def starts_with_def)+

lemma join_all_parts: "list_all part (p # ps) \<Longrightarrow> join_all (p # ps) = join_with ''/'' (p # ps)"
proof (induction ps rule: rev_induct)
  case (snoc q ps)
  have "join_all (p # ps @ [q]) = path_join (join_with ''/'' (p # ps)) q" using snoc by simp
  moreover have "join_with ''/'' (p # ps) \<noteq> []" using snoc(2) join_part[of p ps] by auto
  moreover have "\<not> ends_with ''/'' (join_with ''/'' (p # ps))"
    using snoc(2) no_slash_end(1)[of p "[]"] no_slash_end(1)[of "last ps" "join_with ''/'' (p # butlast ps) @ ''/''"]
      join_snoc[of "p # butlast ps" "''/''" "last ps"]
    by (cases ps rule: rev_cases) (auto simp: list_all_iff)
  ultimately show ?case using snoc(2) no_slash_end(2)[of q] join_snoc[of "p # ps" "''/''" q] by (simp add: path_join_def)
qed simp


section \<open>Relative paths\<close>

lemma common_length_take: "take (common_length xs ys) xs = take (common_length xs ys) ys
   \<and> common_length xs ys \<le> length xs \<and> common_length xs ys \<le> length ys"
  by (induction xs ys rule: common_length.induct) auto

lemma path_join_parts:
  assumes "list_all part a" "list_all part (r # rs)"
  shows "path_join (path_of a) (join_with ''/'' (r # rs)) = path_of (a @ r # rs)"
proof -
  obtain x xs where x: "join_with ''/'' (r # rs) = x # xs" "x \<noteq> CHR ''/''" using join_part[OF assms(2)] by blast
  then have rel: "\<not> starts_with ''/'' (join_with ''/'' (r # rs))" by (simp add: starts_with_def)
  show ?thesis
  proof (cases a rule: rev_cases)
    case Nil
    then show ?thesis using rel by (simp add: path_join_def path_of_def ends_with_def starts_with_def)
  next
    case (snoc as c)
    then have "\<not> ends_with ''/'' (path_of a)"
      using assms(1) no_slash_end(1)[of c "''/'' @ join_with ''/'' as @ ''/''"] no_slash_end(1)[of c "''/''"]
        join_snoc[of as "''/''" c] by (cases "as = []") (auto simp: path_of_def)
    moreover have "path_of a \<noteq> []" by (simp add: path_of_def)
    ultimately have "path_join (path_of a) (join_with ''/'' (r # rs)) = path_of a @ ''/'' @ join_with ''/'' (r # rs)"
      using rel by (simp only: path_join_def if_False) simp
    then show ?thesis using join_append[of a "r # rs" "''/''"] snoc by (simp only: path_of_def append_assoc) simp
  qed
qed

text \<open>Walking from a directory along parts.\<close>

lemma abspath_walk:
  assumes "list_all good_name a" "list_all part (r # rs)"
  shows "abspath (path_of a) (join_with ''/'' (r # rs)) = path_of (foldl (norm_step True) a (r # rs))"
proof -
  obtain x xs where x: "join_with ''/'' (r # rs) = x # xs" "x \<noteq> CHR ''/''" using join_part[OF assms(2)] by blast
  have "list_all part (a @ r # rs)" using assms good_part by simp
  from norm_path_of[OF this] have "normpath (path_of (a @ r # rs)) = path_of (foldl (norm_step True) a (r # rs))"
    using norm_good[OF assms(1), of "[]"] by simp
  then show ?thesis using x path_join_parts[OF good_part[OF assms(1)] assms(2)] by (simp add: abspath_def starts_with_def)
qed

lemma relpath_walk:
  assumes "list_all good_name a" "list_all good_name b"
  obtains r rs where "os_relpath cwd (path_of b) (path_of a) = Inr (join_with ''/'' (r # rs))" "list_all part (r # rs)"
    "foldl (norm_step True) a (r # rs) = b"
proof -
  define i where "i = common_length a b"
  have i: "take i a = take i b" "i \<le> length a" "i \<le> length b" using common_length_take[of a b] by (simp_all add: i_def)
  define rel where "rel = replicate (length a - i) ''..'' @ drop i b"
  have parts: "list_all part rel"
    using good_part[OF assms(2)] by (auto simp: rel_def list_all_iff part_def in_set_dropD)
  have split: "filter (\<lambda>x. x \<noteq> []) (split_on (CHR ''/'') (path_of c)) = c" if "list_all good_name c" for c
    using split_path_of[OF good_part[OF that]] that by (auto simp: list_all_iff good_name_def filter_id_conv)
  have "path_of b \<noteq> []" by (simp add: path_of_def)
  then have os: "os_relpath cwd (path_of b) (path_of a) = (if rel = [] then Inr ''.'' else Inr (join_all rel))"
    by (simp add: os_relpath_def abspath_path_of assms split Let_def i_def[symmetric] rel_def)
  have up: "foldl (norm_step True) a (replicate (length a - i) ''..'') = take i a"
    using norm_up[of "take i a" "drop i a"] assms(1) by simp
  have walk: "foldl (norm_step True) a rel = b"
    using up i(1) norm_good[of "drop i b" "take i b"] assms(2) by (simp add: rel_def list_all_iff in_set_dropD)
  show thesis
  proof (cases rel)
    case Nil
    then have "a = b" using walk by simp
    then show thesis using that[of "''.''" "[]"] os Nil by (simp add: norm_step_def part_def)
  next
    case (Cons r rs)
    then show thesis using that[of r rs] os walk parts join_all_parts[of r rs] by simp
  qed
qed

text \<open>The relative path from a directory to a path, resolved in the
  directory, is the path again, for absolute paths of ordinary names.\<close>

theorem relpath_roundtrip:
  assumes "list_all good_name a" "list_all good_name b"
  shows "\<exists>r. os_relpath cwd (path_of b) (path_of a) = Inr r \<and> abspath (path_of a) r = path_of b"
  using relpath_walk[OF assms, of cwd] abspath_walk[OF assms(1)] by metis

theorem relpath_roundtrip_witness:
  "\<exists>r. os_relpath ''/tmp'' ''/usr/lib/x'' ''/usr/bin'' = Inr r \<and> abspath ''/usr/bin'' r = ''/usr/lib/x''"
  using relpath_roundtrip[of "[''usr'', ''bin'']" "[''usr'', ''lib'', ''x'']" "''/tmp''"] by (simp add: good_name_def path_of_def)

section \<open>Programs\<close>








definition demo_tg :: task_gen where
  "demo_tg = \<lparr>is_ns3_program = True, tg_path = ''/ns/scratch'', tg_bld_path = ''/ns/build/scratch'', tg_name = ''third'',
     tg_program = ''/ns/build/scratch/third''\<rparr>"

definition demo_bld :: build_context where
  "demo_bld = \<lparr>all_task_gen = [demo_tg], ns3_module_path = [''/ns/build''], ns3_executable_path = [''/ns/build/bin''],
     valgrind_program = None, python_program = ''python'', pymoddir = ''/ns/py'', pyvizdir = ''/ns/viz''\<rparr>"

definition demo_platform :: platform where
  "demo_platform = \<lparr>sys_platform = ''linux2'', pathsep = '':'', os_environ = [(''PATH'', ''/bin'')], launch_dir = ''/ns''\<rparr>"

lemma demo_found: "find_program demo_platform demo_bld ''scratch/third'' = Inr demo_tg"
  by code_simp


section \<open>Running\<close>

text \<open>A run returns only 0, and only after the process it started, in the
  environment set up for it, has exited with 0; under valgrind the process reported no leak.\<close>

theorem run_argv_zero:
  assumes "run_argv popen signame pl bld opts argv os_env cwd force_no_valgrind = Inr r"
  shows "r = 0 \<and> (\<exists>pre stderr. popen (pre @ argv) (get_proc_env pl bld os_env) cwd = Some (0, stderr)
    \<and> (if opt_valgrind opts \<and> \<not> force_no_valgrind
       then \<exists>v. valgrind_program bld = Some v \<and> pre = valgrind_args v \<and> \<not> list_ex (contains ''== LEAK SUMMARY'') stderr
       else pre = []))"
proof (cases "opt_valgrind opts \<and> \<not> force_no_valgrind")
  case True
  then show ?thesis using assms
    by (auto simp: run_argv_def check_exit_def Let_def split: if_splits option.splits)
next
  case False
  have "\<exists>stderr. r = 0 \<and> popen argv (get_proc_env pl bld os_env) cwd = Some (0, stderr)"
    using assms False by (auto simp: run_argv_def check_exit_def Let_def split: if_splits option.splits)
  then show ?thesis using False by (metis append_Nil)
qed

definition demo_opts :: waf_options where
  "demo_opts = \<lparr>opt_command_template = None, opt_valgrind = False, opt_cwd_launch = None, start_cwd_launch = ''/ns''\<rparr>"

theorem run_argv_zero_witness:
  "run_argv (\<lambda>argv e cwd. Some (0, [])) (\<lambda>n. None) demo_platform demo_bld demo_opts [''x''] None None False = Inr 0 \<and> (0 :: int) = 0"
  using run_argv_zero[of "\<lambda>argv e cwd. Some (0, [])" "\<lambda>n. None" demo_platform demo_bld demo_opts "[''x'']" None None False 0]
  by (simp add: run_argv_def demo_opts_def check_exit_def)

section \<open>The environment\<close>

lemma prepend_path_get:
  "d_get (prepend_path sep var dirs d) v = (if v = var then Some (join_with sep (dirs @ (case d_get d var of None \<Rightarrow> [] | Some old \<Rightarrow> [old])))
     else d_get d v)"
  by (auto simp: prepend_path_def dict_simps split: option.splits)

lemma dict_update_get: "d_get (dict_update d new) v = (case d_get (rev new) v of None \<Rightarrow> d_get d v | Some x \<Rightarrow> Some x)"
proof (induction new arbitrary: d)
  case (Cons kv new)
  obtain k x where "kv = (k, x)" by fastforce
  moreover have "dict_update d (kv # new) = dict_update (d_set (fst kv) (snd kv) d) new" by (simp add: dict_update_def split: prod.splits)
  moreover have "d_get (rev (kv # new)) v = (case d_get (rev new) v of None \<Rightarrow> d_get [kv] v | Some y \<Rightarrow> Some y)"
    by (auto simp: d_get_def map_add_def split: option.splits)
  ultimately show ?case using Cons[of "d_set k x d"] by (auto simp: dict_simps split: option.splits) (auto simp: d_get_def)
qed (simp add: dict_update_def d_get_def)

text \<open>Where libraries have their own variable, the environment of a process puts the
  directories of the modules in front of the library path, those of the bindings and of the visualizer in
  front of the Python path and those of the executables in front of the path, keeps what these had, and has
  every other variable as the caller gave it, or as it was.\<close>

theorem proc_env:
  assumes "pathvar (sys_platform pl) \<noteq> ''PATH''" "base = (\<lambda>v. d_get (case os_env of None \<Rightarrow> os_environ pl | Some e \<Rightarrow> dict_update (os_environ pl) e) v)"
    "front = (\<lambda>v. if v = pathvar (sys_platform pl) then ns3_module_path bld else if v = ''PYTHONPATH'' then [pymoddir bld, pyvizdir bld]
                  else ns3_executable_path bld)"
  shows "d_get (get_proc_env pl bld os_env) v =
    (if v \<in> {pathvar (sys_platform pl), ''PYTHONPATH'', ''PATH''}
     then Some (join_with (pathsep pl) (front v @ (case base v of None \<Rightarrow> [] | Some old \<Rightarrow> [old])))
     else base v)"
proof -
  have "pathvar (sys_platform pl) \<noteq> ''PYTHONPATH''" by (simp add: pathvar_def)
  then show ?thesis using assms by (auto simp: get_proc_env_def Let_def prepend_path_get split: option.splits)
qed

theorem proc_env_witness:
  "d_get (get_proc_env demo_platform demo_bld (Some [(''HOME'', ''/h'')])) ''PATH'' = Some ''/ns/build/bin:/bin''"
  using proc_env[OF _ refl refl, of demo_platform demo_bld "Some [(''HOME'', ''/h'')]" "''PATH''"]
  by (simp add: pathvar_def demo_platform_def demo_bld_def dict_update_get d_get_def dict_update_def d_set_def)


section \<open>Command templates\<close>

definition plain_char :: "char \<Rightarrow> bool" where
  "plain_char c \<longleftrightarrow> \<not> lex_space c \<and> \<not> lex_quote c"

lemma double_Nil [simp]: "double_backslashes [] = []" "double_backslashes (c # s) = (if c = backslash then [backslash, backslash] else [c]) @ double_backslashes s"
  by (simp_all add: double_backslashes_def)

lemma double_append: "double_backslashes (s @ t) = double_backslashes s @ double_backslashes t"
  by (simp add: double_backslashes_def)

lemma double_bare: "list_all bare_char s \<Longrightarrow> double_backslashes s = s"
  by (induction s) (auto simp: bare_char_def)

lemma bare_chars: "\<not> lex_space backslash" "\<not> lex_quote backslash"
  by (simp_all add: lex_space_def lex_quote_def backslash_def)

lemma lex_doubled:
  "list_all plain_char s \<Longrightarrow> lex Word token quoted (double_backslashes s @ t) = lex Word (token @ s) quoted t"
  by (induction s arbitrary: token) (auto simp: plain_char_def bare_chars)

lemma lex_doubled_word:
  assumes "list_all plain_char s" "s \<noteq> []"
  shows "lex Blank '''' False (double_backslashes s @ t) = lex Word s False t"
proof (cases s)
  case (Cons c s')
  then show ?thesis using assms lex_doubled[of s' "[c]" False t] by (auto simp: plain_char_def bare_chars)
qed (use assms in simp)

text \<open>A path, doubled, and words after it.\<close>

definition words_after :: "string list \<Rightarrow> string" where
  "words_after ws = concat (map (\<lambda>w. CHR '' '' # w) ws)"

lemma words_after_simps [simp]: "words_after [] = []" "words_after (w # ws) = CHR '' '' # w @ words_after ws"
  by (simp_all add: words_after_def)

lemma join_words: "join_with '' '' (w # ws) = w @ words_after ws"
proof (induction ws arbitrary: w)
  case (Cons a ws)
  show ?case by (simp add: Cons)
qed simp

lemma words_after_join: "words_after (w # ws) = CHR '' '' # join_with '' '' (w # ws)"
  by (simp only: join_words words_after_simps)

lemma split_doubled:
  assumes "list_all plain_char s" "s \<noteq> []" "list_all (\<lambda>w. w \<noteq> [] \<and> list_all bare_char w) ws"
  shows "shlex_split (double_backslashes s @ words_after ws) = Inr (s # ws)"
proof (cases ws)
  case Nil
  then show ?thesis using lex_doubled_word[OF assms(1,2), of "[]"] assms(2) by (simp add: shlex_split_def words_after_def)
next
  case (Cons w ws')
  have "shlex_split (join_with '' '' (w # ws')) = Inr (w # ws')" by (rule shlex_split_words) (use assms(3) Cons in simp)
  then have "lex Blank '''' False (join_with '' '' (w # ws')) = Inr (w # ws')" by (simp add: shlex_split_def)
  then show ?thesis using lex_doubled_word[OF assms(1,2), of "CHR '' '' # join_with '' '' (w # ws')"] assms(2) Cons
    by (simp add: shlex_split_def join_words lex_space_def)
qed

lemma percent_none: "CHR ''%'' \<notin> set s \<Longrightarrow> percent_format s [] = Inr s"
  by (induction s "[] :: string list" rule: percent_format.induct) auto

lemma template_words: "get_command_template opts ws = get_command_template opts [] @ words_after ws"
proof -
  have "foldl (\<lambda>cmd arg. cmd @ '' '' @ arg) c ws = c @ words_after ws" for c
    by (induction ws arbitrary: c) (auto simp: words_after_def)
  then show ?thesis by (simp add: get_command_template_def)
qed

text \<open>With the default template and at least one argument, the command that is run is
  the path of the program, whatever backslashes it has, and the arguments, each as it was given, for a path
  without blanks and quotes and for arguments without these, without backslashes and without percent signs.\<close>

theorem template_roundtrip:
  assumes "opt_command_template opts = None" "find_program pl bld program = Inr obj"
    "list_all plain_char (tg_program obj)" "tg_program obj \<noteq> []"
    "ws \<noteq> []" "list_all (\<lambda>w. w \<noteq> [] \<and> list_all bare_char w \<and> CHR ''%'' \<notin> set w) ws"
  shows "get_run_program pl bld program (Some (get_command_template opts ws)) = Inr (program, tg_program obj # ws)"
proof -
  have t: "get_command_template opts ws = ''%s'' @ words_after ws"
    using template_words[of opts ws] assms(1) by (simp add: get_command_template_def)
  have np: "CHR ''%'' \<notin> set (words_after ws)" using assms(6) by (auto simp: words_after_def list_all_iff)
  have ne: "words_after ws \<noteq> []" using assms(5) by (cases ws) (simp_all add: words_after_def)
  have bare: "list_all (\<lambda>w. w \<noteq> [] \<and> list_all bare_char w) ws" using assms(6) by (simp add: list_all_iff)
  have "double_backslashes (words_after ws) = words_after ws"
    using bare by (induction ws) (auto simp: words_after_def double_append double_bare backslash_def)
  then show ?thesis
    using split_doubled[OF assms(3,4) bare] assms(2) ne percent_none[OF np]
    by (simp add: get_run_program_def t lift_res_def double_append)
qed

theorem template_roundtrip_witness:
  "get_run_program demo_platform demo_bld ''scratch/third'' (Some (get_command_template demo_opts [''mix/config.txt''])) =
     Inr (''scratch/third'', [''/ns/build/scratch/third'', ''mix/config.txt''])"
  using template_roundtrip[OF _ demo_found, of demo_opts "[''mix/config.txt'']"]
  by (simp add: demo_opts_def demo_tg_def plain_char_def bare_char_def lex_space_def lex_quote_def backslash_def)

end
