(* ===== verification/VizSim.thy ===== *)
theory VizSim
  imports Complex_Main Prelude
begin

text \<open>
  The two threads of the visualizer (\<open>src/visualizer/visualizer/core.py\<close>): the simulation thread
  (\<open>SimulationThread.run\<close>) and the main thread, which runs GTK's handlers: the update timer, the
  update of the model, the play button, the speed and the end. They share a lock, the event \<open>go\<close>, the
  time the simulator may run to, and the messages of the simulator's pauses. Each step of a thread is
  one access to what is shared; \<open>viz_step\<close> interleaves them in any order.

  The handlers of the main thread are a stack, because the timer's handler runs other handlers while
  it waits for the lock. A timer has a number; \<open>timers\<close> are those that GLib still fires, a handler
  of a timer carries its number, and a timer does not fire while its own handler runs. What the simulator does when it runs is open: it may stop anywhere between
  its time and the target, with any messages. The field \<open>shown\<close> is the time of the last view drawn,
  \<open>dialogs\<close> the messages shown so far and \<open>collected\<close> all messages the simulator gave: the code keeps
  the first in a label, the second on the screen and not the third.
\<close>

datatype sim_pc = Loop | WaitGo | ClearGo | CheckQuit | Acquire | RunUntil | Collect | Release | Ended

datatype frame =
    TryLock nat | TakeMessages nat | UpdateView nat "string list" | Unlock nat "string list" | ShowDialog nat "string list"
  | StillPlaying nat | SetGo
  | LockModel | UpdateModel | UnlockModel
  | QuitFlag | QuitGo | Join

datatype thread_id = SimThread | MainThread

record viz =
  pc :: sim_pc
  frames :: "frame list"
  lock :: "thread_id option"
  go :: bool
  target_time :: rat
  quit :: bool
  pause_messages :: "string list"
  now :: rat
  update_models :: nat
  update_timeout_id :: "nat option"
  timers :: "nat list"
  next_timer :: nat
  playing :: bool
  sample_period :: rat
  main_quit :: bool
  shown :: rat
  dialogs :: "string list"
  collected :: "string list"

text \<open>The state when \<open>start\<close> has started the thread: the speed was set to 1, which started the timer.\<close>

definition SAMPLE_PERIOD :: rat where
  "SAMPLE_PERIOD = 1 / 10"

definition SimulationThread :: viz where
  "SimulationThread = \<lparr>pc = Loop, frames = [], lock = None, go = False, target_time = 0, quit = False, pause_messages = [],
     now = 0, update_models = 0, update_timeout_id = Some 0, timers = [0], next_timer = 1, playing = False, sample_period = SAMPLE_PERIOD, main_quit = False,
     shown = 0, dialogs = [], collected = []\<rparr>"

section \<open>The simulation thread\<close>

text \<open>A step of \<open>run\<close>, with the time the simulator comes to and the messages of its pauses; a thread
  that has to wait has no step.\<close>

definition sim_step :: "rat \<Rightarrow> string list \<Rightarrow> viz \<Rightarrow> viz option" where
  "sim_step t msgs s = (case pc s of
       Loop \<Rightarrow> Some (s\<lparr>pc := if quit s then Ended else WaitGo\<rparr>)
     | WaitGo \<Rightarrow> if go s then Some (s\<lparr>pc := ClearGo\<rparr>) else None
     | ClearGo \<Rightarrow> Some (s\<lparr>go := False, pc := CheckQuit\<rparr>)
     | CheckQuit \<Rightarrow> Some (s\<lparr>pc := if quit s then Ended else Acquire\<rparr>)
     | Acquire \<Rightarrow> if lock s = None then Some (s\<lparr>lock := Some SimThread, pc := RunUntil\<rparr>) else None
     | RunUntil \<Rightarrow> Some (s\<lparr>now := t, pc := Collect\<rparr>)
     | Collect \<Rightarrow> Some (s\<lparr>pause_messages := pause_messages s @ msgs, collected := collected s @ msgs,
                          update_models := update_models s + 1, pc := Release\<rparr>)
     | Release \<Rightarrow> Some (s\<lparr>lock := None, pc := Loop\<rparr>)
     | Ended \<Rightarrow> None)"

section \<open>The main thread\<close>

text \<open>A step of the handler on top of the stack: \<open>update_view_timeout\<close> from \<open>TryLock\<close> to \<open>SetGo\<close>,
  \<open>update_model\<close> from \<open>LockModel\<close>, \<open>_quit\<close> from \<open>QuitFlag\<close>.\<close>

definition source_remove :: "viz \<Rightarrow> viz" where
  "source_remove s = (case update_timeout_id s of None \<Rightarrow> s | Some i \<Rightarrow> s\<lparr>timers := removeAll i (timers s)\<rparr>)"

definition start_update_timer :: "viz \<Rightarrow> viz" where
  "start_update_timer s =
     (let s = source_remove s
      in s\<lparr>update_timeout_id := Some (next_timer s), timers := timers s @ [next_timer s], next_timer := next_timer s + 1\<rparr>)"

definition on_play_button_toggled :: "viz \<Rightarrow> viz" where
  "on_play_button_toggled s =
     (if playing s then start_update_timer s else source_remove s)"

fun view_step :: "frame \<Rightarrow> frame list \<Rightarrow> viz \<Rightarrow> viz option" where
  "view_step (TryLock i) fs s = (if lock s = None then Some (s\<lparr>lock := Some MainThread, frames := TakeMessages i # fs\<rparr>) else None)"
| "view_step (TakeMessages i) fs s = Some (s\<lparr>pause_messages := [], frames := UpdateView i (pause_messages s) # fs\<rparr>)"
| "view_step (UpdateView i msgs) fs s =
     Some (s\<lparr>shown := now s, target_time := now s + sample_period s, frames := Unlock i msgs # fs\<rparr>)"
| "view_step (Unlock i msgs) fs s = Some (s\<lparr>lock := None, frames := ShowDialog i msgs # fs\<rparr>)"
| "view_step (ShowDialog i msgs) fs s =
     Some (let s = s\<lparr>frames := StillPlaying i # fs\<rparr>
           in if msgs = [] then s
              else let s = s\<lparr>dialogs := dialogs s @ msgs\<rparr>
                   in if playing s then on_play_button_toggled (s\<lparr>playing := False\<rparr>) else s)"
| "view_step (StillPlaying i) fs s =
     Some (if playing s then s\<lparr>frames := SetGo # fs\<rparr>
           else s\<lparr>update_timeout_id := None, timers := removeAll i (timers s), frames := fs\<rparr>)"
| "view_step SetGo fs s = Some (s\<lparr>go := True, frames := fs\<rparr>)"
| "view_step LockModel fs s = (if lock s = None then Some (s\<lparr>lock := Some MainThread, frames := UpdateModel # fs\<rparr>) else None)"
| "view_step UpdateModel fs s = Some (s\<lparr>frames := UnlockModel # fs\<rparr>)"
| "view_step UnlockModel fs s = Some (s\<lparr>lock := None, frames := fs\<rparr>)"
| "view_step QuitFlag fs s = Some (let s = source_remove s in s\<lparr>update_timeout_id := None, quit := True, frames := QuitGo # fs\<rparr>)"
| "view_step QuitGo fs s = Some (s\<lparr>go := True, frames := Join # fs\<rparr>)"
| "view_step Join fs s = (if pc s = Ended then Some (s\<lparr>main_quit := True, frames := fs\<rparr>) else None)"

definition main_step :: "viz \<Rightarrow> viz option" where
  "main_step s = (case frames s of [] \<Rightarrow> None | f # fs \<Rightarrow> view_step f fs s)"

text \<open>A handler starts in the main loop, or while the timer's handler waits for the lock. The speed
  is between the bounds of its adjustment. A handler that takes the lock for a while (a drag, a tooltip, the
  nodes of interest) has the steps of \<open>update_model\<close>.\<close>

datatype viz_event = Timer nat | IdleModel | PlayToggled | SpeedChanged rat | LockedHandler | QuitEvent

definition takes_events :: "viz \<Rightarrow> bool" where
  "takes_events s \<longleftrightarrow> frames s = [] \<and> \<not> main_quit s \<or> (\<exists>i fs. frames s = TryLock i # fs)"

fun viz_event_step :: "viz_event \<Rightarrow> viz \<Rightarrow> viz option" where
  "viz_event_step (Timer i) s =
     (if i \<in> set (timers s) \<and> TryLock i \<notin> set (frames s) then Some (s\<lparr>frames := TryLock i # frames s\<rparr>) else None)"
| "viz_event_step IdleModel s =
     (if update_models s > 0 then Some (s\<lparr>update_models := update_models s - 1, frames := LockModel # frames s\<rparr>) else None)"
| "viz_event_step PlayToggled s = Some (on_play_button_toggled (s\<lparr>playing := \<not> playing s\<rparr>))"
| "viz_event_step (SpeedChanged v) s =
     (if 1 / 100 \<le> v \<and> v \<le> 10 then Some (start_update_timer (s\<lparr>sample_period := SAMPLE_PERIOD * v\<rparr>)) else None)"
| "viz_event_step LockedHandler s = Some (s\<lparr>frames := LockModel # frames s\<rparr>)"
| "viz_event_step QuitEvent s = Some (s\<lparr>frames := QuitFlag # frames s\<rparr>)"

section \<open>Interleaving\<close>

inductive thread_step :: "viz \<Rightarrow> viz \<Rightarrow> bool" where
  sim: "now s \<le> t \<Longrightarrow> t \<le> max (now s) (target_time s) \<Longrightarrow> sim_step t msgs s = Some s' \<Longrightarrow> thread_step s s'"
| main: "main_step s = Some s' \<Longrightarrow> thread_step s s'"

inductive viz_step :: "viz \<Rightarrow> viz \<Rightarrow> bool" where
  threads: "thread_step s s' \<Longrightarrow> viz_step s s'"
| event: "takes_events s \<Longrightarrow> viz_event_step e s = Some s' \<Longrightarrow> viz_step s s'"

inductive viz_reachable :: "viz \<Rightarrow> bool" where
  start: "viz_reachable SimulationThread"
| step: "viz_reachable s \<Longrightarrow> viz_step s s' \<Longrightarrow> viz_reachable s'"

section \<open>Invariants\<close>

fun frame_locks :: "frame \<Rightarrow> bool" where
  "frame_locks (TakeMessages i) = True"
| "frame_locks (UpdateView i msgs) = True"
| "frame_locks (Unlock i msgs) = True"
| "frame_locks UpdateModel = True"
| "frame_locks UnlockModel = True"
| "frame_locks f = False"

fun is_try_lock :: "frame \<Rightarrow> bool" where
  "is_try_lock (TryLock i) = True"
| "is_try_lock f = False"

definition main_holds :: "viz \<Rightarrow> bool" where
  "main_holds s \<longleftrightarrow> frames s \<noteq> [] \<and> frame_locks (hd (frames s))"

definition sim_holds :: "viz \<Rightarrow> bool" where
  "sim_holds s \<longleftrightarrow> pc s \<in> {RunUntil, Collect, Release}"

definition lock_ok :: "viz \<Rightarrow> bool" where
  "lock_ok s \<longleftrightarrow> lock s = (if sim_holds s then Some SimThread else if main_holds s then Some MainThread else None)
     \<and> \<not> (sim_holds s \<and> main_holds s) \<and> list_all is_try_lock (tl (frames s))"

text \<open>Messages that a handler has taken and not shown yet.\<close>

fun frame_messages :: "frame \<Rightarrow> string list" where
  "frame_messages (UpdateView i msgs) = msgs"
| "frame_messages (Unlock i msgs) = msgs"
| "frame_messages (ShowDialog i msgs) = msgs"
| "frame_messages f = []"

definition messages_ok :: "viz \<Rightarrow> bool" where
  "messages_ok s \<longleftrightarrow> collected s = dialogs s @ concat (map frame_messages (frames s)) @ pause_messages s"

definition time_ok :: "viz \<Rightarrow> bool" where
  "time_ok s \<longleftrightarrow> shown s \<le> now s \<and> now s \<le> target_time s \<and> target_time s \<le> shown s + 1
     \<and> 0 < sample_period s \<and> sample_period s \<le> 1"

text \<open>Once the main thread waits for the simulation thread, that has \<open>quit\<close> to see and does not wait for \<open>go\<close>.\<close>

definition quit_ok :: "viz \<Rightarrow> bool" where
  "quit_ok s \<longleftrightarrow> (QuitGo \<in> set (frames s) \<or> Join \<in> set (frames s) \<longrightarrow> quit s)
     \<and> (Join \<in> set (frames s) \<and> pc s = WaitGo \<longrightarrow> go s)"

section \<open>What is left to do\<close>

fun frame_work :: "frame \<Rightarrow> nat" where
  "frame_work (TryLock i) = 16"
| "frame_work (TakeMessages i) = 15"
| "frame_work (UpdateView i msgs) = 14"
| "frame_work (Unlock i msgs) = 13"
| "frame_work (ShowDialog i msgs) = 12"
| "frame_work (StillPlaying i) = 11"
| "frame_work SetGo = 10"
| "frame_work LockModel = 3"
| "frame_work UpdateModel = 2"
| "frame_work UnlockModel = 1"
| "frame_work QuitFlag = 12"
| "frame_work QuitGo = 11"
| "frame_work Join = 1"

fun sim_work :: "sim_pc \<Rightarrow> bool \<Rightarrow> nat" where
  "sim_work WaitGo g = (if g then 9 else 0)"
| "sim_work ClearGo g = 8"
| "sim_work CheckQuit g = 7 + (if g then 9 else 0)"
| "sim_work Acquire g = 6 + (if g then 9 else 0)"
| "sim_work RunUntil g = 5 + (if g then 9 else 0)"
| "sim_work Collect g = 4 + (if g then 9 else 0)"
| "sim_work Release g = 3 + (if g then 9 else 0)"
| "sim_work Loop g = 2 + (if g then 9 else 0)"
| "sim_work Ended g = 0"

definition viz_work :: "viz \<Rightarrow> nat" where
  "viz_work s = sum_list (map frame_work (frames s)) + sim_work (pc s) (go s)"

section \<open>Proofs\<close>

lemma timers_fields [simp]:
  "pc (source_remove s) = pc s" "frames (source_remove s) = frames s" "lock (source_remove s) = lock s"
  "go (source_remove s) = go s" "target_time (source_remove s) = target_time s" "quit (source_remove s) = quit s"
  "pause_messages (source_remove s) = pause_messages s" "now (source_remove s) = now s" "shown (source_remove s) = shown s"
  "sample_period (source_remove s) = sample_period s" "dialogs (source_remove s) = dialogs s" "collected (source_remove s) = collected s"
  "main_quit (source_remove s) = main_quit s"
  by (simp_all add: source_remove_def split: option.split)

lemma toggled_fields [simp]:
  "pc (on_play_button_toggled s) = pc s" "frames (on_play_button_toggled s) = frames s" "lock (on_play_button_toggled s) = lock s"
  "go (on_play_button_toggled s) = go s" "target_time (on_play_button_toggled s) = target_time s" "quit (on_play_button_toggled s) = quit s"
  "pause_messages (on_play_button_toggled s) = pause_messages s" "now (on_play_button_toggled s) = now s"
  "shown (on_play_button_toggled s) = shown s" "sample_period (on_play_button_toggled s) = sample_period s"
  "dialogs (on_play_button_toggled s) = dialogs s" "collected (on_play_button_toggled s) = collected s"
  "main_quit (on_play_button_toggled s) = main_quit s"
  by (simp_all add: on_play_button_toggled_def start_update_timer_def Let_def)

lemmas viz_inv_defs = lock_ok_def messages_ok_def time_ok_def quit_ok_def main_holds_def sim_holds_def

lemma try_lock_clean: "list_all is_try_lock fs \<Longrightarrow> concat (map frame_messages fs) = [] \<and> QuitGo \<notin> set fs \<and> Join \<notin> set fs"
  by (induction fs rule: induct_list012; fastforce elim: is_try_lock.elims)

lemma sim_step_keeps:
  assumes "sim_step t msgs s = Some s'"
  shows "lock_ok s \<Longrightarrow> lock_ok s'" "messages_ok s \<Longrightarrow> messages_ok s'" "quit_ok s \<Longrightarrow> quit_ok s'"
    "now s \<le> t \<Longrightarrow> t \<le> max (now s) (target_time s) \<Longrightarrow> time_ok s \<Longrightarrow> time_ok s'" "frames s' = frames s"
  using assms unfolding viz_inv_defs sim_step_def
  by (cases "pc s"; simp split: if_splits; fastforce)+

lemma main_step_frame:
  assumes "main_step s = Some s'" "lock_ok s"
  obtains f fs where "frames s = f # fs" "view_step f fs s = Some s'" "list_all is_try_lock fs"
  using assms by (auto simp: main_step_def lock_ok_def split: list.splits)

lemma below_try_lock: "list_all is_try_lock fs \<Longrightarrow> fs \<noteq> [] \<Longrightarrow> \<not> frame_locks (hd fs) \<and> list_all is_try_lock (tl fs)"
  by (cases fs) (auto elim: is_try_lock.elims)

lemma try_lock_tl: "list_all is_try_lock fs \<Longrightarrow> list_all is_try_lock (tl fs)"
  by (cases fs) auto

lemma view_step_keeps:
  assumes "frames s = f # fs" "view_step f fs s = Some s'" "list_all is_try_lock fs"
  shows "lock_ok s \<Longrightarrow> lock_ok s'" "messages_ok s \<Longrightarrow> messages_ok s'" "quit_ok s \<Longrightarrow> quit_ok s'" "time_ok s \<Longrightarrow> time_ok s'"
proof -
  note b = below_try_lock[OF assms(3)] try_lock_tl[OF assms(3)] try_lock_clean[OF assms(3)]
  have p: "pc s' = pc s" using assms(2) by (cases f) (auto simp: Let_def split: if_splits)
  have nl: "\<not> (fs \<noteq> [] \<and> frame_locks (hd fs))" using b(1) by blast
  show "lock_ok s'" if "lock_ok s"
  proof -
    have l: "lock s = (if sim_holds s then Some SimThread else if frame_locks f then Some MainThread else None)"
      "\<not> (sim_holds s \<and> frame_locks f)"
      using that assms(1) by (simp_all add: lock_ok_def main_holds_def)
    have "sim_holds s' = sim_holds s" by (simp add: sim_holds_def p)
    then show ?thesis using l assms nl b(2) unfolding lock_ok_def main_holds_def
      by (cases f; simp add: Let_def split: if_splits; hypsubst_thin?; auto)
  qed
  show "messages_ok s'" if "messages_ok s"
    using that assms b(3) unfolding messages_ok_def by (cases f) (simp_all add: Let_def split: if_splits, (force+)?)
  show "quit_ok s'" if "quit_ok s"
    using that assms b(3) unfolding quit_ok_def by (cases f; simp add: Let_def split: if_splits; fastforce)
  show "time_ok s'" if "time_ok s"
    using that assms unfolding time_ok_def by (cases f; simp add: Let_def split: if_splits; fastforce)
qed

end
