(* ===== verification/VizSimProofs.thy ===== *)
theory VizSimProofs
  imports VizSim
begin

text \<open>The invariants of the two threads of the visualizer, and why its handlers come to an end.\<close>

definition viz_inv :: "viz \<Rightarrow> bool" where
  "viz_inv s \<longleftrightarrow> lock_ok s \<and> messages_ok s \<and> time_ok s \<and> quit_ok s"

lemma event_fields:
  assumes "viz_event_step e s = Some s'"
  shows "pc s' = pc s" "lock s' = lock s" "go s' = go s" "quit s' = quit s" "now s' = now s" "target_time s' = target_time s"
    "shown s' = shown s" "pause_messages s' = pause_messages s" "dialogs s' = dialogs s" "collected s' = collected s"
    "\<exists>new. frames s' = new @ frames s \<and> new \<in> {[], [LockModel], [QuitFlag]} \<union> range (\<lambda>i. [TryLock i])"
    "0 < sample_period s \<and> sample_period s \<le> 1 \<Longrightarrow> 0 < sample_period s' \<and> sample_period s' \<le> 1"
  using assms by (cases e; auto simp: start_update_timer_def Let_def SAMPLE_PERIOD_def split: if_splits)+

lemma event_keeps:
  assumes "viz_event_step e s = Some s'" "takes_events s" "viz_inv s"
  shows "viz_inv s'"
proof -
  note F = event_fields[OF assms(1)]
  obtain new where n: "frames s' = new @ frames s" "new \<in> {[], [LockModel], [QuitFlag]} \<union> range (\<lambda>i. [TryLock i])" using F(11) by blast
  have t: "list_all is_try_lock (frames s)"
    using assms(2,3) by (auto simp: takes_events_def viz_inv_def lock_ok_def)
  have h: "\<not> main_holds s" using t by (cases "frames s") (auto simp: main_holds_def elim: is_try_lock.elims)
  have "\<not> main_holds s'" "list_all is_try_lock (tl (frames s'))"
    using n t h try_lock_tl[OF t] by (auto simp: main_holds_def)
  then have "lock_ok s'" using assms(3) F(1,2) h by (simp add: viz_inv_def lock_ok_def sim_holds_def)
  moreover have "messages_ok s'" using assms(3) F n by (auto simp: viz_inv_def messages_ok_def)
  moreover have "time_ok s'" using assms(3) F by (simp add: viz_inv_def time_ok_def)
  moreover have "quit_ok s'" using assms(3) F n by (auto simp: viz_inv_def quit_ok_def)
  ultimately show ?thesis by (simp add: viz_inv_def)
qed

lemma thread_keeps:
  assumes "thread_step s s'" "viz_inv s"
  shows "viz_inv s'"
  using assms(1)
proof cases
  case (sim t msgs)
  then show ?thesis using sim_step_keeps(1-4)[OF sim(3)] assms(2) by (simp add: viz_inv_def)
next
  case main
  have "lock_ok s" using assms(2) by (simp add: viz_inv_def)
  from main_step_frame[OF main this] obtain f fs where "frames s = f # fs" "view_step f fs s = Some s'" "list_all is_try_lock fs" by blast
  from view_step_keeps[OF this] assms(2) show ?thesis by (simp add: viz_inv_def)
qed

lemma reachable_viz_inv: "viz_reachable s \<Longrightarrow> viz_inv s"
proof (induction rule: viz_reachable.induct)
  case start
  show ?case by (simp add: viz_inv_def viz_inv_defs SimulationThread_def SAMPLE_PERIOD_def)
next
  case (step s s')
  from step.hyps(2) step.IH show ?case
    by cases (blast intro: thread_keeps event_keeps)+
qed

section \<open>The end of the handlers\<close>

lemma sim_work_go: "sim_work p True \<le> sim_work p g + 9"
  by (cases p; cases g) auto

lemma view_step_work:
  assumes "frames s = f # fs" "view_step f fs s = Some s'"
  shows "viz_work s' < viz_work s"
  using assms sim_work_go[of "pc s" "go s"] by (cases f) (auto simp: viz_work_def Let_def split: if_splits)

lemma sim_step_work:
  assumes "sim_step t msgs s = Some s'"
  shows "viz_work s' < viz_work s"
  using assms by (cases "pc s") (auto simp: sim_step_def viz_work_def split: if_splits)

lemma thread_step_work: "thread_step s s' \<Longrightarrow> viz_work s' < viz_work s"
  by (auto elim!: thread_step.cases intro: sim_step_work simp: main_step_def view_step_work split: list.splits)

text \<open>As long as a handler runs, some thread has a step.\<close>

lemma sim_can_step:
  assumes "viz_inv s" "pc s \<noteq> Ended" "pc s = WaitGo \<Longrightarrow> go s" "\<not> main_holds s"
  shows "\<exists>s'. thread_step s s'"
proof -
  have "now s \<le> now s" "now s \<le> max (now s) (target_time s)" by simp_all
  moreover have "pc s = Acquire \<Longrightarrow> lock s = None" using assms by (simp add: viz_inv_def lock_ok_def sim_holds_def)
  then have "\<exists>s'. sim_step (now s) [] s = Some s'" using assms(2,3) by (cases "pc s") (simp_all add: sim_step_def)
  ultimately show ?thesis using thread_step.sim by blast
qed

lemma handler_can_step:
  assumes "viz_inv s" "frames s \<noteq> []"
  shows "\<exists>s'. thread_step s s'"
proof -
  obtain f fs where f: "frames s = f # fs" using assms(2) by (cases "frames s") auto
  have L: "lock s = (if sim_holds s then Some SimThread else if frame_locks f then Some MainThread else None)"
    using assms(1) f by (simp add: viz_inv_def lock_ok_def main_holds_def)
  show ?thesis
  proof (cases "view_step f fs s")
    case (Some s')
    then show ?thesis using f thread_step.main[of s s'] by (auto simp: main_step_def)
  next
    case None
    then have blocked: "(\<exists>i. f = TryLock i) \<and> lock s \<noteq> None \<or> f = LockModel \<and> lock s \<noteq> None \<or> f = Join \<and> pc s \<noteq> Ended"
      by (cases f) (auto simp: Let_def split: if_splits)
    then have "\<not> main_holds s" using f by (auto simp: main_holds_def)
    moreover have "pc s \<noteq> Ended" "pc s = WaitGo \<longrightarrow> go s"
      using blocked L f assms(1) by (auto simp: sim_holds_def viz_inv_def quit_ok_def split: if_splits)
    ultimately show ?thesis using sim_can_step[OF assms(1)] by blast
  qed
qed

lemma thread_steps_bounded: "(thread_step ^^ n) s s' \<Longrightarrow> n + viz_work s' \<le> viz_work s"
proof (induction n arbitrary: s')
  case (Suc n)
  then obtain u where "(thread_step ^^ n) s u" "thread_step u s'" by auto
  then show ?case using Suc.IH[of u] thread_step_work[of u s'] by simp
qed simp

lemma thread_steps_inv: "(thread_step ^^ n) s s' \<Longrightarrow> viz_inv s \<Longrightarrow> viz_inv s'"
  by (induction n arbitrary: s') (auto intro: thread_keeps)

end
