(* ===== verification/VizTopo.thy ===== *)
theory VizTopo
  imports Complex_Main PyStr PyState
begin

text \<open>
  The objects of the visualizer and the scan of the topology (\<open>base.py\<close> and \<open>core.py\<close> of
  \<open>src/visualizer/visualizer\<close>). The simulation is a parameter: its nodes with their positions and
  devices, and for a channel the nodes of its devices. So is the layout of the graph, which is
  made by a library from the calls that build the graph. The links of an object are those it is an end
  of, in the order in which they were made. What a node draws beside its circle (icon, label) is left
  out.
\<close>

section \<open>Kinds of devices\<close>

record net_traits =
  is_wireless :: "bool option"
  is_virtual :: bool

definition NetDeviceTraits :: "bool option \<Rightarrow> bool \<Rightarrow> net_traits res" where
  "NetDeviceTraits wireless virtual =
     (if virtual \<or> wireless \<noteq> None then Inr \<lparr>is_wireless = wireless, is_virtual = virtual\<rparr> else Inl AssertionError)"

definition netdevice_traits :: "(string, net_traits) dict" where
  "netdevice_traits =
    [(''PointToPointNetDevice'', \<lparr>is_wireless = Some False, is_virtual = False\<rparr>),
     (''CsmaNetDevice'', \<lparr>is_wireless = Some False, is_virtual = False\<rparr>),
     (''WifiNetDevice'', \<lparr>is_wireless = Some True, is_virtual = False\<rparr>),
     (''BridgeNetDevice'', \<lparr>is_wireless = None, is_virtual = True\<rparr>),
     (''LoopbackNetDevice'', \<lparr>is_wireless = Some False, is_virtual = True\<rparr>),
     (''MeshPointDevice'', \<lparr>is_wireless = None, is_virtual = True\<rparr>),
     (''SubscriberStationNetDevice'', \<lparr>is_wireless = Some True, is_virtual = False\<rparr>),
     (''BaseStationNetDevice'', \<lparr>is_wireless = Some True, is_virtual = False\<rparr>),
     (''LteUeNetDevice'', \<lparr>is_wireless = Some True, is_virtual = False\<rparr>),
     (''LteEnbNetDevice'', \<lparr>is_wireless = Some True, is_virtual = False\<rparr>)]"

text \<open>A kind that is not in the table is entered there as wireless.\<close>

definition lookup_netdevice_traits :: "string \<Rightarrow> (string, net_traits) dict \<Rightarrow> net_traits \<times> (string, net_traits) dict" where
  "lookup_netdevice_traits class_type tbl =
     (case d_get tbl class_type of
        Some t \<Rightarrow> (t, tbl)
      | None \<Rightarrow> let t = \<lparr>is_wireless = Some True, is_virtual = False\<rparr> in (t, d_set class_type t tbl))"

section \<open>The simulation\<close>

record ns_device =
  dv_type :: string
  dv_channel :: "int option"

record ns_node =
  nd_mobility :: "(rat \<times> rat) option"
  nd_devices :: "ns_device list"

record network =
  net_nodes :: "ns_node list"
  net_channel :: "int \<Rightarrow> nat list"

definition has_mobility :: "network \<Rightarrow> nat \<Rightarrow> bool" where
  "has_mobility net i \<longleftrightarrow> i < length (net_nodes net) \<and> nd_mobility (net_nodes net ! i) \<noteq> None"

section \<open>Objects\<close>

definition PIXELS_PER_METER :: rat where
  "PIXELS_PER_METER = 3"

definition transform_distance_simulation_to_canvas :: "rat \<Rightarrow> rat" where
  "transform_distance_simulation_to_canvas d = d * PIXELS_PER_METER"

definition transform_point_simulation_to_canvas :: "rat \<times> rat \<Rightarrow> rat \<times> rat" where
  "transform_point_simulation_to_canvas = (\<lambda>(x, y). (x * PIXELS_PER_METER, y * PIXELS_PER_METER))"

definition transform_distance_canvas_to_simulation :: "rat \<Rightarrow> rat" where
  "transform_distance_canvas_to_simulation d = d / PIXELS_PER_METER"

datatype link_end = NodeEnd nat | ChannelEnd int

record node_view =
  nv_pos :: "rat \<times> rat"
  nv_color :: int

record wired_link =
  wl_node :: nat
  wl_end :: link_end
  wl_data :: "((rat \<times> rat) \<times> (rat \<times> rat)) option"

datatype graph_call = AddNode string | AddEdge string string

record topology =
  tp_nodes :: "(nat, node_view) dict"
  tp_channels :: "(int, rat \<times> rat) dict"
  tp_links :: "wired_link list"
  tp_traits :: "(string, net_traits) dict"
  tp_graph :: "graph_call list"

definition NodeView :: node_view where
  "NodeView = \<lparr>nv_pos = (0, 0), nv_color = 0x808080ff\<rparr>"

fun get_position_of :: "topology \<Rightarrow> link_end \<Rightarrow> rat \<times> rat" where
  "get_position_of s (NodeEnd i) = (case d_get (tp_nodes s) i of None \<Rightarrow> (0, 0) | Some v \<Rightarrow> nv_pos v)"
| "get_position_of s (ChannelEnd c) = (case d_get (tp_channels s) c of None \<Rightarrow> (0, 0) | Some p \<Rightarrow> p)"

declare get_position_of.simps [simp del]

text \<open>The line of a link from one end to the other.\<close>

definition update_points :: "topology \<Rightarrow> wired_link \<Rightarrow> wired_link" where
  "update_points s l = l\<lparr>wl_data := Some (get_position_of s (NodeEnd (wl_node l)), get_position_of s (wl_end l))\<rparr>"

definition touches :: "link_end \<Rightarrow> wired_link \<Rightarrow> bool" where
  "touches e l \<longleftrightarrow> e = NodeEnd (wl_node l) \<or> e = wl_end l"

fun move_object :: "link_end \<Rightarrow> rat \<times> rat \<Rightarrow> topology \<Rightarrow> topology" where
  "move_object (NodeEnd i) p s = (case d_get (tp_nodes s) i of None \<Rightarrow> s
     | Some v \<Rightarrow> s\<lparr>tp_nodes := d_set i (v\<lparr>nv_pos := p\<rparr>) (tp_nodes s)\<rparr>)"
| "move_object (ChannelEnd c) p s = s\<lparr>tp_channels := d_set c p (tp_channels s)\<rparr>"

definition set_position :: "link_end \<Rightarrow> rat \<times> rat \<Rightarrow> topology \<Rightarrow> topology" where
  "set_position e p s =
     (let s = move_object e p s in s\<lparr>tp_links := map (\<lambda>l. if touches e l then update_points s l else l) (tp_links s)\<rparr>)"

definition get_node :: "nat \<Rightarrow> topology \<Rightarrow> topology" where
  "get_node i s = (if d_has (tp_nodes s) i then s else s\<lparr>tp_nodes := d_set i NodeView (tp_nodes s)\<rparr>)"

definition get_channel :: "int \<Rightarrow> topology \<Rightarrow> topology" where
  "get_channel c s = (if d_has (tp_channels s) c then s else s\<lparr>tp_channels := d_set c (0, 0) (tp_channels s)\<rparr>)"

definition create_link :: "nat \<Rightarrow> link_end \<Rightarrow> topology \<Rightarrow> topology" where
  "create_link i e s = s\<lparr>tp_links := tp_links s @ [\<lparr>wl_node = i, wl_end = e, wl_data = None\<rparr>]\<rparr>"

text \<open>A colour given by its name is looked up by GTK, with 16 bits for each part.\<close>

definition color_value :: "nat \<times> nat \<times> nat \<Rightarrow> int" where
  "color_value = (\<lambda>(r, g, b). int (r div 256) * 2 ^ 24 + int (g div 256) * 2 ^ 16 + int (b div 256) * 2 ^ 8 + 0xff)"

definition set_color :: "nat \<Rightarrow> nat \<times> nat \<times> nat \<Rightarrow> topology \<Rightarrow> topology" where
  "set_color i rgb s = (case d_get (tp_nodes s) i of None \<Rightarrow> s
     | Some v \<Rightarrow> s\<lparr>tp_nodes := d_set i (v\<lparr>nv_color := color_value rgb\<rparr>) (tp_nodes s)\<rparr>)"

section \<open>The scan\<close>

definition REPRESENT_CHANNELS_AS_NODES :: bool where
  "REPRESENT_CHANNELS_AS_NODES = True"

definition node_name :: "nat \<Rightarrow> string" where
  "node_name i = ''Node '' @ show_int (int i)"

definition channel_name :: "int \<Rightarrow> string" where
  "channel_name c = ''Channel '' @ show_int c"

definition graph_add :: "graph_call \<Rightarrow> topology \<Rightarrow> topology" where
  "graph_add g s = s\<lparr>tp_graph := tp_graph s @ [g]\<rparr>"

definition link_other :: "network \<Rightarrow> nat \<Rightarrow> nat \<Rightarrow> topology \<Rightarrow> topology" where
  "link_other net i j s =
     (let s = get_node j s
      in if j \<noteq> i then
           create_link i (NodeEnd j)
             (if \<not> has_mobility net i \<and> \<not> has_mobility net j then graph_add (AddEdge (node_name i) (node_name j)) s else s)
         else s)"

definition link_channel :: "network \<Rightarrow> nat \<Rightarrow> int \<Rightarrow> topology \<Rightarrow> topology" where
  "link_channel net i c s =
     create_link i (ChannelEnd c)
       (get_channel c (if \<not> has_mobility net i then graph_add (AddEdge (node_name i) (channel_name c)) s else s))"

definition scan_channel :: "network \<Rightarrow> nat \<Rightarrow> int \<Rightarrow> topology \<Rightarrow> topology" where
  "scan_channel net i c s =
     (if length (net_channel net c) > 2 \<and> REPRESENT_CHANNELS_AS_NODES then link_channel net i c s
      else fold (link_other net i) (net_channel net c) s)"

definition scan_device :: "network \<Rightarrow> nat \<Rightarrow> ns_device \<Rightarrow> (topology, unit) act" where
  "scan_device net i dev =
     act_bind (act_get (\<lambda>s. lookup_netdevice_traits (dv_type dev) (tp_traits s))) (\<lambda>(traits, tbl).
     act_then (act_do (\<lambda>s. s\<lparr>tp_traits := tbl\<rparr>))
       (if is_wireless traits = Some True then act_ret ()
        else if is_virtual traits then act_ret ()
        else case dv_channel dev of
            None \<Rightarrow> act_raise AttributeError
          | Some c \<Rightarrow> act_do (scan_channel net i c)))"

definition scan_node :: "(string \<Rightarrow> nat \<times> nat \<times> nat) \<Rightarrow> network \<Rightarrow> nat \<Rightarrow> (topology, unit) act" where
  "scan_node color_parse net i =
     (let node = net_nodes net ! i
      in act_then (act_do (get_node i))
        (act_then (act_do (case nd_mobility node of
             Some pos \<Rightarrow> \<lambda>s. set_position (NodeEnd i) (transform_point_simulation_to_canvas pos) (set_color i (color_parse ''red'') s)
           | None \<Rightarrow> graph_add (AddNode (node_name i))))
         (act_each (scan_device net i) (nd_devices node))))"

text \<open>The object that a name of the graph stands for; a name of another kind leaves the last one.\<close>

definition named_object :: "string \<Rightarrow> link_end option \<Rightarrow> topology \<Rightarrow> link_end res" where
  "named_object name obj s =
     (case split_on (CHR '' '') name of
        [node_type, node_id] \<Rightarrow>
          if node_type = ''Node'' then
            rbind (read_int node_id) (\<lambda>k. if k \<ge> 0 \<and> d_has (tp_nodes s) (nat k) then Inr (NodeEnd (nat k)) else Inl KeyError)
          else if node_type = ''Channel'' then
            rbind (read_int node_id) (\<lambda>k. if d_has (tp_channels s) k then Inr (ChannelEnd k) else Inl KeyError)
          else (case obj of None \<Rightarrow> Inl UnboundLocalError | Some e \<Rightarrow> Inr e)
      | _ \<Rightarrow> Inl ValueError)"

definition place_object :: "string \<times> rat \<times> rat \<Rightarrow> link_end option \<Rightarrow> (topology, link_end option) act" where
  "place_object = (\<lambda>(name, pos) obj.
     act_bind (act_get (named_object name obj)) (\<lambda>r. act_bind (act_lift r) (\<lambda>e.
     act_then (act_do (set_position e pos)) (act_ret (Some e)))))"

definition scan_topology ::
  "(string \<Rightarrow> nat \<times> nat \<times> nat) \<Rightarrow> (graph_call list \<Rightarrow> (string \<times> rat \<times> rat) list) \<Rightarrow> network \<Rightarrow> (topology, unit) act" where
  "scan_topology color_parse layout net =
     act_then (act_each (scan_node color_parse net) [0..<length (net_nodes net)])
    (act_bind (act_get (\<lambda>s. layout (tp_graph s))) (\<lambda>placed.
     act_then (act_fold place_object placed None) (act_ret ())))"

section \<open>Moving nodes\<close>

text \<open>Before a view is drawn, the nodes with mobility are put where the simulation has them.\<close>

definition update_node_position :: "network \<Rightarrow> nat \<Rightarrow> topology \<Rightarrow> topology" where
  "update_node_position net i s =
     (case if has_mobility net i then nd_mobility (net_nodes net ! i) else None of
        Some pos \<Rightarrow> set_position (NodeEnd i) (transform_point_simulation_to_canvas pos) s
      | None \<Rightarrow> s)"

definition update_node_positions :: "(nat list \<Rightarrow> nat list) \<Rightarrow> network \<Rightarrow> topology \<Rightarrow> topology" where
  "update_node_positions ord net s = fold (update_node_position net) (ord (d_keys (tp_nodes s))) s"

end
