(* ===== verification/VizView.thy ===== *)
theory VizView
  imports VizTopo PyFormat
begin

text \<open>
  The arrows of the visualizer (\<open>core.py\<close>): the samples of the last periods, the averages per pair of
  nodes and the pools of arrows with their labels that show them. The samples come from the simulator;
  logarithm, angle and the clipping of a line at the edges of the window are parameters. An arrow and
  its label are one record. A list taken from an attribute is the attribute's own list, so what is popped
  from it is gone from the attribute, also when an exception comes later.
\<close>

record view_env =
  env_log :: "rat \<Rightarrow> rat"
  env_atan2 :: "rat \<Rightarrow> rat \<Rightarrow> rat"
  env_pi_over_2 :: rat
  env_clip :: "(rat \<times> rat) \<Rightarrow> (rat \<times> rat) \<Rightarrow> (rat \<times> rat) \<times> (rat \<times> rat)"
  env_edge_y :: rat
  env_node_size :: rat
  env_smoothing :: rat
  env_period :: rat

datatype visibility = Visible | Hidden | VisibleAboveThreshold

datatype matrix_op = Translate "rat \<times> rat" | Rotate rat | Scale rat rat

record arrow =
  ar_vis :: visibility
  ar_width :: rat
  ar_points :: "((rat \<times> rat) \<times> (rat \<times> rat)) option"
  lb_vis :: visibility
  lb_font :: string
  lb_text :: string
  lb_south :: bool
  lb_pos :: "rat \<times> rat"
  lb_matrix :: "matrix_op list"

definition new_arrow :: arrow where
  "new_arrow = \<lparr>ar_vis = Visible, ar_width = 2, ar_points = None, lb_vis = Visible, lb_font = '''', lb_text = '''',
     lb_south = False, lb_pos = (0, 0), lb_matrix = []\<rparr>"

definition hide_arrow :: "arrow \<Rightarrow> arrow" where
  "hide_arrow a = a\<lparr>ar_vis := Hidden, lb_vis := Hidden\<rparr>"

record viewer =
  vw_topo :: topology
  vw_last_tx :: "(nat \<times> nat \<times> int) list list"
  vw_last_drops :: "(nat \<times> int) list list"
  vw_tx_arrows :: "arrow list"
  vw_drop_arrows :: "arrow list"

definition BITRATE_FONT_SIZE :: rat where
  "BITRATE_FONT_SIZE = 10"

definition int_of_float :: "rat \<Rightarrow> int" where
  "int_of_float r = (if r \<ge> 0 then \<lfloor>r\<rfloor> else \<lceil>r\<rceil>)"

section \<open>The samples of the last periods\<close>

text \<open>The loop that takes old samples away; popping from an empty list raises.\<close>

fun pop_old :: "int \<Rightarrow> 'a list \<Rightarrow> 'a list res" where
  "pop_old factor xs = (if int (length xs) > factor then case xs of [] \<Rightarrow> Inl IndexError | x # xs' \<Rightarrow> pop_old factor xs' else Inr xs)"

declare pop_old.simps [simp del]

definition do_simulation_periodic_update ::
  "view_env \<Rightarrow> (nat \<times> nat \<times> int) list \<Rightarrow> (nat \<times> int) list \<Rightarrow> (viewer, unit) act" where
  "do_simulation_periodic_update env transmissions drops =
     (let smooth_factor = int_of_float (env_smoothing env * 10)
      in act_bind (act_get (\<lambda>s. pop_old smooth_factor (vw_last_tx s @ [transmissions]))) (\<lambda>r. act_bind (act_lift r) (\<lambda>tx.
         act_then (act_do (\<lambda>s. s\<lparr>vw_last_tx := tx\<rparr>))
        (act_bind (act_get (\<lambda>s. pop_old smooth_factor (vw_last_drops s @ [drops]))) (\<lambda>r. act_bind (act_lift r) (\<lambda>dr.
         act_do (\<lambda>s. s\<lparr>vw_last_drops := dr\<rparr>)))))))"

section \<open>Averages\<close>

definition add_sample :: "'k \<Rightarrow> int \<Rightarrow> ('k, int \<times> int) dict \<Rightarrow> ('k, int \<times> int) dict" where
  "add_sample key bytes d =
     (let (rx_bytes, cnt) = (case d_get d key of None \<Rightarrow> (0, 0) | Some v \<Rightarrow> v) in d_set key (rx_bytes + bytes, cnt + 1) d)"

definition transmissions_average :: "(nat \<times> nat \<times> int) list list \<Rightarrow> (nat \<times> nat, int \<times> int) dict" where
  "transmissions_average sets = fold (fold (\<lambda>(t, r, b). add_sample (t, r) b)) sets []"

definition drops_average :: "(nat \<times> int) list list \<Rightarrow> (nat, int \<times> int) dict" where
  "drops_average sets = fold (fold (\<lambda>(t, b). add_sample t b)) sets []"

section \<open>Arrows\<close>

text \<open>The next arrow: the last of the old ones, or a new one.\<close>

definition next_tx_arrow :: "(viewer, arrow) act" where
  "next_tx_arrow =
     act_bind (act_get vw_tx_arrows) (\<lambda>old.
       if old = [] then act_ret new_arrow
       else act_then (act_do (\<lambda>s. s\<lparr>vw_tx_arrows := butlast old\<rparr>)) (act_ret (last old)))"

definition next_drop_arrow :: "(viewer, arrow) act" where
  "next_drop_arrow =
     act_bind (act_get vw_drop_arrows) (\<lambda>old.
       if old = [] then act_ret new_arrow
       else act_then (act_do (\<lambda>s. s\<lparr>vw_drop_arrows := butlast old\<rparr>)) (act_ret (last old)))"

text \<open>The logarithm of a number that is not positive raises \<open>ValueError\<close>; the average of samples of
  no bytes is such a number.\<close>

definition line_width :: "view_env \<Rightarrow> int \<Rightarrow> int \<Rightarrow> rat res" where
  "line_width env bytes cnt =
     (let k = env_node_size env / 5; rate = of_int bytes / of_int cnt / env_period env
      in if rate \<le> 0 then Inl ValueError else Inr (max (1 / 10) (env_log env rate * k)))"

definition kbit_rate :: "view_env \<Rightarrow> int \<Rightarrow> int \<Rightarrow> string" where
  "kbit_rate env bytes cnt = fmt_f 2 (of_int (bytes * 8) / 1000 / of_int cnt / env_period env)"

definition font_size :: "view_env \<Rightarrow> int" where
  "font_size env = int_of_float (1 + BITRATE_FONT_SIZE * (env_node_size env / 5))"

definition label_over_line :: "view_env \<Rightarrow> rat \<times> rat \<Rightarrow> rat \<times> rat \<Rightarrow> rat \<times> rat" where
  "label_over_line env pos1 pos2 =
     (let ((x1, y1), (x2, y2)) = env_clip env pos1 pos2 in ((x1 + x2) / 2, (y1 + y2) / 2))"

definition arrow_right :: string where
  "arrow_right = [CHR 0xE2, CHR 0x86, CHR 0x92]"

definition arrow_left :: string where
  "arrow_left = [CHR 0xE2, CHR 0x86, CHR 0x90]"

definition transmission_arrow :: "view_env \<Rightarrow> rat \<times> rat \<Rightarrow> rat \<times> rat \<Rightarrow> int \<Rightarrow> int \<Rightarrow> rat \<Rightarrow> arrow \<Rightarrow> arrow" where
  "transmission_arrow env pos1 pos2 bytes cnt width a =
     (let angle = env_atan2 env (snd pos2 - snd pos1) (fst pos2 - fst pos1);
          kbps = kbit_rate env bytes cnt;
          forward = - env_pi_over_2 env \<le> angle \<and> angle \<le> env_pi_over_2 env;
          place = [Translate (label_over_line env pos1 pos2), Rotate angle]
      in a\<lparr>ar_vis := Visible, ar_width := width, ar_points := Some (pos1, pos2), lb_vis := VisibleAboveThreshold,
           lb_font := ''Sans Serif '' @ fmt_f 6 (of_int (font_size env)),
           lb_text := (if forward then kbps @ '' kbit/s '' @ arrow_right else arrow_left @ '' '' @ kbps @ '' kbit/s''),
           lb_south := forward, lb_pos := (0, if forward then - width / 2 else width / 2),
           lb_matrix := (if forward then place else place @ [Scale (-1) (-1)])\<rparr>)"

definition show_transmission ::
  "view_env \<Rightarrow> (nat \<times> nat) \<times> (int \<times> int) \<Rightarrow> arrow list \<Rightarrow> (viewer, arrow list) act" where
  "show_transmission env = (\<lambda>((transmitter_id, receiver_id), (bytes, cnt)) new_arrows.
     act_then (act_do (\<lambda>s. s\<lparr>vw_topo := get_node receiver_id (get_node transmitter_id (vw_topo s))\<rparr>))
    (act_bind next_tx_arrow (\<lambda>a.
     act_bind (act_lift (line_width env bytes cnt)) (\<lambda>width.
     act_bind (act_get (\<lambda>s. (get_position_of (vw_topo s) (NodeEnd transmitter_id), get_position_of (vw_topo s) (NodeEnd receiver_id))))
      (\<lambda>(pos1, pos2). act_ret (new_arrows @ [transmission_arrow env pos1 pos2 bytes cnt width a]))))))"

definition dict_items :: "('k list \<Rightarrow> 'k list) \<Rightarrow> ('k, 'v) dict \<Rightarrow> ('k \<times> 'v) list" where
  "dict_items ord d = map (\<lambda>k. (k, the (d_get d k))) (ord (d_keys d))"

definition update_transmissions_view :: "view_env \<Rightarrow> ((nat \<times> nat) list \<Rightarrow> (nat \<times> nat) list) \<Rightarrow> (viewer, unit) act" where
  "update_transmissions_view env ord =
     act_bind (act_get (\<lambda>s. transmissions_average (vw_last_tx s))) (\<lambda>avg.
     act_then (act_do (\<lambda>s. s\<lparr>vw_tx_arrows := map hide_arrow (vw_tx_arrows s)\<rparr>))
    (act_bind (act_fold (show_transmission env) (dict_items ord avg) []) (\<lambda>new_arrows.
     act_do (\<lambda>s. s\<lparr>vw_tx_arrows := new_arrows @ vw_tx_arrows s\<rparr>))))"

definition drop_arrow :: "view_env \<Rightarrow> rat \<times> rat \<Rightarrow> int \<Rightarrow> int \<Rightarrow> rat \<Rightarrow> arrow \<Rightarrow> arrow" where
  "drop_arrow env pos1 bytes cnt width a =
     (let pos2 = (fst pos1, env_edge_y env)
      in a\<lparr>ar_vis := Visible, ar_width := width, ar_points := Some (pos1, pos2), lb_vis := VisibleAboveThreshold,
           lb_font := ''Sans Serif '' @ show_int (font_size env),
           lb_text := kbit_rate env bytes cnt @ '' kbit/s'',
           lb_pos := ((fst pos1 + fst pos2) / 2, (snd pos1 + snd pos2) / 2)\<rparr>)"

definition show_drop :: "view_env \<Rightarrow> nat \<times> (int \<times> int) \<Rightarrow> arrow list \<Rightarrow> (viewer, arrow list) act" where
  "show_drop env = (\<lambda>(transmitter_id, (bytes, cnt)) new_arrows.
     act_then (act_do (\<lambda>s. s\<lparr>vw_topo := get_node transmitter_id (vw_topo s)\<rparr>))
    (act_bind next_drop_arrow (\<lambda>a.
     act_bind (act_lift (line_width env bytes cnt)) (\<lambda>width.
     act_bind (act_get (\<lambda>s. get_position_of (vw_topo s) (NodeEnd transmitter_id)))
      (\<lambda>pos1. act_ret (new_arrows @ [drop_arrow env pos1 bytes cnt width a]))))))"

definition update_drops_view :: "view_env \<Rightarrow> (nat list \<Rightarrow> nat list) \<Rightarrow> (viewer, unit) act" where
  "update_drops_view env ord =
     act_bind (act_get (\<lambda>s. drops_average (vw_last_drops s))) (\<lambda>avg.
     act_then (act_do (\<lambda>s. s\<lparr>vw_drop_arrows := map hide_arrow (vw_drop_arrows s)\<rparr>))
    (act_bind (act_fold (show_drop env) (dict_items ord avg) []) (\<lambda>new_arrows.
     act_do (\<lambda>s. s\<lparr>vw_drop_arrows := new_arrows @ vw_drop_arrows s\<rparr>))))"

section \<open>The view as a whole\<close>

text \<open>What \<open>update_view\<close> draws; the label of the time, the information windows and the plugins are left out.\<close>

definition update_view ::
  "view_env \<Rightarrow> network \<Rightarrow> (nat list \<Rightarrow> nat list) \<Rightarrow> ((nat \<times> nat) list \<Rightarrow> (nat \<times> nat) list) \<Rightarrow> (nat list \<Rightarrow> nat list)
     \<Rightarrow> (viewer, unit) act" where
  "update_view env net ord ord_tx ord_drop =
     act_then (act_do (\<lambda>s. s\<lparr>vw_topo := update_node_positions ord net (vw_topo s)\<rparr>))
    (act_then (update_transmissions_view env ord_tx) (update_drops_view env ord_drop))"

end
