(* ===== verification/VizTopoProofs.thy ===== *)
theory VizTopoProofs
  imports VizTopo
begin

text \<open>What the scan of the topology makes: the links, the positions and the lines drawn.\<close>

section \<open>Names\<close>

lemma split_name: "CHR '' '' \<notin> set t \<Longrightarrow> split_on (CHR '' '') (t @ '' '' @ show_int i) = [t, show_int i]"
  using split_on_append_sep[of "CHR '' ''" t "show_int i"] split_on_no_sep[of "CHR '' ''" "show_int i"] show_int_chars by force

lemma split_names:
  "split_on (CHR '' '') (node_name i) = [''Node'', show_int (int i)]" "split_on (CHR '' '') (channel_name c) = [''Channel'', show_int c]"
  using split_name[of "''Node''" "int i"] split_name[of "''Channel''" c] by (simp_all add: node_name_def channel_name_def)

text \<open>The object a name stands for, if it is there.\<close>

fun end_name :: "link_end \<Rightarrow> string" where
  "end_name (NodeEnd i) = node_name i"
| "end_name (ChannelEnd c) = channel_name c"

fun has_end :: "topology \<Rightarrow> link_end \<Rightarrow> bool" where
  "has_end s (NodeEnd i) = d_has (tp_nodes s) i"
| "has_end s (ChannelEnd c) = d_has (tp_channels s) c"

lemma named_object_end: "has_end s e \<Longrightarrow> named_object (end_name e) obj s = Inr e"
  by (cases e) (simp_all add: named_object_def split_names read_show_int)

lemma end_name_inj: "end_name e = end_name e' \<Longrightarrow> e = e'"
proof -
  assume "end_name e = end_name e'"
  then have "split_on (CHR '' '') (end_name e) = split_on (CHR '' '') (end_name e')" by simp
  then show ?thesis
    by (cases e; cases e') (auto simp: split_names dest: arg_cong[where f = read_int] simp: read_show_int)
qed

section \<open>Positions and lines\<close>

definition link_ends :: "topology \<Rightarrow> (nat \<times> link_end) list" where
  "link_ends s = map (\<lambda>l. (wl_node l, wl_end l)) (tp_links s)"

definition drawn :: "topology \<Rightarrow> wired_link \<Rightarrow> bool" where
  "drawn s l \<longleftrightarrow> wl_data l = Some (get_position_of s (NodeEnd (wl_node l)), get_position_of s (wl_end l))"

lemma move_object_positions:
  "has_end s e \<Longrightarrow> get_position_of (move_object e p s) e' = (if e' = e then p else get_position_of s e')"
  "has_end (move_object e p s) e' \<longleftrightarrow> has_end s e' \<or> (\<exists>c. e = ChannelEnd c \<and> e' = e)"
  "tp_links (move_object e p s) = tp_links s" "tp_graph (move_object e p s) = tp_graph s" "tp_traits (move_object e p s) = tp_traits s"
  by (cases e; cases e'; auto simp: dict_simps d_has_def get_position_of.simps split: option.splits)+

lemma get_position_links [simp]: "get_position_of (s\<lparr>tp_links := ls\<rparr>) e = get_position_of s e" "has_end (s\<lparr>tp_links := ls\<rparr>) e = has_end s e"
  by (cases e; simp add: get_position_of.simps)+

lemma set_position_spec:
  assumes "has_end s e"
  shows "get_position_of (set_position e p s) e' = (if e' = e then p else get_position_of s e')"
    "has_end (set_position e p s) e' = has_end s e'" "link_ends (set_position e p s) = link_ends s"
    "tp_graph (set_position e p s) = tp_graph s" "tp_traits (set_position e p s) = tp_traits s"
  using move_object_positions(1)[OF assms, of p] move_object_positions(2-)[of e p s] assms
  by (auto simp: set_position_def Let_def link_ends_def update_points_def)

lemma set_position_drawn:
  assumes "has_end s e" "l' \<in> set (tp_links (set_position e p s))"
  obtains l where "l \<in> set (tp_links s)" "wl_node l' = wl_node l" "wl_end l' = wl_end l"
    "touches e l \<or> drawn s l \<longrightarrow> drawn (set_position e p s) l'"
proof -
  let ?s = "set_position e p s"
  obtain l where l: "l \<in> set (tp_links s)" "l' = (if touches e l then update_points (move_object e p s) l else l)"
    using assms(2) move_object_positions(3)[of e p s] by (auto simp: set_position_def Let_def)
  have pos: "get_position_of ?s x = get_position_of (move_object e p s) x" for x by (simp add: set_position_def Let_def)
  show ?thesis
  proof (rule that[OF l(1)])
    show "wl_node l' = wl_node l" "wl_end l' = wl_end l" using l(2) by (auto simp: update_points_def)
    have "drawn ?s l'" if "touches e l \<or> drawn s l"
    proof (cases "touches e l")
      case True
      then show ?thesis using l(2) by (simp add: drawn_def update_points_def pos)
    next
      case False
      then have "l' = l" "drawn s l" using l(2) that by auto
      moreover have "NodeEnd (wl_node l) \<noteq> e" "wl_end l \<noteq> e" using False by (auto simp: touches_def)
      ultimately show ?thesis by (simp add: drawn_def set_position_spec(1)[OF assms(1)])
    qed
    then show "touches e l \<or> drawn s l \<longrightarrow> drawn ?s l'" by blast
  qed
qed

text \<open>Positions set one after the other.\<close>

definition place_all :: "(link_end \<times> rat \<times> rat) list \<Rightarrow> topology \<Rightarrow> topology" where
  "place_all eps s = fold (\<lambda>(e, p). set_position e p) eps s"

lemma place_all_spec:
  assumes "\<forall>(e, p) \<in> set eps. has_end s e" "distinct (map fst eps)"
  shows "\<forall>(e, p) \<in> set eps. get_position_of (place_all eps s) e = p"
    "e' \<notin> fst ` set eps \<Longrightarrow> get_position_of (place_all eps s) e' = get_position_of s e'"
    "has_end (place_all eps s) e' = has_end s e'" "link_ends (place_all eps s) = link_ends s" "tp_graph (place_all eps s) = tp_graph s"
    "l' \<in> set (tp_links (place_all eps s)) \<Longrightarrow>
      \<exists>l \<in> set (tp_links s). wl_node l' = wl_node l \<and> wl_end l' = wl_end l
        \<and> ((\<exists>e \<in> fst ` set eps. touches e l) \<or> drawn s l \<longrightarrow> drawn (place_all eps s) l')"
proof -
  have "(\<forall>(e, p) \<in> set eps. get_position_of (place_all eps s) e = p)
    \<and> (e' \<notin> fst ` set eps \<longrightarrow> get_position_of (place_all eps s) e' = get_position_of s e')
    \<and> has_end (place_all eps s) e' = has_end s e' \<and> link_ends (place_all eps s) = link_ends s \<and> tp_graph (place_all eps s) = tp_graph s
    \<and> (l' \<in> set (tp_links (place_all eps s)) \<longrightarrow>
      (\<exists>l \<in> set (tp_links s). wl_node l' = wl_node l \<and> wl_end l' = wl_end l
        \<and> ((\<exists>e \<in> fst ` set eps. touches e l) \<or> drawn s l \<longrightarrow> drawn (place_all eps s) l')))" for e' l'
    using assms
  proof (induction eps arbitrary: s e' l')
    case Nil
    then show ?case by (auto simp: place_all_def)
  next
    case (Cons ep eps)
    obtain e p where ep: "ep = (e, p)" by (cases ep)
    let ?s = "set_position e p s"
    have e: "has_end s e" using Cons.prems(1) ep by simp
    note S = set_position_spec[OF e, of p]
    have all: "place_all ((e, p) # eps) s = place_all eps ?s" by (simp add: place_all_def)
    have "\<forall>(e, p) \<in> set eps. has_end ?s e" "distinct (map fst eps)" "e \<notin> fst ` set eps"
      using Cons.prems ep S(2) by auto
    note IH = Cons.IH[OF this(1,2)] this(3)
    show ?case unfolding ep
    proof (intro conjI)
      show "\<forall>(a, q) \<in> set ((e, p) # eps). get_position_of (place_all ((e, p) # eps) s) a = q"
        using IH(1) IH(1)[of e] IH(2) S(1)[of e] by (auto simp: all)
      show "l' \<in> set (tp_links (place_all ((e, p) # eps) s)) \<longrightarrow>
        (\<exists>l \<in> set (tp_links s). wl_node l' = wl_node l \<and> wl_end l' = wl_end l
          \<and> ((\<exists>e \<in> fst ` set ((e, p) # eps). touches e l) \<or> drawn s l \<longrightarrow> drawn (place_all ((e, p) # eps) s) l'))"
      proof
        assume "l' \<in> set (tp_links (place_all ((e, p) # eps) s))"
        then obtain m where m: "m \<in> set (tp_links ?s)" "wl_node l' = wl_node m" "wl_end l' = wl_end m"
          "(\<exists>e \<in> fst ` set eps. touches e m) \<or> drawn ?s m \<longrightarrow> drawn (place_all eps ?s) l'"
          using IH(1)[of e' l'] unfolding all by blast
        obtain l where l: "l \<in> set (tp_links s)" "wl_node m = wl_node l" "wl_end m = wl_end l"
          "touches e l \<or> drawn s l \<longrightarrow> drawn ?s m" by (rule set_position_drawn[OF e m(1)])
        have "touches x m = touches x l" for x by (simp add: touches_def l(2,3))
        then show "\<exists>l \<in> set (tp_links s). wl_node l' = wl_node l \<and> wl_end l' = wl_end l
          \<and> ((\<exists>e \<in> fst ` set ((e, p) # eps). touches e l) \<or> drawn s l \<longrightarrow> drawn (place_all ((e, p) # eps) s) l')"
          using l m by (intro bexI[of _ l]) (auto simp: all)
      qed
    qed (use IH(1)[of e' l'] S in \<open>auto simp: all\<close>)
  qed
  note all = this[of e' l']
  show "\<forall>(e, p) \<in> set eps. get_position_of (place_all eps s) e = p"
    "e' \<notin> fst ` set eps \<Longrightarrow> get_position_of (place_all eps s) e' = get_position_of s e'"
    "has_end (place_all eps s) e' = has_end s e'" "link_ends (place_all eps s) = link_ends s" "tp_graph (place_all eps s) = tp_graph s"
    "l' \<in> set (tp_links (place_all eps s)) \<Longrightarrow>
      \<exists>l \<in> set (tp_links s). wl_node l' = wl_node l \<and> wl_end l' = wl_end l
        \<and> ((\<exists>e \<in> fst ` set eps. touches e l) \<or> drawn s l \<longrightarrow> drawn (place_all eps s) l')"
    using all[THEN conjunct1] all[THEN conjunct2, THEN conjunct1, rule_format] all[THEN conjunct2, THEN conjunct2, THEN conjunct1]
      all[THEN conjunct2, THEN conjunct2, THEN conjunct2, THEN conjunct1] all[THEN conjunct2, THEN conjunct2, THEN conjunct2, THEN conjunct2, THEN conjunct1]
      all[THEN conjunct2, THEN conjunct2, THEN conjunct2, THEN conjunct2, THEN conjunct2, rule_format] by - assumption+
qed

lemma place_loop:
  assumes "\<forall>(e, p) \<in> set eps. has_end s e"
  shows "\<exists>obj'. act_fold place_object (map (\<lambda>(e, p). (end_name e, p)) eps) obj s = (Inr obj', place_all eps s)"
  using assms
proof (induction eps arbitrary: s obj)
  case (Cons ep eps)
  obtain e p where ep: "ep = (e, p)" by (cases ep)
  have e: "has_end s e" using Cons.prems ep by simp
  have rest: "\<forall>(e', p') \<in> set eps. has_end (set_position e p s) e'"
    using Cons.prems set_position_spec(2)[OF e] by auto
  show ?case using Cons.IH[OF rest, of "Some e"] e
    by (simp add: ep place_object_def place_all_def named_object_end act_assoc)
qed (simp add: place_all_def)


section \<open>The scan of the nodes\<close>

definition wired_type :: "string \<Rightarrow> bool" where
  "wired_type t \<longleftrightarrow> (case d_get netdevice_traits t of None \<Rightarrow> False | Some tr \<Rightarrow> is_wireless tr \<noteq> Some True \<and> \<not> is_virtual tr)"

text \<open>The links that a node gets: for each wired device one to its channel, if that has more than
  two devices, and one to the other node of each device of the channel otherwise.\<close>

definition channel_links :: "network \<Rightarrow> nat \<Rightarrow> int \<Rightarrow> (nat \<times> link_end) list" where
  "channel_links net i c =
     (if length (net_channel net c) > 2 then [(i, ChannelEnd c)]
      else map (\<lambda>j. (i, NodeEnd j)) (filter (\<lambda>j. j \<noteq> i) (net_channel net c)))"

definition device_links :: "network \<Rightarrow> nat \<Rightarrow> ns_device \<Rightarrow> (nat \<times> link_end) list" where
  "device_links net i d = (if wired_type (dv_type d) then channel_links net i (the (dv_channel d)) else [])"

definition node_links :: "network \<Rightarrow> nat \<Rightarrow> (nat \<times> link_end) list" where
  "node_links net i = concat (map (device_links net i) (nd_devices (net_nodes net ! i)))"

fun call_names :: "graph_call \<Rightarrow> string set" where
  "call_names (AddNode a) = {a}"
| "call_names (AddEdge a b) = {a, b}"

definition graph_names :: "topology \<Rightarrow> string set" where
  "graph_names s = \<Union> (call_names ` set (tp_graph s))"

text \<open>What holds while the first \<open>k\<close> nodes have been scanned: the names of the graph are those of
  objects that are there and of no node with mobility, each node without mobility has its name
  in the graph, one with mobility is where the simulation has it.\<close>

definition graph_end :: "network \<Rightarrow> topology \<Rightarrow> link_end \<Rightarrow> bool" where
  "graph_end net s e \<longleftrightarrow> has_end s e \<and> (case e of NodeEnd i \<Rightarrow> \<not> has_mobility net i | ChannelEnd c \<Rightarrow> True)"

definition scan_inv :: "(string \<Rightarrow> nat \<times> nat \<times> nat) \<Rightarrow> network \<Rightarrow> nat \<Rightarrow> (nat \<times> link_end) list \<Rightarrow> topology \<Rightarrow> bool" where
  "scan_inv cp net k es s \<longleftrightarrow> link_ends s = es
     \<and> (\<forall>t. fst (lookup_netdevice_traits t (tp_traits s)) = fst (lookup_netdevice_traits t netdevice_traits))
     \<and> (\<forall>nm \<in> graph_names s. \<exists>e. nm = end_name e \<and> graph_end net s e)
     \<and> (\<forall>i < k. has_end s (NodeEnd i) \<and> (if has_mobility net i
          then d_get (tp_nodes s) i = Some \<lparr>nv_pos = transform_point_simulation_to_canvas (the (nd_mobility (net_nodes net ! i))),
                                           nv_color = color_value (cp ''red'')\<rparr>
          else node_name i \<in> graph_names s))"

lemma graph_names_add [simp]:
  "graph_names (graph_add g s) = graph_names s \<union> call_names g" "link_ends (graph_add g s) = link_ends s"
  "tp_nodes (graph_add g s) = tp_nodes s" "tp_channels (graph_add g s) = tp_channels s" "tp_traits (graph_add g s) = tp_traits s"
  "has_end (graph_add g s) e = has_end s e"
  by (cases e; auto simp: graph_names_def graph_add_def link_ends_def)+

lemma create_link_fields [simp]:
  "graph_names (create_link i e s) = graph_names s" "link_ends (create_link i e s) = link_ends s @ [(i, e)]"
  "tp_nodes (create_link i e s) = tp_nodes s" "tp_channels (create_link i e s) = tp_channels s" "tp_traits (create_link i e s) = tp_traits s"
  "has_end (create_link i e' s) e = has_end s e"
  by (cases e; auto simp: graph_names_def create_link_def link_ends_def)+

lemma get_node_fields [simp]:
  "graph_names (get_node i s) = graph_names s" "link_ends (get_node i s) = link_ends s" "tp_traits (get_node i s) = tp_traits s"
  "has_end (get_node i s) e \<longleftrightarrow> has_end s e \<or> e = NodeEnd i"
  "d_get (tp_nodes s) j = Some v \<Longrightarrow> d_get (tp_nodes (get_node i s)) j = Some v"
  "d_has (tp_nodes (get_node i s)) k \<longleftrightarrow> d_has (tp_nodes s) k \<or> k = i"
  by (cases e; auto simp: graph_names_def get_node_def link_ends_def d_has_def dict_simps)+

lemma get_channel_fields [simp]:
  "graph_names (get_channel c s) = graph_names s" "link_ends (get_channel c s) = link_ends s" "tp_traits (get_channel c s) = tp_traits s"
  "has_end (get_channel c s) e \<longleftrightarrow> has_end s e \<or> e = ChannelEnd c" "tp_nodes (get_channel c s) = tp_nodes s"
  by (cases e; auto simp: graph_names_def get_channel_def link_ends_def d_has_def dict_simps)+

lemma scan_inv_get_node: "scan_inv cp net k es s \<Longrightarrow> scan_inv cp net k es (get_node j s)"
  unfolding scan_inv_def graph_end_def by (auto 0 4 split: if_splits)

lemma scan_inv_link: "scan_inv cp net k es s \<Longrightarrow> scan_inv cp net k (es @ [(i, e)]) (create_link i e s)"
  unfolding scan_inv_def graph_end_def by auto

lemma scan_inv_graph:
  assumes "scan_inv cp net k es s" "\<forall>nm \<in> call_names g. \<exists>e. nm = end_name e \<and> graph_end net s e"
  shows "scan_inv cp net k es (graph_add g s)"
  using assms unfolding scan_inv_def graph_end_def by auto

lemma scan_inv_channel: "scan_inv cp net k es s \<Longrightarrow> scan_inv cp net k es (get_channel c s)"
  unfolding scan_inv_def graph_end_def by (auto 0 4)

lemma link_other_inv:
  assumes "scan_inv cp net k es s" "has_end s (NodeEnd i)"
  shows "scan_inv cp net k (es @ (if j \<noteq> i then [(i, NodeEnd j)] else [])) (link_other net i j s) \<and> has_end (link_other net i j s) (NodeEnd i)"
proof -
  note g = scan_inv_get_node[OF assms(1), of j]
  have "scan_inv cp net k es (graph_add (AddEdge (node_name i) (node_name j)) (get_node j s))"
    if "\<not> has_mobility net i" "\<not> has_mobility net j"
  proof (rule scan_inv_graph[OF g])
    have "graph_end net (get_node j s) (NodeEnd i)" "graph_end net (get_node j s) (NodeEnd j)"
      using that assms(2) by (auto simp: graph_end_def simp del: has_end.simps)
    then show "\<forall>nm \<in> call_names (AddEdge (node_name i) (node_name j)). \<exists>e. nm = end_name e \<and> graph_end net (get_node j s) e"
      by (auto intro: exI[of _ "NodeEnd i"] exI[of _ "NodeEnd j"])
  qed
  then show ?thesis using g assms(2) by (auto simp: link_other_def Let_def simp del: has_end.simps intro: scan_inv_link)
qed

lemma link_others_inv:
  "scan_inv cp net k es s \<Longrightarrow> has_end s (NodeEnd i) \<Longrightarrow>
    scan_inv cp net k (es @ map (\<lambda>j. (i, NodeEnd j)) (filter (\<lambda>j. j \<noteq> i) js)) (fold (link_other net i) js s)
    \<and> has_end (fold (link_other net i) js s) (NodeEnd i)"
proof (induction js arbitrary: es s)
  case (Cons j js)
  from link_other_inv[OF Cons.prems, of j] Cons.IH[of "es @ (if j \<noteq> i then [(i, NodeEnd j)] else [])" "link_other net i j s"]
  show ?case by (simp del: has_end.simps split: if_splits)
qed simp

lemma scan_channel_inv:
  assumes "scan_inv cp net k es s" "has_end s (NodeEnd i)"
  shows "scan_inv cp net k (es @ channel_links net i c) (scan_channel net i c s) \<and> has_end (scan_channel net i c s) (NodeEnd i)"
proof (cases "length (net_channel net c) > 2")
  case True
  have c: "scan_inv cp net k es (get_channel c s)" by (rule scan_inv_channel[OF assms(1)])
  have same: "get_channel c (graph_add g s) = graph_add g (get_channel c s)" for g by (simp add: get_channel_def graph_add_def)
  have "scan_inv cp net k es (graph_add (AddEdge (node_name i) (channel_name c)) (get_channel c s))" if "\<not> has_mobility net i"
  proof (rule scan_inv_graph[OF c])
    have "graph_end net (get_channel c s) (NodeEnd i)" "graph_end net (get_channel c s) (ChannelEnd c)"
      using that assms(2) by (auto simp: graph_end_def simp del: has_end.simps)
    then show "\<forall>nm \<in> call_names (AddEdge (node_name i) (channel_name c)). \<exists>e. nm = end_name e \<and> graph_end net (get_channel c s) e"
      by (auto intro: exI[of _ "NodeEnd i"] exI[of _ "ChannelEnd c"])
  qed
  then show ?thesis using True c assms(2)
    by (auto simp: scan_channel_def REPRESENT_CHANNELS_AS_NODES_def link_channel_def channel_links_def same simp del: has_end.simps intro: scan_inv_link)
next
  case False
  then show ?thesis using link_others_inv[OF assms, of "net_channel net c"] by (simp add: scan_channel_def channel_links_def)
qed


lemma lookup_same: "fst (lookup_netdevice_traits t (snd (lookup_netdevice_traits u tbl))) = fst (lookup_netdevice_traits t tbl)"
  by (auto simp: lookup_netdevice_traits_def Let_def dict_simps split: option.splits)

lemma wired_type_traits:
  "wired_type t \<longleftrightarrow> is_wireless (fst (lookup_netdevice_traits t netdevice_traits)) \<noteq> Some True
     \<and> \<not> is_virtual (fst (lookup_netdevice_traits t netdevice_traits))"
  by (auto simp: wired_type_def lookup_netdevice_traits_def Let_def split: option.splits)

lemma scan_device_inv:
  assumes "scan_inv cp net k es s" "has_end s (NodeEnd i)" "wired_type (dv_type d) \<longrightarrow> dv_channel d \<noteq> None"
  shows "\<exists>s'. scan_device net i d s = (Inr (), s') \<and> scan_inv cp net k (es @ device_links net i d) s' \<and> has_end s' (NodeEnd i)"
proof -
  obtain traits tbl where l: "lookup_netdevice_traits (dv_type d) (tp_traits s) = (traits, tbl)" by fastforce
  let ?s = "s\<lparr>tp_traits := tbl\<rparr>"
  have t: "fst (lookup_netdevice_traits x tbl) = fst (lookup_netdevice_traits x (tp_traits s))" for x
    using lookup_same[of x "dv_type d" "tp_traits s"] l by simp
  have "graph_end net ?s e = graph_end net s e" "has_end ?s e = has_end s e" for e
    by (cases e; simp add: graph_end_def)+
  moreover have "graph_names ?s = graph_names s" "link_ends ?s = link_ends s" by (simp_all add: graph_names_def link_ends_def)
  ultimately have s: "scan_inv cp net k es ?s" "has_end ?s (NodeEnd i)"
    using assms(1,2) t unfolding scan_inv_def by (simp_all del: has_end.simps)
  have w: "wired_type (dv_type d) \<longleftrightarrow> is_wireless traits \<noteq> Some True \<and> \<not> is_virtual traits"
    using assms(1) l unfolding wired_type_traits scan_inv_def by (metis fst_conv)
  have step: "scan_device net i d s =
    (if wired_type (dv_type d) then (case dv_channel d of None \<Rightarrow> act_raise AttributeError | Some c \<Rightarrow> act_do (scan_channel net i c)) ?s
     else (Inr (), ?s))"
    by (simp add: scan_device_def l w)
  show ?thesis
  proof (cases "wired_type (dv_type d)")
    case True
    then obtain c where "dv_channel d = Some c" using assms(3) by auto
    then show ?thesis using step True scan_channel_inv[OF s, of c] by (simp add: device_links_def del: has_end.simps)
  next
    case False
    then show ?thesis using step s by (simp add: device_links_def del: has_end.simps)
  qed
qed

lemma scan_devices_inv:
  assumes "scan_inv cp net k es s" "has_end s (NodeEnd i)" "\<forall>d \<in> set ds. wired_type (dv_type d) \<longrightarrow> dv_channel d \<noteq> None"
  shows "\<exists>s'. act_each (scan_device net i) ds s = (Inr (), s') \<and> scan_inv cp net k (es @ concat (map (device_links net i) ds)) s'"
  using assms
proof (induction ds arbitrary: es s)
  case (Cons d ds)
  obtain u where u: "scan_device net i d s = (Inr (), u)" "scan_inv cp net k (es @ device_links net i d) u" "has_end u (NodeEnd i)"
    using scan_device_inv[OF Cons.prems(1,2)] Cons.prems(3) by auto
  from Cons.IH[OF u(2,3)] Cons.prems(3) u(1) show ?case by (simp del: has_end.simps)
qed simp

lemma set_color_fields [simp]:
  "graph_names (set_color i rgb s) = graph_names s" "link_ends (set_color i rgb s) = link_ends s" "tp_traits (set_color i rgb s) = tp_traits s"
  "has_end (set_color i rgb s) e = has_end s e"
  "d_get (tp_nodes (set_color i rgb s)) j = (if j = i then map_option (\<lambda>v. v\<lparr>nv_color := color_value rgb\<rparr>) (d_get (tp_nodes s) i) else d_get (tp_nodes s) j)"
  by (cases e; auto simp: graph_names_def set_color_def link_ends_def d_has_def dict_simps split: option.splits)+

lemma set_position_node:
  "d_get (tp_nodes (set_position (NodeEnd i) p s)) j =
    (if j = i then map_option (\<lambda>v. v\<lparr>nv_pos := p\<rparr>) (d_get (tp_nodes s) i) else d_get (tp_nodes s) j)"
  by (auto simp: set_position_def Let_def dict_simps split: option.splits)

lemma placed_node:
  assumes "has_end s (NodeEnd i)"
  shows "d_get (tp_nodes (set_position (NodeEnd i) p (set_color i rgb s))) i = Some \<lparr>nv_pos = p, nv_color = color_value rgb\<rparr>"
  using assms by (auto simp: set_position_node d_has_def)

lemma scan_node_inv:
  assumes "scan_inv cp net k es s" "\<forall>d \<in> set (nd_devices (net_nodes net ! k)). wired_type (dv_type d) \<longrightarrow> dv_channel d \<noteq> None"
    "k < length (net_nodes net)"
  shows "\<exists>s'. scan_node cp net k s = (Inr (), s') \<and> scan_inv cp net (Suc k) (es @ node_links net k) s'"
proof -
  let ?s = "get_node k s"
  note g = scan_inv_get_node[OF assms(1), of k]
  have k: "has_end ?s (NodeEnd k)" by simp
  define u where "u = (case nd_mobility (net_nodes net ! k) of
      Some pos \<Rightarrow> set_position (NodeEnd k) (transform_point_simulation_to_canvas pos) (set_color k (cp ''red'') ?s)
    | None \<Rightarrow> graph_add (AddNode (node_name k)) ?s)"
  have "scan_inv cp net (Suc k) es u \<and> has_end u (NodeEnd k)"
  proof (cases "nd_mobility (net_nodes net ! k)")
    case None
    then have m: "\<not> has_mobility net k" by (simp add: has_mobility_def)
    have "scan_inv cp net k es u"
      unfolding u_def None option.case
    proof (rule scan_inv_graph[OF g])
      show "\<forall>nm \<in> call_names (AddNode (node_name k)). \<exists>e. nm = end_name e \<and> graph_end net ?s e"
        using m by (auto simp: graph_end_def intro: exI[of _ "NodeEnd k"])
    qed
    then show ?thesis using m k by (auto simp: scan_inv_def u_def None less_Suc_eq simp del: has_end.simps)
  next
    case (Some pos)
    then have m: "has_mobility net k" using assms(3) by (simp add: has_mobility_def)
    let ?c = "set_color k (cp ''red'') ?s"
    have c: "has_end ?c (NodeEnd k)" using k by (simp del: has_end.simps)
    note S = set_position_spec[OF c, of "transform_point_simulation_to_canvas pos"]
    have u: "u = set_position (NodeEnd k) (transform_point_simulation_to_canvas pos) ?c" by (simp add: u_def Some)
    have n: "graph_names u = graph_names ?s" "link_ends u = link_ends ?s" "tp_traits u = tp_traits ?s" "has_end u e = has_end ?s e" for e
      using S by (simp_all add: u graph_names_def) (simp_all flip: graph_names_def)
    have "d_get (tp_nodes u) k = Some \<lparr>nv_pos = transform_point_simulation_to_canvas pos, nv_color = color_value (cp ''red'')\<rparr>"
      unfolding u by (rule placed_node[OF k])
    moreover have "j \<noteq> k \<Longrightarrow> d_get (tp_nodes u) j = d_get (tp_nodes ?s) j" for j by (simp add: u set_position_node)
    ultimately show ?thesis using g k m Some n unfolding scan_inv_def graph_end_def
      by (auto simp: less_Suc_eq simp del: has_end.simps)
  qed
  then have inv: "scan_inv cp net (Suc k) es u" "has_end u (NodeEnd k)" by blast+
  have "scan_node cp net k s = act_each (scan_device net k) (nd_devices (net_nodes net ! k)) u"
    by (simp add: scan_node_def Let_def u_def split: option.split)
  then show ?thesis using scan_devices_inv[OF inv assms(2)] by (simp add: node_links_def)
qed

lemma act_each_snoc: "act_each f (xs @ [x]) = act_then (act_each f xs) (f x)"
  by (induction xs) (auto simp: act_assoc fun_eq_iff act_then_def act_bind_def split: prod.splits sum.splits)

definition Topology :: topology where
  "Topology = \<lparr>tp_nodes = [], tp_channels = [], tp_links = [], tp_traits = netdevice_traits, tp_graph = []\<rparr>"

definition net_ok :: "network \<Rightarrow> bool" where
  "net_ok net \<longleftrightarrow> (\<forall>node \<in> set (net_nodes net). \<forall>d \<in> set (nd_devices node). wired_type (dv_type d) \<longrightarrow> dv_channel d \<noteq> None)"

lemma scan_nodes_inv:
  assumes "net_ok net" "k \<le> length (net_nodes net)"
  shows "\<exists>s. act_each (scan_node cp net) [0..<k] Topology = (Inr (), s) \<and> scan_inv cp net k (concat (map (node_links net) [0..<k])) s"
  using assms(2)
proof (induction k)
  case 0
  show ?case by (simp add: scan_inv_def Topology_def link_ends_def graph_names_def)
next
  case (Suc k)
  then obtain s where s: "act_each (scan_node cp net) [0..<k] Topology = (Inr (), s)"
    "scan_inv cp net k (concat (map (node_links net) [0..<k])) s" by auto
  have "\<forall>d \<in> set (nd_devices (net_nodes net ! k)). wired_type (dv_type d) \<longrightarrow> dv_channel d \<noteq> None"
    using assms(1) nth_mem[of k "net_nodes net"] Suc.prems unfolding net_ok_def by auto
  from scan_node_inv[OF s(2) this] Suc.prems s(1) show ?case by (auto simp: act_each_snoc)
qed


section \<open>The whole scan\<close>

text \<open>What is relied on of the layout: it gives each name of the graph a position, once.\<close>

definition layout_ok :: "(graph_call list \<Rightarrow> (string \<times> rat \<times> rat) list) \<Rightarrow> bool" where
  "layout_ok layout \<longleftrightarrow> (\<forall>calls. distinct (map fst (layout calls)) \<and> fst ` set (layout calls) = \<Union> (call_names ` set calls))"

lemma layout_objects:
  assumes "layout_ok layout" "\<forall>nm \<in> graph_names s. \<exists>e. nm = end_name e \<and> graph_end net s e"
  obtains eps where "layout (tp_graph s) = map (\<lambda>(e, p). (end_name e, p)) eps" "distinct (map fst eps)"
    "\<forall>(e, p) \<in> set eps. graph_end net s e" "end_name ` fst ` set eps = graph_names s"
proof -
  define ob where "ob = (\<lambda>nm. SOME e. nm = end_name e \<and> graph_end net s e)"
  have o: "nm = end_name (ob nm) \<and> graph_end net s (ob nm)" if "nm \<in> graph_names s" for nm
    unfolding ob_def using assms(2) that by (intro someI_ex[of "\<lambda>e. nm = end_name e \<and> graph_end net s e"]) blast
  have L: "distinct (map fst (layout (tp_graph s)))" "fst ` set (layout (tp_graph s)) = graph_names s"
    using assms(1) by (auto simp: layout_ok_def graph_names_def)
  let ?eps = "map (\<lambda>(nm, p). (ob nm, p)) (layout (tp_graph s))"
  have mem: "nm \<in> graph_names s" if "(nm, p) \<in> set (layout (tp_graph s))" for nm p using L(2) that by force
  show ?thesis
  proof (rule that)
    have "map (\<lambda>(e, p). (end_name e, p)) ?eps = map (\<lambda>(nm, p). (end_name (ob nm), p)) (layout (tp_graph s))" by (auto simp: case_prod_beta)
    also have "\<dots> = map (\<lambda>x. x) (layout (tp_graph s))" by (rule map_cong) (use o mem in \<open>force+\<close>)
    finally show "layout (tp_graph s) = map (\<lambda>(e, p). (end_name e, p)) ?eps" by simp
    have "map end_name (map fst ?eps) = map fst (layout (tp_graph s))" using o mem by (auto simp: case_prod_beta)
    then show "distinct (map fst ?eps)" using L(1) distinct_map by metis
    show "\<forall>(e, p) \<in> set ?eps. graph_end net s e" using o mem by fastforce
    have "end_name ` fst ` set ?eps = (\<lambda>nm. end_name (ob nm)) ` fst ` set (layout (tp_graph s))" by (auto simp: image_image case_prod_beta)
    also have "\<dots> = graph_names s" using o L(2) by (auto simp: image_iff)
    finally show "end_name ` fst ` set ?eps = graph_names s" .
  qed
qed

lemma place_all_color:
  "map_option nv_color (d_get (tp_nodes (place_all eps s)) i) = map_option nv_color (d_get (tp_nodes s) i)"
proof (induction eps arbitrary: s)
  case (Cons ep eps)
  have "map_option nv_color (d_get (tp_nodes (set_position e p s)) i) = map_option nv_color (d_get (tp_nodes s) i)" for e p
    by (cases e) (auto simp: set_position_node, auto simp: set_position_def Let_def option.map_comp comp_def)
  then show ?case using Cons.IH by (cases ep) (simp add: place_all_def)
qed (simp add: place_all_def)

lemma scan_topology_spec:
  assumes "layout_ok layout" "net_ok net"
  obtains s where "scan_topology cp layout net Topology = (Inr (), s)"
    "link_ends s = concat (map (node_links net) [0..<length (net_nodes net)])"
    "\<And>i. i < length (net_nodes net) \<Longrightarrow> has_mobility net i \<Longrightarrow>
      d_get (tp_nodes s) i = Some \<lparr>nv_pos = transform_point_simulation_to_canvas (the (nd_mobility (net_nodes net ! i))), nv_color = color_value (cp ''red'')\<rparr>"
    "\<And>i. i < length (net_nodes net) \<Longrightarrow> \<not> has_mobility net i \<Longrightarrow> (node_name i, get_position_of s (NodeEnd i)) \<in> set (layout (tp_graph s))"
    "\<And>l. l \<in> set (tp_links s) \<Longrightarrow> wl_node l < length (net_nodes net) \<and> \<not> has_mobility net (wl_node l)
       \<or> (\<exists>j < length (net_nodes net). wl_end l = NodeEnd j \<and> \<not> has_mobility net j) \<Longrightarrow> drawn s l"
proof -
  let ?n = "length (net_nodes net)"
  obtain u where u: "act_each (scan_node cp net) [0..<?n] Topology = (Inr (), u)"
    "scan_inv cp net ?n (concat (map (node_links net) [0..<?n])) u"
    using scan_nodes_inv[OF assms(2) order_refl] by blast
  then have "\<forall>nm \<in> graph_names u. \<exists>e. nm = end_name e \<and> graph_end net u e" by (simp add: scan_inv_def)
  from layout_objects[OF assms(1) this] obtain eps where eps: "layout (tp_graph u) = map (\<lambda>(e, p). (end_name e, p)) eps"
    "distinct (map fst eps)" "\<forall>(e, p) \<in> set eps. graph_end net u e" "end_name ` fst ` set eps = graph_names u" by blast
  have ends: "\<forall>(e, p) \<in> set eps. has_end u e" using eps(3) by (auto simp: graph_end_def)
  define s where "s = place_all eps u"
  note P = place_all_spec[OF ends eps(2), folded s_def]
  have run: "scan_topology cp layout net Topology = (Inr (), s)"
  proof -
    obtain obj where "act_fold place_object (layout (tp_graph u)) None u = (Inr obj, s)"
      using place_loop[OF ends, of None] by (auto simp: eps(1) s_def)
    then show ?thesis using u(1) by (simp add: scan_topology_def)
  qed
  have named: "NodeEnd i \<in> fst ` set eps" if i: "i < ?n" "\<not> has_mobility net i" for i
  proof -
    have "node_name i \<in> graph_names u" using u(2) i by (auto simp: scan_inv_def simp del: has_end.simps)
    then obtain e where "e \<in> fst ` set eps" "node_name i = end_name e" using eps(4) by blast
    then show ?thesis using end_name_inj[of "NodeEnd i" e] by simp
  qed
  show ?thesis
  proof (rule that[OF run])
    show "link_ends s = concat (map (node_links net) [0..<?n])" using P(4) u(2) by (simp add: scan_inv_def)
  next
    fix i assume i: "i < ?n" "has_mobility net i"
    have v: "d_get (tp_nodes u) i = Some \<lparr>nv_pos = transform_point_simulation_to_canvas (the (nd_mobility (net_nodes net ! i))), nv_color = color_value (cp ''red'')\<rparr>"
      using u(2) i by (simp add: scan_inv_def del: has_end.simps)
    have "NodeEnd i \<notin> fst ` set eps" using eps(3) i(2) by (fastforce simp: graph_end_def)
    then have "get_position_of s (NodeEnd i) = get_position_of u (NodeEnd i)" by (rule P(2))
    moreover have "map_option nv_color (d_get (tp_nodes s) i) = Some (color_value (cp ''red''))" using place_all_color[of eps u i] v by (simp add: s_def)
    ultimately show "d_get (tp_nodes s) i = Some \<lparr>nv_pos = transform_point_simulation_to_canvas (the (nd_mobility (net_nodes net ! i))), nv_color = color_value (cp ''red'')\<rparr>"
      using v by (auto simp: get_position_of.simps split: option.splits)
  next
    fix i assume i: "i < ?n" "\<not> has_mobility net i"
    obtain p where p: "(NodeEnd i, p) \<in> set eps" using named[OF i] by auto
    then have "get_position_of s (NodeEnd i) = p" using P(1) by auto
    moreover have "(end_name (NodeEnd i), p) \<in> set (layout (tp_graph u))" using p unfolding eps(1) by force
    ultimately show "(node_name i, get_position_of s (NodeEnd i)) \<in> set (layout (tp_graph s))" using P(5) by simp
  next
    fix l assume l: "l \<in> set (tp_links s)" "wl_node l < ?n \<and> \<not> has_mobility net (wl_node l) \<or> (\<exists>j < ?n. wl_end l = NodeEnd j \<and> \<not> has_mobility net j)"
    obtain m where m: "wl_node l = wl_node m" "wl_end l = wl_end m"
      "(\<exists>e \<in> fst ` set eps. touches e m) \<or> drawn u m \<longrightarrow> drawn s l" using P(6)[OF l(1)] by blast
    have "\<exists>e \<in> fst ` set eps. touches e m"
      using l(2) named unfolding touches_def m(1,2) by metis
    then show "drawn s l" using m(3) by blast
  qed
qed


section \<open>Following the simulation\<close>

lemma update_node_position_place:
  "update_node_position net i s =
     (if has_mobility net i then set_position (NodeEnd i) (transform_point_simulation_to_canvas (the (nd_mobility (net_nodes net ! i)))) s else s)"
  by (auto simp: update_node_position_def has_mobility_def split: option.split)

text \<open>The nodes of a list are moved: those with mobility go where the simulation has them, and a line of a
  moved node is drawn anew.\<close>

lemma move_nodes:
  assumes "\<forall>i \<in> set is. has_end s (NodeEnd i)"
  shows "(\<forall>e. get_position_of (fold (update_node_position net) is s) e =
      (case e of NodeEnd i \<Rightarrow> if i \<in> set is \<and> has_mobility net i then transform_point_simulation_to_canvas (the (nd_mobility (net_nodes net ! i)))
                              else get_position_of s e
         | ChannelEnd c \<Rightarrow> get_position_of s e))
    \<and> link_ends (fold (update_node_position net) is s) = link_ends s
    \<and> (\<forall>l' \<in> set (tp_links (fold (update_node_position net) is s)). \<exists>l \<in> set (tp_links s). wl_node l' = wl_node l \<and> wl_end l' = wl_end l
        \<and> (drawn s l \<or> (\<exists>i \<in> set is. has_mobility net i \<and> touches (NodeEnd i) l) \<longrightarrow> drawn (fold (update_node_position net) is s) l'))"
  using assms
proof (induction "is" arbitrary: s)
  case Nil
  then show ?case by (auto split: link_end.split)
next
  case (Cons i "is")
  let ?p = "transform_point_simulation_to_canvas (the (nd_mobility (net_nodes net ! i)))"
  let ?u = "update_node_position net i s" and ?f = "fold (update_node_position net) is (update_node_position net i s)"
  have i: "has_end s (NodeEnd i)" using Cons.prems by simp
  note S = set_position_spec[OF i, of ?p]
  have "\<forall>j \<in> set is. has_end ?u (NodeEnd j)" using Cons.prems S(2) by (simp add: update_node_position_place del: has_end.simps)
  note IH = Cons.IH[OF this]
  have "\<exists>l \<in> set (tp_links s). wl_node l' = wl_node l \<and> wl_end l' = wl_end l
      \<and> (drawn s l \<or> (\<exists>j \<in> set (i # is). has_mobility net j \<and> touches (NodeEnd j) l) \<longrightarrow> drawn ?f l')" if "l' \<in> set (tp_links ?f)" for l'
  proof -
    obtain m where m: "m \<in> set (tp_links ?u)" "wl_node l' = wl_node m" "wl_end l' = wl_end m"
      "drawn ?u m \<or> (\<exists>j \<in> set is. has_mobility net j \<and> touches (NodeEnd j) m) \<longrightarrow> drawn ?f l'"
      using IH \<open>l' \<in> set (tp_links ?f)\<close> by blast
    show ?thesis
    proof (cases "has_mobility net i")
      case True
      then have u: "?u = set_position (NodeEnd i) ?p s" by (simp add: update_node_position_place)
      obtain l where l: "l \<in> set (tp_links s)" "wl_node m = wl_node l" "wl_end m = wl_end l"
        "touches (NodeEnd i) l \<or> drawn s l \<longrightarrow> drawn ?u m" using set_position_drawn[OF i, of m ?p] m(1) unfolding u by blast
      have "touches e m = touches e l" for e by (simp add: touches_def l(2,3))
      then show ?thesis using l m by (intro bexI[of _ l]) auto
    next
      case False
      then show ?thesis using m by (intro bexI[of _ m]) (auto simp: update_node_position_place)
    qed
  qed
  moreover have u: "get_position_of ?u e = (if has_mobility net i \<and> e = NodeEnd i then ?p else get_position_of s e)"
    "link_ends ?u = link_ends s" for e
    using S by (auto simp: update_node_position_place)
  then have "get_position_of ?f e = (case e of
      NodeEnd j \<Rightarrow> if j \<in> set (i # is) \<and> has_mobility net j then transform_point_simulation_to_canvas (the (nd_mobility (net_nodes net ! j)))
                   else get_position_of s e
    | ChannelEnd c \<Rightarrow> get_position_of s e)" for e
    using IH[THEN conjunct1, rule_format, of e] by (cases e) auto
  moreover have "link_ends ?f = link_ends s" using IH[THEN conjunct2, THEN conjunct1] u(2) by simp
  ultimately show ?case by (simp only: fold_simps) blast
qed


lemma set_position_links: "link_ends (set_position e p s) = link_ends s"
  by (auto simp: set_position_def Let_def link_ends_def update_points_def move_object_positions(3) simp del: move_object.simps)

lemma links_moved: "link_ends (update_node_positions ord net s) = link_ends s"
proof -
  have "link_ends (fold (update_node_position net) is s) = link_ends s" for "is"
    by (induction "is" arbitrary: s) (simp_all add: update_node_position_place set_position_links)
  then show ?thesis by (simp add: update_node_positions_def)
qed

text \<open>The scan, then the first update of the positions.\<close>

lemma scan_and_move:
  assumes "layout_ok layout" "net_ok net" "key_order ord"
  shows "\<exists>s. fst (scan_topology cp layout net Topology) = Inr ()
    \<and> s = update_node_positions ord net (snd (scan_topology cp layout net Topology))
    \<and> link_ends s = concat (map (node_links net) [0..<length (net_nodes net)])
    \<and> (\<forall>i < length (net_nodes net). case nd_mobility (net_nodes net ! i) of
         Some pos \<Rightarrow> get_position_of s (NodeEnd i) = transform_point_simulation_to_canvas pos
       | None \<Rightarrow> (node_name i, get_position_of s (NodeEnd i)) \<in> set (layout (tp_graph (snd (scan_topology cp layout net Topology)))))
    \<and> list_all (drawn s) (tp_links s)"
proof (rule scan_topology_spec[OF assms(1,2), of cp])
  let ?n = "length (net_nodes net)"
  fix u
  assume u: "scan_topology cp layout net Topology = (Inr (), u)"
    "link_ends u = concat (map (node_links net) [0..<?n])"
    "\<And>i. i < ?n \<Longrightarrow> has_mobility net i \<Longrightarrow>
      d_get (tp_nodes u) i = Some \<lparr>nv_pos = transform_point_simulation_to_canvas (the (nd_mobility (net_nodes net ! i))), nv_color = color_value (cp ''red'')\<rparr>"
    "\<And>i. i < ?n \<Longrightarrow> \<not> has_mobility net i \<Longrightarrow> (node_name i, get_position_of u (NodeEnd i)) \<in> set (layout (tp_graph u))"
    "\<And>l. l \<in> set (tp_links u) \<Longrightarrow> wl_node l < ?n \<and> \<not> has_mobility net (wl_node l)
       \<or> (\<exists>j < ?n. wl_end l = NodeEnd j \<and> \<not> has_mobility net j) \<Longrightarrow> drawn u l"
  let ?is = "ord (d_keys (tp_nodes u))" and ?s = "update_node_positions ord net u"
  have keys: "i \<in> set ?is \<longleftrightarrow> has_end u (NodeEnd i)" for i by (simp add: key_order_set[OF assms(3)] d_keys_iff d_has_def)
  then have "\<forall>i \<in> set ?is. has_end u (NodeEnd i)" by blast
  note M = move_nodes[OF this, of net, folded update_node_positions_def]
  have mobile: "i \<in> set ?is" if "i < ?n" "has_mobility net i" for i unfolding keys using u(3)[OF that] by (simp add: d_has_def)
  have "case nd_mobility (net_nodes net ! i) of
      Some pos \<Rightarrow> get_position_of ?s (NodeEnd i) = transform_point_simulation_to_canvas pos
    | None \<Rightarrow> (node_name i, get_position_of ?s (NodeEnd i)) \<in> set (layout (tp_graph u))" if i: "i < ?n" for i
  proof (cases "nd_mobility (net_nodes net ! i)")
    case None
    then have "\<not> has_mobility net i" by (simp add: has_mobility_def)
    then show ?thesis using M[THEN conjunct1, rule_format, of "NodeEnd i"] u(4)[OF i] None by simp
  next
    case (Some pos)
    then have "has_mobility net i" using i by (simp add: has_mobility_def)
    then show ?thesis using M[THEN conjunct1, rule_format, of "NodeEnd i"] mobile[OF i] Some by simp
  qed
  moreover have "drawn ?s l" if "l \<in> set (tp_links ?s)" for l
  proof -
    obtain m where m: "m \<in> set (tp_links u)"
      "drawn u m \<or> (\<exists>i \<in> set ?is. has_mobility net i \<and> touches (NodeEnd i) m) \<longrightarrow> drawn ?s l"
      using M \<open>l \<in> set (tp_links ?s)\<close> by blast
    have "(wl_node m, wl_end m) \<in> set (link_ends u)" using m(1) by (auto simp: link_ends_def)
    then have w: "wl_node m < ?n" unfolding u(2) by (auto simp: node_links_def device_links_def channel_links_def split: if_splits)
    show ?thesis
    proof (cases "has_mobility net (wl_node m)")
      case True
      then show ?thesis using m(2) mobile[OF w] by (auto simp: touches_def)
    next
      case False
      then show ?thesis using m w u(5) by blast
    qed
  qed
  ultimately show ?thesis unfolding u(1) fst_conv snd_conv
    by (intro exI[of _ ?s] conjI) (simp_all add: links_moved u(2) list_all_iff)
qed

end
