(* ===== verification/VizViewProofs.thy ===== *)
theory VizViewProofs
  imports VizView VizTopoProofs
begin

text \<open>The samples kept, their averages, and what the pools of arrows show.\<close>

section \<open>Samples\<close>

lemma pop_old_spec: "0 \<le> factor \<Longrightarrow> pop_old factor xs = Inr (drop (length xs - nat factor) xs)"
proof (induction xs)
  case Nil
  then show ?case by (subst pop_old.simps) simp
next
  case (Cons x xs)
  show ?case
  proof (cases "int (length (x # xs)) > factor")
    case True
    then have "length (x # xs) - nat factor = Suc (length xs - nat factor)" by auto
    then show ?thesis using Cons True by (subst pop_old.simps) simp
  next
    case False
    then have "length (x # xs) - nat factor = 0" by auto
    then show ?thesis using False by (subst pop_old.simps) simp
  qed
qed

lemma pop_old_negative: "factor < 0 \<Longrightarrow> pop_old factor xs = Inl IndexError"
  by (induction xs; subst pop_old.simps; simp)

lemma add_sample_get:
  "d_get (add_sample k b d) k' =
     (if k' = k then Some (case d_get d k of None \<Rightarrow> (b, 1) | Some (x, n) \<Rightarrow> (x + b, n + 1)) else d_get d k')"
  by (auto simp: add_sample_def Let_def dict_simps split: option.splits prod.splits)

definition total_of :: "('a \<Rightarrow> 'k) \<Rightarrow> ('a \<Rightarrow> int) \<Rightarrow> 'a list \<Rightarrow> 'k \<Rightarrow> (int \<times> int) option" where
  "total_of key bytes xs k =
     (let ys = filter (\<lambda>x. key x = k) xs in if ys = [] then None else Some (sum_list (map bytes ys), int (length ys)))"

lemma total_of_snoc:
  "total_of key bytes (xs @ [x]) k =
     (if k = key x then Some (case total_of key bytes xs k of None \<Rightarrow> (bytes x, 1) | Some (b, n) \<Rightarrow> (b + bytes x, n + 1))
      else total_of key bytes xs k)"
  by (auto simp: total_of_def Let_def)

lemma fold_samples: "d_get (fold (\<lambda>x. add_sample (key x) (bytes x)) xs []) k = total_of key bytes xs k"
proof (induction xs rule: rev_induct)
  case Nil
  show ?case by (simp add: total_of_def d_get_def)
next
  case (snoc x xs)
  then show ?case by (auto simp: total_of_snoc add_sample_get)
qed

lemma samples_ok: "d_ok d \<Longrightarrow> d_ok (fold (\<lambda>x. add_sample (key x) (bytes x)) xs d)"
  by (induction xs arbitrary: d) (simp_all add: add_sample_def Let_def split: prod.splits option.splits)

lemma fold_fold_concat: "fold (fold f) xss s = fold f (concat xss) s"
  by (induction xss arbitrary: s) simp_all

lemma transmissions_average_get:
  "d_get (transmissions_average sets) k = total_of (\<lambda>(t, r, b). (t, r)) (\<lambda>(t, r, b). b) (concat sets) k"
  "d_ok (transmissions_average sets)"
proof -
  have "transmissions_average sets = fold (\<lambda>x. add_sample ((\<lambda>(t, r, b). (t, r)) x) ((\<lambda>(t, r, b). b) x)) (concat sets) []"
    by (simp add: transmissions_average_def fold_fold_concat case_prod_beta')
  then show "d_get (transmissions_average sets) k = total_of (\<lambda>(t, r, b). (t, r)) (\<lambda>(t, r, b). b) (concat sets) k"
    "d_ok (transmissions_average sets)" by (simp_all only: fold_samples samples_ok d_ok_Nil)
qed

section \<open>Arrows\<close>

lemma get_node_position [simp]: "get_position_of (get_node j s) e = get_position_of s e"
  by (cases e) (auto simp: get_position_of.simps get_node_def NodeView_def d_has_def dict_simps split: option.splits)

definition rate_ok :: "view_env \<Rightarrow> int \<times> int \<Rightarrow> bool" where
  "rate_ok env = (\<lambda>(b, n). 0 < of_int b / of_int n / env_period env)"

lemma line_width_ok: "line_width env b n = (if rate_ok env (b, n) then Inr (max (1 / 10) (env_log env (of_int b / of_int n / env_period env) * (env_node_size env / 5))) else Inl ValueError)"
  by (simp add: line_width_def rate_ok_def Let_def not_less)

text \<open>The loop over the pairs: the pool is used from its end, new arrows are made when it is empty.\<close>

lemma show_transmissions:
  assumes "list_all (\<lambda>(k, v). rate_ok env v) items"
  shows "\<exists>new s'. act_fold (show_transmission env) items done s = (Inr (done @ new), s')
    \<and> map ar_points new = map (\<lambda>((t, r), v). Some (get_position_of (vw_topo s) (NodeEnd t), get_position_of (vw_topo s) (NodeEnd r))) items
    \<and> list_all (\<lambda>a. ar_vis a = Visible \<and> lb_vis a = VisibleAboveThreshold \<and> 1 / 10 \<le> ar_width a) new
    \<and> vw_tx_arrows s' = take (length (vw_tx_arrows s) - length items) (vw_tx_arrows s)
    \<and> vw_last_tx s' = vw_last_tx s \<and> (\<forall>e. get_position_of (vw_topo s') e = get_position_of (vw_topo s) e)"
  using assms
proof (induction items arbitrary: "done" s)
  case (Cons item items)
  obtain t r b n where item: "item = ((t, r), (b, n))" by (metis prod.exhaust)
  have ok: "rate_ok env (b, n)" "list_all (\<lambda>(k, v). rate_ok env v) items" using Cons.prems item by simp_all
  let ?s = "s\<lparr>vw_topo := get_node r (get_node t (vw_topo s))\<rparr>"
  define u a where u: "u = (if vw_tx_arrows s = [] then ?s else ?s\<lparr>vw_tx_arrows := butlast (vw_tx_arrows s)\<rparr>)"
    and a: "a = (if vw_tx_arrows s = [] then new_arrow else last (vw_tx_arrows s))"
  let ?pos = "\<lambda>i. get_position_of (vw_topo s) (NodeEnd i)"
  let ?w = "max (1 / 10) (env_log env (of_int b / of_int n / env_period env) * (env_node_size env / 5))"
  let ?a = "transmission_arrow env (?pos t) (?pos r) b n ?w a"
  have "show_transmission env item done s = (Inr (done @ [?a]), u)"
    using ok(1) by (simp add: show_transmission_def item next_tx_arrow_def u a line_width_ok act_assoc)
  then have step: "act_fold (show_transmission env) (item # items) done s = act_fold (show_transmission env) items (done @ [?a]) u" by simp
  have uf: "vw_tx_arrows u = butlast (vw_tx_arrows s)" "vw_last_tx u = vw_last_tx s" "get_position_of (vw_topo u) e = get_position_of (vw_topo s) e" for e
    by (simp_all add: u)
  obtain new s' where n: "act_fold (show_transmission env) items (done @ [?a]) u = (Inr ((done @ [?a]) @ new), s')"
    "map ar_points new = map (\<lambda>((t, r), v). Some (get_position_of (vw_topo u) (NodeEnd t), get_position_of (vw_topo u) (NodeEnd r))) items"
    "list_all (\<lambda>a. ar_vis a = Visible \<and> lb_vis a = VisibleAboveThreshold \<and> 1 / 10 \<le> ar_width a) new"
    "vw_tx_arrows s' = take (length (vw_tx_arrows u) - length items) (vw_tx_arrows u)"
    "vw_last_tx s' = vw_last_tx u" "\<forall>e. get_position_of (vw_topo s') e = get_position_of (vw_topo u) e"
    using Cons.IH[OF ok(2), of "done @ [?a]" u] by blast
  have fields: "ar_points ?a = Some (?pos t, ?pos r)" "ar_vis ?a = Visible" "lb_vis ?a = VisibleAboveThreshold" "1 / 10 \<le> ar_width ?a"
    by (simp_all add: transmission_arrow_def Let_def)
  show ?case unfolding step
    using n fields by (intro exI[of _ "?a # new"] exI[of _ s']) (simp add: uf item butlast_conv_take min_def)
qed simp

lemma show_transmissions_error:
  assumes "\<not> list_all (\<lambda>(k, v). rate_ok env v) items"
  shows "fst (act_fold (show_transmission env) items done s) = Inl ValueError"
  using assms
proof (induction items arbitrary: "done" s)
  case (Cons item items)
  obtain t r b n where item: "item = ((t, r), (b, n))" by (metis prod.exhaust)
  show ?case
  proof (cases "rate_ok env (b, n)")
    case True
    obtain new u where "act_fold (show_transmission env) [item] done s = (Inr (done @ new), u)"
      using show_transmissions[of env "[item]" "done" s] True item by auto
    then have "show_transmission env item done s = (Inr (done @ new), u)"
      by (cases "show_transmission env item done s"; cases "fst (show_transmission env item done s)") (auto simp: act_bind_def)
    then show ?thesis using Cons.IH[of "done @ new" u] Cons.prems True item by simp
  next
    case False
    then have "fst (show_transmission env item done s) = Inl ValueError"
      by (auto simp: show_transmission_def item next_tx_arrow_def line_width_ok act_assoc)
    then show ?thesis by (cases "show_transmission env item done s") simp
  qed
qed simp


section \<open>The whole view of the transmissions\<close>

definition sample_totals :: "(nat \<times> nat \<times> int) list list \<Rightarrow> nat \<times> nat \<Rightarrow> (int \<times> int) option" where
  "sample_totals sets = total_of (\<lambda>(t, r, b). (t, r)) (\<lambda>(t, r, b). b) (concat sets)"

lemma dict_items_spec:
  assumes "key_order ord" "d_ok d"
  shows "distinct (map fst (dict_items ord d))" "(k, v) \<in> set (dict_items ord d) \<longleftrightarrow> d_get d k = Some v"
proof -
  have "map fst (dict_items ord d) = ord (d_keys d)" by (simp add: dict_items_def comp_def)
  then show "distinct (map fst (dict_items ord d))" using key_order_distinct[OF assms(1)] assms(2) by (simp add: d_ok_distinct_keys)
  show "(k, v) \<in> set (dict_items ord d) \<longleftrightarrow> d_get d k = Some v"
    using key_order_set[OF assms(1), of "d_keys d"] by (auto simp: dict_items_def image_iff d_keys_iff)
qed

lemma total_count: "total_of key bytes xs k = Some (b, n) \<Longrightarrow> 0 < n"
  by (auto simp: total_of_def Let_def split: if_splits)

text \<open>An average is positive exactly if bytes were counted.\<close>

lemma rate_ok_positive: "0 < env_period env \<Longrightarrow> 0 < n \<Longrightarrow> rate_ok env (b, n) \<longleftrightarrow> 0 < b"
proof -
  assume "0 < env_period env" "0 < n"
  then have "0 < rat_of_int n * env_period env" by simp
  then show ?thesis by (auto simp: rate_ok_def zero_less_divide_iff)
qed

lemma update_transmissions_spec:
  assumes "key_order ord" "0 < env_period env" "items = dict_items ord (transmissions_average (vw_last_tx s))"
    "update_transmissions_view env ord s = (r, s')"
  shows "distinct (map fst items)" "(k, v) \<in> set items \<longleftrightarrow> sample_totals (vw_last_tx s) k = Some v"
    "if list_all (\<lambda>(k, b, n). 0 < b) items
     then r = Inr () \<and> (\<exists>new. vw_tx_arrows s' = new @ take (length (vw_tx_arrows s) - length items) (map hide_arrow (vw_tx_arrows s))
       \<and> map ar_points new = map (\<lambda>((t, u), v). Some (get_position_of (vw_topo s) (NodeEnd t), get_position_of (vw_topo s) (NodeEnd u))) items
       \<and> list_all (\<lambda>a. ar_vis a = Visible \<and> lb_vis a = VisibleAboveThreshold \<and> 1 / 10 \<le> ar_width a) new)
     else r = Inl ValueError"
proof -
  show d: "distinct (map fst items)" and v: "(k, v) \<in> set items \<longleftrightarrow> sample_totals (vw_last_tx s) k = Some v" for k v
    using dict_items_spec[OF assms(1) transmissions_average_get(2)[of "vw_last_tx s"]]
    unfolding assms(3) sample_totals_def transmissions_average_get(1) by simp_all
  have ok: "list_all (\<lambda>(k, v). rate_ok env v) items \<longleftrightarrow> list_all (\<lambda>(k, b, n). 0 < b) items"
    using v rate_ok_positive[OF assms(2)] total_count unfolding list_all_iff sample_totals_def by fast
  let ?s = "s\<lparr>vw_tx_arrows := map hide_arrow (vw_tx_arrows s)\<rparr>"
  have run: "update_transmissions_view env ord s = act_bind (act_fold (show_transmission env) items [])
      (\<lambda>new_arrows. act_do (\<lambda>s. s\<lparr>vw_tx_arrows := new_arrows @ vw_tx_arrows s\<rparr>)) ?s"
    by (simp add: update_transmissions_view_def assms(3))
  show "if list_all (\<lambda>(k, b, n). 0 < b) items
     then r = Inr () \<and> (\<exists>new. vw_tx_arrows s' = new @ take (length (vw_tx_arrows s) - length items) (map hide_arrow (vw_tx_arrows s))
       \<and> map ar_points new = map (\<lambda>((t, u), v). Some (get_position_of (vw_topo s) (NodeEnd t), get_position_of (vw_topo s) (NodeEnd u))) items
       \<and> list_all (\<lambda>a. ar_vis a = Visible \<and> lb_vis a = VisibleAboveThreshold \<and> 1 / 10 \<le> ar_width a) new)
     else r = Inl ValueError"
  proof (cases "list_all (\<lambda>(k, b, n). 0 < b) items")
    case True
    obtain new u where n: "act_fold (show_transmission env) items [] ?s = (Inr ([] @ new), u)"
      "map ar_points new = map (\<lambda>((t, r), v). Some (get_position_of (vw_topo ?s) (NodeEnd t), get_position_of (vw_topo ?s) (NodeEnd r))) items"
      "list_all (\<lambda>a. ar_vis a = Visible \<and> lb_vis a = VisibleAboveThreshold \<and> 1 / 10 \<le> ar_width a) new"
      "vw_tx_arrows u = take (length (vw_tx_arrows ?s) - length items) (vw_tx_arrows ?s)"
      using show_transmissions[of env items "[]" ?s] True ok by blast
    have "update_transmissions_view env ord s = (Inr (), u\<lparr>vw_tx_arrows := new @ vw_tx_arrows u\<rparr>)" unfolding run using n(1) by simp
    then have "r = Inr ()" "s' = u\<lparr>vw_tx_arrows := new @ vw_tx_arrows u\<rparr>" using assms(4) by simp_all
    then show ?thesis using True n(2-4) by (auto intro!: exI[of _ new])
  next
    case False
    have "fst (act_fold (show_transmission env) items [] ?s) = Inl ValueError" using show_transmissions_error False ok by blast
    then have "fst (update_transmissions_view env ord s) = Inl ValueError"
      unfolding run by (cases "act_fold (show_transmission env) items [] ?s") simp
    then show ?thesis using False assms(4) by simp
  qed
qed

section \<open>The window of samples\<close>

definition last_n :: "nat \<Rightarrow> 'a list \<Rightarrow> 'a list" where
  "last_n k xs = drop (length xs - k) xs"

lemma last_n_snoc: "last_n k (last_n k xs @ [x]) = last_n k (xs @ [x])"
proof (cases "length xs < k")
  case True
  then show ?thesis by (simp add: last_n_def)
next
  case False
  then have "length xs + 1 - k = 1 + (length xs - k)" "k \<le> length xs" by simp_all
  then show ?thesis by (cases k) (simp_all add: last_n_def drop_drop Suc_diff_le)
qed

lemma periodic_update:
  assumes "0 \<le> int_of_float (env_smoothing env * 10)"
  shows "do_simulation_periodic_update env tx dr s =
    (Inr (), s\<lparr>vw_last_tx := last_n (nat (int_of_float (env_smoothing env * 10))) (vw_last_tx s @ [tx]),
              vw_last_drops := last_n (nat (int_of_float (env_smoothing env * 10))) (vw_last_drops s @ [dr])\<rparr>)"
  using assms by (simp add: do_simulation_periodic_update_def Let_def pop_old_spec last_n_def)

lemma periodic_updates:
  assumes "0 \<le> int_of_float (env_smoothing env * 10)" "k = nat (int_of_float (env_smoothing env * 10))"
  shows "act_each (\<lambda>(tx, dr). do_simulation_periodic_update env tx dr) (xs @ [x]) s =
    (Inr (), s\<lparr>vw_last_tx := last_n k (vw_last_tx s @ map fst (xs @ [x])), vw_last_drops := last_n k (vw_last_drops s @ map snd (xs @ [x]))\<rparr>)"
proof (induction xs arbitrary: x rule: rev_induct)
  case Nil
  show ?case by (cases x) (simp add: periodic_update[OF assms(1)] assms(2))
next
  case (snoc y ys)
  obtain a b where x: "x = (a, b)" by (cases x)
  let ?m = "\<lambda>(tx, dr). do_simulation_periodic_update env tx dr"
  have run: "act_each ?m ((ys @ [y]) @ [x]) s = ?m x (s\<lparr>vw_last_tx := last_n k (vw_last_tx s @ map fst (ys @ [y])),
      vw_last_drops := last_n k (vw_last_drops s @ map snd (ys @ [y]))\<rparr>)"
    unfolding act_each_snoc[of ?m "ys @ [y]" x] by (rule act_bind_run(3)[where m = "act_each ?m (ys @ [y])" and s = s, OF snoc[of y]])
  show ?case unfolding run
    using last_n_snoc[of k "vw_last_tx s @ map fst (ys @ [y])" a] last_n_snoc[of k "vw_last_drops s @ map snd (ys @ [y])" b]
    by (simp add: periodic_update[OF assms(1)] assms(2) x)
qed

end
