(* ===== verification/VizSelect.thy ===== *)
theory VizSelect
  imports VizTopoProofs "HOL-Library.Word"
begin

text \<open>
  Selection, highlighting and dragging of nodes in the visualizer (\<open>core.py\<close>), and the nodes whose
  transmissions the simulator reports. A node has what it looks like (\<open>node_look\<close>) and the properties
  last given to its circle on the canvas (\<open>shape\<close>).
\<close>

unbundle bit_operations_syntax

record node_look =
  lk_selected :: bool
  lk_highlighted :: bool
  lk_size :: rat
  lk_color :: int
  lk_svg :: bool

record shape =
  sh_radius :: rat
  sh_fill :: int
  sh_line_width :: rat
  sh_stroke :: string

definition update_appearance :: "node_look \<Rightarrow> shape" where
  "update_appearance l =
     (let size = transform_distance_simulation_to_canvas (lk_size l); alpha = (if lk_svg l then 0x80 else 0xff)
      in \<lparr>sh_radius = size, sh_fill = (lk_color l AND 0xffffff00) OR alpha,
          sh_line_width = (if lk_selected l then size * (3 / 10) else size * (15 / 100)),
          sh_stroke = (if lk_highlighted l then ''yellow'' else ''black'')\<rparr>)"

definition DEFAULT_NODE_SIZE :: rat where
  "DEFAULT_NODE_SIZE = 3"

definition new_look :: node_look where
  "new_look = \<lparr>lk_selected = False, lk_highlighted = False, lk_size = DEFAULT_NODE_SIZE, lk_color = 0x808080ff, lk_svg = False\<rparr>"

datatype show_mode = ShowAll | ShowNone | ShowSelected

record selection =
  sl_nodes :: "(nat, node_look \<times> shape) dict"
  sl_selected :: "nat option"
  sl_mode :: show_mode
  sl_interest :: "nat list"
  sl_count :: nat

text \<open>A setter of a node changes one field and updates the circle.\<close>

definition set_look :: "nat \<Rightarrow> (node_look \<Rightarrow> node_look) \<Rightarrow> selection \<Rightarrow> selection" where
  "set_look i f s = (case d_get (sl_nodes s) i of None \<Rightarrow> s
     | Some (l, sh) \<Rightarrow> s\<lparr>sl_nodes := d_set i (f l, update_appearance (f l)) (sl_nodes s)\<rparr>)"

definition set_selected :: "bool \<Rightarrow> nat \<Rightarrow> selection \<Rightarrow> selection" where
  "set_selected b i = set_look i (\<lambda>l. l\<lparr>lk_selected := b\<rparr>)"

definition set_highlighted :: "bool \<Rightarrow> nat \<Rightarrow> selection \<Rightarrow> selection" where
  "set_highlighted b i = set_look i (\<lambda>l. l\<lparr>lk_highlighted := b\<rparr>)"

definition set_size :: "rat \<Rightarrow> nat \<Rightarrow> selection \<Rightarrow> selection" where
  "set_size v i = set_look i (\<lambda>l. l\<lparr>lk_size := v\<rparr>)"

definition set_node_color :: "int \<Rightarrow> nat \<Rightarrow> selection \<Rightarrow> selection" where
  "set_node_color c i = set_look i (\<lambda>l. l\<lparr>lk_color := c\<rparr>)"

definition set_svg_icon :: "rat option \<Rightarrow> rat option \<Rightarrow> nat \<Rightarrow> (selection, unit) act" where
  "set_svg_icon width height i =
     (if width = None \<and> height = None then act_raise ValueError else act_do (set_look i (\<lambda>l. l\<lparr>lk_svg := True\<rparr>)))"

definition init_node :: "nat \<Rightarrow> selection \<Rightarrow> selection" where
  "init_node i s =
     (if d_has (sl_nodes s) i then s else s\<lparr>sl_nodes := d_set i (new_look, update_appearance new_look) (sl_nodes s)\<rparr>)"

definition node_size_changed :: "rat \<Rightarrow> selection \<Rightarrow> selection" where
  "node_size_changed v s = fold (set_size v) (d_keys (sl_nodes s)) s"

text \<open>The nodes whose transmissions are asked for, in each mode.\<close>

definition set_nodes_of_interest :: "nat list \<Rightarrow> selection \<Rightarrow> selection" where
  "set_nodes_of_interest is s = s\<lparr>sl_interest := is\<rparr>"

definition interest_of_selected :: "selection \<Rightarrow> selection" where
  "interest_of_selected s = set_nodes_of_interest (case sl_selected s of None \<Rightarrow> [] | Some i \<Rightarrow> [i]) s"

definition set_show_transmissions_mode :: "show_mode \<Rightarrow> selection \<Rightarrow> selection" where
  "set_show_transmissions_mode mode s =
     (let s = s\<lparr>sl_mode := mode\<rparr> in case mode of
        ShowAll \<Rightarrow> set_nodes_of_interest [0..<sl_count s] s
      | ShowNone \<Rightarrow> set_nodes_of_interest [] s
      | ShowSelected \<Rightarrow> interest_of_selected s)"

definition select_node :: "nat option \<Rightarrow> (selection, unit) act" where
  "select_node node =
     act_bind (act_get (\<lambda>s. s)) (\<lambda>s.
       if (case node of None \<Rightarrow> False | Some i \<Rightarrow> \<not> d_has (sl_nodes s) i) then act_raise KeyError
       else if node = sl_selected s then act_ret ()
       else act_do (\<lambda>s.
         let s = (case sl_selected s of None \<Rightarrow> s | Some i \<Rightarrow> set_selected False i s);
             s = s\<lparr>sl_selected := node\<rparr>;
             s = (case node of None \<Rightarrow> s | Some i \<Rightarrow> set_selected True i s)
         in if sl_mode s = ShowSelected then interest_of_selected s else s))"

text \<open>The visualizer is made with all nodes of interest; the nodes come later.\<close>

definition Selection :: "nat \<Rightarrow> selection" where
  "Selection n = set_show_transmissions_mode ShowAll
     \<lparr>sl_nodes = [], sl_selected = None, sl_mode = ShowAll, sl_interest = [], sl_count = n\<rparr>"

datatype sel_event =
    NewNode nat | EnterNode nat | LeaveNode nat | ClickNode nat | ClickRoot | ModeToggled show_mode
  | SizeChanged rat | ColorSet int nat | IconSet "rat option" "rat option" nat

fun sel_handler :: "sel_event \<Rightarrow> (selection, unit) act" where
  "sel_handler (NewNode i) = act_do (init_node i)"
| "sel_handler (EnterNode i) = act_do (set_highlighted True i)"
| "sel_handler (LeaveNode i) = act_do (set_highlighted False i)"
| "sel_handler (ClickNode i) = select_node (Some i)"
| "sel_handler ClickRoot = select_node None"
| "sel_handler (ModeToggled m) = act_do (set_show_transmissions_mode m)"
| "sel_handler (SizeChanged v) = act_do (node_size_changed v)"
| "sel_handler (ColorSet c i) = act_do (set_node_color c i)"
| "sel_handler (IconSet w h i) = set_svg_icon w h i"

inductive sel_reaches :: "nat \<Rightarrow> selection \<Rightarrow> bool" where
  start: "sel_reaches n (Selection n)"
| event: "sel_reaches n s \<Longrightarrow> sel_handler e s = (r, s') \<Longrightarrow> sel_reaches n s'"

section \<open>Dragging\<close>

text \<open>A node is dragged with the second button: the position of its mobility model follows the pointer.
  The pointer is given in units of the canvas.\<close>

record drag_state =
  dg_canvas0 :: "rat \<times> rat"
  dg_sim0 :: "rat \<times> rat"

record dragger =
  dr_mob :: "nat \<Rightarrow> (rat \<times> rat) option"
  dr_state :: "drag_state option"
  dr_topo :: topology

definition begin_node_drag :: "nat \<Rightarrow> rat \<times> rat \<Rightarrow> dragger \<Rightarrow> dragger" where
  "begin_node_drag i pointer s =
     (case dr_mob s i of
        None \<Rightarrow> s
      | Some pos \<Rightarrow> if dr_state s \<noteq> None then s else s\<lparr>dr_state := Some \<lparr>dg_canvas0 = pointer, dg_sim0 = pos\<rparr>\<rparr>)"

definition node_drag_motion :: "nat \<Rightarrow> rat \<times> rat \<Rightarrow> dragger \<Rightarrow> bool \<times> dragger" where
  "node_drag_motion i pointer s =
     (case dr_mob s i of
        None \<Rightarrow> (False, s)
      | Some p \<Rightarrow> (case dr_state s of
          None \<Rightarrow> (False, s)
        | Some d \<Rightarrow>
            let dx = fst pointer - fst (dg_canvas0 d); dy = snd pointer - snd (dg_canvas0 d);
                pos = (fst (dg_sim0 d) + transform_distance_canvas_to_simulation dx,
                       snd (dg_sim0 d) + transform_distance_canvas_to_simulation dy)
            in (True, s\<lparr>dr_mob := (dr_mob s)(i := Some pos),
                        dr_topo := set_position (NodeEnd i) (transform_point_simulation_to_canvas pos) (dr_topo s)\<rparr>)))"

definition end_node_drag :: "nat \<Rightarrow> dragger \<Rightarrow> dragger" where
  "end_node_drag i s = (if dr_state s = None then s else s\<lparr>dr_state := None\<rparr>)"

section \<open>Lemmas\<close>

fun interest_of :: "show_mode \<Rightarrow> nat option \<Rightarrow> nat \<Rightarrow> nat list" where
  "interest_of ShowAll _ n = [0..<n]"
| "interest_of ShowNone _ _ = []"
| "interest_of ShowSelected None _ = []"
| "interest_of ShowSelected (Some i) _ = [i]"

definition sel_ok :: "selection \<Rightarrow> bool" where
  "sel_ok s \<longleftrightarrow> (\<forall>i l sh. d_get (sl_nodes s) i = Some (l, sh) \<longrightarrow> sh = update_appearance l \<and> (lk_selected l \<longleftrightarrow> sl_selected s = Some i))
     \<and> (\<forall>i. sl_selected s = Some i \<longrightarrow> d_has (sl_nodes s) i)
     \<and> sl_interest s = interest_of (sl_mode s) (sl_selected s) (sl_count s)"

lemma set_look_fields [simp]:
  "sl_selected (set_look i f s) = sl_selected s" "sl_mode (set_look i f s) = sl_mode s" "sl_interest (set_look i f s) = sl_interest s"
  "sl_count (set_look i f s) = sl_count s" "d_has (sl_nodes (set_look i f s)) j = d_has (sl_nodes s) j"
  "d_get (sl_nodes (set_look i f s)) j =
     (if j = i then map_option (\<lambda>(l, sh). (f l, update_appearance (f l))) (d_get (sl_nodes s) i) else d_get (sl_nodes s) j)"
  by (auto simp: set_look_def dict_simps d_has_def split: option.splits)

lemma set_look_ok: "sel_ok s \<Longrightarrow> (\<And>l. lk_selected (f l) = lk_selected l) \<Longrightarrow> sel_ok (set_look i f s)"
  unfolding sel_ok_def by (auto split: if_splits)

lemmas setters = set_selected_def set_highlighted_def set_size_def set_node_color_def

lemma interest_of_selected_eq: "interest_of_selected s = s\<lparr>sl_interest := interest_of ShowSelected (sl_selected s) (sl_count s)\<rparr>"
  by (simp add: interest_of_selected_def set_nodes_of_interest_def split: option.split)

lemma interest_not_selected: "m \<noteq> ShowSelected \<Longrightarrow> interest_of m v n = interest_of m w n"
  by (cases m) simp_all

lemma select_node_ok:
  assumes "sel_ok s" "select_node v s = (r, s')"
  shows "sel_ok s'"
  using assms
  by (cases "sl_mode s = ShowSelected"; cases v; cases "sl_selected s")
    (auto simp: select_node_def sel_ok_def setters Let_def interest_of_selected_eq
      intro: interest_not_selected split: if_splits)

lemma sel_handler_ok: "sel_ok s \<Longrightarrow> sel_handler e s = (r, s') \<Longrightarrow> sel_ok s'"
proof (cases e)
  case (NewNode i)
  assume "sel_ok s" "sel_handler e s = (r, s')"
  then show ?thesis using NewNode
    by (auto simp: sel_ok_def init_node_def dict_simps d_has_def new_look_def split: if_splits)
next
  case (SizeChanged v)
  assume a: "sel_ok s" "sel_handler e s = (r, s')"
  have "sel_ok (fold (set_size v) is s)" for "is" using a(1)
  proof (induction "is" arbitrary: s)
    case (Cons i "is")
    show ?case using Cons.IH[of "set_size v i s"] Cons.prems by (simp add: setters set_look_ok)
  qed simp
  then show ?thesis using a(2) SizeChanged by (auto simp: node_size_changed_def)
next
  case (ModeToggled m)
  assume "sel_ok s" "sel_handler e s = (r, s')"
  then show ?thesis using ModeToggled
    by (cases m; cases "sl_selected s") (auto simp: sel_ok_def set_show_transmissions_mode_def set_nodes_of_interest_def interest_of_selected_def Let_def)
next
  case (ClickNode i)
  assume "sel_ok s" "sel_handler e s = (r, s')"
  then show ?thesis using select_node_ok ClickNode by simp
next
  case ClickRoot
  assume "sel_ok s" "sel_handler e s = (r, s')"
  then show ?thesis using select_node_ok ClickRoot by simp
qed (auto simp: setters set_svg_icon_def intro: set_look_ok split: if_splits)

lemma sel_reaches_ok: "sel_reaches n s \<Longrightarrow> sel_ok s \<and> sl_count s = n"
proof (induction rule: sel_reaches.induct)
  case (start n)
  show ?case by (simp add: Selection_def sel_ok_def set_show_transmissions_mode_def set_nodes_of_interest_def dict_simps)
next
  case (event n s e r s')
  have "sl_count (fold (set_size v) is s) = sl_count s" for v "is" and s :: selection
    by (induction "is" arbitrary: s) (simp_all add: setters)
  then have "sl_count s' = sl_count s"
    using event.hyps(2) by (cases e) (auto simp: init_node_def setters set_svg_icon_def set_show_transmissions_mode_def
      set_nodes_of_interest_def interest_of_selected_def select_node_def node_size_changed_def Let_def split: if_splits option.splits show_mode.splits)
  then show ?case using event.IH sel_handler_ok [OF _ event.hyps(2)] by simp
qed


section \<open>A drag\<close>

lemma drag_motion:
  assumes "dr_mob s i = Some q" "dr_state s = Some d"
  shows "snd (node_drag_motion i p s) =
    s\<lparr>dr_mob := (dr_mob s)(i \<mapsto> (fst (dg_sim0 d) + (fst p - fst (dg_canvas0 d)) / PIXELS_PER_METER,
                                   snd (dg_sim0 d) + (snd p - snd (dg_canvas0 d)) / PIXELS_PER_METER)),
      dr_topo := set_position (NodeEnd i) (PIXELS_PER_METER * fst (dg_sim0 d) + (fst p - fst (dg_canvas0 d)),
                                           PIXELS_PER_METER * snd (dg_sim0 d) + (snd p - snd (dg_canvas0 d))) (dr_topo s)\<rparr>"
  using assms
  by (simp add: node_drag_motion_def Let_def transform_distance_canvas_to_simulation_def transform_point_simulation_to_canvas_def
    PIXELS_PER_METER_def algebra_simps)

text \<open>What holds while a node is dragged.\<close>

definition dragging :: "nat \<Rightarrow> drag_state \<Rightarrow> dragger \<Rightarrow> dragger \<Rightarrow> bool" where
  "dragging i d s0 s \<longleftrightarrow> (\<exists>q. dr_mob s = (dr_mob s0)(i \<mapsto> q)) \<and> dr_state s = Some d \<and> has_end (dr_topo s) (NodeEnd i)
     \<and> (\<forall>e. e \<noteq> NodeEnd i \<longrightarrow> get_position_of (dr_topo s) e = get_position_of (dr_topo s0) e)"

lemma dragging_motion:
  assumes "dragging i d s0 s"
  shows "dragging i d s0 (snd (node_drag_motion i p s))"
    "dr_mob (snd (node_drag_motion i p s)) = (dr_mob s0)(i \<mapsto> (fst (dg_sim0 d) + (fst p - fst (dg_canvas0 d)) / PIXELS_PER_METER,
                                                              snd (dg_sim0 d) + (snd p - snd (dg_canvas0 d)) / PIXELS_PER_METER))"
    "get_position_of (dr_topo (snd (node_drag_motion i p s))) e =
      (if e = NodeEnd i then (PIXELS_PER_METER * fst (dg_sim0 d) + (fst p - fst (dg_canvas0 d)),
                              PIXELS_PER_METER * snd (dg_sim0 d) + (snd p - snd (dg_canvas0 d)))
       else get_position_of (dr_topo s0) e)"
proof -
  obtain q where q: "dr_mob s = (dr_mob s0)(i \<mapsto> q)" and d: "dr_state s = Some d" and h: "has_end (dr_topo s) (NodeEnd i)"
    and o: "\<forall>e. e \<noteq> NodeEnd i \<longrightarrow> get_position_of (dr_topo s) e = get_position_of (dr_topo s0) e"
    using assms unfolding dragging_def by blast
  have "dr_mob s i = Some q" using q by simp
  note m = drag_motion[OF this d, of p]
  show f: "dr_mob (snd (node_drag_motion i p s)) = (dr_mob s0)(i \<mapsto> (fst (dg_sim0 d) + (fst p - fst (dg_canvas0 d)) / PIXELS_PER_METER,
      snd (dg_sim0 d) + (snd p - snd (dg_canvas0 d)) / PIXELS_PER_METER))"
    unfolding m using q by simp
  show "get_position_of (dr_topo (snd (node_drag_motion i p s))) e =
      (if e = NodeEnd i then (PIXELS_PER_METER * fst (dg_sim0 d) + (fst p - fst (dg_canvas0 d)),
                              PIXELS_PER_METER * snd (dg_sim0 d) + (snd p - snd (dg_canvas0 d)))
       else get_position_of (dr_topo s0) e)" for e
    unfolding m using o set_position_spec(1)[OF h] by simp
  then have "\<forall>e. e \<noteq> NodeEnd i \<longrightarrow> get_position_of (dr_topo (snd (node_drag_motion i p s))) e = get_position_of (dr_topo s0) e" by simp
  moreover have "dr_state (snd (node_drag_motion i p s)) = Some d" "has_end (dr_topo (snd (node_drag_motion i p s))) (NodeEnd i)"
    unfolding m using d set_position_spec(2)[OF h] h by (simp_all del: has_end.simps)
  ultimately show "dragging i d s0 (snd (node_drag_motion i p s))" using f unfolding dragging_def by blast
qed

lemma drag_motions:
  assumes "dr_mob s i = Some pos" "dr_state s = None" "has_end (dr_topo s) (NodeEnd i)"
  shows "dragging i \<lparr>dg_canvas0 = p0, dg_sim0 = pos\<rparr> s (fold (\<lambda>p s. snd (node_drag_motion i p s)) ps (begin_node_drag i p0 s))"
proof (induction ps rule: rev_induct)
  case Nil
  have "dr_mob s = (dr_mob s)(i \<mapsto> pos)" using assms(1) by (simp add: fun_upd_idem)
  then have q: "\<exists>q. dr_mob s = (dr_mob s)(i \<mapsto> q)" by blast
  have "begin_node_drag i p0 s = s\<lparr>dr_state := Some \<lparr>dg_canvas0 = p0, dg_sim0 = pos\<rparr>\<rparr>" using assms(1,2) by (simp add: begin_node_drag_def)
  then have f: "dr_mob (begin_node_drag i p0 s) = dr_mob s" "dr_topo (begin_node_drag i p0 s) = dr_topo s"
    "dr_state (begin_node_drag i p0 s) = Some \<lparr>dg_canvas0 = p0, dg_sim0 = pos\<rparr>"
    by simp_all
  show ?case unfolding dragging_def fold_simps f using q assms(3) by blast
next
  case (snoc p ps)
  then show ?case using dragging_motion(1) by simp
qed

lemma drag_released: "node_drag_motion i q (end_node_drag i s) = (False, end_node_drag i s)"
  by (simp add: node_drag_motion_def end_node_drag_def split: option.split)

end
