(* ===== verification/VizHud.thy ===== *)
theory VizHud
  imports VizTopo PyFormat
begin

text \<open>
  The axes of the visualizer (\<open>hud.py\<close>): the distance of their marks, the marks, and the pool of labels. The
  corners of what the window shows and the zoom are given; a path is the list of its segments. The loop
  over the marks has no value if it does not end.
\<close>

section \<open>The distance of the marks\<close>

text \<open>\<open>pow(10, rint(log10(y)))\<close>: the whole number next to the logarithm of \<open>y\<close> is half the whole part of the
  logarithm of \<open>10 * y\<^sup>2\<close>, rounded down.\<close>

definition nearest_pow10 :: "rat \<Rightarrow> rat" where
  "nearest_pow10 y = pow10 (exp10 (10 * y\<^sup>2) div 2)"

definition rint :: "rat \<Rightarrow> int" where
  "rint x = \<lfloor>x + 1 / 2\<rfloor>"

text \<open>One round of the loop that is to find the best distance, with the number of divisions it is after.\<close>

definition division_round :: "rat \<Rightarrow> rat \<Rightarrow> rat \<Rightarrow> nat \<Rightarrow> rat \<times> rat \<times> rat \<Rightarrow> rat \<times> rat \<times> rat" where
  "division_round xi width text_width n = (\<lambda>(x0, d, ndiv).
     let dx_over_ndiv = width / 5;
         d = nearest_pow10 dx_over_ndiv;
         d = (if \<bar>d / 2 - dx_over_ndiv\<bar> < \<bar>d - dx_over_ndiv\<bar> then d / 2
              else if \<bar>d * 2 - dx_over_ndiv\<bar> < \<bar>d - dx_over_ndiv\<bar> then d * 2
              else d)
     in (d * of_int \<lceil>xi / d\<rceil> - d, d, if n > 1 then of_int (rint (width / text_width)) else ndiv))"

definition compute_divisions :: "rat \<Rightarrow> rat \<Rightarrow> (rat \<times> rat) res" where
  "compute_divisions xi xf =
     (if xf > xi then
        let dx = xf - xi; text_width = dx / 5 / 2;
            (x0, d, ndiv) = fold (division_round xi dx text_width) [0..<5] (0, 0, 5)
        in Inr (x0, d)
      else Inl AssertionError)"

partial_function (option) axis_loop :: "rat \<Rightarrow> rat \<Rightarrow> rat \<Rightarrow> rat list \<Rightarrow> rat list option" where
  "axis_loop x d stop marks = (if x < stop then axis_loop (x + d) d stop (marks @ [x]) else Some marks)"

section \<open>The axes\<close>

record axis_label =
  al_visible :: bool
  al_font :: string
  al_text :: string
  al_anchor :: string
  al_pos :: "rat \<times> rat"

record axes =
  ax_visible :: bool
  ax_labels :: "axis_label list"
  ax_hwidth :: rat
  ax_hpath :: "((rat \<times> rat) \<times> (rat \<times> rat)) list"
  ax_vwidth :: rat
  ax_vpath :: "((rat \<times> rat) \<times> (rat \<times> rat)) list"
  ax_lines :: bool

record hud_env =
  he_zoom :: "rat option"
  he_corner1 :: "rat \<times> rat"
  he_corner2 :: "rat \<times> rat"

definition new_label :: axis_label where
  "new_label = \<lparr>al_visible = True, al_font = '''', al_text = '''', al_anchor = '''', al_pos = (0, 0)\<rparr>"

definition hide_label :: "axis_label \<Rightarrow> axis_label" where
  "hide_label l = l\<lparr>al_visible := False\<rparr>"

text \<open>\<open>"%G"\<close>.\<close>

definition fmt_G :: "rat \<Rightarrow> string" where
  "fmt_G x = map upper_char (fmt_g 6 x)"

definition label_font :: "rat \<Rightarrow> string" where
  "label_font zoom = ''Sans Serif '' @ fmt_f 6 (let v = 12 / zoom in of_int (if v \<ge> 0 then \<lfloor>v\<rfloor> else \<lceil>v\<rceil>))"

text \<open>The first label that is not used, or a new one, gets its properties.\<close>

definition get_label :: "(axis_label \<Rightarrow> axis_label) \<Rightarrow> axes \<times> axis_label list \<Rightarrow> axes \<times> axis_label list" where
  "get_label f = (\<lambda>(s, unused).
     case unused of
       [] \<Rightarrow> (s\<lparr>ax_labels := ax_labels s @ [f new_label]\<rparr>, [])
     | l # ls \<Rightarrow> (s\<lparr>ax_labels := ax_labels s @ [f (l\<lparr>al_visible := True\<rparr>)]\<rparr>, ls))"

definition mark_label :: "rat \<Rightarrow> string \<Rightarrow> rat \<Rightarrow> rat \<times> rat \<Rightarrow> axis_label \<Rightarrow> axis_label" where
  "mark_label zoom anchor x pos l = l\<lparr>al_font := label_font zoom, al_text := fmt_G x, al_anchor := anchor, al_pos := pos\<rparr>"

definition draw_horizontal :: "hud_env \<Rightarrow> rat \<Rightarrow> axes \<times> axis_label list \<Rightarrow> (axis_label list res \<times> axes) option" where
  "draw_horizontal env zoom = (\<lambda>(s, unused).
     let (x1, y1) = he_corner1 env; (x2, y2) = he_corner2 env; offset = 10 / zoom; line_width = 5 / zoom;
         s = s\<lparr>ax_hwidth := line_width\<rparr>; yc = y2 - line_width / 2; stop = x2 / PIXELS_PER_METER
     in case compute_divisions (x1 / PIXELS_PER_METER) stop of
          Inl e \<Rightarrow> Some (Inl e, s)
        | Inr (x0, xdiv) \<Rightarrow> map_option (\<lambda>marks.
            let (s, unused) = fold (\<lambda>x. get_label (mark_label zoom ''S'' x (PIXELS_PER_METER * x, yc - offset))) marks (s, unused)
            in (Inr unused,
                s\<lparr>ax_hpath := ((x1, yc), (x2, yc)) # map (\<lambda>x. ((PIXELS_PER_METER * x, yc - offset), (PIXELS_PER_METER * x, yc))) marks\<rparr>))
            (axis_loop x0 xdiv stop []))"

definition draw_vertical :: "hud_env \<Rightarrow> rat \<Rightarrow> axes \<times> axis_label list \<Rightarrow> (axis_label list res \<times> axes) option" where
  "draw_vertical env zoom = (\<lambda>(s, unused).
     let (x1, y1) = he_corner1 env; (x2, y2) = he_corner2 env; offset = 10 / zoom; line_width = 5 / zoom;
         s = s\<lparr>ax_vwidth := line_width\<rparr>; xc = x1 + line_width / 2; stop = y2 / PIXELS_PER_METER
     in case compute_divisions (y1 / PIXELS_PER_METER) stop of
          Inl e \<Rightarrow> Some (Inl e, s)
        | Inr (y0, ydiv) \<Rightarrow> map_option (\<lambda>marks.
            let (s, unused) = fold (\<lambda>y. get_label (mark_label zoom ''W'' y (xc + offset, PIXELS_PER_METER * y))) marks (s, unused)
            in (Inr unused,
                s\<lparr>ax_vpath := ((xc, y1), (xc, y2)) # map (\<lambda>y. ((xc, PIXELS_PER_METER * y), (xc + offset, PIXELS_PER_METER * y))) marks\<rparr>))
            (axis_loop y0 ydiv stop []))"

text \<open>An exception leaves the labels drawn so far; those not used yet are lost.\<close>

definition hud_update_view :: "hud_env \<Rightarrow> axes \<Rightarrow> (unit res \<times> axes) option" where
  "hud_update_view env s =
     (case he_zoom env of
        None \<Rightarrow> Some (Inr (), s)
      | Some zoom \<Rightarrow>
          let unused = map hide_label (ax_labels s); s = s\<lparr>ax_labels := []\<rparr>
          in if zoom = 0 then Some (Inl ZeroDivisionError, s)
             else case draw_horizontal env zoom (s, unused) of
                 None \<Rightarrow> None
               | Some (Inl e, s) \<Rightarrow> Some (Inl e, s)
               | Some (Inr unused, s) \<Rightarrow>
                   (case draw_vertical env zoom (s, unused) of
                      None \<Rightarrow> None
                    | Some (Inl e, s) \<Rightarrow> Some (Inl e, s)
                    | Some (Inr unused, s) \<Rightarrow> Some (Inr (), s\<lparr>ax_labels := ax_labels s @ unused\<rparr>)))"

definition set_visible :: "bool \<Rightarrow> axes \<Rightarrow> axes" where
  "set_visible visible s =
     (let s = s\<lparr>ax_visible := visible, ax_lines := visible\<rparr>
      in if visible then s else s\<lparr>ax_labels := map hide_label (ax_labels s)\<rparr>)"

text \<open>The adjustments of the window changed.\<close>

definition hud_update :: "hud_env \<Rightarrow> axes \<Rightarrow> (unit res \<times> axes) option" where
  "hud_update env s = (if ax_visible s then hud_update_view env s else Some (Inr (), s))"

end
