(* ===== verification/VizHudProofs.thy ===== *)
theory VizHudProofs
  imports VizHud
begin

text \<open>The distance chosen for the marks of the axes, the marks, and the pool of labels.\<close>

section \<open>Powers of ten\<close>

lemma pow10_power_int: "pow10 e = 10 powi e"
proof (cases "0 \<le> e")
  case True
  then show ?thesis by (simp add: pow10_def power_int_def)
next
  case False
  have "inverse (10 :: rat) ^ k = 1 / 10 ^ k" for k by (simp add: power_one_over)
  then show ?thesis using False by (simp only: pow10_def power_int_def if_False)
qed

lemma pow10_add: "pow10 (a + b) = pow10 a * pow10 b"
  by (simp add: pow10_power_int power_int_add)

lemma pow10_pos: "0 < pow10 e"
  by (simp add: pow10_def)

lemma pow10_mono: "a \<le> b \<Longrightarrow> pow10 a \<le> pow10 b"
  unfolding pow10_power_int by (rule power_int_increasing) simp_all

lemma pow10_consts: "pow10 0 = 1" "pow10 1 = 10" "pow10 (- 1) = 1 / 10"
  by (simp_all add: pow10_def)

lemma exp10_spec: "0 < r \<Longrightarrow> pow10 (exp10 r) \<le> r \<and> r < pow10 (exp10 r + 1)"
proof (induction r rule: exp10.induct)
  case (1 r)
  consider "10 \<le> r" | "r < 1" | "1 \<le> r" "r < 10" by linarith
  then show ?case
  proof cases
    case 1
    then have "exp10 r = exp10 (r / 10) + 1" by (simp add: exp10.simps[of r])
    moreover have "pow10 (exp10 (r / 10)) \<le> r / 10 \<and> r / 10 < pow10 (exp10 (r / 10) + 1)" using "1.IH"(1)[OF 1] "1.prems" by simp
    ultimately show ?thesis by (simp only: pow10_add pow10_consts) linarith
  next
    case 2
    then have "exp10 r = exp10 (r * 10) - 1" using "1.prems" by (simp add: exp10.simps[of r])
    moreover have "pow10 (exp10 (r * 10)) \<le> r * 10 \<and> r * 10 < pow10 (exp10 (r * 10) + 1)" using "1.IH"(2) 2 "1.prems" by simp
    moreover have "pow10 (e - 1) = pow10 e / 10" for e using pow10_add[of e "- 1"] by (simp add: pow10_consts)
    moreover have "exp10 (r * 10) - 1 + 1 = exp10 (r * 10)" by simp
    ultimately show ?thesis using pow10_add[of "exp10 (r * 10)" 1] unfolding pow10_consts by (simp only:) linarith
  next
    case 3
    then have "exp10 r = 0" by (simp add: exp10.simps[of r])
    then show ?thesis using 3 by (simp add: pow10_consts)
  qed
qed

lemma nearest_pow10_spec:
  assumes "0 < y"
  shows "0 < nearest_pow10 y" "(nearest_pow10 y)\<^sup>2 \<le> 10 * y\<^sup>2" "y\<^sup>2 < 10 * (nearest_pow10 y)\<^sup>2" "\<exists>n. nearest_pow10 y = pow10 n"
proof -
  define e where "e = exp10 (10 * y\<^sup>2)"
  define n where "n = e div 2"
  have p: "nearest_pow10 y = pow10 n" by (simp add: nearest_pow10_def n_def e_def)
  then show "0 < nearest_pow10 y" "\<exists>n. nearest_pow10 y = pow10 n" using pow10_pos by auto
  have e: "pow10 e \<le> 10 * y\<^sup>2" "10 * y\<^sup>2 < pow10 (e + 1)" using exp10_spec[of "10 * y\<^sup>2"] assms by (simp_all add: e_def)
  have "n + n \<le> e" "e + 1 \<le> n + n + (1 + 1)" by (simp_all add: n_def)
  then have "pow10 (n + n) \<le> pow10 e" "pow10 (e + 1) \<le> pow10 (n + n + (1 + 1))" by (auto intro: pow10_mono)
  then have "pow10 n * pow10 n \<le> 10 * y\<^sup>2" "10 * y\<^sup>2 < pow10 n * pow10 n * (10 * 10)"
    using e unfolding pow10_add pow10_consts by linarith+
  then show "(nearest_pow10 y)\<^sup>2 \<le> 10 * y\<^sup>2" "y\<^sup>2 < 10 * (nearest_pow10 y)\<^sup>2" unfolding p power2_eq_square by simp_all
qed

lemma nearest_pow10_near:
  assumes "0 < y"
  shows "31 * nearest_pow10 y \<le> 100 * y" "y < 32 / 10 * nearest_pow10 y"
proof -
  note p = nearest_pow10_spec[OF assms]
  have "961 * (nearest_pow10 y)\<^sup>2 \<le> 10000 * y\<^sup>2" using p(2) zero_le_power2[of y] by linarith
  then have "(31 * nearest_pow10 y)\<^sup>2 \<le> (100 * y)\<^sup>2" by (simp add: power_mult_distrib)
  then show "31 * nearest_pow10 y \<le> 100 * y" by (rule power2_le_imp_le) (use assms in simp)
  show "y < 32 / 10 * nearest_pow10 y"
  proof (rule ccontr)
    assume "\<not> y < 32 / 10 * nearest_pow10 y"
    then have "(32 / 10 * nearest_pow10 y)\<^sup>2 \<le> y\<^sup>2" using p(1) by (intro power_mono) simp_all
    then have "1024 * (nearest_pow10 y)\<^sup>2 \<le> 100 * y\<^sup>2" by (simp add: power_mult_distrib power_divide)
    moreover have "0 < (nearest_pow10 y)\<^sup>2" using p(1) by simp
    ultimately show False using p(3) by linarith
  qed
qed

section \<open>The distance\<close>

definition division_step :: "rat \<Rightarrow> rat" where
  "division_step y =
     (let d = nearest_pow10 y
      in if \<bar>d / 2 - y\<bar> < \<bar>d - y\<bar> then d / 2 else if \<bar>d * 2 - y\<bar> < \<bar>d - y\<bar> then d * 2 else d)"

lemma division_step_bounds:
  assumes "0 < y"
  shows "0 < division_step y" "3 / 5 * division_step y < y" "y < 8 / 5 * division_step y"
    "\<exists>n. division_step y \<in> {pow10 n / 2, pow10 n, 2 * pow10 n}"
proof -
  let ?p = "nearest_pow10 y"
  note near = nearest_pow10_near[OF assms] and p = nearest_pow10_spec(1,4)[OF assms]
  consider "y < 3 / 4 * ?p" "division_step y = ?p / 2" | "3 / 2 * ?p < y" "division_step y = ?p * 2"
    | "3 / 4 * ?p \<le> y" "y \<le> 3 / 2 * ?p" "division_step y = ?p"
    using p(1) by (force simp: division_step_def Let_def abs_if split: if_splits)
  then show "0 < division_step y" "3 / 5 * division_step y < y" "y < 8 / 5 * division_step y"
    using near p(1) by (cases; simp; linarith)+
  obtain n where "?p = pow10 n" using p(2) by blast
  then show "\<exists>n. division_step y \<in> {pow10 n / 2, pow10 n, 2 * pow10 n}"
    by (intro exI[of _ n]) (simp add: division_step_def Let_def)
qed

lemma compute_divisions_eq:
  "compute_divisions xi xf =
     (if xf > xi then Inr (let d = division_step ((xf - xi) / 5) in (d * of_int \<lceil>xi / d\<rceil> - d, d)) else Inl AssertionError)"
proof -
  have r: "division_round xi w t n v =
      (let d = division_step (w / 5) in (d * of_int \<lceil>xi / d\<rceil> - d, d, if n > 1 then of_int (rint (w / t)) else snd (snd v)))" for w t n v
    by (simp add: division_round_def division_step_def Let_def case_prod_beta)
  have "[0..<5] = [0, 1, 2, 3, 4 :: nat]" by (simp add: upt_rec)
  then show ?thesis by (simp add: compute_divisions_def r Let_def)
qed

lemma first_mark:
  assumes "0 < d"
  shows "xi - d \<le> d * of_int \<lceil>xi / d\<rceil> - d" "d * of_int \<lceil>xi / d\<rceil> - d < (xi :: rat)"
proof -
  have "xi \<le> of_int \<lceil>xi / d\<rceil> * d" using le_of_int_ceiling[of "xi / d"] assms by (metis pos_divide_le_eq)
  moreover have "of_int \<lceil>xi / d\<rceil> < xi / d + 1" by linarith
  then have "of_int \<lceil>xi / d\<rceil> * d < (xi / d + 1) * d" using assms by (rule mult_strict_right_mono)
  ultimately show "xi - d \<le> d * of_int \<lceil>xi / d\<rceil> - d" "d * of_int \<lceil>xi / d\<rceil> - d < xi"
    using assms by (simp_all add: algebra_simps)
qed

section \<open>The marks\<close>

definition marks_of :: "rat \<Rightarrow> rat \<Rightarrow> rat \<Rightarrow> rat list" where
  "marks_of x d stop = map (\<lambda>k. x + of_nat k * d) [0..<nat \<lceil>(stop - x) / d\<rceil>]"

lemma axis_loop_marks: "0 < d \<Longrightarrow> axis_loop x d stop ms = Some (ms @ marks_of x d stop)"
proof (induction "nat \<lceil>(stop - x) / d\<rceil>" arbitrary: x ms)
  case 0
  then have "\<not> x < stop" by (simp add: divide_le_0_iff)
  then show ?case using 0 by (subst axis_loop.simps) (simp add: marks_of_def)
next
  case (Suc n)
  have "0 < \<lceil>(stop - x) / d\<rceil>" using Suc.hyps(2) by linarith
  then have "0 < (stop - x) / d" by (simp only: zero_less_ceiling)
  then have "x < stop" using Suc.prems by (auto simp: zero_less_divide_iff)
  have "(stop - (x + d)) / d = (stop - x) / d - 1" using Suc.prems by (simp add: field_simps)
  then have n: "n = nat \<lceil>(stop - (x + d)) / d\<rceil>" using Suc.hyps(2) by simp
  have "marks_of x d stop = x # marks_of (x + d) d stop"
    unfolding marks_of_def n[symmetric] Suc.hyps(2)[symmetric]
    by (simp add: map_upt_Suc algebra_simps del: upt_Suc)
  then show ?case using Suc.hyps(1)[OF n Suc.prems] \<open>x < stop\<close> by (subst axis_loop.simps) simp
qed

lemma marks_count:
  assumes "xi < xf" "d = division_step ((xf - xi) / 5)" "x0 = d * of_int \<lceil>xi / d\<rceil> - d"
  shows "4 \<le> length (marks_of x0 d xf)" "length (marks_of x0 d xf) \<le> 9" "3 * d < xf - xi" "xf - xi < 8 * d"
proof -
  have y: "0 < (xf - xi) / 5" using assms(1) by simp
  note b = division_step_bounds[OF y, folded assms(2)] and f = first_mark[OF division_step_bounds(1)[OF y], folded assms(2), of xi, folded assms(3)]
  show w: "3 * d < xf - xi" "xf - xi < 8 * d" using b(2,3) by (auto simp: field_simps)
  have "3 * d < xf - x0" "xf - x0 < 9 * d" using w f b(1) by linarith+
  then have "3 < (xf - x0) / d" "(xf - x0) / d < 9" using b(1) by (simp_all add: less_divide_eq divide_less_eq)
  moreover define c where "c = \<lceil>(xf - x0) / d\<rceil>"
  ultimately have "4 \<le> c" "c \<le> 9" by linarith+
  moreover have "length (marks_of x0 d xf) = nat c" by (simp add: marks_of_def c_def)
  ultimately show "4 \<le> length (marks_of x0 d xf)" "length (marks_of x0 d xf) \<le> 9" by simp_all
qed

section \<open>The pool of labels\<close>

definition labels_for :: "rat \<Rightarrow> string \<Rightarrow> (rat \<Rightarrow> rat \<times> rat) \<Rightarrow> rat list \<Rightarrow> axis_label list \<Rightarrow> axis_label list" where
  "labels_for zoom anchor pos marks unused = map (\<lambda>(x, l). mark_label zoom anchor x (pos x) l)
     (zip marks (map (\<lambda>l. l\<lparr>al_visible := True\<rparr>) unused @ replicate (length marks - length unused) new_label))"

lemma get_label_simps:
  "get_label f (s, []) = (s\<lparr>ax_labels := ax_labels s @ [f new_label]\<rparr>, [])"
  "get_label f (s, l # ls) = (s\<lparr>ax_labels := ax_labels s @ [f (l\<lparr>al_visible := True\<rparr>)]\<rparr>, ls)"
  by (simp_all add: get_label_def)

lemma get_labels:
  "fold (\<lambda>x. get_label (mark_label zoom anchor x (pos x))) marks (s, unused) =
    (s\<lparr>ax_labels := ax_labels s @ labels_for zoom anchor pos marks unused\<rparr>, drop (length marks) unused)"
proof (induction marks arbitrary: s unused)
  case (Cons x marks)
  show ?case by (cases unused) (simp_all add: get_label_simps Cons labels_for_def)
qed (simp add: labels_for_def)

lemma labels_for_spec:
  "length (labels_for zoom anchor pos marks unused) = length marks" "map al_text (labels_for zoom anchor pos marks unused) = map fmt_G marks"
  "map al_pos (labels_for zoom anchor pos marks unused) = map pos marks" "list_all al_visible (labels_for zoom anchor pos marks unused)"
proof -
  let ?us = "map (\<lambda>l. l\<lparr>al_visible := True\<rparr>) unused @ replicate (length marks - length unused) new_label"
  have len: "length marks \<le> length ?us" by simp
  have m: "map fst (zip marks ?us) = marks" using len by (simp add: map_fst_zip_take)
  have f: "map (\<lambda>p. g (fst p)) (zip marks ?us) = map g marks" for g :: "rat \<Rightarrow> 'a"
  proof -
    have "map (\<lambda>p. g (fst p)) (zip marks ?us) = map g (map fst (zip marks ?us))" by (simp add: comp_def)
    then show ?thesis by (simp only: m)
  qed
  show "length (labels_for zoom anchor pos marks unused) = length marks" using len by (simp add: labels_for_def)
  show "map al_text (labels_for zoom anchor pos marks unused) = map fmt_G marks"
    using f[of fmt_G] by (simp add: labels_for_def mark_label_def case_prod_beta comp_def)
  show "map al_pos (labels_for zoom anchor pos marks unused) = map pos marks"
    using f[of pos] by (simp add: labels_for_def mark_label_def case_prod_beta comp_def)
  have us: "al_visible l" if "l \<in> set ?us" for l using that by (auto simp: new_label_def)
  have "al_visible (mark_label zoom anchor (fst p) (pos (fst p)) (snd p))" if "p \<in> set (zip marks ?us)" for p
    using us set_zip_rightD[of "fst p" "snd p" marks ?us] that by (simp add: mark_label_def del: set_append set_map set_replicate)
  then show "list_all al_visible (labels_for zoom anchor pos marks unused)"
    unfolding labels_for_def list_all_iff case_prod_beta set_map by blast
qed

section \<open>The view\<close>

definition marks_ok :: "rat \<Rightarrow> rat \<Rightarrow> rat \<Rightarrow> rat list \<Rightarrow> bool" where
  "marks_ok a b d ms \<longleftrightarrow> (\<exists>n. d \<in> {pow10 n / 2, pow10 n, 2 * pow10 n}) \<and> 4 \<le> length ms \<and> length ms \<le> 9
     \<and> (\<exists>k :: int. ms = map (\<lambda>j. d * of_int (k + int j)) [0..<length ms]) \<and> a - d \<le> hd ms \<and> hd ms < a \<and> last ms < b \<and> b \<le> last ms + d"

lemma axis_marks_ok:
  assumes "a < b" "d = division_step ((b - a) / 5)" "ms = marks_of (d * of_int \<lceil>a / d\<rceil> - d) d b"
  shows "marks_ok a b d ms"
proof -
  let ?x0 = "d * of_int \<lceil>a / d\<rceil> - d"
  have y: "0 < (b - a) / 5" using assms(1) by simp
  note div = division_step_bounds[OF y, folded assms(2)] and cnt = marks_count[OF assms(1,2) refl, folded assms(3)]
  have len: "length ms = nat \<lceil>(b - ?x0) / d\<rceil>" by (simp add: assms(3) marks_of_def)
  have nth: "ms ! j = ?x0 + of_nat j * d" if "j < length ms" for j using that by (simp add: assms(3) marks_of_def)
  have "ms \<noteq> []" using cnt(1) by auto
  then have h: "hd ms = ?x0" "last ms = ?x0 + of_nat (length ms - 1) * d" using nth by (simp_all add: hd_conv_nth last_conv_nth)
  have "ms = map (\<lambda>j. d * of_int (\<lceil>a / d\<rceil> - 1 + int j)) [0..<length ms]"
    by (rule nth_equalityI) (simp_all add: nth algebra_simps)
  moreover have "last ms < b \<and> b \<le> last ms + d"
  proof -
    define q where "q = (b - ?x0) / d"
    have "1 \<le> length ms" using cnt(1) by simp
    moreover have "length ms = nat \<lceil>q\<rceil>" by (simp only: len q_def)
    ultimately have "int (length ms) = \<lceil>q\<rceil>" by (cases "0 \<le> \<lceil>q\<rceil>") (simp_all del: ceiling_less_zero zero_le_ceiling zero_less_ceiling)
    then have n: "rat_of_nat (length ms) = of_int \<lceil>q\<rceil>" by (metis of_int_of_nat_eq)
    then have "rat_of_nat (length ms - 1) < q" "q \<le> rat_of_nat (length ms - 1) + 1"
      using \<open>1 \<le> length ms\<close> by (simp_all add: of_nat_diff) linarith+
    then have "rat_of_nat (length ms - 1) * d < b - ?x0" "b - ?x0 \<le> (rat_of_nat (length ms - 1) + 1) * d"
      using div(1) unfolding q_def by (simp_all add: less_divide_eq divide_le_eq)
    then show ?thesis by (simp add: h algebra_simps)
  qed
  ultimately show ?thesis using div(4) cnt(1,2) first_mark[OF div(1), of a] unfolding marks_ok_def h(1) by blast
qed

lemma hud_view_spec:
  assumes "he_zoom env = Some zoom" "0 < zoom" "he_corner1 env = (x1, y1)" "he_corner2 env = (x2, y2)" "x1 < x2" "y1 < y2"
  shows "\<exists>s' new dx xs dy ys. hud_update_view env s = Some (Inr (), s')
    \<and> ax_labels s' = new @ map hide_label (drop (length new) (ax_labels s)) \<and> list_all al_visible new \<and> map al_text new = map fmt_G (xs @ ys)
    \<and> map snd (tl (ax_hpath s')) = map (\<lambda>x. (PIXELS_PER_METER * x, y2 - ax_hwidth s' / 2)) xs
    \<and> map fst (tl (ax_vpath s')) = map (\<lambda>y. (x1 + ax_vwidth s' / 2, PIXELS_PER_METER * y)) ys
    \<and> marks_ok (x1 / PIXELS_PER_METER) (x2 / PIXELS_PER_METER) dx xs \<and> marks_ok (y1 / PIXELS_PER_METER) (y2 / PIXELS_PER_METER) dy ys"
proof -
  have ppm: "0 < PIXELS_PER_METER" by (simp add: PIXELS_PER_METER_def)
  let ?a = "x1 / PIXELS_PER_METER" and ?b = "x2 / PIXELS_PER_METER" and ?c = "y1 / PIXELS_PER_METER" and ?e = "y2 / PIXELS_PER_METER"
  have lt: "?a < ?b" "?c < ?e" using assms(5,6) ppm by (simp_all add: divide_strict_right_mono)
  define dx where "dx = division_step ((?b - ?a) / 5)"
  define dy where "dy = division_step ((?e - ?c) / 5)"
  define xs where "xs = marks_of (dx * of_int \<lceil>?a / dx\<rceil> - dx) dx ?b"
  define ys where "ys = marks_of (dy * of_int \<lceil>?c / dy\<rceil> - dy) dy ?e"
  have ok: "marks_ok ?a ?b dx xs" "marks_ok ?c ?e dy ys" using axis_marks_ok lt dx_def xs_def dy_def ys_def by blast+
  have "0 < (?b - ?a) / 5" "0 < (?e - ?c) / 5" using lt by simp_all
  then have pos: "0 < dx" "0 < dy" unfolding dx_def dy_def by (simp_all only: division_step_bounds(1))
  have run: "compute_divisions ?a ?b = Inr (dx * of_int \<lceil>?a / dx\<rceil> - dx, dx)" "axis_loop (dx * of_int \<lceil>?a / dx\<rceil> - dx) dx ?b [] = Some xs"
    "compute_divisions ?c ?e = Inr (dy * of_int \<lceil>?c / dy\<rceil> - dy, dy)" "axis_loop (dy * of_int \<lceil>?c / dy\<rceil> - dy) dy ?e [] = Some ys"
    using lt axis_loop_marks[OF pos(1)] axis_loop_marks[OF pos(2)]
    by (simp_all add: compute_divisions_eq dx_def dy_def xs_def ys_def Let_def)
  let ?unused = "map hide_label (ax_labels s)"
  let ?px = "\<lambda>x. (PIXELS_PER_METER * x, y2 - 5 / zoom / 2 - 10 / zoom)" and ?py = "\<lambda>y. (x1 + 5 / zoom / 2 + 10 / zoom, PIXELS_PER_METER * y)"
  define lx where "lx = labels_for zoom ''S'' ?px xs ?unused"
  define ly where "ly = labels_for zoom ''W'' ?py ys (drop (length xs) ?unused)"
  obtain s1 where s1: "draw_horizontal env zoom (s\<lparr>ax_labels := []\<rparr>, ?unused) = Some (Inr (drop (length xs) ?unused), s1)"
    "ax_labels s1 = lx" "map snd (tl (ax_hpath s1)) = map (\<lambda>x. (PIXELS_PER_METER * x, y2 - ax_hwidth s1 / 2)) xs"
    using assms(3,4) run(1,2) get_labels[of zoom "''S''" ?px xs] by (simp add: draw_horizontal_def Let_def lx_def comp_def)
  obtain s2 where s2: "draw_vertical env zoom (s1, drop (length xs) ?unused) = Some (Inr (drop (length xs + length ys) ?unused), s2)"
    "ax_labels s2 = lx @ ly" "map fst (tl (ax_vpath s2)) = map (\<lambda>y. (x1 + ax_vwidth s2 / 2, PIXELS_PER_METER * y)) ys"
    "ax_hpath s2 = ax_hpath s1" "ax_hwidth s2 = ax_hwidth s1"
    using assms(3,4) run(3,4) get_labels[of zoom "''W''" ?py ys] s1(2) by (simp add: draw_vertical_def Let_def ly_def comp_def add.commute)
  have "length (lx @ ly) = length xs + length ys" "list_all al_visible (lx @ ly)" "map al_text (lx @ ly) = map fmt_G (xs @ ys)"
    by (simp_all add: lx_def ly_def labels_for_spec)
  moreover have "hud_update_view env s = Some (Inr (), s2\<lparr>ax_labels := lx @ ly @ drop (length xs + length ys) ?unused\<rparr>)"
    using assms(1,2) s1(1) s2(1,2) by (simp add: hud_update_view_def Let_def)
  ultimately show ?thesis using ok s1(3) s2(3-5)
    by (intro exI[of _ "s2\<lparr>ax_labels := lx @ ly @ drop (length xs + length ys) ?unused\<rparr>"] exI[of _ "lx @ ly"] exI[of _ dx] exI[of _ xs] exI[of _ dy] exI[of _ ys])
      (simp add: drop_map)
qed

lemma hud_view_no_room:
  assumes "he_zoom env = Some zoom" "0 < zoom" "he_corner1 env = (x1, y1)" "he_corner2 env = (x2, y2)" "x2 \<le> x1"
  shows "\<exists>s'. hud_update_view env s = Some (Inl AssertionError, s') \<and> ax_labels s' = []"
proof -
  have "x2 / PIXELS_PER_METER \<le> x1 / PIXELS_PER_METER" using assms(5) by (simp add: PIXELS_PER_METER_def)
  then show ?thesis using assms by (simp add: hud_update_view_def draw_horizontal_def Let_def compute_divisions_eq)
qed

end
