(* ===== verification/VizPlugins.thy ===== *)
theory VizPlugins
  imports VizView
begin

text \<open>
  Two plugins of the visualizer: the links between WiFi stations and their access points
  (\<open>plugins/wifi_intrastructure_link.py\<close>) and the statistics of the interfaces
  (\<open>plugins/interface_statistics.py\<close>). Links are objects that nodes and stations share: they are in a list, and
  a number stands for a link. What the simulator says of devices is given. The tooltip and the table of
  the window are left out.
\<close>

section \<open>WiFi links\<close>

record wifi_link =
  wf_sta :: "nat option"
  wf_ap :: "nat option"
  wf_shown :: bool
  wf_points :: "((rat \<times> rat) \<times> (rat \<times> rat)) option"

datatype wifi_device = StaDevice nat | ApDevice string | OtherDevice

record wifi_monitor =
  wm_links :: "wifi_link list"
  wm_node_links :: "nat \<Rightarrow> nat list"
  wm_access_points :: "(string, nat) dict"
  wm_stations :: "(nat \<times> nat \<times> nat) list"
  wm_positions :: "nat \<Rightarrow> rat \<times> rat"

definition change_link :: "nat \<Rightarrow> (wifi_link \<Rightarrow> wifi_link) \<Rightarrow> wifi_monitor \<Rightarrow> wifi_monitor" where
  "change_link l f s = s\<lparr>wm_links := (wm_links s)[l := f (wm_links s ! l)]\<rparr>"

definition WifiLink :: "nat \<Rightarrow> wifi_monitor \<Rightarrow> wifi_monitor" where
  "WifiLink sta s = s\<lparr>wm_links := wm_links s @ [\<lparr>wf_sta = Some sta, wf_ap = None, wf_shown = True, wf_points = None\<rparr>]\<rparr>"

text \<open>\<open>list.remove\<close> takes the first one away, or raises.\<close>

definition remove_link :: "nat \<Rightarrow> nat \<Rightarrow> (wifi_monitor, unit) act" where
  "remove_link n l =
     act_bind (act_get (\<lambda>s. l \<in> set (wm_node_links s n))) (\<lambda>found.
       if found then act_do (\<lambda>s. s\<lparr>wm_node_links := (wm_node_links s)(n := remove1 l (wm_node_links s n))\<rparr>)
       else act_raise ValueError)"

definition add_link :: "nat \<Rightarrow> nat \<Rightarrow> wifi_monitor \<Rightarrow> wifi_monitor" where
  "add_link n l s = s\<lparr>wm_node_links := (wm_node_links s)(n := wm_node_links s n @ [l])\<rparr>"

text \<open>A station that has no node has no position.\<close>

definition wifi_update_points :: "nat \<Rightarrow> (wifi_monitor, unit) act" where
  "wifi_update_points l =
     act_bind (act_get (\<lambda>s. wm_links s ! l)) (\<lambda>k.
       case wf_ap k of
         None \<Rightarrow> act_ret ()
       | Some ap \<Rightarrow> (case wf_sta k of
           None \<Rightarrow> act_raise AttributeError
         | Some sta \<Rightarrow> act_do (\<lambda>s. change_link l (\<lambda>k. k\<lparr>wf_points := Some (wm_positions s sta, wm_positions s ap)\<rparr>) s)))"

definition set_ap :: "nat \<Rightarrow> nat option \<Rightarrow> (wifi_monitor, unit) act" where
  "set_ap l ap =
     act_bind (act_get (\<lambda>s. wf_ap (wm_links s ! l))) (\<lambda>old.
       if ap = old then act_ret ()
       else act_then (case old of None \<Rightarrow> act_ret () | Some n \<Rightarrow> remove_link n l)
           (act_then (act_do (change_link l (\<lambda>k. k\<lparr>wf_ap := ap\<rparr>)))
           (act_then (case ap of
               None \<Rightarrow> act_do (change_link l (\<lambda>k. k\<lparr>wf_shown := False\<rparr>))
             | Some n \<Rightarrow> act_do (\<lambda>s. change_link l (\<lambda>k. k\<lparr>wf_shown := True\<rparr>) (add_link n l s)))
             (wifi_update_points l))))"

definition destroy_link :: "nat \<Rightarrow> wifi_monitor \<Rightarrow> wifi_monitor" where
  "destroy_link l = change_link l (\<lambda>k. k\<lparr>wf_sta := None, wf_ap := None\<rparr>)"

definition scan_wifi_device :: "nat \<Rightarrow> wifi_device \<Rightarrow> wifi_monitor \<Rightarrow> wifi_monitor" where
  "scan_wifi_device node dev s =
     (case dev of
        OtherDevice \<Rightarrow> s
      | StaDevice d \<Rightarrow> (WifiLink node s)\<lparr>wm_stations := wm_stations s @ [(d, node, length (wm_links s))]\<rparr>
      | ApDevice bssid \<Rightarrow> s\<lparr>wm_access_points := d_set bssid node (wm_access_points s)\<rparr>)"

definition scan_nodes :: "(nat \<times> wifi_device list) list \<Rightarrow> wifi_monitor \<Rightarrow> wifi_monitor" where
  "scan_nodes nodes s =
     (let s = fold (\<lambda>(d, node, l). destroy_link l) (wm_stations s) s;
          s = s\<lparr>wm_access_points := [], wm_stations := []\<rparr>
      in fold (\<lambda>(node, devs). fold (scan_wifi_device node) devs) nodes s)"

definition no_bssid :: string where
  "no_bssid = ''00:00:00:00:00:00''"

definition update_station :: "(nat \<Rightarrow> bool) \<Rightarrow> (nat \<Rightarrow> string) \<Rightarrow> nat \<times> nat \<times> nat \<Rightarrow> (wifi_monitor, unit) act" where
  "update_station link_up bssid_of = (\<lambda>(d, node, l).
     if \<not> link_up d then set_ap l None
     else if bssid_of d = no_bssid then set_ap l None
     else act_bind (act_get (\<lambda>s. d_item (wm_access_points s) (bssid_of d))) (\<lambda>r. act_bind (act_lift r) (\<lambda>ap. set_ap l (Some ap))))"

definition wifi_periodic_update :: "(nat \<Rightarrow> bool) \<Rightarrow> (nat \<Rightarrow> string) \<Rightarrow> (wifi_monitor, unit) act" where
  "wifi_periodic_update link_up bssid_of =
     act_bind (act_get wm_stations) (\<lambda>sts. act_each (update_station link_up bssid_of) sts)"

definition wifi_update_view :: "(wifi_monitor, unit) act" where
  "wifi_update_view = act_bind (act_get wm_stations) (\<lambda>sts. act_each (\<lambda>(d, node, l). wifi_update_points l) sts)"

definition WifiLinkMonitor :: "(nat \<Rightarrow> rat \<times> rat) \<Rightarrow> wifi_monitor" where
  "WifiLinkMonitor positions = \<lparr>wm_links = [], wm_node_links = (\<lambda>_. []), wm_access_points = [], wm_stations = [], wm_positions = positions\<rparr>"

text \<open>\<open>Node.set_position\<close>, as far as these links go.\<close>

definition move_node :: "nat \<Rightarrow> rat \<times> rat \<Rightarrow> (wifi_monitor, unit) act" where
  "move_node n pos =
     act_then (act_do (\<lambda>s. s\<lparr>wm_positions := (wm_positions s)(n := pos)\<rparr>))
       (act_bind (act_get (\<lambda>s. wm_node_links s n)) (\<lambda>ls. act_each wifi_update_points ls))"

text \<open>The signals the plugin is connected to; nodes also move.\<close>

datatype wifi_event =
    TopologyScanned "(nat \<times> wifi_device list) list" | PeriodicUpdate "nat \<Rightarrow> bool" "nat \<Rightarrow> string" | UpdateView
  | NodeMoved nat "rat \<times> rat"

fun wifi_handler :: "wifi_event \<Rightarrow> (wifi_monitor, unit) act" where
  "wifi_handler (TopologyScanned nodes) = act_do (scan_nodes nodes)"
| "wifi_handler (PeriodicUpdate link_up bssid_of) = wifi_periodic_update link_up bssid_of"
| "wifi_handler UpdateView = wifi_update_view"
| "wifi_handler (NodeMoved n pos) = move_node n pos"

inductive wifi_reaches :: "wifi_monitor \<Rightarrow> bool" where
  start: "wifi_reaches (WifiLinkMonitor positions)"
| event: "wifi_reaches s \<Longrightarrow> wifi_handler e s = (r, s') \<Longrightarrow> wifi_reaches s'"

section \<open>Statistics of the interfaces\<close>

record if_counters =
  transmittedPackets :: int
  transmittedBytes :: int
  receivedPackets :: int
  receivedBytes :: int

record net_dev_stats =
  st_counters :: if_counters
  txPacketRate :: rat
  rxPacketRate :: rat
  txBitRate :: rat
  rxBitRate :: rat

definition NODE_STATISTICS_MEMORY :: int where
  "NODE_STATISTICS_MEMORY = 10"

type_synonym node_statistics = "(nat, if_counters list list) dict"

definition collect_node :: "nat \<times> if_counters list \<Rightarrow> node_statistics \<Rightarrow> node_statistics res" where
  "collect_node = (\<lambda>(node, counters) d.
     let raw_stats_list = (case d_get d node of None \<Rightarrow> [] | Some l \<Rightarrow> l)
     in rbind (pop_old NODE_STATISTICS_MEMORY (raw_stats_list @ [counters])) (\<lambda>l. Inr (d_set node l d)))"

fun collect_statistics :: "(nat \<times> if_counters list) list \<Rightarrow> node_statistics \<Rightarrow> node_statistics res" where
  "collect_statistics [] d = Inr d"
| "collect_statistics (x # xs) d = rbind (collect_node x d) (collect_statistics xs)"

definition interface_stats :: "rat \<Rightarrow> if_counters list \<Rightarrow> nat \<times> if_counters \<Rightarrow> net_dev_stats res" where
  "interface_stats k before = (\<lambda>(iface, now).
     rbind (py_nth before (int iface)) (\<lambda>old.
       let rate = (\<lambda>n. if k = 0 then Inl ZeroDivisionError else Inr (of_int n / k))
       in rbind (rate (transmittedPackets now - transmittedPackets old)) (\<lambda>tp.
          rbind (rate (receivedPackets now - receivedPackets old)) (\<lambda>rp.
          rbind (rate ((transmittedBytes now - transmittedBytes old) * 8)) (\<lambda>tb.
          rbind (rate ((receivedBytes now - receivedBytes old) * 8)) (\<lambda>rb.
            Inr \<lparr>st_counters = now, txPacketRate = tp, rxPacketRate = rp, txBitRate = tb, rxBitRate = rb\<rparr>))))))"

fun stats_each :: "rat \<Rightarrow> if_counters list \<Rightarrow> (nat \<times> if_counters) list \<Rightarrow> net_dev_stats list res" where
  "stats_each k before [] = Inr []"
| "stats_each k before (x # xs) = rbind (interface_stats k before x) (\<lambda>y. rbind (stats_each k before xs) (\<lambda>ys. Inr (y # ys)))"

definition get_interface_statistics :: "rat \<Rightarrow> node_statistics \<Rightarrow> nat \<Rightarrow> net_dev_stats list res" where
  "get_interface_statistics sample_period d node =
     (case d_get d node of
        None \<Rightarrow> Inr []
      | Some raw_stats_list \<Rightarrow>
          if int (length raw_stats_list) < NODE_STATISTICS_MEMORY then Inr []
          else if int (length raw_stats_list) \<noteq> NODE_STATISTICS_MEMORY then Inl AssertionError
          else stats_each (sample_period * of_int (NODE_STATISTICS_MEMORY - 1)) (hd raw_stats_list) (enumerate 0 (last raw_stats_list)))"

end
