(* ===== verification/VizPluginProofs.thy ===== *)
theory VizPluginProofs
  imports VizPlugins VizViewProofs
begin

text \<open>
  The links of WiFi stations: a link in use is in the list of its access point, once, and in no other.
  The statistics of the interfaces: the memory of samples and the rates.
\<close>

section \<open>The links in use\<close>

definition live_links :: "wifi_monitor \<Rightarrow> nat list" where
  "live_links s = map (\<lambda>(d, node, l). l) (wm_stations s)"

definition listed_once :: "wifi_monitor \<Rightarrow> nat \<Rightarrow> bool" where
  "listed_once s l \<longleftrightarrow> (\<forall>n. count_list (wm_node_links s n) l = (if wf_ap (wm_links s ! l) = Some n then 1 else 0))"

definition station_ok :: "wifi_monitor \<Rightarrow> nat \<times> nat \<times> nat \<Rightarrow> bool" where
  "station_ok s = (\<lambda>(d, node, l).
     l < length (wm_links s) \<and> wf_sta (wm_links s ! l) = Some node \<and> listed_once s l
       \<and> (wf_ap (wm_links s ! l) \<noteq> None \<longrightarrow> wf_shown (wm_links s ! l)))"

definition wifi_ok :: "wifi_monitor \<Rightarrow> bool" where
  "wifi_ok s \<longleftrightarrow> distinct (live_links s) \<and> (\<forall>x \<in> set (wm_stations s). station_ok s x)
     \<and> (\<forall>n. \<forall>l \<in> set (wm_node_links s n). l < length (wm_links s))
     \<and> (\<forall>l < length (wm_links s). wf_ap (wm_links s ! l) \<noteq> None \<longrightarrow> wf_sta (wm_links s ! l) \<noteq> None)"

definition same_wifi :: "wifi_monitor \<Rightarrow> wifi_monitor \<Rightarrow> bool" where
  "same_wifi s s' \<longleftrightarrow> wm_stations s' = wm_stations s \<and> wm_access_points s' = wm_access_points s
     \<and> wm_positions s' = wm_positions s \<and> length (wm_links s') = length (wm_links s)"

lemma same_wifi_refl [simp]: "same_wifi s s"
  by (simp add: same_wifi_def)

lemma same_wifi_trans: "same_wifi s s' \<Longrightarrow> same_wifi s' s'' \<Longrightarrow> same_wifi s s''"
  by (simp add: same_wifi_def)

lemma change_link_simps [simp]:
  "wm_stations (change_link l f s) = wm_stations s" "wm_access_points (change_link l f s) = wm_access_points s"
  "wm_positions (change_link l f s) = wm_positions s" "length (wm_links (change_link l f s)) = length (wm_links s)"
  "wm_node_links (change_link l f s) = wm_node_links s"
  by (simp_all add: change_link_def)

lemma change_link_nth [simp]:
  "l < length (wm_links s) \<Longrightarrow> wm_links (change_link l f s) ! l' = (if l' = l then f (wm_links s ! l) else wm_links s ! l')"
  by (auto simp: change_link_def)

lemma add_link_simps [simp]:
  "wm_stations (add_link n l s) = wm_stations s" "wm_access_points (add_link n l s) = wm_access_points s"
  "wm_positions (add_link n l s) = wm_positions s" "wm_links (add_link n l s) = wm_links s"
  "wm_node_links (add_link n l s) = (wm_node_links s)(n := wm_node_links s n @ [l])"
  by (simp_all add: add_link_def)

lemma count_remove1: "count_list (remove1 x xs) y = (if y = x then count_list xs y - 1 else count_list xs y)"
  by (induction xs) auto

lemma listed_member: "listed_once s l \<Longrightarrow> l \<in> set (wm_node_links s n) \<longleftrightarrow> wf_ap (wm_links s ! l) = Some n"
  unfolding listed_once_def by (metis count_list_0_iff zero_neq_one)

definition points_of :: "wifi_monitor \<Rightarrow> nat \<Rightarrow> ((rat \<times> rat) \<times> (rat \<times> rat)) option" where
  "points_of s l = (case wf_ap (wm_links s ! l) of
       None \<Rightarrow> wf_points (wm_links s ! l)
     | Some ap \<Rightarrow> Some (wm_positions s (the (wf_sta (wm_links s ! l))), wm_positions s ap))"

lemma update_points_run:
  assumes "wf_sta (wm_links s ! l) \<noteq> None"
  shows "wifi_update_points l s = (Inr (), if wf_ap (wm_links s ! l) = None then s
    else change_link l (\<lambda>k. k\<lparr>wf_points := points_of s l\<rparr>) s)"
  using assms by (auto simp: wifi_update_points_def points_of_def act_bind_def split: option.splits)

text \<open>A change of the access point of one link: what it does, and to nothing else.\<close>

definition only_link :: "nat \<Rightarrow> wifi_monitor \<Rightarrow> wifi_monitor \<Rightarrow> bool" where
  "only_link l s s' \<longleftrightarrow> same_wifi s s' \<and> wf_sta (wm_links s' ! l) = wf_sta (wm_links s ! l)
     \<and> (\<forall>l'. l' \<noteq> l \<longrightarrow> wm_links s' ! l' = wm_links s ! l' \<and> (\<forall>n. count_list (wm_node_links s' n) l' = count_list (wm_node_links s n) l'))
     \<and> (\<forall>n. set (wm_node_links s' n) \<subseteq> insert l (set (wm_node_links s n)))"

lemma only_link_refl [simp]: "only_link l s s"
  by (auto simp: only_link_def)

lemma only_link_trans: "only_link l s s' \<Longrightarrow> only_link l s' s'' \<Longrightarrow> only_link l s s''"
  unfolding only_link_def by (elim conjE, intro conjI) (blast intro: same_wifi_trans | simp | blast)+

lemma only_change: "l < length (wm_links s) \<Longrightarrow> (\<And>k. wf_sta (f k) = wf_sta k) \<Longrightarrow> only_link l s (change_link l f s)"
  by (auto simp: only_link_def same_wifi_def)

lemma only_add: "only_link l s (add_link n l s)"
  by (auto simp: only_link_def same_wifi_def)

lemma remove_link_run:
  assumes "listed_once s l" "wf_ap (wm_links s ! l) = Some n"
  obtains s' where "remove_link n l s = (Inr (), s')" "only_link l s s'" "wm_links s' = wm_links s" "\<And>m. l \<notin> set (wm_node_links s' m)"
proof
  let ?s = "s\<lparr>wm_node_links := (wm_node_links s)(n := remove1 l (wm_node_links s n))\<rparr>"
  show "remove_link n l s = (Inr (), ?s)" using assms listed_member[of s l n] by (simp add: remove_link_def act_bind_def)
  show "only_link l s ?s" using set_remove1_subset[of l "wm_node_links s n"] by (auto simp: only_link_def same_wifi_def count_remove1)
  have "count_list (wm_node_links ?s m) l = 0" for m
    using assms by (simp add: count_remove1 listed_once_def)
  then show "l \<notin> set (wm_node_links ?s m)" for m by (metis count_list_0_iff)
qed simp

lemma set_ap_run:
  assumes "station_ok s (d, node, l)"
  obtains s' where "set_ap l ap s = (Inr (), s')" "only_link l s s'" "wf_ap (wm_links s' ! l) = ap" "station_ok s' (d, node, l)"
    "ap \<noteq> wf_ap (wm_links s ! l) \<longrightarrow> wf_shown (wm_links s' ! l) = (ap \<noteq> None)"
proof (cases "ap = wf_ap (wm_links s ! l)")
  case True
  show ?thesis by (rule that[of s]) (use True assms in \<open>simp_all add: set_ap_def\<close>)
next
  case False
  have l: "l < length (wm_links s)" "wf_sta (wm_links s ! l) = Some node" "listed_once s l" using assms by (simp_all add: station_ok_def)
  let ?old = "wf_ap (wm_links s ! l)"
  obtain r where r: "(case ?old of None \<Rightarrow> act_ret () | Some n \<Rightarrow> remove_link n l) s = (Inr (), r)" "only_link l s r"
    "wm_links r = wm_links s" "\<And>m. l \<notin> set (wm_node_links r m)"
  proof (cases ?old)
    case None
    then show ?thesis using that[of s] l(3) listed_member by fastforce
  next
    case (Some n)
    then show ?thesis using that remove_link_run[OF l(3) Some] by auto
  qed
  let ?t = "change_link l (\<lambda>k. k\<lparr>wf_ap := ap\<rparr>) r"
  define u where "u = (case ap of None \<Rightarrow> change_link l (\<lambda>k. k\<lparr>wf_shown := False\<rparr>) ?t | Some n \<Rightarrow> change_link l (\<lambda>k. k\<lparr>wf_shown := True\<rparr>) (add_link n l ?t))"
  have u: "(case ap of None \<Rightarrow> act_do (change_link l (\<lambda>k. k\<lparr>wf_shown := False\<rparr>))
      | Some n \<Rightarrow> act_do (\<lambda>s. change_link l (\<lambda>k. k\<lparr>wf_shown := True\<rparr>) (add_link n l s))) ?t = (Inr (), u)"
    by (simp add: u_def split: option.splits)
  have lr: "l < length (wm_links r)" using l r by simp
  have ul: "wm_links u ! l = (wm_links s ! l)\<lparr>wf_ap := ap, wf_shown := (ap \<noteq> None)\<rparr>" "length (wm_links u) = length (wm_links s)"
    using lr r(3) by (auto simp: u_def split: option.splits)
  have un: "count_list (wm_node_links u n) l = (if ap = Some n then 1 else 0)" for n
    using r(4)[of n] by (auto simp: u_def split: option.splits)
  have ou: "only_link l s u"
  proof -
    have "only_link l r ?t" using lr by (intro only_change) simp_all
    moreover have "only_link l ?t u"
    proof (cases ap)
      case None
      then show ?thesis using lr by (simp add: u_def only_change)
    next
      case (Some n)
      show ?thesis unfolding u_def Some option.case
        by (rule only_link_trans[OF only_add only_change]) (use lr in simp_all)
    qed
    ultimately show ?thesis using r(2) only_link_trans by blast
  qed
  define v where "v = (if ap = None then u else change_link l (\<lambda>k. k\<lparr>wf_points := points_of u l\<rparr>) u)"
  have v: "wifi_update_points l u = (Inr (), v)" using update_points_run[of u l] ul l(2) by (simp add: v_def)
  have vl: "wf_ap (wm_links v ! l) = ap" "wf_shown (wm_links v ! l) = (ap \<noteq> None)" "wf_sta (wm_links v ! l) = Some node" "length (wm_links v) = length (wm_links s)"
    "wm_node_links v = wm_node_links u"
    using ul l by (simp_all add: v_def)
  have "only_link l u v" using ul l by (auto simp: v_def intro!: only_change)
  then have ov: "only_link l s v" using ou only_link_trans by blast
  have "set_ap l ap s = (Inr (), v)"
    using False r(1) u v by (simp add: set_ap_def)
  then show ?thesis using that[of v] ov vl un l by (simp add: station_ok_def listed_once_def)
qed

lemma only_link_others:
  assumes "only_link l s s'" "station_ok s (d', node', l')" "l' \<noteq> l"
  shows "station_ok s' (d', node', l')" "wm_links s' ! l' = wm_links s ! l'"
  using assms by (auto simp: only_link_def station_ok_def same_wifi_def listed_once_def)

lemma only_link_ok:
  assumes "wifi_ok s" "only_link l s s'" "(d, node, l) \<in> set (wm_stations s)" "station_ok s' (d, node, l)"
  shows "wifi_ok s'"
proof -
  have same: "same_wifi s s'" using assms(2) by (simp add: only_link_def)
  then have d: "distinct (live_links s')" using assms(1) by (simp add: wifi_ok_def same_wifi_def live_links_def)
  have "station_ok s' x" if x: "x \<in> set (wm_stations s')" for x
  proof -
    obtain d' node' l' where xe: "x = (d', node', l')" by (cases x)
    have x': "(d', node', l') \<in> set (wm_stations s)" "station_ok s (d', node', l')" using x xe same assms(1) by (auto simp: same_wifi_def wifi_ok_def)
    show ?thesis
    proof (cases "l' = l")
      case True
      have "inj_on (\<lambda>(d, node, l). l) (set (wm_stations s))" using assms(1) by (simp add: wifi_ok_def live_links_def distinct_map)
      then have "(d', node', l') = (d, node, l)" using x'(1) assms(3) True by (auto simp: inj_on_def)
      then show ?thesis using assms(4) xe by simp
    next
      case False
      then show ?thesis using only_link_others[OF assms(2) x'(2)] xe by simp
    qed
  qed
  moreover have "l' < length (wm_links s')" if "l' \<in> set (wm_node_links s' n)" for n l'
  proof -
    have "l' \<in> insert l (set (wm_node_links s n))" using that assms(2) unfolding only_link_def by blast
    moreover have "l < length (wm_links s')" using assms(4) by (simp add: station_ok_def)
    moreover have "length (wm_links s') = length (wm_links s)" using same by (simp add: same_wifi_def)
    ultimately show ?thesis using assms(1) by (auto simp: wifi_ok_def)
  qed
  moreover have "wf_sta (wm_links s' ! l') \<noteq> None" if "l' < length (wm_links s')" "wf_ap (wm_links s' ! l') \<noteq> None" for l'
  proof (cases "l' = l")
    case True
    then show ?thesis using assms(4) by (simp add: station_ok_def)
  next
    case False
    then have "wm_links s' ! l' = wm_links s ! l'" using assms(2) by (simp add: only_link_def)
    then show ?thesis using that same assms(1) by (simp add: wifi_ok_def same_wifi_def)
  qed
  ultimately show ?thesis using d by (simp add: wifi_ok_def)
qed

section \<open>The handlers\<close>

text \<open>The access point a station is associated with: none when its link is down, an error when no
  device of the topology has the address.\<close>

definition station_ap :: "(nat \<Rightarrow> bool) \<Rightarrow> (nat \<Rightarrow> string) \<Rightarrow> (string, nat) dict \<Rightarrow> nat \<Rightarrow> nat option res" where
  "station_ap link_up bssid_of aps d =
     (if \<not> link_up d \<or> bssid_of d = no_bssid then Inr None
      else case d_get aps (bssid_of d) of None \<Rightarrow> Inl KeyError | Some ap \<Rightarrow> Inr (Some ap))"

lemma update_station_eq:
  "update_station link_up bssid_of (d, node, l) s =
     (case station_ap link_up bssid_of (wm_access_points s) d of Inl e \<Rightarrow> (Inl e, s) | Inr ap \<Rightarrow> set_ap l ap s)"
  by (auto simp: update_station_def station_ap_def d_item_def split: option.splits)

lemma update_stations:
  assumes "wifi_ok s" "set sts \<subseteq> set (wm_stations s)" "distinct (map (\<lambda>(d, node, l). l) sts)"
    "list_all (\<lambda>(d, node, l). station_ap link_up bssid_of (wm_access_points s) d \<noteq> Inl KeyError) sts"
  shows "\<exists>s'. act_each (update_station link_up bssid_of) sts s = (Inr (), s') \<and> wifi_ok s' \<and> same_wifi s s'
    \<and> (\<forall>(d, node, l) \<in> set sts. station_ap link_up bssid_of (wm_access_points s) d = Inr (wf_ap (wm_links s' ! l)))
    \<and> (\<forall>(d, node, l) \<in> set (wm_stations s) - set sts. wm_links s' ! l = wm_links s ! l)"
  using assms
proof (induction sts arbitrary: s)
  case (Cons x sts)
  obtain d node l where x: "x = (d, node, l)" by (cases x)
  have xs: "station_ok s (d, node, l)" "(d, node, l) \<in> set (wm_stations s)" using Cons.prems x by (auto simp: wifi_ok_def)
  obtain ap where ap: "station_ap link_up bssid_of (wm_access_points s) d = Inr ap"
    using Cons.prems(4) x by (auto simp: station_ap_def split: option.splits if_splits)
  obtain t where t: "set_ap l ap s = (Inr (), t)" "only_link l s t" "wf_ap (wm_links t ! l) = ap" "station_ok t (d, node, l)"
    using set_ap_run[OF xs(1)] by metis
  have ok: "wifi_ok t" by (rule only_link_ok[OF Cons.prems(1) t(2) xs(2) t(4)])
  have same: "same_wifi s t" using t(2) by (simp add: only_link_def)
  then have st: "wm_stations t = wm_stations s" "wm_access_points t = wm_access_points s" by (simp_all add: same_wifi_def)
  obtain s' where s': "act_each (update_station link_up bssid_of) sts t = (Inr (), s')" "wifi_ok s'" "same_wifi t s'"
    "\<forall>(d, node, l) \<in> set sts. station_ap link_up bssid_of (wm_access_points s) d = Inr (wf_ap (wm_links s' ! l))"
    "\<forall>(d, node, l) \<in> set (wm_stations s) - set sts. wm_links s' ! l = wm_links t ! l"
    using Cons.IH[of t] Cons.prems ok st by auto
  have nx: "(d, node, l) \<notin> set sts" using Cons.prems(3) x by force
  have "wm_links s' ! l = wm_links t ! l" using s'(5) nx xs(2) by blast
  moreover have "wm_links s' ! l' = wm_links s ! l'" if y: "(d', node', l') \<in> set (wm_stations s)" "(d', node', l') \<notin> set (x # sts)" for d' node' l'
  proof -
    have "inj_on (\<lambda>(d, node, l). l) (set (wm_stations s))" using Cons.prems(1) by (simp add: wifi_ok_def live_links_def distinct_map)
    then have "l' \<noteq> l" using y xs(2) x by (auto simp: inj_on_def)
    then have "wm_links t ! l' = wm_links s ! l'" using t(2) by (simp add: only_link_def)
    then show ?thesis using bspec[OF s'(5), of "(d', node', l')"] y by simp
  qed
  moreover have "act_each (update_station link_up bssid_of) (x # sts) s = (Inr (), s')"
    using t(1) s'(1) by (simp add: x update_station_eq ap)
  ultimately show ?case using s'(2-4) ap t(3) same_wifi_trans[OF same s'(3)] x by (intro exI[of _ s']) auto
qed auto

text \<open>The first station with an unknown address ends the update: those before it are updated.\<close>

definition known_station :: "(nat \<Rightarrow> bool) \<Rightarrow> (nat \<Rightarrow> string) \<Rightarrow> (string, nat) dict \<Rightarrow> nat \<times> nat \<times> nat \<Rightarrow> bool" where
  "known_station link_up bssid_of aps = (\<lambda>(d, node, l). station_ap link_up bssid_of aps d \<noteq> Inl KeyError)"

lemma act_each_append: "act_each f (xs @ ys) = act_then (act_each f xs) (act_each f ys)"
proof (induction xs)
  case Nil
  show ?case by (rule ext) simp
qed (simp add: act_assoc)

lemma wifi_periodic_spec:
  fixes link_up :: "nat \<Rightarrow> bool" and bssid_of :: "nat \<Rightarrow> string"
  assumes "wifi_ok s"
  defines "known \<equiv> known_station link_up bssid_of (wm_access_points s)"
  shows "\<exists>s'. wifi_periodic_update link_up bssid_of s = (if list_all known (wm_stations s) then Inr () else Inl KeyError, s')
    \<and> wifi_ok s' \<and> same_wifi s s'
    \<and> (\<forall>(d, node, l) \<in> set (takeWhile known (wm_stations s)).
        station_ap link_up bssid_of (wm_access_points s) d = Inr (wf_ap (wm_links s' ! l)))
    \<and> (\<forall>(d, node, l) \<in> set (wm_stations s) - set (takeWhile known (wm_stations s)). wm_links s' ! l = wm_links s ! l)"
proof -
  let ?sts = "wm_stations s" and ?pre = "takeWhile known (wm_stations s)"
  have "set ?pre \<subseteq> set ?sts" by (meson set_takeWhileD subsetI)
  moreover have "distinct (map (\<lambda>(d, node, l). l) ?pre)"
    using assms(1) by (auto simp: wifi_ok_def live_links_def distinct_map dest: set_takeWhileD intro: distinct_takeWhile inj_on_subset)
  moreover have "list_all (\<lambda>(d, node, l). station_ap link_up bssid_of (wm_access_points s) d \<noteq> Inl KeyError) ?pre"
  proof -
    have "\<forall>x \<in> set ?pre. known x" by (meson set_takeWhileD)
    then show ?thesis by (simp add: list_all_iff known_def known_station_def)
  qed
  ultimately obtain s' where s': "act_each (update_station link_up bssid_of) ?pre s = (Inr (), s')" "wifi_ok s'" "same_wifi s s'"
    "\<forall>(d, node, l) \<in> set ?pre. station_ap link_up bssid_of (wm_access_points s) d = Inr (wf_ap (wm_links s' ! l))"
    "\<forall>(d, node, l) \<in> set ?sts - set ?pre. wm_links s' ! l = wm_links s ! l"
    using update_stations[OF assms(1), of ?pre link_up bssid_of] by blast
  have "act_each (update_station link_up bssid_of) (dropWhile known ?sts) s' = (if list_all known ?sts then Inr () else Inl KeyError, s')"
  proof (cases "dropWhile known ?sts")
    case Nil
    then have "list_all known ?sts" by (simp add: dropWhile_eq_Nil_conv list_all_iff)
    then show ?thesis unfolding Nil by simp
  next
    case (Cons x post)
    obtain d node l where x: "x = (d, node, l)" by (cases x)
    have "\<not> known x" using hd_dropWhile[of known ?sts] Cons by simp
    moreover have "x \<in> set ?sts" using Cons by (metis list.set_intros(1) set_dropWhileD)
    moreover have "wm_access_points s' = wm_access_points s" using s'(3) by (simp add: same_wifi_def)
    ultimately show ?thesis using Cons x by (auto simp: known_def known_station_def update_station_eq list_all_iff)
  qed
  then have "wifi_periodic_update link_up bssid_of s = (if list_all known ?sts then Inr () else Inl KeyError, s')"
    using act_each_append[of "update_station link_up bssid_of" ?pre "dropWhile known ?sts"] s'(1)
    by (simp add: wifi_periodic_update_def)
  then show ?thesis using s' by blast
qed

text \<open>The points of every link are drawn at the places of its two ends.\<close>

definition link_drawn :: "wifi_monitor \<Rightarrow> nat \<times> nat \<times> nat \<Rightarrow> bool" where
  "link_drawn s = (\<lambda>(d, node, l). \<forall>ap. wf_ap (wm_links s ! l) = Some ap \<longrightarrow>
     wf_shown (wm_links s ! l) \<and> wf_points (wm_links s ! l) = Some (wm_positions s node, wm_positions s ap))"

definition only_points :: "wifi_monitor \<Rightarrow> wifi_monitor \<Rightarrow> bool" where
  "only_points s s' \<longleftrightarrow> same_wifi s s' \<and> wm_node_links s' = wm_node_links s
     \<and> (\<forall>l. \<exists>p. wm_links s' ! l = (wm_links s ! l)\<lparr>wf_points := p\<rparr>)"

lemma only_points_ok:
  assumes "only_points s s'" "wifi_ok s"
  shows "wifi_ok s'"
proof -
  have same: "wf_sta (wm_links s' ! l) = wf_sta (wm_links s ! l)" "wf_ap (wm_links s' ! l) = wf_ap (wm_links s ! l)"
    "wf_shown (wm_links s' ! l) = wf_shown (wm_links s ! l)" for l
    using assms(1) by (auto simp: only_points_def dest!: spec[of _ l])
  show ?thesis using assms same
    by (simp add: wifi_ok_def only_points_def same_wifi_def live_links_def station_ok_def listed_once_def)
qed

lemma update_points_only:
  assumes "station_ok s (d, node, l)"
  obtains s' where "wifi_update_points l s = (Inr (), s')" "only_points s s'" "link_drawn s' (d, node, l)"
    "\<And>d' node' l'. station_ok s (d', node', l') \<Longrightarrow> link_drawn s (d', node', l') \<Longrightarrow> link_drawn s' (d', node', l')"
proof
  have l: "l < length (wm_links s)" "wf_sta (wm_links s ! l) = Some node" using assms by (simp_all add: station_ok_def)
  let ?s = "if wf_ap (wm_links s ! l) = None then s else change_link l (\<lambda>k. k\<lparr>wf_points := points_of s l\<rparr>) s"
  show "wifi_update_points l s = (Inr (), ?s)" using l update_points_run[of s l] by simp
  have "\<exists>p. wm_links ?s ! l' = (wm_links s ! l')\<lparr>wf_points := p\<rparr>" for l'
    using l by (intro exI[of _ "wf_points (wm_links ?s ! l')"]) auto
  then show "only_points s ?s" by (auto simp: only_points_def same_wifi_def)
  show "link_drawn ?s (d, node, l)" using assms l by (auto simp: link_drawn_def points_of_def station_ok_def)
  show "link_drawn ?s (d', node', l')" if "station_ok s (d', node', l')" "link_drawn s (d', node', l')" for d' node' l'
    using that l by (auto simp: link_drawn_def points_of_def station_ok_def)
qed

lemma only_points_station: "only_points s s' \<Longrightarrow> station_ok s x \<Longrightarrow> station_ok s' x"
proof -
  assume a: "only_points s s'" "station_ok s x"
  obtain d node l where x: "x = (d, node, l)" by (cases x)
  obtain p where "wm_links s' ! l = (wm_links s ! l)\<lparr>wf_points := p\<rparr>" using a(1) by (auto simp: only_points_def)
  then show ?thesis using a x by (simp add: station_ok_def listed_once_def only_points_def same_wifi_def)
qed

lemma only_points_trans: "only_points s s' \<Longrightarrow> only_points s' s'' \<Longrightarrow> only_points s s''"
proof -
  assume a: "only_points s s'" "only_points s' s''"
  have "\<exists>p. wm_links s'' ! l = (wm_links s ! l)\<lparr>wf_points := p\<rparr>" for l
  proof -
    obtain p q where "wm_links s' ! l = (wm_links s ! l)\<lparr>wf_points := p\<rparr>" "wm_links s'' ! l = (wm_links s' ! l)\<lparr>wf_points := q\<rparr>"
      using a unfolding only_points_def by metis
    then show ?thesis by auto
  qed
  then show ?thesis using a by (auto simp: only_points_def same_wifi_def)
qed

lemma only_points_refl: "only_points s s"
proof -
  have "\<exists>p. wm_links s ! l = (wm_links s ! l)\<lparr>wf_points := p\<rparr>" for l by (rule exI[of _ "wf_points (wm_links s ! l)"]) simp
  then show ?thesis by (simp add: only_points_def)
qed

lemma update_points_each:
  assumes "\<forall>x \<in> set sts. station_ok s x"
  shows "\<exists>s'. act_each (\<lambda>(d, node, l). wifi_update_points l) sts s = (Inr (), s') \<and> only_points s s' \<and> (\<forall>x \<in> set sts. link_drawn s' x)"
  using assms
proof (induction sts rule: rev_induct)
  case Nil
  then show ?case using only_points_refl by auto
next
  case (snoc x sts)
  obtain d node l where x: "x = (d, node, l)" by (cases x)
  obtain t where t: "act_each (\<lambda>(d, node, l). wifi_update_points l) sts s = (Inr (), t)" "only_points s t" "\<forall>x \<in> set sts. link_drawn t x"
    using snoc by auto
  have ok: "\<forall>y \<in> set (sts @ [x]). station_ok t y" using only_points_station[OF t(2)] snoc.prems by blast
  obtain s' where s': "wifi_update_points l t = (Inr (), s')" "only_points t s'" "link_drawn s' (d, node, l)"
    "\<And>d' node' l'. station_ok t (d', node', l') \<Longrightarrow> link_drawn t (d', node', l') \<Longrightarrow> link_drawn s' (d', node', l')"
    using update_points_only[of t d node l] ok x by auto
  have "link_drawn s' y" if "y \<in> set sts" for y
    using s'(4) ok t(3) that by (cases y) auto
  then show ?case using t(1) s'(1,3) x only_points_trans[OF t(2) s'(2)]
    by (intro exI[of _ s']) (auto simp: act_each_snoc)
qed

lemma wifi_view_spec:
  assumes "wifi_ok s"
  obtains s' where "wifi_update_view s = (Inr (), s')" "wifi_ok s'" "only_points s s'" "\<forall>x \<in> set (wm_stations s). link_drawn s' x"
  using update_points_each[of "wm_stations s" s] only_points_ok[of s] assms that by (auto simp: wifi_update_view_def wifi_ok_def)

text \<open>A scan forgets the stations and makes a new link for each.\<close>

lemma scan_wifi_device_ok: "wifi_ok s \<Longrightarrow> wifi_ok (scan_wifi_device node dev s)"
proof -
  assume ok: "wifi_ok s"
  have old: "l < length (wm_links s)" if "(d, n, l) \<in> set (wm_stations s)" for d n l
    using ok that by (auto simp: wifi_ok_def station_ok_def)
  have new: "count_list (wm_node_links s n) (length (wm_links s)) = 0" for n
    using ok by (force simp: wifi_ok_def count_list_0_iff)
  have up: "\<forall>n. \<forall>l \<in> set (wm_node_links s n). l < Suc (length (wm_links s))" using ok by (force simp: wifi_ok_def)
  show ?thesis
  proof (cases dev)
    case (StaDevice d)
    have "distinct (live_links s @ [length (wm_links s)])" using ok old by (force simp: wifi_ok_def live_links_def)
    moreover have "station_ok (scan_wifi_device node dev s) x" if "x \<in> set (wm_stations s)" for x
      using that ok old StaDevice by (cases x) (auto simp: wifi_ok_def station_ok_def scan_wifi_device_def WifiLink_def listed_once_def nth_append)
    moreover have "station_ok (scan_wifi_device node dev s) (d, node, length (wm_links s))"
      using new StaDevice by (simp add: station_ok_def scan_wifi_device_def WifiLink_def listed_once_def)
    moreover have "wf_sta (wm_links (scan_wifi_device node dev s) ! l) \<noteq> None"
      if "l < length (wm_links (scan_wifi_device node dev s))" "wf_ap (wm_links (scan_wifi_device node dev s) ! l) \<noteq> None" for l
      using that ok StaDevice by (cases "l < length (wm_links s)") (simp_all add: wifi_ok_def scan_wifi_device_def WifiLink_def nth_append)
    ultimately show ?thesis using up StaDevice by (simp add: wifi_ok_def scan_wifi_device_def WifiLink_def live_links_def)
  qed (use ok in \<open>auto simp: scan_wifi_device_def wifi_ok_def live_links_def station_ok_def listed_once_def\<close>)
qed

lemma scan_nodes_ok: "wifi_ok s \<Longrightarrow> wifi_ok (scan_nodes nodes s)"
proof -
  assume ok: "wifi_ok s"
  have "length (wm_links (fold (\<lambda>(d, node, l). destroy_link l) sts s)) = length (wm_links s)
      \<and> wm_node_links (fold (\<lambda>(d, node, l). destroy_link l) sts s) = wm_node_links s
      \<and> (\<forall>l < length (wm_links s). wf_ap (wm_links (fold (\<lambda>(d, node, l). destroy_link l) sts s) ! l) \<noteq> None
           \<longrightarrow> wf_sta (wm_links (fold (\<lambda>(d, node, l). destroy_link l) sts s) ! l) \<noteq> None)" for sts
  proof (induction sts rule: rev_induct)
    case Nil
    then show ?case using ok by (simp add: wifi_ok_def)
  next
    case (snoc x sts)
    obtain d node k where x: "x = (d, node, k)" by (cases x)
    define t where "t = fold (\<lambda>(d, node, l). destroy_link l) sts s"
    have "wm_links (destroy_link k t) ! l = (if l = k \<and> l < length (wm_links t) then (wm_links t ! l)\<lparr>wf_sta := None, wf_ap := None\<rparr> else wm_links t ! l)" for l
      by (cases "k < length (wm_links t)") (auto simp: destroy_link_def change_link_def list_update_beyond)
    moreover have "length (wm_links (destroy_link k t)) = length (wm_links t)" "wm_node_links (destroy_link k t) = wm_node_links t"
      by (simp_all add: destroy_link_def)
    moreover have "fold (\<lambda>(d, node, l). destroy_link l) (sts @ [x]) s = destroy_link k t" by (simp add: x t_def)
    ultimately show ?case using snoc[folded t_def] by simp
  qed
  note same = this[of "wm_stations s"]
  have "wifi_ok ((fold (\<lambda>(d, node, l). destroy_link l) (wm_stations s) s)\<lparr>wm_access_points := [], wm_stations := []\<rparr>)"
    using ok same by (simp only: wifi_ok_def live_links_def) simp
  moreover have "wifi_ok (fold (scan_wifi_device node) devs t)" if "wifi_ok t" for node devs t
    using that by (induction devs arbitrary: t) (simp_all add: scan_wifi_device_ok)
  then have "wifi_ok (fold (\<lambda>(node, devs). fold (scan_wifi_device node) devs) nodes t)" if "wifi_ok t" for t
    using that by (induction nodes arbitrary: t) auto
  ultimately show ?thesis by (simp add: scan_nodes_def Let_def)
qed

lemma update_points_listed:
  assumes "wifi_ok s" "\<forall>l \<in> set ls. l < length (wm_links s)"
  obtains s' where "act_each wifi_update_points ls s = (Inr (), s')" "only_points s s'"
proof -
  have "\<exists>s'. act_each wifi_update_points ls s = (Inr (), s') \<and> only_points s s'"
    using assms
  proof (induction ls arbitrary: s)
    case Nil
    then show ?case using only_points_refl by auto
  next
    case (Cons l ls)
    have l: "l < length (wm_links s)" using Cons.prems(2) by simp
    let ?s = "if wf_ap (wm_links s ! l) = None then s else change_link l (\<lambda>k. k\<lparr>wf_points := points_of s l\<rparr>) s"
    have "wifi_update_points l s = (Inr (), ?s)"
    proof (cases "wf_ap (wm_links s ! l)")
      case None
      then show ?thesis by (simp add: wifi_update_points_def)
    next
      case (Some ap)
      then have "wf_sta (wm_links s ! l) \<noteq> None" using Cons.prems(1) l by (simp add: wifi_ok_def)
      then show ?thesis by (rule update_points_run)
    qed
    moreover have p: "only_points s ?s"
    proof -
      have "\<exists>p. wm_links ?s ! l' = (wm_links s ! l')\<lparr>wf_points := p\<rparr>" for l'
        using l by (intro exI[of _ "wf_points (wm_links ?s ! l')"]) auto
      then show ?thesis by (auto simp: only_points_def same_wifi_def)
    qed
    moreover have "length (wm_links ?s) = length (wm_links s)" using p by (simp add: only_points_def same_wifi_def)
    then have "\<forall>l \<in> set ls. l < length (wm_links ?s)" using Cons.prems(2) by (metis list.set_intros(2))
    then obtain s' where "act_each wifi_update_points ls ?s = (Inr (), s')" "only_points ?s s'"
      using Cons.IH[OF only_points_ok[OF p Cons.prems(1)]] by blast
    ultimately show ?case using only_points_trans[OF p] by (intro exI[of _ s']) simp
  qed
  then show ?thesis using that by blast
qed

text \<open>When an access point moves its links follow at once.\<close>

lemma move_node_run:
  assumes "wifi_ok s"
  shows "\<exists>s'. move_node n pos s = (Inr (), s') \<and> wifi_ok s'"
proof -
  let ?s = "s\<lparr>wm_positions := (wm_positions s)(n := pos)\<rparr>"
  have "station_ok ?s x = station_ok s x" for x by (cases x) (simp add: station_ok_def listed_once_def)
  then have ok: "wifi_ok ?s" using assms by (simp add: wifi_ok_def live_links_def)
  obtain s' where "act_each wifi_update_points (wm_node_links s n) ?s = (Inr (), s')" "only_points ?s s'"
    using update_points_listed[OF ok, of "wm_node_links s n"] ok by (auto simp: wifi_ok_def)
  then show ?thesis using only_points_ok[OF _ ok] by (auto simp: move_node_def)
qed

lemma wifi_handler_ok: "wifi_ok s \<Longrightarrow> wifi_handler e s = (r, s') \<Longrightarrow> wifi_ok s' \<and> r \<in> {Inr (), Inl KeyError}"
proof (cases e)
  case (PeriodicUpdate link_up bssid_of)
  assume "wifi_ok s" "wifi_handler e s = (r, s')"
  then show ?thesis using wifi_periodic_spec[of s link_up bssid_of] PeriodicUpdate by auto
next
  case UpdateView
  assume "wifi_ok s" "wifi_handler e s = (r, s')"
  then show ?thesis using wifi_view_spec[of s] UpdateView by auto
next
  case (NodeMoved n pos)
  assume a: "wifi_ok s" "wifi_handler e s = (r, s')"
  obtain t where "move_node n pos s = (Inr (), t)" "wifi_ok t" using move_node_run[OF a(1), of n pos] by blast
  then show ?thesis using NodeMoved a(2) by simp
qed (auto simp: scan_nodes_ok)

lemma wifi_reaches_ok: "wifi_reaches s \<Longrightarrow> wifi_ok s"
proof (induction rule: wifi_reaches.induct)
  case (start positions)
  show ?case by (simp add: wifi_ok_def WifiLinkMonitor_def live_links_def)
next
  case (event s e r s')
  then show ?case using wifi_handler_ok by blast
qed

section \<open>The memory of samples and the rates\<close>

definition history :: "nat \<Rightarrow> (nat \<times> if_counters list) list \<Rightarrow> if_counters list list" where
  "history node xs = map snd (filter (\<lambda>(n, c). n = node) xs)"

lemma history_simps [simp]:
  "history node [] = []" "history node ((n, c) # xs) = (if n = node then c # history node xs else history node xs)"
  "history node (xs @ ys) = history node xs @ history node ys"
  by (simp_all add: history_def)

definition remembered :: "node_statistics \<Rightarrow> nat \<Rightarrow> if_counters list list" where
  "remembered d node = (case d_get d node of None \<Rightarrow> [] | Some l \<Rightarrow> l)"

lemma collect_node_run:
  obtains d' where "collect_node (n, c) d = Inr d'"
    "\<And>node. remembered d' node = (if node = n then last_n 10 (remembered d n @ [c]) else remembered d node)"
proof
  show "collect_node (n, c) d = Inr (d_set n (last_n 10 (remembered d n @ [c])) d)"
    by (simp add: collect_node_def Let_def NODE_STATISTICS_MEMORY_def pop_old_spec remembered_def last_n_def)
  show "remembered (d_set n (last_n 10 (remembered d n @ [c])) d) node =
      (if node = n then last_n 10 (remembered d n @ [c]) else remembered d node)" for node
    by (simp add: remembered_def dict_simps)
qed

lemma last_n_append: "last_n k (last_n k xs @ ys) = last_n k (xs @ ys)"
proof (induction ys rule: rev_induct)
  case Nil
  show ?case by (simp add: last_n_def)
next
  case (snoc y ys)
  then show ?case using last_n_snoc[of k "last_n k xs @ ys" y] last_n_snoc[of k "xs @ ys" y] by simp
qed

lemma collect_statistics_run:
  "\<exists>d'. collect_statistics xs d = Inr d' \<and> (\<forall>node. last_n 10 (remembered d' node) = last_n 10 (remembered d node @ history node xs)
    \<and> (length (remembered d node) \<le> 10 \<longrightarrow> length (remembered d' node) \<le> 10))"
proof (induction xs arbitrary: d)
  case (Cons x xs)
  obtain n c where x: "x = (n, c)" by (cases x)
  obtain t where t: "collect_node (n, c) d = Inr t"
    "\<And>node. remembered t node = (if node = n then last_n 10 (remembered d n @ [c]) else remembered d node)"
    using collect_node_run by blast
  obtain d' where d': "collect_statistics xs t = Inr d'"
    "\<And>node. last_n 10 (remembered d' node) = last_n 10 (remembered t node @ history node xs)"
    "\<And>node. length (remembered t node) \<le> 10 \<Longrightarrow> length (remembered d' node) \<le> 10"
    using Cons.IH[of t] by blast
  have "length (last_n 10 zs) \<le> 10" for zs :: "if_counters list list" by (simp add: last_n_def)
  then show ?case using t d'(1,3) by (intro exI[of _ d']) (simp add: x d'(2) last_n_append)
qed simp

lemma collect_all:
  "\<exists>d. fold (\<lambda>u r. rbind r (collect_statistics u)) updates (Inr []) = Inr d
    \<and> (\<forall>node. remembered d node = last_n 10 (history node (concat updates)))"
proof (induction updates rule: rev_induct)
  case Nil
  show ?case by (simp add: remembered_def d_get_Nil last_n_def)
next
  case (snoc u updates)
  obtain d where d: "fold (\<lambda>u r. rbind r (collect_statistics u)) updates (Inr []) = Inr d"
    "\<And>node. remembered d node = last_n 10 (history node (concat updates))" using snoc by blast
  obtain d' where d': "collect_statistics u d = Inr d'"
    "\<And>node. last_n 10 (remembered d' node) = last_n 10 (remembered d node @ history node u)"
    "\<And>node. length (remembered d node) \<le> 10 \<Longrightarrow> length (remembered d' node) \<le> 10"
    using collect_statistics_run[of u d] by blast
  have "remembered d' node = last_n 10 (history node (concat (updates @ [u])))" for node
  proof -
    have "length (remembered d' node) \<le> 10" by (rule d'(3)) (simp add: d(2) last_n_def)
    then have "remembered d' node = last_n 10 (remembered d' node)" by (simp add: last_n_def)
    then show ?thesis by (simp add: d'(2) d(2) last_n_append)
  qed
  then show ?case using d(1) d'(1) by (intro exI[of _ d']) simp
qed

definition rates_between :: "rat \<Rightarrow> if_counters \<Rightarrow> if_counters \<Rightarrow> net_dev_stats" where
  "rates_between k old now =
     \<lparr>st_counters = now,
      txPacketRate = of_int (transmittedPackets now - transmittedPackets old) / k,
      rxPacketRate = of_int (receivedPackets now - receivedPackets old) / k,
      txBitRate = of_int ((transmittedBytes now - transmittedBytes old) * 8) / k,
      rxBitRate = of_int ((receivedBytes now - receivedBytes old) * 8) / k\<rparr>"

lemma interface_stats_eq:
  assumes "k \<noteq> 0"
  shows "interface_stats k before (i, now) = (if i < length before then Inr (rates_between k (before ! i) now) else Inl IndexError)"
  using assms by (simp add: interface_stats_def Let_def rates_between_def py_nth_def)

lemma stats_each_eq:
  assumes "k \<noteq> 0"
  shows "stats_each k before (enumerate i now) =
    (if i + length now \<le> length before \<or> now = [] then Inr (map2 (rates_between k) (drop i before) now) else Inl IndexError)"
  using assms
proof (induction now arbitrary: i)
  case (Cons x now)
  show ?case
  proof (cases "i < length before")
    case True
    then show ?thesis using Cons by (auto simp: interface_stats_eq Cons_nth_drop_Suc[symmetric])
  next
    case False
    then show ?thesis using Cons by (simp add: interface_stats_eq)
  qed
qed simp

lemma interface_statistics_eq:
  assumes "period \<noteq> 0" "remembered d node = last_n 10 h"
  shows "get_interface_statistics period d node =
    (if length h < 10 then Inr []
     else if length (last h) \<le> length (h ! (length h - 10)) then Inr (map2 (rates_between (9 * period)) (h ! (length h - 10)) (last h))
     else Inl IndexError)"
proof (cases "d_get d node")
  case None
  then have "h = []" using assms(2) by (cases h) (simp_all add: remembered_def last_n_def)
  then show ?thesis using None by (simp add: get_interface_statistics_def)
next
  case (Some l)
  then have l: "l = last_n 10 h" using assms(2) by (simp add: remembered_def)
  show ?thesis
  proof (cases "length h < 10")
    case True
    then show ?thesis using Some l by (simp add: get_interface_statistics_def NODE_STATISTICS_MEMORY_def last_n_def)
  next
    case False
    then have "length l = 10" "hd l = h ! (length h - 10)" "last l = last h"
      using l by (simp_all add: last_n_def hd_drop_conv_nth last_drop)
    then show ?thesis using Some False assms(1) stats_each_eq[of "9 * period" "hd l" 0 "last l"]
      by (auto simp: get_interface_statistics_def NODE_STATISTICS_MEMORY_def mult.commute)
  qed
qed

end
