(* ===== verification/VizConsole.thy ===== *)
theory VizConsole
  imports PyStr
begin

text \<open>
  The console of the visualizer (\<open>ipython_view.py\<close>): completion, the history of the input, and the coloured
  pieces of a text that are written. What IPython completes and its list of inputs are given; the text buffer is
  the list of what is inserted into it, a text with the name of its tag.
\<close>

section \<open>Completion\<close>

text \<open>The characters that end a word: blanks, braces, brackets and parentheses.\<close>

definition complete_sep :: "char \<Rightarrow> bool" where
  "complete_sep c \<longleftrightarrow> is_space c \<or> c \<in> {CHR ''{'', CHR ''}'', CHR ''['', CHR '']'', CHR ''('', CHR '')''}"

text \<open>\<open>split_line[-1]\<close>: what stands after the last of them.\<close>

definition last_word :: "string \<Rightarrow> string" where
  "last_word line = rev (takeWhile (\<lambda>c. \<not> complete_sep c) (rev line))"

fun common_prefix :: "string \<Rightarrow> string \<Rightarrow> nat \<Rightarrow> nat \<Rightarrow> string" where
  "common_prefix str1 str2 i 0 = str1"
| "common_prefix str1 str2 i (Suc n) =
     (if take (i + 1) str1 \<noteq> take (i + 1) str2 then take i str1 else common_prefix str1 str2 (i + 1) n)"

definition commonPrefix :: "string \<Rightarrow> string \<Rightarrow> string" where
  "commonPrefix str1 str2 = common_prefix str1 str2 0 (length str1)"

text \<open>\<open>line[:-n]\<close>, which is empty for \<open>n = 0\<close>.\<close>

definition cut_last :: "nat \<Rightarrow> string \<Rightarrow> string" where
  "cut_last n line = (if n = 0 then [] else take (length line - n) line)"

definition complete_line :: "(string \<Rightarrow> string list) \<Rightarrow> string \<Rightarrow> string \<times> string list" where
  "complete_line ip_complete line =
     (let word = last_word line; possibilities = ip_complete word
      in (case possibilities of
            [] \<Rightarrow> line
          | p # ps \<Rightarrow> cut_last (length word) line @ foldl commonPrefix p ps,
          possibilities))"

section \<open>The history\<close>

text \<open>\<open>In[level]\<close> without new lines around it; a level that is not there starts again at 0.\<close>

definition strip_newlines :: "string \<Rightarrow> string" where
  "strip_newlines s = rev (dropWhile (\<lambda>c. c = CHR 0x0A) (rev (dropWhile (\<lambda>c. c = CHR 0x0A) s)))"

definition getHistory :: "string list \<Rightarrow> int \<Rightarrow> string \<times> int" where
  "getHistory inputs level = (case py_nth inputs level of Inr s \<Rightarrow> (strip_newlines s, level) | Inl _ \<Rightarrow> ([], 0))"

definition historyBack :: "string list \<Rightarrow> int \<Rightarrow> string \<times> int" where
  "historyBack inputs level = getHistory inputs (level - 1)"

definition historyForward :: "string list \<Rightarrow> int \<Rightarrow> string \<times> int" where
  "historyForward inputs level = getHistory inputs (level + 1)"

section \<open>Coloured text\<close>

text \<open>The escape sequence of a colour, with the codes that tell readline to leave it out of the width.\<close>

definition color_match :: "string \<Rightarrow> (string \<times> string) option" where
  "color_match s =
     (let s = (if take 1 s = [CHR 0x01] then drop 1 s else s)
      in if take 2 s = [CHR 0x1B, CHR ''[''] then
           let more = (\<lambda>c. c \<noteq> CHR ''m'' \<and> c \<noteq> CHR 0x0A); rest = dropWhile more (drop 2 s)
           in if take 1 rest = ''m'' then
                Some (takeWhile more (drop 2 s), if take 2 rest = [CHR ''m'', CHR 0x02] then drop 2 rest else drop 1 rest)
              else None
         else None)"

lemma color_match_shorter: "color_match s = Some (tag, rest) \<Longrightarrow> length rest < length s"
  using length_dropWhile_le[of "\<lambda>c. c \<noteq> CHR ''m'' \<and> c \<noteq> CHR 0x0A" "drop 2 s"]
    length_dropWhile_le[of "\<lambda>c. c \<noteq> CHR ''m'' \<and> c \<noteq> CHR 0x0A" "drop 2 (drop 1 s)"]
  by (cases s; cases "tl s") (auto simp: color_match_def Let_def split: if_splits)

text \<open>The text before the first sequence, and each sequence's tag with the text after it: \<open>split\<close> gives them in
  one list, \<open>findall\<close> the tags.\<close>

function color_segments :: "string \<Rightarrow> string \<Rightarrow> string \<times> (string \<times> string) list" where
  "color_segments seg [] = (seg, [])"
| "color_segments seg (c # cs) = (case color_match (c # cs) of
      Some (tag, rest) \<Rightarrow> (case color_segments [] rest of (text, more) \<Rightarrow> (seg, (tag, text) # more))
    | None \<Rightarrow> color_segments (seg @ [c]) cs)"
  by pat_completeness auto

termination
  by (relation "measure (\<lambda>(seg, s). length s)") (auto dest: color_match_shorter)

definition color_split :: "string \<Rightarrow> string list" where
  "color_split s = (case color_segments [] s of (text, more) \<Rightarrow> text # concat (map (\<lambda>(tag, t). [tag, t]) more))"

definition color_findall :: "string \<Rightarrow> string list" where
  "color_findall s = map fst (snd (color_segments [] s))"

text \<open>The loop over the tags looks each one up in what is left of the list, and takes it out.\<close>

fun write_tagged :: "string list \<Rightarrow> string list \<Rightarrow> (string \<times> string) list \<Rightarrow> (string \<times> string) list res" where
  "write_tagged [] segments done = Inr done"
| "write_tagged (tag # tags) segments done =
     (let i = length (takeWhile (\<lambda>s. s \<noteq> tag) segments)
      in if i = length segments then Inl ValueError
         else rbind (py_nth segments (int i + 1)) (\<lambda>text.
           write_tagged tags (take i segments @ drop (i + 1) segments) (done @ [(text, tag)])))"

definition console_write :: "string \<Rightarrow> (string \<times> (string \<times> string) list) res" where
  "console_write text =
     (case color_split text of
        [] \<Rightarrow> Inl IndexError
      | segment # segments \<Rightarrow>
          if segments = [] then Inr (segment, [])
          else rbind (write_tagged (color_findall text) segments []) (\<lambda>pieces. Inr (segment, pieces)))"

end
