(* ===== verification/VizConsoleProofs.thy ===== *)
theory VizConsoleProofs
  imports VizConsole "HOL-Library.Sublist"
begin

text \<open>What the completion makes of a line, and which pieces of a coloured text are written with which tag.\<close>

section \<open>Completion\<close>

lemma common_prefix_spec:
  "take i str1 = take i str2 \<Longrightarrow> i + n = length str1 \<Longrightarrow> i \<le> length str2 \<Longrightarrow>
   prefix q (common_prefix str1 str2 i n) \<longleftrightarrow> prefix q str1 \<and> prefix q str2"
proof (induction n arbitrary: i)
  case 0
  then have "prefix str1 str2" by (simp add: take_is_prefix)
  then show ?case by (auto intro: prefix_order.trans)
next
  case (Suc n)
  show ?case
  proof (cases "take (i + 1) str1 = take (i + 1) str2")
    case True
    have "length (take (i + 1) str1) = i + 1" using Suc.prems(2) by simp
    then have "i + 1 \<le> length str2" using True by (metis length_take min.absorb_iff2 min.commute)
    then show ?thesis using Suc.IH[of "i + 1"] Suc.prems True by simp
  next
    case False
    have "prefix q (take i str1)" if q: "prefix q str1" "prefix q str2"
    proof -
      have qt: "q = take (length q) str1" "q = take (length q) str2" using q by (metis append_eq_conv_conj prefix_def)+
      have "length q \<le> i"
      proof (rule ccontr)
        assume "\<not> length q \<le> i"
        then have "take (i + 1) q = take (i + 1) str1" "take (i + 1) q = take (i + 1) str2"
          using arg_cong[OF qt(1), of "take (i + 1)"] arg_cong[OF qt(2), of "take (i + 1)"] by (simp_all add: min_def)
        then show False using False by simp
      qed
      then show ?thesis using qt(1) by (metis min.absorb1 take_is_prefix take_take)
    qed
    moreover have "prefix (take i str1) str1" "prefix (take i str1) str2" using Suc.prems(1) by (metis take_is_prefix)+
    ultimately show ?thesis using False by (auto intro: prefix_order.trans)
  qed
qed

lemma commonPrefix_spec: "prefix q (commonPrefix str1 str2) \<longleftrightarrow> prefix q str1 \<and> prefix q str2"
  using common_prefix_spec[of 0 str1 str2 "length str1" q] by (simp add: commonPrefix_def)

lemma commonPrefix_all: "prefix q (foldl commonPrefix p ps) \<longleftrightarrow> (\<forall>x \<in> set (p # ps). prefix q x)"
  by (induction ps arbitrary: p) (auto simp: commonPrefix_spec)

lemma last_word_end: "line = take (length line - length (last_word line)) line @ last_word line"
proof -
  let ?q = "\<lambda>c. \<not> complete_sep c"
  have "line = rev (dropWhile ?q (rev line)) @ last_word line"
    by (metis last_word_def rev_append rev_rev_ident takeWhile_dropWhile_id)
  then show ?thesis by (metis append_eq_conv_conj diff_add_inverse2 length_append)
qed

lemma complete_line_spec:
  assumes "list_all (prefix (last_word line)) (ip_complete (last_word line))" "ip_complete (last_word line) \<noteq> []"
  shows "\<exists>rest. complete_line ip_complete line = ((if last_word line = [] then rest else line @ rest), ip_complete (last_word line))
    \<and> (\<forall>q. prefix q (last_word line @ rest) \<longleftrightarrow> (\<forall>p \<in> set (ip_complete (last_word line)). prefix q p))"
proof -
  let ?w = "last_word line"
  obtain p ps where ps: "ip_complete ?w = p # ps" using assms(2) by (cases "ip_complete ?w") auto
  have "prefix ?w (foldl commonPrefix p ps)" unfolding commonPrefix_all using assms(1) ps by (simp add: list_all_iff)
  then obtain rest where rest: "foldl commonPrefix p ps = ?w @ rest" by (auto simp: prefix_def)
  have "cut_last (length ?w) line @ ?w @ rest = line @ rest" if "?w \<noteq> []"
    using that last_word_end[of line] by (metis append.assoc cut_last_def length_0_conv)
  then have "complete_line ip_complete line = ((if ?w = [] then rest else line @ rest), ip_complete ?w)"
    using ps rest by (auto simp: complete_line_def Let_def cut_last_def)
  moreover have "prefix q (?w @ rest) \<longleftrightarrow> (\<forall>p \<in> set (ip_complete ?w). prefix q p)" for q
    unfolding rest[symmetric] commonPrefix_all ps by simp
  ultimately show ?thesis by blast
qed

section \<open>Coloured text\<close>

text \<open>No text is the same as a tag that comes after it.\<close>

fun tags_apart :: "(string \<times> string) list \<Rightarrow> bool" where
  "tags_apart [] = True"
| "tags_apart ((tag, text) # more) = (text \<notin> set (map fst more) \<and> tags_apart more)"

lemma write_tagged_spec:
  assumes "tags_apart more" "set texts \<inter> set (map fst more) = {}"
  shows "write_tagged (map fst more) (texts @ concat (map (\<lambda>(tag, t). [tag, t]) more)) out = Inr (out @ map prod.swap more)"
  using assms
proof (induction more arbitrary: texts out)
  case (Cons x more)
  obtain tag body where x: "x = (tag, body)" by (cases x)
  let ?rest = "concat (map (\<lambda>(tag, t). [tag, t]) more)"
  have "\<forall>s \<in> set texts. s \<noteq> tag" using Cons.prems(2) x by auto
  then have i: "takeWhile (\<lambda>s. s \<noteq> tag) (texts @ tag # body # ?rest) = texts" by (simp add: takeWhile_append2)
  have "py_nth (texts @ tag # body # ?rest) (int (length texts) + 1) = Inr body"
    using py_nth_nat[of "Suc (length texts)" "texts @ tag # body # ?rest"] by (simp add: nth_append add.commute)
  moreover have "set (texts @ [body]) \<inter> set (map fst more) = {}" "tags_apart more" using Cons.prems x by auto
  then have "write_tagged (map fst more) ((texts @ [body]) @ ?rest) (out @ [(body, tag)]) = Inr ((out @ [(body, tag)]) @ map prod.swap more)"
    by (intro Cons.IH)
  ultimately show ?case by (simp add: x i Let_def)
qed simp

lemma console_write_spec:
  assumes "color_segments [] text = (first, more)" "tags_apart more"
  shows "console_write text = Inr (first, map prod.swap more)"
  using assms write_tagged_spec[of more "[]" "[]"]
  by (cases more) (auto simp: console_write_def color_split_def color_findall_def)

end
