(* ===== verification/VizProps.thy ===== *)
theory VizProps
  imports VizSimProofs VizViewProofs VizSelect VizHudProofs VizPluginProofs VizConsoleProofs
begin

text \<open>The properties of the visualizer.\<close>

section \<open>Threads\<close>


lemma demo_run_reachable:
  "viz_reachable (SimulationThread\<lparr>frames := [TryLock 0]\<rparr>)"
  "viz_reachable (SimulationThread\<lparr>frames := [QuitFlag]\<rparr>)"
  by (rule viz_reachable.step[OF viz_reachable.start], rule viz_step.event[of _ "Timer 0"],
      simp_all add: takes_events_def SimulationThread_def)
    (rule viz_reachable.step[OF viz_reachable.start], rule viz_step.event[of _ QuitEvent],
      simp_all add: takes_events_def SimulationThread_def)


text \<open>C21. The simulator is never more than one second of simulated time ahead of
  the last view drawn, and never ahead of the target the view has set.\<close>

theorem viz_never_far_ahead:
  assumes "viz_reachable s"
  shows "shown s \<le> now s \<and> now s \<le> target_time s \<and> target_time s \<le> shown s + 1"
  using reachable_viz_inv[OF assms] by (simp add: viz_inv_def time_ok_def)

theorem viz_never_far_ahead_witness: "now (SimulationThread\<lparr>frames := [TryLock 0]\<rparr>) \<le> 1"
  using viz_never_far_ahead[OF demo_run_reachable(1)] by (simp add: SimulationThread_def)



text \<open>C7. No handler of the main thread is stuck, not even the one that quits and waits
  for the simulation thread: while one runs, some thread has a step, and without new events the number
  of steps is bounded, so that all handlers end.\<close>

theorem viz_handlers_end:
  assumes "viz_reachable s" "(thread_step ^^ n) s s'"
  shows "n \<le> viz_work s \<and> (frames s' = [] \<or> (\<exists>s''. thread_step s' s''))"
  using thread_steps_bounded[OF assms(2)] handler_can_step[OF thread_steps_inv[OF assms(2) reachable_viz_inv[OF assms(1)]]] by auto

theorem viz_handlers_end_witness:
  "\<exists>s''. thread_step (SimulationThread\<lparr>frames := [QuitFlag]\<rparr>) s''"
  using viz_handlers_end[OF demo_run_reachable(2), of 0] by (simp add: SimulationThread_def)


section \<open>Selection and dragging\<close>

text \<open>C23. In any session each node's circle shows what the node is, at most one node is
  marked as selected, and that one is the selected node, which exists; the simulator is asked for the
  transmissions of all nodes, of none or of the selected one, as the mode says.\<close>

theorem selection_consistent:
  assumes "sel_reaches n s"
  shows "(\<forall>i l sh. d_get (sl_nodes s) i = Some (l, sh) \<longrightarrow> sh = update_appearance l \<and> (lk_selected l \<longleftrightarrow> sl_selected s = Some i))
    \<and> (\<forall>i. sl_selected s = Some i \<longrightarrow> d_has (sl_nodes s) i)
    \<and> sl_interest s = interest_of (sl_mode s) (sl_selected s) n"
  using sel_reaches_ok[OF assms] by (simp add: sel_ok_def)

definition sel_session :: "sel_event list \<Rightarrow> nat \<Rightarrow> selection" where
  "sel_session es n = fold (\<lambda>e s. snd (sel_handler e s)) es (Selection n)"

lemma sel_session_reaches: "sel_reaches n (sel_session es n)"
proof (induction es rule: rev_induct)
  case Nil
  then show ?case by (simp add: sel_session_def sel_reaches.start)
next
  case (snoc e es)
  have "sel_session (es @ [e]) n = snd (sel_handler e (sel_session es n))" by (simp add: sel_session_def)
  then show ?case using sel_reaches.event[OF snoc, of e] by (metis prod.collapse)
qed

definition demo_selection :: selection where
  "demo_selection = sel_session
     [NewNode 0, NewNode 1, ClickNode 0, ModeToggled ShowSelected, EnterNode 1, ClickNode 1] 2"

lemma demo_selection_value: "sl_mode demo_selection = ShowSelected \<and> sl_selected demo_selection = Some 1"
  by code_simp

theorem selection_consistent_witness: "sl_interest demo_selection = [1]"
proof -
  have "sel_reaches 2 demo_selection" unfolding demo_selection_def by (rule sel_session_reaches)
  from selection_consistent[OF this] show ?thesis using demo_selection_value by simp
qed

text \<open>While a node is dragged its position in the simulation and its circle move by the way of
  the pointer since the button was pressed, however many motions there are; no other node moves, and
  after the release no motion has an effect.\<close>

theorem drag_follows:
  assumes "dr_mob s i = Some pos" "dr_state s = None" "has_end (dr_topo s) (NodeEnd i)"
    "s' = fold (\<lambda>p s. snd (node_drag_motion i p s)) (ps @ [p]) (begin_node_drag i p0 s)"
  shows "dr_mob s' = (dr_mob s)(i \<mapsto> (fst pos + (fst p - fst p0) / PIXELS_PER_METER, snd pos + (snd p - snd p0) / PIXELS_PER_METER))
    \<and> get_position_of (dr_topo s') e =
        (if e = NodeEnd i then (PIXELS_PER_METER * fst pos + (fst p - fst p0), PIXELS_PER_METER * snd pos + (snd p - snd p0))
         else get_position_of (dr_topo s) e)
    \<and> node_drag_motion i q (end_node_drag i s') = (False, end_node_drag i s')"
  using dragging_motion(2,3)[OF drag_motions[OF assms(1-3), of p0 ps], of p] drag_released[of i q s'] by (simp add: assms(4))

definition demo_dragger :: dragger where
  "demo_dragger = \<lparr>dr_mob = (\<lambda>_. Some (1, 2)), dr_state = None, dr_topo = get_node 0 Topology\<rparr>"

theorem drag_follows_witness:
  "dr_mob (snd (node_drag_motion 0 (13, 10) (begin_node_drag 0 (10, 10) demo_dragger))) 0 = Some (2, 2)"
  using drag_follows[of demo_dragger 0 "(1, 2)" "snd (node_drag_motion 0 (13, 10) (begin_node_drag 0 (10, 10) demo_dragger))" "[]" "(13, 10)" "(10, 10)"]
  by (simp add: demo_dragger_def PIXELS_PER_METER_def)

section \<open>The topology\<close>








section \<open>Transmissions\<close>

text \<open>After any periodic updates the samples kept are those of the last periods, as many
  as the smoothing factor says, in their order.\<close>

theorem viz_window:
  assumes "0 \<le> int_of_float (env_smoothing env * 10)" "k = nat (int_of_float (env_smoothing env * 10))" "xs \<noteq> []"
  shows "act_each (\<lambda>(tx, dr). do_simulation_periodic_update env tx dr) xs s =
    (Inr (), s\<lparr>vw_last_tx := last_n k (vw_last_tx s @ map fst xs), vw_last_drops := last_n k (vw_last_drops s @ map snd xs)\<rparr>)"
  using periodic_updates[OF assms(1,2), of "butlast xs" "last xs"] assms(3) by simp

definition demo_env :: view_env where
  "demo_env = \<lparr>env_log = (\<lambda>x. x), env_atan2 = (\<lambda>y x. 0), env_pi_over_2 = 1, env_clip = (\<lambda>p q. (p, q)), env_edge_y = 100,
     env_node_size = 3, env_smoothing = 1 / 5, env_period = 1 / 10\<rparr>"

definition demo_viewer :: viewer where
  "demo_viewer = \<lparr>vw_topo = Topology, vw_last_tx = [[(0, 1, 1000)]], vw_last_drops = [], vw_tx_arrows = [new_arrow, new_arrow], vw_drop_arrows = []\<rparr>"

theorem viz_window_witness:
  "fst (act_each (\<lambda>(tx, dr). do_simulation_periodic_update demo_env tx dr) [([], [(0, 5)]), ([(1, 0, 7)], [])] demo_viewer) = Inr ()"
  using viz_window[of demo_env 2 "[([], [(0, 5)]), ([(1, 0, 7)], [])]" demo_viewer] by (simp add: demo_env_def int_of_float_def)

text \<open>C31. The view of the transmissions shows exactly one arrow for each pair of nodes with samples,
  from the one node to the other, at least a tenth wide, takes the arrows from the old ones as far as
  they go and hides the rest; if for some pair no byte was counted it raises \<open>ValueError\<close>.\<close>

theorem viz_arrows:
  assumes "key_order ord" "0 < env_period env" "items = dict_items ord (transmissions_average (vw_last_tx s))"
    "update_transmissions_view env ord s = (r, s')"
  shows "distinct (map fst items) \<and> (\<forall>k v. (k, v) \<in> set items \<longleftrightarrow> sample_totals (vw_last_tx s) k = Some v)
    \<and> (if list_all (\<lambda>(k, b, n). 0 < b) items
     then r = Inr () \<and> (\<exists>new. vw_tx_arrows s' = new @ take (length (vw_tx_arrows s) - length items) (map hide_arrow (vw_tx_arrows s))
       \<and> map ar_points new = map (\<lambda>((t, u), v). Some (get_position_of (vw_topo s) (NodeEnd t), get_position_of (vw_topo s) (NodeEnd u))) items
       \<and> list_all (\<lambda>a. ar_vis a = Visible \<and> lb_vis a = VisibleAboveThreshold \<and> 1 / 10 \<le> ar_width a) new)
     else r = Inl ValueError)"
  using update_transmissions_spec[OF assms] by blast

theorem viz_arrows_witness:
  "\<exists>s' new. update_transmissions_view demo_env (\<lambda>ks. ks) demo_viewer = (Inr (), s') \<and> vw_tx_arrows s' = new @ [hide_arrow new_arrow]
     \<and> map ar_points new = [Some ((0, 0), (0, 0))]"
proof -
  obtain r s' where run: "update_transmissions_view demo_env (\<lambda>ks. ks) demo_viewer = (r, s')" by fastforce
  have items: "dict_items (\<lambda>ks. ks) (transmissions_average (vw_last_tx demo_viewer)) = [((0, 1), (1000, 1))]" by code_simp
  have "0 < env_period demo_env" by (simp add: demo_env_def)
  note view = viz_arrows[OF key_order_id(1) this items[symmetric] run, THEN conjunct2, THEN conjunct2]
  have d: "vw_tx_arrows demo_viewer = [new_arrow, new_arrow]" "get_position_of (vw_topo demo_viewer) (NodeEnd i) = (0, 0)" for i
    by (simp_all add: demo_viewer_def Topology_def get_position_of.simps d_get_def)
  from view obtain new where "r = Inr ()" "vw_tx_arrows s' = new @ [hide_arrow new_arrow]" "map ar_points new = [Some ((0, 0), (0, 0))]"
    by (auto simp: d)
  then show ?thesis using run by (intro exI[of _ s'] exI[of _ new]) simp
qed

section \<open>The axes\<close>

text \<open>C25. Where the window shows something, the axes are drawn, with labels taken from the old ones as far
  as they go, the rest hidden; each axis has four to nine marks, at multiples of a power of ten, its half or
  its double, the first before the window, the others as far as its end.\<close>

theorem axes_drawn:
  assumes "he_zoom env = Some zoom" "0 < zoom" "he_corner1 env = (x1, y1)" "he_corner2 env = (x2, y2)" "x1 < x2" "y1 < y2"
  shows "\<exists>s' new dx xs dy ys. hud_update_view env s = Some (Inr (), s')
    \<and> ax_labels s' = new @ map hide_label (drop (length new) (ax_labels s)) \<and> list_all al_visible new \<and> map al_text new = map fmt_G (xs @ ys)
    \<and> map snd (tl (ax_hpath s')) = map (\<lambda>x. (PIXELS_PER_METER * x, y2 - ax_hwidth s' / 2)) xs
    \<and> map fst (tl (ax_vpath s')) = map (\<lambda>y. (x1 + ax_vwidth s' / 2, PIXELS_PER_METER * y)) ys
    \<and> marks_ok (x1 / PIXELS_PER_METER) (x2 / PIXELS_PER_METER) dx xs \<and> marks_ok (y1 / PIXELS_PER_METER) (y2 / PIXELS_PER_METER) dy ys"
  by (rule hud_view_spec[OF assms])

definition demo_axes :: axes where
  "demo_axes = \<lparr>ax_visible = True, ax_labels = [new_label], ax_hwidth = 0, ax_hpath = [], ax_vwidth = 0, ax_vpath = [], ax_lines = True\<rparr>"

theorem axes_drawn_witness:
  "\<exists>s' l ls. hud_update_view \<lparr>he_zoom = Some 2, he_corner1 = (0, 0), he_corner2 = (300, 200)\<rparr> demo_axes = Some (Inr (), s')
     \<and> ax_labels s' = l # ls \<and> al_visible l \<and> 4 \<le> length (tl (ax_hpath s')) \<and> length (tl (ax_hpath s')) \<le> 9"
proof -
  obtain s' new dx xs dy ys where s: "hud_update_view \<lparr>he_zoom = Some 2, he_corner1 = (0, 0), he_corner2 = (300, 200)\<rparr> demo_axes = Some (Inr (), s')"
    "ax_labels s' = new @ map hide_label (drop (length new) (ax_labels demo_axes))" "list_all al_visible new" "map al_text new = map fmt_G (xs @ ys)"
    "map snd (tl (ax_hpath s')) = map (\<lambda>x. (PIXELS_PER_METER * x, 200 - ax_hwidth s' / 2)) xs"
    "marks_ok (0 / PIXELS_PER_METER) (300 / PIXELS_PER_METER) dx xs"
    using axes_drawn[of "\<lparr>he_zoom = Some 2, he_corner1 = (0, 0), he_corner2 = (300, 200)\<rparr>" 2 0 0 300 200 demo_axes] by fastforce
  have xs: "4 \<le> length xs" "length xs \<le> 9" using s(6) by (simp_all add: marks_ok_def)
  have "length (tl (ax_hpath s')) = length xs" "length new = length (xs @ ys)" using s(4,5) by (metis length_map)+
  then show ?thesis using s(1-3) xs by (cases new) auto
qed

section \<open>WiFi links and statistics\<close>

text \<open>C20. Whatever signals come in any order, also after an update that raised: a link in use belongs to
  one station only and stands in the list of links of its access point once and in no other node's; so
  taking it from a list never raises \<open>ValueError\<close>, and the only exception of any handler is \<open>KeyError\<close>.\<close>

theorem wifi_links:
  assumes "wifi_reaches s"
  shows "distinct (live_links s) \<and> (\<forall>(d, node, l) \<in> set (wm_stations s). wf_sta (wm_links s ! l) = Some node
      \<and> (\<forall>n. count_list (wm_node_links s n) l = (if wf_ap (wm_links s ! l) = Some n then 1 else 0)))
    \<and> (\<forall>e. fst (wifi_handler e s) = Inr () \<or> fst (wifi_handler e s) = Inl KeyError)"
proof -
  have ok: "wifi_ok s" by (rule wifi_reaches_ok[OF assms])
  moreover have "fst (wifi_handler e s) = Inr () \<or> fst (wifi_handler e s) = Inl KeyError" for e
    using wifi_handler_ok[OF ok, of e "fst (wifi_handler e s)" "snd (wifi_handler e s)"] by auto
  ultimately show ?thesis by (auto simp: wifi_ok_def station_ok_def listed_once_def)
qed

definition demo_scan :: wifi_event where
  "demo_scan = TopologyScanned [(0, [StaDevice 5]), (1, [OtherDevice, ApDevice ''a''])]"

definition demo_wifi :: wifi_monitor where
  "demo_wifi = snd (wifi_handler (PeriodicUpdate (\<lambda>_. True) (\<lambda>_. ''a'')) (snd (wifi_handler demo_scan (WifiLinkMonitor (\<lambda>_. (0, 0))))))"

lemma demo_wifi_reaches: "wifi_reaches demo_wifi"
  unfolding demo_wifi_def by (rule wifi_reaches.event[OF wifi_reaches.event[OF wifi_reaches.start]]) (rule prod.collapse[symmetric])+

theorem wifi_links_witness:
  "wm_stations demo_wifi = [(5, 0, 0)] \<and> count_list (wm_node_links demo_wifi 1) 0 = 1 \<and> count_list (wm_node_links demo_wifi 0) 0 = 0"
proof -
  have "wm_stations demo_wifi = [(5, 0, 0)] \<and> wf_ap (wm_links demo_wifi ! 0) = Some 1" by code_simp
  then show ?thesis using wifi_links[OF demo_wifi_reaches] by simp
qed

text \<open>C24. A periodic update puts the link of every station at the access point it is
  associated with, or at none, up to the first station associated with an address that no scanned device has; there
  it raises \<open>KeyError\<close> and leaves the links of that station and those after it as they were. The view that
  follows raises nothing and draws every link that has an access point between the places of its two nodes.\<close>

theorem wifi_follows:
  assumes "wifi_reaches s" "known = known_station link_up bssid_of (wm_access_points s)"
  shows "\<exists>s' s''. wifi_periodic_update link_up bssid_of s = (if list_all known (wm_stations s) then Inr () else Inl KeyError, s')
    \<and> (\<forall>(d, node, l) \<in> set (takeWhile known (wm_stations s)). station_ap link_up bssid_of (wm_access_points s) d = Inr (wf_ap (wm_links s' ! l)))
    \<and> (\<forall>(d, node, l) \<in> set (wm_stations s) - set (takeWhile known (wm_stations s)). wm_links s' ! l = wm_links s ! l)
    \<and> wifi_update_view s' = (Inr (), s'') \<and> wm_stations s'' = wm_stations s
    \<and> (\<forall>(d, node, l) \<in> set (wm_stations s). wf_ap (wm_links s'' ! l) = wf_ap (wm_links s' ! l)
        \<and> (\<forall>ap. wf_ap (wm_links s' ! l) = Some ap \<longrightarrow> wf_shown (wm_links s'' ! l)
            \<and> wf_points (wm_links s'' ! l) = Some (wm_positions s node, wm_positions s ap)))"
proof -
  obtain s' where s': "wifi_periodic_update link_up bssid_of s = (if list_all known (wm_stations s) then Inr () else Inl KeyError, s')"
    "wifi_ok s'" "same_wifi s s'"
    "\<forall>(d, node, l) \<in> set (takeWhile known (wm_stations s)). station_ap link_up bssid_of (wm_access_points s) d = Inr (wf_ap (wm_links s' ! l))"
    "\<forall>(d, node, l) \<in> set (wm_stations s) - set (takeWhile known (wm_stations s)). wm_links s' ! l = wm_links s ! l"
    using wifi_periodic_spec[OF wifi_reaches_ok[OF assms(1)], of link_up bssid_of] assms(2) by blast
  obtain s'' where s'': "wifi_update_view s' = (Inr (), s'')" "only_points s' s''" "\<forall>x \<in> set (wm_stations s'). link_drawn s'' x"
    using wifi_view_spec[OF s'(2)] by metis
  have ap: "wf_ap (wm_links s'' ! l) = wf_ap (wm_links s' ! l)" for l using s''(2) by (auto simp: only_points_def dest!: spec[of _ l])
  have same: "wm_stations s' = wm_stations s" "wm_stations s'' = wm_stations s" "wm_positions s'' = wm_positions s"
    using s'(3) s''(2) by (simp_all add: same_wifi_def only_points_def)
  show ?thesis using s'(1,4,5) s''(1,3) ap same by (intro exI[of _ s'] exI[of _ s'']) (auto simp: link_drawn_def)
qed

theorem wifi_follows_witness:
  "\<exists>s' s''. wifi_periodic_update (\<lambda>_. True) (\<lambda>_. ''b'') demo_wifi = (Inl KeyError, s') \<and> wifi_update_view s' = (Inr (), s'')
     \<and> wf_points (wm_links s'' ! 0) = Some ((0, 0), (0, 0))"
proof -
  let ?known = "known_station (\<lambda>_. True) (\<lambda>_. ''b'') (wm_access_points demo_wifi)"
  have demo: "wm_stations demo_wifi = [(5, 0, 0)]" "\<not> ?known (5, 0, 0)" "wf_ap (wm_links demo_wifi ! 0) = Some 1" "wm_positions demo_wifi 0 = (0, 0)" "wm_positions demo_wifi 1 = (0, 0)"
    by code_simp+
  show ?thesis using wifi_follows[OF demo_wifi_reaches refl, of "\<lambda>_. True" "\<lambda>_. ''b''"] demo by fastforce
qed

text \<open>C32. From the tenth sample of a node on, the rates of its interfaces are the differences of the
  newest counters and those nine samples older over the time of nine samples, however the samples of other
  nodes come between; if there are more interfaces than at the older sample the query raises \<open>IndexError\<close>,
  before the tenth sample there are no statistics.\<close>

theorem interface_rates:
  assumes "period \<noteq> 0" "h = history node (concat updates)"
  shows "\<exists>d. fold (\<lambda>u r. rbind r (collect_statistics u)) updates (Inr []) = Inr d
    \<and> get_interface_statistics period d node =
      (if length h < 10 then Inr []
       else if length (last h) \<le> length (h ! (length h - 10)) then Inr (map2 (rates_between (9 * period)) (h ! (length h - 10)) (last h))
       else Inl IndexError)"
  using collect_all[of updates] interface_statistics_eq[OF assms(1)] assms(2) by blast

theorem interface_rates_witness:
  "\<exists>d. fold (\<lambda>u r. rbind r (collect_statistics u))
       (map (\<lambda>i. [(3, [\<lparr>transmittedPackets = int i, transmittedBytes = 900 * int i, receivedPackets = 0, receivedBytes = 0\<rparr>]), (4, [])]) [0..<12]) (Inr []) = Inr d
     \<and> map_sum id (map (\<lambda>x. (txPacketRate x, txBitRate x))) (get_interface_statistics (1 / 10) d 3) = Inr [(10, 72000)]"
proof -
  let ?us = "map (\<lambda>i. [(3, [\<lparr>transmittedPackets = int i, transmittedBytes = 900 * int i, receivedPackets = 0, receivedBytes = 0\<rparr>]), (4, [])]) [0..<12]"
  let ?c = "\<lambda>i. \<lparr>transmittedPackets = int i, transmittedBytes = 900 * int i, receivedPackets = 0, receivedBytes = 0\<rparr>"
  define h where "h = history 3 (concat ?us)"
  have "h = map (\<lambda>i. [?c i]) [0..<12]" unfolding h_def by code_simp
  then have h: "length h = 12" "h ! 2 = [?c 2]" "last h = [?c 11]" by (simp_all add: last_conv_nth)
  obtain d where "fold (\<lambda>u r. rbind r (collect_statistics u)) ?us (Inr []) = Inr d"
    "get_interface_statistics (1 / 10) d 3 = Inr (map2 (rates_between (9 * (1 / 10))) [?c 2] [?c 11])"
    using interface_rates[OF _ h_def, of "1 / 10"] h by auto
  then show ?thesis by (intro exI[of _ d]) (simp add: rates_between_def)
qed

section \<open>The console\<close>



text \<open>A coloured text is written piece by piece, each with the tag of the sequence before it, provided that no piece
  is the same as a tag that comes after it.\<close>

theorem console_colours:
  assumes "color_segments [] input = (first, pieces)" "tags_apart pieces"
  shows "console_write input = Inr (first, map prod.swap pieces)"
  by (rule console_write_spec[OF assms])

text \<open>Otherwise a piece can be lost: here the second text is the same as the third tag, which is written in the place
  of the third text.\<close>

theorem console_colours_mixed:
  "console_write ([CHR 0x1B] @ ''[0;31mone'' @ [CHR 0x1B] @ ''[1;37m1;34'' @ [CHR 0x1B] @ ''[1;34mblue'')
    = Inr ([], [(''one'', ''0;31''), (''1;34'', ''1;37''), (''1;34'', ''1;34'')])"
  by code_simp

end
