(* ===== verification/FlowMon.thy ===== *)
theory FlowMon
  imports TestReport PyFormat PyState
begin

text \<open>
  The script \<open>flow-monitor/examples/flowmon-parse-results.py\<close>: it reads the statistics of the flows from the
  file that the flow monitor of the simulator writes, and prints them. The division of the script is the
  true division. \<open>float\<close> has decimal numerals only, no names for infinity. The objects of the flows
  are in a list and \<open>flow_map\<close> names their places in it. An attribute that was never set is \<open>None\<close> of an option.
\<close>

section \<open>Numbers read from attributes\<close>

definition get_attr :: "xml \<Rightarrow> string \<Rightarrow> string option" where
  "get_attr el name = map_of (el_attrs el) name"

text \<open>\<open>int\<close> and \<open>long\<close> of a text or of \<open>None\<close>; \<open>long\<close> takes a letter L at the end.\<close>

fun int_of :: "string option \<Rightarrow> int res" where
  "int_of None = Inl TypeError"
| "int_of (Some s) = read_int s"

definition read_long :: "string \<Rightarrow> int res" where
  "read_long s =
     (let t = strip s
      in if t \<noteq> [] \<and> (last t = CHR ''L'' \<or> last t = CHR ''l'')
         then if strip (butlast t) = butlast t then read_int (butlast t) else Inl ValueError
         else read_int t)"

fun long_of :: "string option \<Rightarrow> int res" where
  "long_of None = Inl TypeError"
| "long_of (Some s) = read_long s"

definition split_digits :: "string \<Rightarrow> string \<times> string" where
  "split_digits s = (takeWhile is_digit s, dropWhile is_digit s)"

text \<open>The exponent of a numeral, with what follows it.\<close>

definition read_exponent :: "string \<Rightarrow> int res" where
  "read_exponent s =
     (case s of
        [] \<Rightarrow> Inr 0
      | c # t \<Rightarrow>
          if c \<noteq> CHR ''e'' \<and> c \<noteq> CHR ''E'' then Inl ValueError
          else case t of
              [] \<Rightarrow> Inl ValueError
            | d # u \<Rightarrow> if d = CHR ''-'' then rbind (read_nat u) (\<lambda>n. Inr (- int n))
                        else if d = CHR ''+'' then rbind (read_nat u) (\<lambda>n. Inr (int n))
                        else rbind (read_nat t) (\<lambda>n. Inr (int n)))"

definition read_ufloat :: "string \<Rightarrow> rat res" where
  "read_ufloat s =
     (let (whole, r) = split_digits s;
          (frac, r) = (if r \<noteq> [] \<and> hd r = CHR ''.'' then split_digits (tl r) else ('''', r))
      in if whole = [] \<and> frac = [] then Inl ValueError
         else rbind (read_exponent r) (\<lambda>e.
           Inr (of_nat (digits_value 10 (map char_digit (whole @ frac))) * pow10 (e - int (length frac)))))"

definition read_float :: "string \<Rightarrow> rat res" where
  "read_float s =
     (let t = strip s
      in if t \<noteq> [] \<and> hd t = CHR ''-'' then rbind (read_ufloat (tl t)) (\<lambda>r. Inr (- r))
         else if t \<noteq> [] \<and> hd t = CHR ''+'' then read_ufloat (tl t)
         else read_ufloat t)"

fun float_of :: "string option \<Rightarrow> rat res" where
  "float_of None = Inl TypeError"
| "float_of (Some s) = read_float s"

text \<open>\<open>s[:-2]\<close>; \<open>None\<close> has no slices.\<close>

fun cut_unit :: "string option \<Rightarrow> string option res" where
  "cut_unit None = Inl TypeError"
| "cut_unit (Some s) = Inr (Some (take (length s - 2) s))"

definition parse_time_ns :: "string option \<Rightarrow> int res" where
  "parse_time_ns tm =
     (case tm of
        None \<Rightarrow> Inl AttributeError
      | Some s \<Rightarrow> if ends_with ''ns'' s then read_long (take (length s - 2) s) else Inl ValueError)"

definition div_res :: "rat \<Rightarrow> rat \<Rightarrow> rat res" where
  "div_res a b = (if b = 0 then Inl ZeroDivisionError else Inr (a / b))"

section \<open>Flows\<close>

record five_tuple =
  sourceAddress :: "string option"
  destinationAddress :: "string option"
  protocol :: int
  sourcePort :: int
  destinationPort :: int

definition FiveTuple :: "xml \<Rightarrow> five_tuple res" where
  "FiveTuple el =
     rbind (int_of (get_attr el ''sourcePort'')) (\<lambda>sp.
     rbind (int_of (get_attr el ''destinationPort'')) (\<lambda>dp.
     rbind (int_of (get_attr el ''protocol'')) (\<lambda>p.
       Inr \<lparr>sourceAddress = get_attr el ''sourceAddress'', destinationAddress = get_attr el ''destinationAddress'',
            protocol = p, sourcePort = sp, destinationPort = dp\<rparr>)))"

type_synonym histogram = "(rat \<times> rat \<times> int) list"

fun read_each :: "('a \<Rightarrow> 'b res) \<Rightarrow> 'a list \<Rightarrow> 'b list res" where
  "read_each f [] = Inr []"
| "read_each f (x # xs) = rbind (f x) (\<lambda>y. rbind (read_each f xs) (\<lambda>ys. Inr (y # ys)))"

definition read_bin :: "xml \<Rightarrow> (rat \<times> rat \<times> int) res" where
  "read_bin b =
     rbind (float_of (get_attr b ''start'')) (\<lambda>start. rbind (float_of (get_attr b ''width'')) (\<lambda>width.
     rbind (int_of (get_attr b ''count'')) (\<lambda>cnt. Inr (start, width, cnt))))"

definition Histogram :: "xml \<Rightarrow> histogram res" where
  "Histogram el = read_each read_bin (findall ''bin'' el)"

record probe_stats =
  probeId :: int
  packets :: int
  bytes :: int
  delayFromFirstProbe :: rat

record flow =
  flowId :: int
  delayMean :: "rat option"
  packetLossRatio :: "rat option"
  rxBitrate :: "rat option"
  txBitrate :: "rat option"
  fiveTuple :: "five_tuple option"
  packetSizeMean :: "rat option"
  probe_stats_unsorted :: "probe_stats list"
  hopCount :: rat
  flowInterruptionsHistogram :: "histogram option"
  rx_duration :: rat

text \<open>The seconds between two times given with a unit of two letters.\<close>

definition duration :: "xml \<Rightarrow> string \<Rightarrow> string \<Rightarrow> rat res" where
  "duration el last_name first_name =
     rbind (cut_unit (get_attr el last_name)) (\<lambda>a. rbind (long_of a) (\<lambda>to.
     rbind (cut_unit (get_attr el first_name)) (\<lambda>b. rbind (long_of b) (\<lambda>from.
       Inr (of_int (to - from) / 10 ^ 9)))))"

definition bitrate :: "xml \<Rightarrow> string \<Rightarrow> rat \<Rightarrow> rat option res" where
  "bitrate el name seconds =
     (if seconds > 0 then rbind (long_of (get_attr el name)) (\<lambda>n. Inr (Some (of_int (n * 8) / seconds))) else Inr None)"

definition Flow :: "xml \<Rightarrow> flow res" where
  "Flow el =
     rbind (int_of (get_attr el ''flowId'')) (\<lambda>i.
     rbind (long_of (get_attr el ''rxPackets'')) (\<lambda>rxPackets.
     rbind (long_of (get_attr el ''txPackets'')) (\<lambda>txPackets.
     rbind (duration el ''timeLastTxPacket'' ''timeFirstTxPacket'') (\<lambda>tx_duration.
     rbind (duration el ''timeLastRxPacket'' ''timeFirstRxPacket'') (\<lambda>rx_duration.
     rbind (if rxPackets \<noteq> 0 then rbind (float_of (get_attr el ''timesForwarded'')) (\<lambda>n. Inr (n / of_int rxPackets + 1)) else Inr (-1000)) (\<lambda>hops.
     rbind (if rxPackets \<noteq> 0
            then rbind (cut_unit (get_attr el ''delaySum'')) (\<lambda>d. rbind (float_of d) (\<lambda>delay.
                 rbind (float_of (get_attr el ''rxBytes'')) (\<lambda>size.
                   Inr (Some (delay / of_int rxPackets / 10 ^ 9), Some (size / of_int rxPackets)))))
            else Inr (None, None)) (\<lambda>(delay_mean, size_mean).
     rbind (bitrate el ''rxBytes'' rx_duration) (\<lambda>rx_rate.
     rbind (bitrate el ''txBytes'' tx_duration) (\<lambda>tx_rate.
     rbind (float_of (get_attr el ''lostPackets'')) (\<lambda>lost.
     rbind (if rxPackets = 0 then Inr None else rbind (div_res lost (of_int rxPackets + lost)) (\<lambda>r. Inr (Some r))) (\<lambda>loss.
     rbind (case find_el ''flowInterruptionsHistogram'' el of
              None \<Rightarrow> Inr None | Some h \<Rightarrow> rbind (Histogram h) (\<lambda>bins. Inr (Some bins))) (\<lambda>hist.
       Inr \<lparr>flowId = i, delayMean = delay_mean, packetLossRatio = loss, rxBitrate = rx_rate, txBitrate = tx_rate, fiveTuple = None,
            packetSizeMean = size_mean, probe_stats_unsorted = [], hopCount = hops, flowInterruptionsHistogram = hist,
            rx_duration = rx_duration\<rparr>))))))))))))"

section \<open>A simulation\<close>

record simulation =
  flows :: "flow list"
  flow_map :: "(int, nat) dict"

definition findall2 :: "string \<Rightarrow> string \<Rightarrow> xml \<Rightarrow> xml list" where
  "findall2 t u e = concat (map (findall u) (findall t e))"

definition change_flow :: "int \<Rightarrow> (flow \<Rightarrow> flow) \<Rightarrow> simulation \<Rightarrow> simulation res" where
  "change_flow i f s =
     rbind (d_item (flow_map s) i) (\<lambda>k. Inr (s\<lparr>flows := (flows s)[k := f (flows s ! k)]\<rparr>))"

definition add_flow :: "xml \<Rightarrow> simulation \<Rightarrow> simulation res" where
  "add_flow el s =
     rbind (Flow el) (\<lambda>f. Inr (s\<lparr>flow_map := d_set (flowId f) (length (flows s)) (flow_map s), flows := flows s @ [f]\<rparr>))"

definition classify_flow :: "xml \<Rightarrow> simulation \<Rightarrow> simulation res" where
  "classify_flow el s =
     rbind (int_of (get_attr el ''flowId'')) (\<lambda>i. rbind (FiveTuple el) (\<lambda>t. change_flow i (\<lambda>f. f\<lparr>fiveTuple := Some t\<rparr>) s))"

definition add_probe_stats :: "int \<Rightarrow> xml \<Rightarrow> simulation \<Rightarrow> simulation res" where
  "add_probe_stats probe el s =
     rbind (int_of (get_attr el ''flowId'')) (\<lambda>i.
     rbind (int_of (get_attr el ''packets'')) (\<lambda>n.
     rbind (long_of (get_attr el ''bytes'')) (\<lambda>b.
     rbind (if n > 0 then rbind (parse_time_ns (get_attr el ''delayFromFirstProbeSum'')) (\<lambda>t. Inr (of_int t / of_int n)) else Inr 0) (\<lambda>delay.
       change_flow i (\<lambda>f. f\<lparr>probe_stats_unsorted := probe_stats_unsorted f @
         [\<lparr>probeId = probe, packets = n, bytes = b, delayFromFirstProbe = delay\<rparr>]\<rparr>) s))))"

fun res_fold :: "('a \<Rightarrow> 's \<Rightarrow> 's res) \<Rightarrow> 'a list \<Rightarrow> 's \<Rightarrow> 's res" where
  "res_fold f [] s = Inr s"
| "res_fold f (x # xs) s = rbind (f x s) (res_fold f xs)"

definition add_probe :: "xml \<Rightarrow> simulation \<Rightarrow> simulation res" where
  "add_probe el s =
     rbind (int_of (get_attr el ''index'')) (\<lambda>probe. res_fold (add_probe_stats probe) (findall ''FlowStats'' el) s)"

text \<open>The file must have exactly one element of the classifier.\<close>

definition Simulation :: "xml \<Rightarrow> simulation res" where
  "Simulation el =
     (case findall ''Ipv4FlowClassifier'' el of
        [classifier] \<Rightarrow>
          rbind (res_fold add_flow (findall2 ''FlowStats'' ''Flow'' el) \<lparr>flows = [], flow_map = []\<rparr>) (\<lambda>s.
          rbind (res_fold classify_flow (findall ''Flow'' classifier) s)
                (res_fold add_probe (findall2 ''FlowProbes'' ''FlowProbe'' el)))
      | _ \<Rightarrow> Inl ValueError)"

section \<open>The script\<close>

text \<open>\<open>iterparse\<close> reports the start and the end of each element; a simulation is read at the end of the
  outermost element.\<close>

datatype xml_event = StartEl xml | EndEl xml

fun xml_events :: "xml \<Rightarrow> xml_event list" where
  "xml_events (Element t a x cs) = StartEl (Element t a x cs) # concat (map xml_events cs) @ [EndEl (Element t a x cs)]"

fun read_simulations :: "xml_event list \<Rightarrow> int \<Rightarrow> simulation list \<Rightarrow> simulation list res" where
  "read_simulations [] level sims = Inr sims"
| "read_simulations (StartEl e # es) level sims = read_simulations es (level + 1) sims"
| "read_simulations (EndEl e # es) level sims =
     (if level - 1 = 0 \<and> el_tag e = ''FlowMonitor''
      then rbind (Simulation e) (\<lambda>sim. read_simulations es (level - 1) (sims @ [sim]))
      else read_simulations es (level - 1) sims)"

definition print_line :: "string \<Rightarrow> (string list, unit) act" where
  "print_line l = act_do (\<lambda>out. out @ [l])"

text \<open>A number that may be \<open>None\<close>, scaled and with two decimals.\<close>

definition print_number :: "string \<Rightarrow> rat option \<Rightarrow> rat \<Rightarrow> string \<Rightarrow> (string list, unit) act" where
  "print_number before v k after =
     (case v of None \<Rightarrow> act_raise TypeError | Some x \<Rightarrow> print_line (CHR 0x09 # before @ fmt_f 2 (x * k) @ after))"

definition proto_name :: "int \<Rightarrow> string res" where
  "proto_name p = (if p = 6 then Inr ''TCP'' else if p = 17 then Inr ''UDP'' else Inl KeyError)"

definition flow_head :: "flow \<Rightarrow> five_tuple \<Rightarrow> string \<Rightarrow> string" where
  "flow_head f t proto =
     ''FlowID: '' @ show_int (flowId f) @ '' ('' @ proto @ '' '' @ py_str (sourceAddress t) @ ''/'' @ show_int (sourcePort t)
       @ '' --> '' @ py_str (destinationAddress t) @ ''/'' @ show_int (destinationPort t) @ '')''"

definition print_flow :: "flow \<Rightarrow> (string list, unit) act" where
  "print_flow f =
     (case fiveTuple f of
        None \<Rightarrow> act_raise AttributeError
      | Some t \<Rightarrow>
          act_bind (act_lift (proto_name (protocol t))) (\<lambda>proto.
          act_then (print_line (flow_head f t proto))
         (act_then (print_number ''TX bitrate: '' (txBitrate f) (1 / 1000) '' kbit/s'')
         (act_then (print_number ''RX bitrate: '' (rxBitrate f) (1 / 1000) '' kbit/s'')
         (act_then (print_number ''Mean Delay: '' (delayMean f) 1000 '' ms'')
                   (print_number ''Packet Loss Ratio: '' (packetLossRatio f) 100 '' %''))))))"

definition flowmon_main :: "xml \<Rightarrow> (string list, unit) act" where
  "flowmon_main doc =
     act_bind (act_lift (read_simulations (xml_events doc) 0 [])) (\<lambda>sims.
       act_each (\<lambda>sim. act_each print_flow (flows sim)) sims)"

end
