(* ===== verification/FlowMonProofs.thy ===== *)
theory FlowMonProofs
  imports FlowMon
begin

text \<open>
  What the simulator writes, and what the script makes of it. The functions that write are those of the
  simulator, in C++: \<open>operator<<\<close> of a time (\<open>core/model/time.cc\<close>), the elements of a flow
  (\<open>flow-monitor/model/flow-monitor.cc\<close>) and of the classifier (\<open>ipv4-flow-classifier.cc\<close>), without the
  histograms, the probes and the counts of dropped packets, which are optional.
\<close>

section \<open>Writing\<close>

text \<open>A time in nanoseconds, as the simulator writes it, and as the script expects it.\<close>

definition time_text :: "int \<Rightarrow> string" where
  "time_text v = (if v < 0 then '''' else ''+'') @ show_int v @ ''.0'' @ ''ns''"

definition plain_time :: "int \<Rightarrow> string" where
  "plain_time v = show_int v @ ''ns''"

record flow_counts =
  fc_id :: int
  fc_first_tx :: int
  fc_first_rx :: int
  fc_last_tx :: int
  fc_last_rx :: int
  fc_delay :: int
  fc_jitter :: int
  fc_last_delay :: int
  fc_tx_bytes :: int
  fc_rx_bytes :: int
  fc_tx_packets :: int
  fc_rx_packets :: int
  fc_lost :: int
  fc_forwarded :: int

definition flow_element :: "(int \<Rightarrow> string) \<Rightarrow> flow_counts \<Rightarrow> xml" where
  "flow_element tm c = Element ''Flow''
     [(''flowId'', show_int (fc_id c)), (''timeFirstTxPacket'', tm (fc_first_tx c)), (''timeFirstRxPacket'', tm (fc_first_rx c)),
      (''timeLastTxPacket'', tm (fc_last_tx c)), (''timeLastRxPacket'', tm (fc_last_rx c)), (''delaySum'', tm (fc_delay c)),
      (''jitterSum'', tm (fc_jitter c)), (''lastDelay'', tm (fc_last_delay c)), (''txBytes'', show_int (fc_tx_bytes c)),
      (''rxBytes'', show_int (fc_rx_bytes c)), (''txPackets'', show_int (fc_tx_packets c)), (''rxPackets'', show_int (fc_rx_packets c)),
      (''lostPackets'', show_int (fc_lost c)), (''timesForwarded'', show_int (fc_forwarded c))] None []"

definition class_element :: "int \<times> five_tuple \<Rightarrow> xml" where
  "class_element = (\<lambda>(i, t). Element ''Flow''
     [(''flowId'', show_int i), (''sourceAddress'', py_str (sourceAddress t)), (''destinationAddress'', py_str (destinationAddress t)),
      (''protocol'', show_int (protocol t)), (''sourcePort'', show_int (sourcePort t)), (''destinationPort'', show_int (destinationPort t))]
     None [])"

definition monitor_element :: "(int \<Rightarrow> string) \<Rightarrow> flow_counts list \<Rightarrow> (int \<times> five_tuple) list \<Rightarrow> xml" where
  "monitor_element tm cs ts = Element ''FlowMonitor'' [] None
     [Element ''FlowStats'' [] None (map (flow_element tm) cs), Element ''Ipv4FlowClassifier'' [] None (map class_element ts)]"

section \<open>Numbers\<close>

lemma strip_id: "\<forall>c \<in> set s. \<not> is_space c \<Longrightarrow> strip s = s"
proof -
  assume a: "\<forall>c \<in> set s. \<not> is_space c"
  have d: "dropWhile is_space s = s" if "\<forall>c \<in> set s. \<not> is_space c" for s using that by (cases s) auto
  have "dropWhile is_space s = s" "dropWhile is_space (rev s) = rev s" using a by (auto intro!: d)
  then show ?thesis by (simp add: strip_def lstrip_def rstrip_def)
qed

lemma last_show_int: "is_digit (last (show_int i))" "show_int i \<noteq> []"
proof -
  have "is_digit (last (show_nat n))" for n
    using show_nat_digits(1,2)[of n] by (metis last_in_set list.pred_set)
  then show "is_digit (last (show_int i))" "show_int i \<noteq> []" using show_nat_digits(2) by (auto simp: show_int_def)
qed

lemma digit_no_letter: "is_digit c \<Longrightarrow> c \<noteq> CHR ''L'' \<and> c \<noteq> CHR ''l'' \<and> c \<noteq> CHR ''.'' \<and> c \<noteq> CHR ''e''"
  by (auto simp: is_digit_def)

lemma read_long_show [simp]: "read_long (show_int i) = Inr i"
  using last_show_int[of i] digit_no_letter[of "last (show_int i)"] by (simp add: read_long_def Let_def strip_show_int read_show_int)

text \<open>A time as the simulator writes it is no integer.\<close>

lemma read_long_time: "read_long (take (length (time_text v) - 2) (time_text v)) = Inl ValueError"
proof -
  define s where "s = (if v < 0 then '''' else ''+'') @ show_int v @ ''.0''"
  have t: "take (length (time_text v) - 2) (time_text v) = s" by (simp add: time_text_def s_def)
  have "\<not> is_space (CHR ''+'')" "\<not> is_space (CHR ''.'')" "\<not> is_space (CHR ''0'')" by (simp_all add: is_space_def)
  then have "strip s = s" by (intro strip_id) (auto simp: s_def show_int_chars)
  moreover have "last s = CHR ''0''" "s \<noteq> []" by (simp_all add: s_def)
  moreover have "read_nat (show_nat n @ ''.0'') = Inl ValueError" for n by (simp add: read_nat_def is_digit_def)
  ultimately show ?thesis unfolding t
    by (cases "v < 0") (simp_all add: read_long_def Let_def read_int_def, simp_all add: s_def show_int_def)
qed

lemma read_float_show [simp]: "read_float (show_int i) = Inr (of_int i)"
proof -
  have u: "read_ufloat (show_nat n) = Inr (of_nat n)" for n
  proof -
    have d: "split_digits (show_nat n) = (show_nat n, [])"
      using show_nat_digits(1)[of n] by (simp add: split_digits_def list_all_iff takeWhile_eq_all_conv dropWhile_eq_Nil_conv)
    show ?thesis using show_nat_digits(2,3)[of n] by (simp add: read_ufloat_def d read_exponent_def pow10_def)
  qed
  have "hd (show_nat n) \<noteq> CHR ''-'' \<and> hd (show_nat n) \<noteq> CHR ''+''" for n
    using show_nat_digits(1,2)[of n] digit_char_facts by (metis hd_in_set list.pred_set)
  then show ?thesis using u strip_show_int[of i] show_nat_digits(2)
    by (auto simp: read_float_def Let_def show_int_def)
qed

section \<open>Reading a flow\<close>

text \<open>What the script computes from the counts.\<close>

definition flow_of :: "flow_counts \<Rightarrow> flow" where
  "flow_of c =
     (let tx = of_int (fc_last_tx c - fc_first_tx c) / 10 ^ 9; rx = of_int (fc_last_rx c - fc_first_rx c) / 10 ^ 9; n = of_int (fc_rx_packets c)
      in \<lparr>flowId = fc_id c, delayMean = (if n = 0 then None else Some (of_int (fc_delay c) / n / 10 ^ 9)),
           packetLossRatio = (if n = 0 then None else Some (of_int (fc_lost c) / (n + of_int (fc_lost c)))),
           rxBitrate = (if rx > 0 then Some (of_int (fc_rx_bytes c * 8) / rx) else None),
           txBitrate = (if tx > 0 then Some (of_int (fc_tx_bytes c * 8) / tx) else None), fiveTuple = None,
           packetSizeMean = (if n = 0 then None else Some (of_int (fc_rx_bytes c) / n)), probe_stats_unsorted = [],
           hopCount = (if n = 0 then -1000 else of_int (fc_forwarded c) / n + 1), flowInterruptionsHistogram = None, rx_duration = rx\<rparr>)"

lemma cut_plain: "take (length (plain_time v) - 2) (plain_time v) = show_int v"
  by (simp add: plain_time_def)

lemma read_attrs [simp]: "int_of (Some (show_int i)) = Inr i" "long_of (Some (show_int i)) = Inr i" "float_of (Some (show_int i)) = Inr (of_int i)"
  "cut_unit (Some (plain_time i)) = Inr (Some (show_int i))"
  by (simp_all add: read_show_int cut_plain)

declare int_of.simps [simp del] long_of.simps [simp del] float_of.simps [simp del] cut_unit.simps [simp del]

lemma flow_attrs [simp]:
  "get_attr (flow_element tm c) ''flowId'' = Some (show_int (fc_id c))"
  "get_attr (flow_element tm c) ''timeFirstTxPacket'' = Some (tm (fc_first_tx c))"
  "get_attr (flow_element tm c) ''timeFirstRxPacket'' = Some (tm (fc_first_rx c))"
  "get_attr (flow_element tm c) ''timeLastTxPacket'' = Some (tm (fc_last_tx c))"
  "get_attr (flow_element tm c) ''timeLastRxPacket'' = Some (tm (fc_last_rx c))"
  "get_attr (flow_element tm c) ''delaySum'' = Some (tm (fc_delay c))"
  "get_attr (flow_element tm c) ''txBytes'' = Some (show_int (fc_tx_bytes c))"
  "get_attr (flow_element tm c) ''rxBytes'' = Some (show_int (fc_rx_bytes c))"
  "get_attr (flow_element tm c) ''txPackets'' = Some (show_int (fc_tx_packets c))"
  "get_attr (flow_element tm c) ''rxPackets'' = Some (show_int (fc_rx_packets c))"
  "get_attr (flow_element tm c) ''lostPackets'' = Some (show_int (fc_lost c))"
  "get_attr (flow_element tm c) ''timesForwarded'' = Some (show_int (fc_forwarded c))"
  "find_el t (flow_element tm c) = None" "el_tag (flow_element tm c) = ''Flow''"
  by (simp_all add: get_attr_def flow_element_def find_el_def)

lemma durations [simp]:
  "duration (flow_element plain_time c) ''timeLastTxPacket'' ''timeFirstTxPacket'' = Inr (of_int (fc_last_tx c - fc_first_tx c) / 10 ^ 9)"
  "duration (flow_element plain_time c) ''timeLastRxPacket'' ''timeFirstRxPacket'' = Inr (of_int (fc_last_rx c - fc_first_rx c) / 10 ^ 9)"
  by (simp_all only: duration_def flow_attrs read_attrs rbind.simps)

lemma bitrates [simp]:
  "bitrate (flow_element tm c) ''rxBytes'' s = Inr (if s > 0 then Some (of_int (fc_rx_bytes c * 8) / s) else None)"
  "bitrate (flow_element tm c) ''txBytes'' s = Inr (if s > 0 then Some (of_int (fc_tx_bytes c * 8) / s) else None)"
  by (simp_all only: bitrate_def flow_attrs read_attrs rbind.simps split: if_split) simp_all

lemma Flow_plain:
  assumes "0 \<le> fc_lost c" "0 \<le> fc_rx_packets c"
  shows "Flow (flow_element plain_time c) = Inr (flow_of c)"
proof (cases "fc_rx_packets c = 0")
  case True
  then show ?thesis by (simp only: Flow_def flow_attrs read_attrs rbind.simps durations bitrates) (simp add: flow_of_def Let_def)
next
  case False
  then have "rat_of_int (fc_rx_packets c) + of_int (fc_lost c) \<noteq> 0"
    using assms by (metis add_nonneg_eq_0_iff of_int_0_eq_iff of_int_0_le_iff)
  then have "div_res (of_int (fc_lost c)) (of_int (fc_rx_packets c) + of_int (fc_lost c))
    = Inr (of_int (fc_lost c) / (of_int (fc_rx_packets c) + of_int (fc_lost c)))" by (simp add: div_res_def)
  then show ?thesis using False
    by (simp only: Flow_def flow_attrs read_attrs rbind.simps durations bitrates) (simp add: flow_of_def Let_def)
qed

lemma Flow_time: "Flow (flow_element time_text c) = Inl ValueError"
  using read_long_time[of "fc_last_tx c"] by (simp add: Flow_def duration_def cut_unit.simps long_of.simps)

section \<open>Reading the file\<close>

text \<open>Inside the outermost element nothing is read.\<close>

lemma inner_events: "1 \<le> l \<Longrightarrow> read_simulations (xml_events e @ es) l sims = read_simulations es l sims"
proof (induction e arbitrary: l es rule: xml_events.induct)
  case (1 t a x cs)
  have "read_simulations (concat (map xml_events ds) @ es') (l + 1) sims = read_simulations es' (l + 1) sims" if "set ds \<subseteq> set cs" for ds es'
    using that
  proof (induction ds)
    case (Cons d ds)
    then show ?case using "1.IH"[of d "l + 1" "concat (map xml_events ds) @ es'"] "1.prems" by simp
  qed simp
  from this[of cs "EndEl (Element t a x cs) # es"] show ?case using "1.prems" by simp
qed

lemma read_document:
  "read_simulations (xml_events doc) 0 [] =
     (if el_tag doc = ''FlowMonitor'' then rbind (Simulation doc) (\<lambda>s. Inr [s]) else Inr [])"
proof -
  have c: "read_simulations (concat (map xml_events cs) @ es) 1 sims = read_simulations es 1 sims" for cs es sims
    by (induction cs) (simp_all add: inner_events)
  show ?thesis
  proof (cases doc)
    case (Element t a x cs)
    have "read_simulations (xml_events doc) 0 [] = read_simulations (concat (map xml_events cs) @ [EndEl doc]) 1 []" by (simp add: Element)
    also have "\<dots> = read_simulations [EndEl doc] 1 []" by (rule c)
    finally show ?thesis by simp
  qed
qed

text \<open>The map names each flow's place.\<close>

definition map_ok :: "simulation \<Rightarrow> bool" where
  "map_ok s \<longleftrightarrow> (\<forall>i k. d_get (flow_map s) i = Some k \<longleftrightarrow> k < length (flows s) \<and> flowId (flows s ! k) = i)"

definition counts_ok :: "flow_counts \<Rightarrow> bool" where
  "counts_ok c \<longleftrightarrow> 0 \<le> fc_lost c \<and> 0 \<le> fc_rx_packets c"

lemma flowId_of [simp]: "flowId (flow_of c) = fc_id c"
  by (simp add: flow_of_def Let_def)

lemma add_flows:
  assumes "list_all counts_ok cs" "distinct (map flowId (flows s) @ map fc_id cs)" "map_ok s"
  shows "\<exists>s'. res_fold add_flow (map (flow_element plain_time) cs) s = Inr s' \<and> flows s' = flows s @ map flow_of cs \<and> map_ok s'"
  using assms
proof (induction cs arbitrary: s)
  case (Cons c cs)
  let ?s = "s\<lparr>flow_map := d_set (fc_id c) (length (flows s)) (flow_map s), flows := flows s @ [flow_of c]\<rparr>"
  have step: "add_flow (flow_element plain_time c) s = Inr ?s" using Cons.prems(1) by (simp add: add_flow_def Flow_plain counts_ok_def)
  have "flowId (flows s ! k) \<noteq> fc_id c" if "k < length (flows s)" for k
  proof -
    have "flowId (flows s ! k) \<in> set (map flowId (flows s))" using that by simp
    then show ?thesis using Cons.prems(2) by auto
  qed
  then have "map_ok ?s" using Cons.prems(3) by (auto simp: map_ok_def dict_simps nth_append less_Suc_eq)
  from Cons.IH[OF _ _ this] show ?case using Cons.prems(1,2) by (simp add: step)
qed simp

lemma FiveTuple_class:
  "FiveTuple (class_element (i, t)) = Inr \<lparr>sourceAddress = Some (py_str (sourceAddress t)), destinationAddress = Some (py_str (destinationAddress t)),
     protocol = protocol t, sourcePort = sourcePort t, destinationPort = destinationPort t\<rparr>"
  "get_attr (class_element (i, t)) ''flowId'' = Some (show_int i)" "el_tag (class_element x) = ''Flow''"
  by (simp_all add: FiveTuple_def class_element_def get_attr_def case_prod_beta)

definition as_text :: "five_tuple \<Rightarrow> five_tuple" where
  "as_text t = \<lparr>sourceAddress = Some (py_str (sourceAddress t)), destinationAddress = Some (py_str (destinationAddress t)),
     protocol = protocol t, sourcePort = sourcePort t, destinationPort = destinationPort t\<rparr>"

definition classified :: "(int \<Rightarrow> five_tuple option) \<Rightarrow> flow_counts \<Rightarrow> flow" where
  "classified m c = (flow_of c)\<lparr>fiveTuple := m (fc_id c)\<rparr>"

lemma classify_flows:
  assumes "map_ok s" "flows s = map (classified m) cs" "distinct (map fc_id cs)" "fst ` set ts \<subseteq> fc_id ` set cs"
  shows "\<exists>s'. res_fold classify_flow (map class_element ts) s = Inr s'
    \<and> flows s' = map (classified (m ++ map_of (map (\<lambda>(i, t). (i, as_text t)) (rev ts)))) cs"
  using assms(1,2,4)
proof (induction ts arbitrary: s m)
  case (Cons it ts)
  obtain i t where it: "it = (i, t)" by (cases it)
  obtain c where "c \<in> set cs" "fc_id c = i" using Cons.prems(3) it by auto
  then obtain k where k: "k < length cs" "fc_id (cs ! k) = i" by (metis in_set_conv_nth)
  then have g: "d_get (flow_map s) i = Some k" using Cons.prems(1,2) by (simp add: map_ok_def classified_def)
  let ?s = "s\<lparr>flows := (flows s)[k := (flows s ! k)\<lparr>fiveTuple := Some (as_text t)\<rparr>]\<rparr>"
  have step: "classify_flow (class_element it) s = Inr ?s"
    using g by (simp add: classify_flow_def it FiveTuple_class change_flow_def d_item_def as_text_def)
  have ids: "flowId (flows ?s ! j) = flowId (flows s ! j)" for j by (cases "j = k"; cases "k < length (flows s)") (simp_all add: list_update_beyond)
  then have ok: "map_ok ?s" using Cons.prems(1) by (simp add: map_ok_def)
  have "flows ?s = map (classified (m(i \<mapsto> as_text t))) cs"
  proof (rule nth_equalityI)
    fix j assume "j < length (flows ?s)"
    then have j: "j < length cs" using Cons.prems(2) by simp
    have "fc_id (cs ! j) = i \<longleftrightarrow> j = k" using j k assms(3) by (metis distinct_conv_nth length_map nth_map)
    then show "flows ?s ! j = map (classified (m(i \<mapsto> as_text t))) cs ! j"
      using j k Cons.prems(2) by (cases "j = k") (simp_all add: classified_def)
  qed (simp add: Cons.prems(2))
  moreover have "fst ` set ts \<subseteq> fc_id ` set cs" using Cons.prems(3) by auto
  ultimately obtain s' where s': "res_fold classify_flow (map class_element ts) ?s = Inr s'"
    "flows s' = map (classified (m(i \<mapsto> as_text t) ++ map_of (map (\<lambda>(i, t). (i, as_text t)) (rev ts)))) cs" using Cons.IH[OF ok] by blast
  have "m(i \<mapsto> as_text t) ++ map_of (map (\<lambda>(i, t). (i, as_text t)) (rev ts)) = m ++ map_of (map (\<lambda>(i, t). (i, as_text t)) (rev (it # ts)))"
    by (simp add: it map_of_append)
  then show ?case using s' by (simp add: step)
qed simp

text \<open>The simulation that the script reads, with a classifier that knows every flow once.\<close>

lemma Simulation_plain:
  assumes "list_all counts_ok cs" "distinct (map fc_id cs)" "distinct (map fst ts)" "fst ` set ts \<subseteq> fc_id ` set cs"
  shows "\<exists>s. Simulation (monitor_element plain_time cs ts) = Inr s
    \<and> flows s = map (\<lambda>c. (flow_of c)\<lparr>fiveTuple := map_option as_text (map_of ts (fc_id c))\<rparr>) cs"
proof -
  let ?d = "monitor_element plain_time cs ts" and ?c = "Element ''Ipv4FlowClassifier'' [] None (map class_element ts)"
  have parts: "findall ''Ipv4FlowClassifier'' ?d = [?c]" "findall2 ''FlowStats'' ''Flow'' ?d = map (flow_element plain_time) cs"
    "findall2 ''FlowProbes'' ''FlowProbe'' ?d = []" "findall ''Flow'' ?c = map class_element ts"
    by (simp_all add: monitor_element_def findall_def findall2_def filter_map comp_def FiveTuple_class(3))
  have "map_ok \<lparr>flows = [], flow_map = []\<rparr>" by (simp add: map_ok_def d_get_def)
  from add_flows[OF assms(1) _ this] assms(2) obtain s where s: "res_fold add_flow (map (flow_element plain_time) cs) \<lparr>flows = [], flow_map = []\<rparr> = Inr s"
    "flows s = map flow_of cs" "map_ok s" by auto
  have "flow_of c = classified (\<lambda>_. None) c" for c by (simp add: classified_def flow_of_def Let_def)
  then have "flows s = map (classified (\<lambda>_. None)) cs" using s(2) by simp
  from classify_flows[OF s(3) this assms(2,4)] obtain s' where s': "res_fold classify_flow (map class_element ts) s = Inr s'"
    "flows s' = map (classified ((\<lambda>_. None) ++ map_of (map (\<lambda>(i, t). (i, as_text t)) (rev ts)))) cs" by blast
  have mo: "map_of (map (\<lambda>(i, t). (i, as_text t)) us) i = map_option as_text (map_of us i)" for us i by (induction us) auto
  have rv: "map_of (rev ts) = map_of ts" using assms(3) by (intro map_of_inject_set[THEN iffD2]) (simp_all add: rev_map[symmetric])
  have "classified ((\<lambda>_. None) ++ map_of (map (\<lambda>(i, t). (i, as_text t)) (rev ts))) c
      = (flow_of c)\<lparr>fiveTuple := map_option as_text (map_of ts (fc_id c))\<rparr>" for c
    unfolding classified_def empty_map_add mo rv ..
  then have "flows s' = map (\<lambda>c. (flow_of c)\<lparr>fiveTuple := map_option as_text (map_of ts (fc_id c))\<rparr>) cs"
    using s'(2) by simp
  then show ?thesis using s(1) s'(1) by (simp add: Simulation_def parts)
qed

lemma Simulation_time: "cs \<noteq> [] \<Longrightarrow> Simulation (monitor_element time_text cs ts) = Inl ValueError"
  by (cases cs) (simp_all add: Simulation_def monitor_element_def findall_def findall2_def filter_map comp_def add_flow_def Flow_time)

section \<open>The report\<close>

definition reported :: "flow_counts \<Rightarrow> bool" where
  "reported c \<longleftrightarrow> 0 < fc_rx_packets c \<and> fc_first_tx c < fc_last_tx c \<and> fc_first_rx c < fc_last_rx c"

text \<open>The lines of a flow. The rates are in bytes a nanosecond until here.\<close>

definition flow_lines :: "flow_counts \<Rightarrow> five_tuple \<Rightarrow> string list" where
  "flow_lines c t =
     [flow_head (flow_of c) t (if protocol t = 6 then ''TCP'' else ''UDP''),
      CHR 0x09 # ''TX bitrate: '' @ fmt_f 2 (of_int (fc_tx_bytes c * 8) * 10 ^ 6 / of_int (fc_last_tx c - fc_first_tx c)) @ '' kbit/s'',
      CHR 0x09 # ''RX bitrate: '' @ fmt_f 2 (of_int (fc_rx_bytes c * 8) * 10 ^ 6 / of_int (fc_last_rx c - fc_first_rx c)) @ '' kbit/s'',
      CHR 0x09 # ''Mean Delay: '' @ fmt_f 2 (of_int (fc_delay c) / of_int (fc_rx_packets c) / 10 ^ 6) @ '' ms'',
      CHR 0x09 # ''Packet Loss Ratio: '' @ fmt_f 2 (of_int (fc_lost c) / of_int (fc_rx_packets c + fc_lost c) * 100) @ '' %'']"

lemma print_flow_lines:
  assumes "reported c" "protocol t = 6 \<or> protocol t = 17"
  shows "print_flow ((flow_of c)\<lparr>fiveTuple := Some (as_text t)\<rparr>) out = (Inr (), out @ flow_lines c t)"
proof -
  have head: "flow_head ((flow_of c)\<lparr>fiveTuple := v\<rparr>) (as_text t) p = flow_head (flow_of c) t p" for v p
    by (simp add: flow_head_def as_text_def)
  have pr: "proto_name (protocol (as_text t)) = Inr (if protocol t = 6 then ''TCP'' else ''UDP'')"
    using assms(2) by (auto simp: proto_name_def as_text_def)
  let ?tx = "rat_of_int (fc_last_tx c - fc_first_tx c)" and ?rx = "rat_of_int (fc_last_rx c - fc_first_rx c)"
  have pos: "0 < ?tx" "0 < ?rx" "rat_of_int (fc_rx_packets c) \<noteq> 0" using assms(1) by (simp_all add: reported_def)
  then have v: "txBitrate (flow_of c) = Some (of_int (fc_tx_bytes c * 8) / (?tx / 10 ^ 9))" "rxBitrate (flow_of c) = Some (of_int (fc_rx_bytes c * 8) / (?rx / 10 ^ 9))"
    "delayMean (flow_of c) = Some (of_int (fc_delay c) / of_int (fc_rx_packets c) / 10 ^ 9)"
    "packetLossRatio (flow_of c) = Some (of_int (fc_lost c) / of_int (fc_rx_packets c + fc_lost c))"
    by (simp_all add: flow_of_def Let_def)
  have k: "rat_of_int b / (d / 10 ^ 9) * (1 / 1000) = of_int b * 10 ^ 6 / d" "rat_of_int b / d / 10 ^ 9 * 1000 = of_int b / d / 10 ^ 6" for b and d :: rat
    by simp_all
  have n: "print_number u (txBitrate (flow_of c)) (1 / 1000) w = print_line (CHR 0x09 # u @ fmt_f 2 (of_int (fc_tx_bytes c * 8) * 10 ^ 6 / ?tx) @ w)"
    "print_number u (rxBitrate (flow_of c)) (1 / 1000) w = print_line (CHR 0x09 # u @ fmt_f 2 (of_int (fc_rx_bytes c * 8) * 10 ^ 6 / ?rx) @ w)"
    "print_number u (delayMean (flow_of c)) 1000 w = print_line (CHR 0x09 # u @ fmt_f 2 (of_int (fc_delay c) / of_int (fc_rx_packets c) / 10 ^ 6) @ w)"
    "print_number u (packetLossRatio (flow_of c)) 100 w = print_line (CHR 0x09 # u @ fmt_f 2 (of_int (fc_lost c) / of_int (fc_rx_packets c + fc_lost c) * 100) @ w)"
    for u w by (simp_all only: print_number_def v k option.case)
  have fields: "txBitrate (f\<lparr>fiveTuple := x\<rparr>) = txBitrate f" "rxBitrate (f\<lparr>fiveTuple := x\<rparr>) = rxBitrate f"
    "delayMean (f\<lparr>fiveTuple := x\<rparr>) = delayMean f" "packetLossRatio (f\<lparr>fiveTuple := x\<rparr>) = packetLossRatio f"
    "fiveTuple (f\<lparr>fiveTuple := x\<rparr>) = x" for f :: flow and x by simp_all
  show ?thesis
    by (simp only: print_flow_def fields option.case pr head n) (simp add: print_line_def flow_lines_def act_assoc)
qed

lemma print_number_ok: "fst (print_number u v k w out) = Inr () \<longleftrightarrow> v \<noteq> None"
  by (cases v) (simp_all add: print_number_def print_line_def)

lemma act_then_ok: "(\<And>s. fst (m s) = Inr () \<longleftrightarrow> P) \<Longrightarrow> (\<And>s. fst (n s) = Inr () \<longleftrightarrow> Q) \<Longrightarrow> fst (act_then m n s) = Inr () \<longleftrightarrow> P \<and> Q"
proof -
  assume m: "\<And>s. fst (m s) = Inr () \<longleftrightarrow> P" and n: "\<And>s. fst (n s) = Inr () \<longleftrightarrow> Q"
  obtain r s' where r: "m s = (r, s')" by fastforce
  show ?thesis
  proof (cases r)
    case (Inl e)
    then show ?thesis using m[of s] r by simp
  next
    case (Inr x)
    then show ?thesis using m[of s] n[of s'] r by simp
  qed
qed

lemma print_flow_ok:
  "fst (print_flow f out) = Inr () \<longleftrightarrow>
     (case fiveTuple f of None \<Rightarrow> False | Some t \<Rightarrow> protocol t = 6 \<or> protocol t = 17)
     \<and> txBitrate f \<noteq> None \<and> rxBitrate f \<noteq> None \<and> delayMean f \<noteq> None \<and> packetLossRatio f \<noteq> None"
proof (cases "fiveTuple f")
  case (Some t)
  have "fst (act_then (print_line l) m s) = fst (m (s @ [l]))" for l and m :: "(string list, unit) act" and s by (simp add: print_line_def)
  then show ?thesis using Some
    by (simp add: print_flow_def proto_name_def act_then_ok[OF print_number_ok act_then_ok[OF print_number_ok act_then_ok[OF print_number_ok print_number_ok]]])
qed (simp add: print_flow_def)

lemma flow_of_reported:
  assumes "counts_ok c"
  shows "reported c \<longleftrightarrow> txBitrate (flow_of c) \<noteq> None \<and> rxBitrate (flow_of c) \<noteq> None \<and> delayMean (flow_of c) \<noteq> None \<and> packetLossRatio (flow_of c) \<noteq> None"
  using assms by (auto simp: reported_def counts_ok_def flow_of_def Let_def)

definition report_ok :: "(int \<times> five_tuple) list \<Rightarrow> flow_counts \<Rightarrow> bool" where
  "report_ok ts c \<longleftrightarrow> reported c \<and> (case map_of ts (fc_id c) of None \<Rightarrow> False | Some t \<Rightarrow> protocol t = 6 \<or> protocol t = 17)"

lemma main_plain:
  assumes "list_all counts_ok cs" "distinct (map fc_id cs)" "distinct (map fst ts)" "fst ` set ts \<subseteq> fc_id ` set cs"
  shows "flowmon_main (monitor_element plain_time cs ts) out =
    act_each print_flow (map (\<lambda>c. (flow_of c)\<lparr>fiveTuple := map_option as_text (map_of ts (fc_id c))\<rparr>) cs) out"
proof -
  obtain s where s: "Simulation (monitor_element plain_time cs ts) = Inr s"
    "flows s = map (\<lambda>c. (flow_of c)\<lparr>fiveTuple := map_option as_text (map_of ts (fc_id c))\<rparr>) cs"
    using Simulation_plain[OF assms] by blast
  have "el_tag (monitor_element plain_time cs ts) = ''FlowMonitor''" by (simp add: monitor_element_def)
  then have "flowmon_main (monitor_element plain_time cs ts) out = act_then (act_each print_flow (flows s)) (act_ret ()) out"
    using s(1) by (simp add: flowmon_main_def read_document)
  also have "\<dots> = act_each print_flow (flows s) out"
    by (cases "act_each print_flow (flows s) out"; cases "fst (act_each print_flow (flows s) out)") auto
  finally show ?thesis unfolding s(2) .
qed

lemma print_flows:
  assumes "list_all (report_ok ts) cs"
  shows "act_each print_flow (map (\<lambda>c. (flow_of c)\<lparr>fiveTuple := map_option as_text (map_of ts (fc_id c))\<rparr>) cs) out =
    (Inr (), out @ concat (map (\<lambda>c. flow_lines c (the (map_of ts (fc_id c)))) cs))"
  using assms
proof (induction cs arbitrary: out)
  case (Cons c cs)
  then obtain t where t: "map_of ts (fc_id c) = Some t" "reported c" "protocol t = 6 \<or> protocol t = 17"
    by (auto simp: report_ok_def split: option.splits)
  show ?case using print_flow_lines[OF t(2,3), of out] Cons t(1) by simp
qed simp

lemma print_flows_fail:
  assumes "list_all counts_ok cs" "\<not> list_all (report_ok ts) cs"
  shows "fst (act_each print_flow (map (\<lambda>c. (flow_of c)\<lparr>fiveTuple := map_option as_text (map_of ts (fc_id c))\<rparr>) cs) out) \<noteq> Inr ()"
proof -
  let ?f = "\<lambda>c. (flow_of c)\<lparr>fiveTuple := map_option as_text (map_of ts (fc_id c))\<rparr>"
  have "fst (print_flow (?f c) out) = Inr () \<longleftrightarrow> report_ok ts c" if "counts_ok c" for c out
    using flow_of_reported[OF that] by (auto simp: print_flow_ok report_ok_def as_text_def split: option.splits)
  then have "fst (act_each print_flow (map ?f cs) out) = Inr () \<longleftrightarrow> list_all (report_ok ts) cs" for out
    using assms(1)
  proof (induction cs arbitrary: out)
    case (Cons c cs)
    have "fst (act_then (print_flow (?f c)) (act_each print_flow (map ?f cs)) out) = Inr () \<longleftrightarrow> report_ok ts c \<and> list_all (report_ok ts) cs"
      by (rule act_then_ok) (use Cons in simp_all)
    then show ?case by simp
  qed simp
  then show ?thesis using assms(2) by simp
qed

lemma main_time: "cs \<noteq> [] \<Longrightarrow> flowmon_main (monitor_element time_text cs ts) out = (Inl ValueError, out)"
proof -
  assume "cs \<noteq> []"
  moreover have "el_tag (monitor_element time_text cs ts) = ''FlowMonitor''" by (simp add: monitor_element_def)
  ultimately show ?thesis using Simulation_time[of cs ts] by (simp add: flowmon_main_def read_document)
qed

end
