(* ===== verification/FlowProps.thy ===== *)
theory FlowProps
  imports FlowMonProofs
begin

text \<open>The properties of the script that reports the statistics of flows.\<close>







end
