(* ===== verification/WafCommand.thy ===== *)
theory WafCommand
  imports ShellRun
begin

text \<open>
  The build tasks that run a command (\<open>waf-tools/command.py\<close>): the variables of a command line are
  replaced in its parsed form, which \<open>shellcmd\<close> then runs. The nodes of waf are given with the paths they
  answer (\<open>nice_path\<close>, \<open>srcpath\<close>, the absolute path of \<open>get_bld\<close>, \<open>abspath\<close>, \<open>bldpath\<close>); \<open>eval\<close> is a parameter of the task, a function of the text between the braces.
\<close>

section \<open>Values of variables\<close>

record wnode =
  wn_nice :: string
  wn_src :: string
  wn_bld :: string
  wn_abs :: string
  wn_bldpath :: string

datatype subst_item = TextItem string | NoneItem | OtherItem

text \<open>\<open>InputsValue\<close> and \<open>OutputsValue\<close> are the task's own lists, \<open>ListValue\<close> any other list.\<close>

datatype subst_value = NodeValue wnode | InputsValue | OutputsValue | ListValue "subst_item list" | ItemValue subst_item

record command_task =
  ct_inputs :: "wnode list"
  ct_outputs :: "wnode list"
  ct_eval :: "string \<Rightarrow> subst_value res"

definition subst_value_of :: "command_task \<Rightarrow> string \<Rightarrow> subst_value \<Rightarrow> subst_item res" where
  "subst_value_of t var result =
     (case result of
        NodeValue n \<Rightarrow>
          if var = ''TGT'' then Inr (TextItem (wn_bld n))
          else if var = ''SRC'' then Inr (TextItem (wn_src n))
          else Inl ValueError
      | InputsValue \<Rightarrow> (case ct_inputs t of [n] \<Rightarrow> Inr (TextItem (wn_src n)) | _ \<Rightarrow> Inl ValueError)
      | OutputsValue \<Rightarrow> (case ct_outputs t of [n] \<Rightarrow> Inr (TextItem (wn_bld n)) | _ \<Rightarrow> Inl ValueError)
      | ListValue xs \<Rightarrow> (case xs of [x] \<Rightarrow> Inr x | _ \<Rightarrow> Inl AssertionError)
      | ItemValue x \<Rightarrow> Inr x)"

section \<open>The regular expression\<close>

text \<open>Two dollars; or a dollar, a brace, a word, and what follows up to the first closing brace of the line.\<close>

datatype arg_piece = PlainChar char | Dollar | Var string string

definition arg_match :: "string \<Rightarrow> (arg_piece \<times> string) option" where
  "arg_match s =
     (if take 2 s = ''$$'' then Some (Dollar, drop 2 s)
      else if take 2 s = ''${'' then
        let var = takeWhile name_char (drop 2 s);
            rest = dropWhile name_char (drop 2 s);
            in_code = (\<lambda>c. c \<noteq> CHR ''}'' \<and> c \<noteq> CHR 0x0A);
            close = dropWhile in_code rest
        in if var \<noteq> [] \<and> close \<noteq> [] \<and> hd close = CHR ''}'' then Some (Var var (takeWhile in_code rest), tl close) else None
      else None)"

lemma arg_match_shorter: "arg_match s = Some (p, rest) \<Longrightarrow> length rest < length s"
proof -
  assume m: "arg_match s = Some (p, rest)"
  have "length (tl (dropWhile q (dropWhile name_char (drop 2 s)))) \<le> length (drop 2 s)" for q
    using length_dropWhile_le[of q "dropWhile name_char (drop 2 s)"] length_dropWhile_le[of name_char "drop 2 s"] by simp
  then have "length rest \<le> length (drop 2 s)" using m by (auto simp: arg_match_def Let_def split: if_splits)
  moreover have "length s \<ge> 2" using m by (cases s; cases "tl s") (auto simp: arg_match_def Let_def split: if_splits)
  ultimately show ?thesis by simp
qed

function arg_pieces :: "string \<Rightarrow> arg_piece list" where
  "arg_pieces [] = []"
| "arg_pieces (c # cs) = (case arg_match (c # cs) of
      Some (p, rest) \<Rightarrow> p # arg_pieces rest
    | None \<Rightarrow> PlainChar c # arg_pieces cs)"
  by pat_completeness auto

termination
  by (relation "measure length") (auto dest: arg_match_shorter)

section \<open>Substitution\<close>

definition repl :: "command_task \<Rightarrow> arg_piece \<Rightarrow> subst_item res" where
  "repl t p = (case p of
       PlainChar c \<Rightarrow> Inr (TextItem [c])
     | Dollar \<Rightarrow> Inr (TextItem ''$'')
     | Var var code \<Rightarrow> rbind (ct_eval t (var @ code)) (subst_value_of t var))"

fun repl_each :: "command_task \<Rightarrow> arg_piece list \<Rightarrow> subst_item list res" where
  "repl_each t [] = Inr []"
| "repl_each t (p # ps) = rbind (repl t p) (\<lambda>x. rbind (repl_each t ps) (\<lambda>xs. Inr (x # xs)))"

text \<open>The pieces are joined at the end: \<open>None\<close> is left out, anything but a string raises.\<close>

definition join_items :: "subst_item list \<Rightarrow> string res" where
  "join_items xs = (if OtherItem \<in> set xs then Inl TypeError
     else Inr (concat (map (\<lambda>x. case x of TextItem s \<Rightarrow> s | _ \<Rightarrow> []) xs)))"

definition subst_arg :: "command_task \<Rightarrow> string \<Rightarrow> string res" where
  "subst_arg t arg = rbind (repl_each t (arg_pieces arg)) join_items"

fun subst_args :: "command_task \<Rightarrow> string list \<Rightarrow> string list res" where
  "subst_args t [] = Inr []"
| "subst_args t (a # as) = rbind (subst_arg t a) (\<lambda>b. rbind (subst_args t as) (\<lambda>bs. Inr (b # bs)))"

definition subst_in :: "command_task \<Rightarrow> string option \<Rightarrow> string option res" where
  "subst_in t f = (case f of None \<Rightarrow> Inr None | Some s \<Rightarrow> rbind (subst_arg t s) (\<lambda>s'. Inr (Some s')))"

definition subst_out :: "command_task \<Rightarrow> redirect option \<Rightarrow> redirect option res" where
  "subst_out t r = (case r of Some (ToFile s) \<Rightarrow> rbind (subst_arg t s) (\<lambda>s'. Inr (Some (ToFile s'))) | _ \<Rightarrow> Inr r)"

fun subst_env :: "command_task \<Rightarrow> (string \<times> string) list \<Rightarrow> (string, string) dict \<Rightarrow> (string, string) dict res" where
  "subst_env t [] d = Inr d"
| "subst_env t ((k, v) # items) d = rbind (subst_arg t v) (\<lambda>v'. subst_env t items (d_set k v' d))"

definition subst_command :: "(string list \<Rightarrow> string list) \<Rightarrow> command_task \<Rightarrow> command \<Rightarrow> command res" where
  "subst_command ord t c =
     rbind (subst_in t (stdin c)) (\<lambda>i.
     rbind (subst_out t (stdout c)) (\<lambda>out.
     rbind (subst_out t (stderr c)) (\<lambda>err.
     rbind (subst_args t (argv c)) (\<lambda>args.
     rbind (subst_env t (map (\<lambda>k. (k, the (d_get (env_vars c) k))) (ord (d_keys (env_vars c)))) []) (\<lambda>env.
       Inr \<lparr>argv = args, stdin = i, stdout = out, stderr = err, env_vars = env\<rparr>)))))"

fun subst_node :: "(string list \<Rightarrow> string list) \<Rightarrow> command_task \<Rightarrow> node \<Rightarrow> node res" where
  "subst_node ord t (Command c) = rbind (subst_command ord t c) (\<lambda>c'. Inr (Command c'))"
| "subst_node ord t (Chdir None) = Inl TypeError"
| "subst_node ord t (Chdir (Some d)) = rbind (subst_arg t d) (\<lambda>d'. Inr (Chdir (Some d')))"
| "subst_node ord t n = Inr n"

fun subst_nodes :: "(string list \<Rightarrow> string list) \<Rightarrow> command_task \<Rightarrow> node list \<Rightarrow> node list res" where
  "subst_nodes ord t [] = Inr []"
| "subst_nodes ord t (n # ns) = rbind (subst_node ord t n) (\<lambda>m. rbind (subst_nodes ord t ns) (\<lambda>ms. Inr (m # ms)))"

definition command_task_run ::
  "os_env \<Rightarrow> (string list \<Rightarrow> string list) \<Rightarrow> bool \<Rightarrow> command_task \<Rightarrow> string \<Rightarrow> int option res \<times> machine" where
  "command_task_run os ord verbose t command =
     (case rbind (parse_command command) (subst_nodes ord t) of
        Inl e \<Rightarrow> (Inl e, start_machine)
      | Inr p \<Rightarrow> run os ord verbose p)"

definition command_task_str :: "command_task \<Rightarrow> string \<Rightarrow> string res" where
  "command_task_str t command =
     rbind (parse_command command) (\<lambda>p.
       Inr (''command ('' @ get_abbreviated_command p @ ''): '' @ join_with '' '' (map wn_nice (ct_inputs t))
            @ (if ct_outputs t = [] then [] else '' -> '') @ join_with '' '' (map wn_nice (ct_outputs t)) @ [CHR 0x0A]))"

end
