(* ===== verification/WafCommandProofs.thy ===== *)
theory WafCommandProofs
  imports WafCommand ShellProofs
begin

text \<open>What the substitution makes of an argument, and that values cannot change the shape of a command line.\<close>

section \<open>Arguments as they are written\<close>

datatype arg_part = LitPart string | VarPart string string

definition double_dollars :: "string \<Rightarrow> string" where
  "double_dollars s = concat (map (\<lambda>c. if c = CHR ''$'' then ''$$'' else [c]) s)"

fun write_part :: "arg_part \<Rightarrow> string" where
  "write_part (LitPart s) = double_dollars s"
| "write_part (VarPart v code) = ''${'' @ v @ code @ ''}''"

text \<open>A variable is a word; the code after it does not go on with the word and has no brace and no new line.\<close>

fun part_ok :: "arg_part \<Rightarrow> bool" where
  "part_ok (LitPart s) = True"
| "part_ok (VarPart v code) = (v \<noteq> [] \<and> list_all name_char v \<and> (code = [] \<or> \<not> name_char (hd code))
     \<and> CHR ''}'' \<notin> set code \<and> CHR 0x0A \<notin> set code)"

fun part_value :: "command_task \<Rightarrow> arg_part \<Rightarrow> subst_item res" where
  "part_value t (LitPart s) = Inr (TextItem s)"
| "part_value t (VarPart v code) = rbind (ct_eval t (v @ code)) (subst_value_of t v)"

fun part_values :: "command_task \<Rightarrow> arg_part list \<Rightarrow> subst_item list res" where
  "part_values t [] = Inr []"
| "part_values t (p # ps) = rbind (part_value t p) (\<lambda>x. rbind (part_values t ps) (\<lambda>xs. Inr (x # xs)))"

definition char_piece :: "char \<Rightarrow> arg_piece" where
  "char_piece c = (if c = CHR ''$'' then Dollar else PlainChar c)"

fun part_pieces :: "arg_part \<Rightarrow> arg_piece list" where
  "part_pieces (LitPart s) = map char_piece s"
| "part_pieces (VarPart v code) = [Var v code]"

lemma arg_match_plain: "c \<noteq> CHR ''$'' \<Longrightarrow> arg_match (c # cs) = None"
  by (simp add: arg_match_def Let_def take_Cons')

lemma pieces_lit: "arg_pieces (double_dollars s @ r) = map char_piece s @ arg_pieces r"
proof (induction s)
  case (Cons c s)
  show ?case
  proof (cases "c = CHR ''$''")
    case True
    have "arg_match (CHR ''$'' # CHR ''$'' # double_dollars s @ r) = Some (Dollar, double_dollars s @ r)"
      by (simp add: arg_match_def)
    then show ?thesis using Cons True by (simp add: double_dollars_def char_piece_def)
  next
    case False
    then show ?thesis using Cons by (simp add: double_dollars_def char_piece_def arg_match_plain)
  qed
qed (simp add: double_dollars_def)

lemma name_char_brace: "\<not> name_char (CHR ''}'')"
  by code_simp

lemma pieces_var:
  assumes "part_ok (VarPart v code)"
  shows "arg_pieces (''${'' @ v @ code @ ''}'' @ r) = Var v code # arg_pieces r"
proof -
  let ?code = "\<lambda>c. c \<noteq> CHR ''}'' \<and> c \<noteq> CHR 0x0A"
  have v: "v \<noteq> []" "\<forall>c \<in> set v. name_char c" using assms by (simp_all add: list_all_iff)
  have stop: "takeWhile name_char (code @ ''}'' @ r) = [] \<and> dropWhile name_char (code @ ''}'' @ r) = code @ ''}'' @ r"
    using assms by (cases code) (simp_all add: name_char_brace)
  have "takeWhile name_char (v @ code @ ''}'' @ r) = v" "dropWhile name_char (v @ code @ ''}'' @ r) = code @ ''}'' @ r"
    using v(2) stop by (simp_all del: append_Cons)
  moreover have "\<forall>c \<in> set code. ?code c" using assms by auto
  then have "takeWhile ?code (code @ ''}'' @ r) = code" "dropWhile ?code (code @ ''}'' @ r) = ''}'' @ r"
    by (simp_all add: takeWhile_append2 dropWhile_append2)
  ultimately have "arg_match (''${'' @ v @ code @ ''}'' @ r) = Some (Var v code, r)"
    using v(1) by (simp add: arg_match_def Let_def)
  then show ?thesis by simp
qed

lemma pieces_written:
  "list_all part_ok ps \<Longrightarrow> arg_pieces (concat (map write_part ps)) = concat (map part_pieces ps)"
proof (induction ps)
  case (Cons p ps)
  then show ?case
    using pieces_lit pieces_var by (cases p) (simp_all del: part_ok.simps)
qed simp

definition same_text :: "subst_item list \<Rightarrow> subst_item list \<Rightarrow> bool" where
  "same_text xs ys \<longleftrightarrow> join_items xs = join_items ys"

lemma join_items_append:
  "join_items (xs @ ys) = rbind (join_items xs) (\<lambda>a. rbind (join_items ys) (\<lambda>b. Inr (a @ b)))"
  by (auto simp: join_items_def)

lemma repl_each_append:
  "repl_each t (ps @ qs) = rbind (repl_each t ps) (\<lambda>xs. rbind (repl_each t qs) (\<lambda>ys. Inr (xs @ ys)))"
proof (induction ps)
  case Nil
  show ?case by (cases "repl_each t qs") simp_all
next
  case (Cons p ps)
  show ?case unfolding append_Cons repl_each.simps Cons rbind_assoc by (simp add: rbind_assoc)
qed

lemma repl_chars: "repl_each t (map char_piece s) = Inr (map (\<lambda>c. TextItem [c]) s)"
  by (induction s) (simp_all add: repl_def char_piece_def)

lemma join_chars: "join_items (map (\<lambda>c. TextItem [c]) s) = Inr s"
  by (induction s) (auto simp: join_items_def)

lemma part_pieces_value:
  "(\<exists>e. part_value t p = Inl e \<and> repl_each t (part_pieces p) = Inl e)
   \<or> (\<exists>x xs. part_value t p = Inr x \<and> repl_each t (part_pieces p) = Inr xs \<and> join_items xs = join_items [x])"
proof (cases p)
  case (LitPart s)
  then show ?thesis by (simp add: repl_chars join_chars) (simp add: join_items_def)
next
  case (VarPart v code)
  then show ?thesis by (cases "rbind (ct_eval t (v @ code)) (subst_value_of t v)") (simp_all add: repl_def)
qed

lemma part_values_join:
  "rbind (repl_each t (concat (map part_pieces ps))) (\<lambda>xs. Inr (join_items xs))
    = rbind (part_values t ps) (\<lambda>xs. Inr (join_items xs))"
proof (induction ps)
  case (Cons p ps)
  let ?r = "repl_each t (concat (map part_pieces ps))" and ?v = "part_values t ps"
  have rest: "repl_each t (concat (map part_pieces (p # ps))) = rbind (repl_each t (part_pieces p)) (\<lambda>xs. rbind ?r (\<lambda>ys. Inr (xs @ ys)))"
    by (simp add: repl_each_append)
  consider e where "part_value t p = Inl e" "repl_each t (part_pieces p) = Inl e"
    | x xs where "part_value t p = Inr x" "repl_each t (part_pieces p) = Inr xs" "join_items xs = join_items [x]"
    using part_pieces_value[of t p] by blast
  then show ?case
  proof cases
    case 1
    then show ?thesis unfolding rest by simp
  next
    case (2 x xs)
    show ?thesis
    proof (cases ?v)
      case (Inl e)
      then have "?r = Inl e" using Cons by (cases ?r) simp_all
      then show ?thesis unfolding rest using 2 Inl by simp
    next
      case (Inr b)
      then obtain a where a: "?r = Inr a" "join_items a = join_items b" using Cons by (cases ?r) simp_all
      have "join_items (xs @ a) = join_items ([x] @ b)" by (simp only: join_items_append 2(3) a(2))
      then show ?thesis unfolding rest using 2(1,2) Inr a(1) by simp
    qed
  qed
qed simp

lemma subst_arg_written:
  assumes "list_all part_ok ps"
  shows "subst_arg t (concat (map write_part ps)) = rbind (part_values t ps) join_items"
proof -
  let ?r = "repl_each t (concat (map part_pieces ps))"
  have "rbind ?r join_items = rbind (rbind ?r (\<lambda>xs. Inr (join_items xs))) (\<lambda>x. x)" by (simp add: rbind_assoc)
  also have "\<dots> = rbind (part_values t ps) join_items" by (simp add: part_values_join rbind_assoc)
  finally show ?thesis by (simp add: subst_arg_def pieces_written[OF assms])
qed

section \<open>The shape of a command line\<close>

definition same_redirect :: "redirect option \<Rightarrow> redirect option \<Rightarrow> bool" where
  "same_redirect r r' \<longleftrightarrow> r' = r \<or> (\<exists>f f'. r = Some (ToFile f) \<and> r' = Some (ToFile f'))"

fun same_shape :: "node \<Rightarrow> node \<Rightarrow> bool" where
  "same_shape (Command c) (Command c') = (length (argv c') = length (argv c) \<and> (stdin c' = None) = (stdin c = None)
     \<and> same_redirect (stdout c) (stdout c') \<and> same_redirect (stderr c) (stderr c'))"
| "same_shape (Chdir d) (Chdir d') = (d \<noteq> None \<and> d' \<noteq> None)"
| "same_shape n n' = (n' = n)"

lemma subst_args_length: "subst_args t as = Inr bs \<Longrightarrow> length bs = length as"
  by (induction as arbitrary: bs) (auto simp: rbind_Inr_iff)

lemma subst_out_same: "subst_out t r = Inr r' \<Longrightarrow> same_redirect r r'"
  by (auto simp: subst_out_def same_redirect_def rbind_Inr_iff split: option.splits redirect.splits)

lemma subst_node_shape: "subst_node ord t n = Inr m \<Longrightarrow> same_shape n m"
proof (induction ord t n rule: subst_node.induct)
  case (1 ord t c)
  then show ?case
    by (auto simp: rbind_Inr_iff subst_command_def subst_in_def subst_args_length subst_out_same split: option.splits)
qed (auto simp: rbind_Inr_iff)

lemma subst_nodes_shape: "subst_nodes ord t p = Inr q \<Longrightarrow> list_all2 same_shape p q"
  by (induction p arbitrary: q) (auto simp: rbind_Inr_iff subst_node_shape)

lemma same_shape_op: "opn \<in> {Pipe, And, Or} \<Longrightarrow> same_shape opn o' \<Longrightarrow> o' = opn"
  by auto

lemma same_shape_pipes: "runnable p \<Longrightarrow> list_all2 same_shape p q \<Longrightarrow> runnable q \<and> pipes k q = pipes k p"
proof (induction p arbitrary: q k rule: runnable.induct)
  case (1 c)
  then obtain n where "q = [n]" "same_shape (Command c) n" by (auto simp: list_all2_Cons1)
  then show ?case by (cases n) auto
next
  case (2 c opn rest)
  then have op: "opn \<in> {Pipe, And, Or}" "runnable rest" by simp_all
  obtain n o' rest' where q: "q = n # o' # rest'" "same_shape (Command c) n" "same_shape opn o'" "list_all2 same_shape rest rest'"
    using 2(3) by (auto simp: list_all2_Cons1)
  obtain c' where n: "n = Command c'" using q(2) by (cases n) auto
  have o': "o' = opn" using same_shape_op[OF op(1) q(3)] .
  have "runnable rest'" "\<And>k. pipes k rest' = pipes k rest" using 2(1)[OF op(2) q(4)] by auto
  then show ?case using op(1) q(1) n o' by auto
next
  case (3 d opn rest)
  then have op: "opn = And" "runnable rest" by simp_all
  obtain n o' rest' where q: "q = n # o' # rest'" "same_shape (Chdir (Some d)) n" "same_shape opn o'" "list_all2 same_shape rest rest'"
    using 3(3) by (auto simp: list_all2_Cons1)
  obtain d' where n: "n = Chdir (Some d')" using q(2) by (cases n) auto
  have "runnable rest'" "\<And>k. pipes k rest' = pipes k rest" using 3(1)[OF op(2) q(4)] by auto
  then show ?case using op(1) q n by auto
qed simp_all

lemma subst_nodes_no_bare_cd: "subst_nodes ord t p = Inr q \<Longrightarrow> list_all (\<lambda>n. n \<noteq> Chdir None) p"
proof (induction p arbitrary: q)
  case (Cons n p)
  then show ?case by (cases n; cases "\<exists>d. n = Chdir d") (auto simp: rbind_Inr_iff elim: subst_node.elims)
qed simp

lemma command_task_value_eq:
  assumes "parse_command text = Inr p" "subst_nodes ord t p = Inr q" "\<forall>d. last p \<noteq> Chdir d" "everything_works os"
  shows "fst (command_task_run os ord False t text) = Inr (Some (list_value (exit_code os) 0 (pipes 0 p)))"
proof -
  obtain tokens where "parse_tokens tokens = Inr p" using assms(1) by (auto simp: parse_command_def rbind_Inr_iff)
  then have "runnable p" using shaped_runnable[OF parse_shaped] subst_nodes_no_bare_cd[OF assms(2)] assms(3) by blast
  then have q: "runnable q" "pipes 0 q = pipes 0 p" using same_shape_pipes[OF _ subst_nodes_shape[OF assms(2)]] by blast+
  have "fst (run os ord False q) = Inr (Some (list_value (exit_code os) 0 (pipes 0 q)))"
    using run_loop_value[OF assms(4) q(1), of start_machine 0 0 ord] by (simp add: run_def start_machine_def)
  then show ?thesis using assms(1,2) q(2) by (simp add: command_task_run_def)
qed

end
