(* ===== verification/WafMisc.thy ===== *)
theory WafMisc
  imports WafCommand WafUtils
begin

text \<open>
  The older build tasks of waf (\<open>waf-tools/misc.py\<close>): the substitution of variables in a \<open>.in\<close> file, the copy
  of a file, and \<open>command-output\<close>. The search for nodes and the flat variables of the environment are parameters.
\<close>

section \<open>Substitution in files\<close>

datatype m4_piece = M4Char char | M4Var string

definition m4_match :: "string \<Rightarrow> (string \<times> string) option" where
  "m4_match s =
     (if take 1 s = ''@'' then
        let nm = takeWhile name_char (drop 1 s); rest = dropWhile name_char (drop 1 s)
        in if nm \<noteq> [] \<and> take 1 rest = ''@'' then Some (nm, drop 1 rest) else None
      else None)"

lemma m4_match_shorter: "m4_match s = Some (n, rest) \<Longrightarrow> length rest < length s"
  using length_dropWhile_le[of name_char "drop 1 s"]
  by (cases s) (auto simp: m4_match_def Let_def split: if_splits)

function m4_pieces :: "string \<Rightarrow> m4_piece list" where
  "m4_pieces [] = []"
| "m4_pieces (c # cs) = (case m4_match (c # cs) of
      Some (nm, rest) \<Rightarrow> M4Var nm # m4_pieces rest
    | None \<Rightarrow> M4Char c # m4_pieces cs)"
  by pat_completeness auto

termination
  by (relation "measure length") (auto dest: m4_match_shorter)

definition double_percents :: "string \<Rightarrow> string" where
  "double_percents s = concat (map (\<lambda>c. if c = CHR ''%'' then ''%%'' else [c]) s)"

text \<open>\<open>m4_re.sub\<close> and \<open>m4_re.findall\<close>.\<close>

definition m4_format :: "string \<Rightarrow> string" where
  "m4_format s = concat (map (\<lambda>p. case p of M4Char c \<Rightarrow> [c] | M4Var nm \<Rightarrow> ''%('' @ nm @ '')s'') (m4_pieces s))"

definition m4_findall :: "string \<Rightarrow> string list" where
  "m4_findall s = concat (map (\<lambda>p. case p of M4Char c \<Rightarrow> [] | M4Var nm \<Rightarrow> [nm]) (m4_pieces s))"

text \<open>Formatting with a dictionary; formats other than these two raise here, and do not come up.\<close>

function mapping_format :: "string \<Rightarrow> (string, string) dict \<Rightarrow> string res" where
  "mapping_format [] d = Inr []"
| "mapping_format (c # s) d =
     (if c \<noteq> CHR ''%'' then rbind (mapping_format s d) (\<lambda>t. Inr (c # t))
      else if take 1 s = ''%'' then rbind (mapping_format (drop 1 s) d) (\<lambda>t. Inr (CHR ''%'' # t))
      else if take 1 s = ''('' then
        let key = takeWhile (\<lambda>c. c \<noteq> CHR '')'') (drop 1 s); rest = dropWhile (\<lambda>c. c \<noteq> CHR '')'') (drop 1 s)
        in if take 2 rest = '')s'' then
             rbind (d_item d key) (\<lambda>v. rbind (mapping_format (drop 2 rest) d) (\<lambda>t. Inr (v @ t)))
           else Inl ValueError
      else Inl ValueError)"
  by pat_completeness auto

termination
proof (relation "measure (\<lambda>(s, d). length s)", goal_cases)
  case (4 c s d key rest v)
  then show ?case using length_dropWhile_le[of "\<lambda>c. c \<noteq> CHR '')''" "drop 1 s"] by simp
qed auto

text \<open>
  Where no dictionary was given it is filled from the environment; it is the dictionary of the generator, which
  all its tasks share.
\<close>

definition flat_value :: "(string \<Rightarrow> string) \<Rightarrow> string \<Rightarrow> string" where
  "flat_value get_flat nm = (if get_flat nm = [] then get_flat (map upper_char nm) else get_flat nm)"

definition subst_func :: "(string \<Rightarrow> string) \<Rightarrow> string \<Rightarrow> (string, string) dict \<Rightarrow> string res \<times> (string, string) dict" where
  "subst_func get_flat code di =
     (let code = double_percents code;
          s = m4_format code;
          di = (if di = [] then fold (\<lambda>nm. d_set nm (flat_value get_flat nm)) (m4_findall code) di else di)
      in (mapping_format s di, di))"

text \<open>The tasks of a generator with several sources, one after the other.\<close>

fun subst_tasks :: "(string \<Rightarrow> string) \<Rightarrow> string list \<Rightarrow> (string, string) dict \<Rightarrow> string res list" where
  "subst_tasks get_flat [] di = []"
| "subst_tasks get_flat (code # codes) di =
     (case subst_func get_flat code di of (r, di) \<Rightarrow> r # subst_tasks get_flat codes di)"

section \<open>command-output\<close>

record node_path =
  find_resource :: "string \<Rightarrow> wnode option"
  find_or_declare :: "string \<Rightarrow> wnode option"
  find_dir :: "string \<Rightarrow> wnode option"

datatype cmd_arg = InputFile | OutputFile | InputDir | OutputDir

datatype cmd_word = PlainWord string | ArgWord cmd_arg string string

datatype found_word = FoundPlain string | FoundArg cmd_arg string wnode

text \<open>The message of a missing node has one place for two values: formatting it raises \<open>TypeError\<close>.\<close>

definition find_node :: "node_path \<Rightarrow> cmd_word \<Rightarrow> found_word res" where
  "find_node path w = (case w of
       PlainWord s \<Rightarrow> Inr (FoundPlain s)
     | ArgWord k nm template \<Rightarrow>
         (case (case k of InputFile \<Rightarrow> find_resource path nm | OutputFile \<Rightarrow> find_or_declare path nm | _ \<Rightarrow> find_dir path nm) of
            None \<Rightarrow> Inl TypeError
          | Some n \<Rightarrow> Inr (FoundArg k template n)))"

definition get_path :: "bool \<Rightarrow> cmd_arg \<Rightarrow> string \<Rightarrow> wnode \<Rightarrow> string res" where
  "get_path absolute k template n =
     percent_format template [if absolute then wn_abs n
       else case k of InputFile \<Rightarrow> wn_src n | OutputFile \<Rightarrow> wn_bldpath n | _ \<Rightarrow> wn_abs n]"

record cmd_output_gen =
  co_command :: "string option"
  co_external :: bool
  co_argv :: "cmd_word list"
  co_stdin :: "string option"
  co_stdout :: "string option"
  co_stderr :: "string option"
  co_hidden_inputs :: "string list"
  co_hidden_outputs :: "string list"
  co_no_inputs :: bool
  co_no_outputs :: bool

datatype task_command = ExternalCommand string | CommandNode wnode

record cmd_output_task =
  ot_command :: task_command
  ot_args :: "found_word list"
  ot_stdin :: "wnode option"
  ot_stdout :: "wnode option"
  ot_stderr :: "wnode option"
  ot_cwd :: "string option"
  ot_inputs :: "wnode list"
  ot_outputs :: "wnode list"
  ot_always :: bool

fun res_each :: "('a \<Rightarrow> 'b res) \<Rightarrow> 'a list \<Rightarrow> 'b list res" where
  "res_each f [] = Inr []"
| "res_each f (x # xs) = rbind (f x) (\<lambda>y. rbind (res_each f xs) (\<lambda>ys. Inr (y # ys)))"

definition found_inputs :: "found_word list \<Rightarrow> wnode list" where
  "found_inputs ws = concat (map (\<lambda>w. case w of FoundArg InputFile _ n \<Rightarrow> [n] | _ \<Rightarrow> []) ws)"

definition found_outputs :: "found_word list \<Rightarrow> wnode list" where
  "found_outputs ws = concat (map (\<lambda>w. case w of FoundArg OutputFile _ n \<Rightarrow> [n] | _ \<Rightarrow> []) ws)"

definition or_waf_error :: "wnode option \<Rightarrow> wnode res" where
  "or_waf_error n = (case n of None \<Rightarrow> Inl WafError | Some n \<Rightarrow> Inr n)"

definition find_stream :: "(string \<Rightarrow> wnode option) \<Rightarrow> string option \<Rightarrow> wnode option res" where
  "find_stream search f = (case f of None \<Rightarrow> Inr None | Some s \<Rightarrow> rbind (or_waf_error (search s)) (\<lambda>n. Inr (Some n)))"

definition opt_node :: "wnode option \<Rightarrow> wnode list" where
  "opt_node n = (case n of None \<Rightarrow> [] | Some n \<Rightarrow> [n])"

definition find_command :: "node_path \<Rightarrow> cmd_output_gen \<Rightarrow> task_command res" where
  "find_command path g = (case co_command g of
       None \<Rightarrow> Inl WafError
     | Some c \<Rightarrow>
         if co_external g then Inr (ExternalCommand c)
         else case find_resource path c of None \<Rightarrow> Inl AssertionError | Some n \<Rightarrow> Inr (CommandNode n))"

definition apply_cmd_output :: "node_path \<Rightarrow> string \<Rightarrow> cmd_output_gen \<Rightarrow> cmd_output_task res" where
  "apply_cmd_output path variant_dir g =
     rbind (find_command path g) (\<lambda>cmd.
     rbind (res_each (find_node path) (co_argv g)) (\<lambda>args.
     rbind (find_stream (find_or_declare path) (co_stdout g)) (\<lambda>out.
     rbind (find_stream (find_or_declare path) (co_stderr g)) (\<lambda>err.
     rbind (find_stream (find_resource path) (co_stdin g)) (\<lambda>inp.
     rbind (res_each (\<lambda>f. or_waf_error (find_resource path f)) (co_hidden_inputs g)) (\<lambda>hidden_in.
     rbind (res_each (\<lambda>f. or_waf_error (find_or_declare path f)) (co_hidden_outputs g)) (\<lambda>hidden_out.
       let inputs = found_inputs args @ opt_node inp @ hidden_in;
           outputs = found_outputs args @ opt_node out @ opt_node err @ hidden_out
       in if inputs = [] \<and> \<not> co_no_inputs g then Inl WafError
          else if outputs = [] \<and> \<not> co_no_outputs g then Inl WafError
          else Inr \<lparr>ot_command = cmd, ot_args = args, ot_stdin = inp, ot_stdout = out, ot_stderr = err,
                    ot_cwd = Some variant_dir, ot_inputs = inputs, ot_outputs = outputs, ot_always = (inputs = [])\<rparr>)))))))"

text \<open>Running the task: what is opened and started, in order.\<close>

datatype run_event = OpenRead string | OpenWrite string | StartProcess "string list" "string option" | WaitProcess

definition node_file :: "cmd_output_task \<Rightarrow> wnode \<Rightarrow> string" where
  "node_file t n = (if ot_cwd t = None then wn_bldpath n else wn_abs n)"

definition task_argv :: "cmd_output_task \<Rightarrow> string list res" where
  "task_argv t =
     rbind (res_each (\<lambda>w. case w of FoundPlain s \<Rightarrow> Inr s | FoundArg k template n \<Rightarrow> get_path (ot_cwd t \<noteq> None) k template n) (ot_args t)) (\<lambda>args.
       Inr ((case ot_command t of ExternalCommand c \<Rightarrow> c | CommandNode n \<Rightarrow> node_file t n) # args))"

fun open_streams :: "os_env \<Rightarrow> run_event list \<Rightarrow> run_event list \<Rightarrow> unit res \<times> run_event list" where
  "open_streams os [] done = (Inr (), done)"
| "open_streams os (e # es) done =
     (if can_open os (case e of OpenRead f \<Rightarrow> f | OpenWrite f \<Rightarrow> f | _ \<Rightarrow> []) then open_streams os es (done @ [e])
      else (Inl PyException, done))"

definition cmd_output_run :: "os_env \<Rightarrow> cmd_output_task \<Rightarrow> int res \<times> run_event list" where
  "cmd_output_run os t =
     (case task_argv t of
        Inl e \<Rightarrow> (Inl e, [])
      | Inr args \<Rightarrow>
          (case open_streams os (map (OpenRead \<circ> node_file t) (opt_node (ot_stdin t))
                 @ map (OpenWrite \<circ> node_file t) (opt_node (ot_stdout t)) @ map (OpenWrite \<circ> node_file t) (opt_node (ot_stderr t))) [] of
             (Inl e, es) \<Rightarrow> (Inl e, es)
           | (Inr _, es) \<Rightarrow>
               if can_start os args then (Inr (exit_code os 0), es @ [StartProcess args (ot_cwd t), WaitProcess])
               else (Inl PyException, es)))"

section \<open>Copies\<close>

text \<open>\<open>copy_func\<close>: \<open>copy2\<close> answers whether it succeeded; a \<open>chmod\<close> of 0 is left out.\<close>

definition copy_func :: "(string \<Rightarrow> string \<Rightarrow> bool) \<Rightarrow> wnode \<Rightarrow> wnode \<Rightarrow> nat \<Rightarrow> int \<times> (string \<times> nat) list" where
  "copy_func copy2 infile outfile chmod =
     (if \<not> copy2 (wn_abs infile) (wn_abs outfile) then (1, [])
      else (0, if chmod \<noteq> 0 then [(wn_abs outfile, chmod)] else []))"

text \<open>\<open>apply_copy\<close>: the pairs of nodes the tasks copy; a target is taken for a single source only.\<close>

fun copy_tasks :: "node_path \<Rightarrow> (wnode \<Rightarrow> string) \<Rightarrow> string option \<Rightarrow> bool \<Rightarrow> string list \<Rightarrow> (wnode \<times> wnode option) list res" where
  "copy_tasks path name_of target several [] = Inr []"
| "copy_tasks path name_of target several (filename # files) =
     (case find_resource path filename of
        None \<Rightarrow> Inl WafError
      | Some n \<Rightarrow>
          let t = (case target of None \<Rightarrow> name_of n | Some t \<Rightarrow> if t = [] \<or> several then name_of n else t)
          in rbind (copy_tasks path name_of target several files) (\<lambda>ts. Inr ((n, find_or_declare path t) # ts)))"

definition apply_copy :: "node_path \<Rightarrow> (wnode \<Rightarrow> string) \<Rightarrow> string option \<Rightarrow> string list \<Rightarrow> (wnode \<times> wnode option) list res" where
  "apply_copy path name_of target files = copy_tasks path name_of target (length files > 1) files"

end
