(* ===== verification/WafMiscProofs.thy ===== *)
theory WafMiscProofs
  imports WafMisc
begin

text \<open>The substitution in a file against its meaning, and the files a \<open>command-output\<close> task touches.\<close>

section \<open>Substitution in files\<close>

text \<open>The meaning: every variable between two signs gets its value, everything else stays.\<close>

fun m4_replace :: "(string \<Rightarrow> string option) \<Rightarrow> m4_piece list \<Rightarrow> string res" where
  "m4_replace look [] = Inr []"
| "m4_replace look (M4Char c # ps) = rbind (m4_replace look ps) (\<lambda>t. Inr (c # t))"
| "m4_replace look (M4Var nm # ps) = (case look nm of
      None \<Rightarrow> Inl KeyError
    | Some v \<Rightarrow> rbind (m4_replace look ps) (\<lambda>t. Inr (v @ t)))"

fun double_piece :: "m4_piece \<Rightarrow> m4_piece list" where
  "double_piece (M4Char c) = (if c = CHR ''%'' then [M4Char c, M4Char c] else [M4Char c])"
| "double_piece (M4Var nm) = [M4Var nm]"

lemma double_percents_simps [simp]:
  "double_percents [] = []" "double_percents (c # s) = (if c = CHR ''%'' then ''%%'' else [c]) @ double_percents s"
  by (simp_all add: double_percents_def)

lemma percent_no_name: "\<not> name_char (CHR ''%'')" and sign_no_name: "\<not> name_char (CHR ''@'')" and paren_no_name: "\<not> name_char (CHR '')'')"
  by code_simp+

lemma double_words:
  "takeWhile name_char (double_percents s) = takeWhile name_char s"
  "dropWhile name_char (double_percents s) = double_percents (dropWhile name_char s)"
  by (induction s) (simp_all add: percent_no_name)

lemma take_sign_double: "take 1 (double_percents s) = ''@'' \<longleftrightarrow> take 1 s = ''@''"
  by (cases s) auto

lemma drop_sign_double: "take 1 s = ''@'' \<Longrightarrow> drop 1 (double_percents s) = double_percents (drop 1 s)"
  by (cases s) auto

lemma m4_match_double: "m4_match (c # double_percents s) = map_option (\<lambda>(nm, r). (nm, double_percents r)) (m4_match (c # s))"
proof (cases "c = CHR ''@'' \<and> takeWhile name_char s \<noteq> [] \<and> take 1 (dropWhile name_char s) = ''@''")
  case True
  then show ?thesis
    using take_sign_double[of "dropWhile name_char s"] drop_sign_double[of "dropWhile name_char s"]
    by (simp add: m4_match_def Let_def double_words)
next
  case False
  then show ?thesis using take_sign_double[of "dropWhile name_char s"] by (auto simp: m4_match_def Let_def double_words)
qed

lemma m4_match_percent: "c \<noteq> CHR ''@'' \<Longrightarrow> m4_match (c # s) = None"
  by (simp add: m4_match_def)

lemma m4_pieces_double: "m4_pieces (double_percents s) = concat (map double_piece (m4_pieces s))"
proof (induction s rule: m4_pieces.induct)
  case (2 c cs)
  show ?case
  proof (cases "m4_match (c # cs)")
    case None
    then show ?thesis using 2 m4_match_double[of c cs] by (auto simp: m4_match_percent)
  next
    case (Some x)
    obtain nm r where x: "x = (nm, r)" by (cases x)
    have "c = CHR ''@''" using Some by (simp add: m4_match_def split: if_splits)
    then show ?thesis using 2 Some x m4_match_double[of c cs] by simp
  qed
qed simp

lemma m4_names_words: "M4Var nm \<in> set (m4_pieces s) \<Longrightarrow> list_all name_char nm"
proof (induction s rule: m4_pieces.induct)
  case (2 c cs)
  have w: "list_all name_char n" if "m4_match (c # cs) = Some (n, r)" for n r
    using that by (auto simp: m4_match_def Let_def list_all_iff dest: set_takeWhileD split: if_splits)
  show ?case
  proof (cases "m4_match (c # cs)")
    case None
    then show ?thesis using 2 by simp
  next
    case (Some x)
    then show ?thesis using 2 w by (cases x) auto
  qed
qed simp

definition format_pieces :: "m4_piece list \<Rightarrow> string" where
  "format_pieces ps = concat (map (\<lambda>p. case p of M4Char c \<Rightarrow> [c] | M4Var nm \<Rightarrow> ''%('' @ nm @ '')s'') ps)"

lemma format_pieces_simps [simp]:
  "format_pieces [] = []" "format_pieces (M4Char c # ps) = c # format_pieces ps"
  "format_pieces (M4Var nm # ps) = ''%('' @ nm @ '')s'' @ format_pieces ps" "format_pieces (ps @ qs) = format_pieces ps @ format_pieces qs"
  by (simp_all add: format_pieces_def)

lemma mapping_format_pieces:
  "\<forall>nm. M4Var nm \<in> set ps \<longrightarrow> list_all name_char nm \<Longrightarrow>
   mapping_format (format_pieces (concat (map double_piece ps))) d = m4_replace (d_get d) ps"
proof (induction ps)
  case (Cons p ps)
  then have IH: "mapping_format (format_pieces (concat (map double_piece ps))) d = m4_replace (d_get d) ps" by simp
  show ?case
  proof (cases p)
    case (M4Char c)
    then show ?thesis using IH by simp
  next
    case (M4Var nm)
    have "\<forall>c \<in> set nm. c \<noteq> CHR '')''" using Cons.prems M4Var paren_no_name by (auto simp: list_all_iff)
    then have "takeWhile (\<lambda>c. c \<noteq> CHR '')'') (nm @ '')s'' @ r) = nm" "dropWhile (\<lambda>c. c \<noteq> CHR '')'') (nm @ '')s'' @ r) = '')s'' @ r" for r
      by (simp_all add: takeWhile_append2 dropWhile_append2)
    then show ?thesis using IH M4Var by (simp add: d_item_def Let_def split: option.splits)
  qed
qed simp

definition m4_names :: "string \<Rightarrow> string list" where
  "m4_names s = concat (map (\<lambda>p. case p of M4Char c \<Rightarrow> [] | M4Var nm \<Rightarrow> [nm]) (m4_pieces s))"

lemma m4_findall_double: "m4_findall (double_percents s) = m4_names s"
proof -
  have "concat (map (\<lambda>p. case p of M4Char c \<Rightarrow> [] | M4Var nm \<Rightarrow> [nm]) (concat (map double_piece ps)))
      = concat (map (\<lambda>p. case p of M4Char c \<Rightarrow> [] | M4Var nm \<Rightarrow> [nm]) ps)" for ps
  proof (induction ps)
    case (Cons p ps)
    then show ?case by (cases p) auto
  qed simp
  then show ?thesis by (simp add: m4_findall_def m4_names_def m4_pieces_double)
qed

lemma m4_names_mem: "nm \<in> set (m4_names s) \<longleftrightarrow> M4Var nm \<in> set (m4_pieces s)"
  by (force simp: m4_names_def split: m4_piece.splits)

lemma filled_dict: "d_get (fold (\<lambda>nm. d_set nm (f nm)) nms d) k = (if k \<in> set nms then Some (f k) else d_get d k)"
  by (induction nms arbitrary: d) (auto simp: dict_simps)

definition filled :: "(string \<Rightarrow> string) \<Rightarrow> string \<Rightarrow> (string, string) dict" where
  "filled get_flat code = fold (\<lambda>nm. d_set nm (flat_value get_flat nm)) (m4_names code) []"

lemma filled_get: "d_get (filled get_flat code) k = (if k \<in> set (m4_names code) then Some (flat_value get_flat k) else None)"
  by (simp add: filled_def filled_dict dict_simps)

lemma m4_replace_cong: "(\<And>nm. M4Var nm \<in> set ps \<Longrightarrow> f nm = g nm) \<Longrightarrow> m4_replace f ps = m4_replace g ps"
proof (induction ps)
  case (Cons p ps)
  then show ?case by (cases p) (auto split: option.splits)
qed simp

lemma subst_func_eq:
  "subst_func get_flat code di =
    (if di = [] then (m4_replace (\<lambda>nm. Some (flat_value get_flat nm)) (m4_pieces code), filled get_flat code)
     else (m4_replace (d_get di) (m4_pieces code), di))"
proof -
  have fmt: "mapping_format (m4_format (double_percents code)) d = m4_replace (d_get d) (m4_pieces code)" for d
    using mapping_format_pieces[of "m4_pieces code" d] m4_names_words[of _ code]
    by (simp only: m4_format_def format_pieces_def[symmetric] m4_pieces_double) blast
  have "m4_replace (d_get (filled get_flat code)) (m4_pieces code) = m4_replace (\<lambda>nm. Some (flat_value get_flat nm)) (m4_pieces code)"
    by (rule m4_replace_cong) (simp add: filled_get m4_names_mem)
  then show ?thesis by (simp add: subst_func_def Let_def fmt m4_findall_double filled_def)
qed

text \<open>All sources after the first with a variable are substituted with the dictionary of that one.\<close>

lemma subst_tasks_given: "di \<noteq> [] \<Longrightarrow> subst_tasks get_flat codes di = map (\<lambda>code. m4_replace (d_get di) (m4_pieces code)) codes"
  by (induction codes) (simp_all add: subst_func_eq)

lemma filled_empty: "filled get_flat code = [] \<longleftrightarrow> m4_names code = []"
proof -
  have "filled get_flat code = [] \<longleftrightarrow> (\<forall>k. d_get (filled get_flat code) k = None)"
    by (cases "filled get_flat code") (auto simp: d_get_def dest: spec[of _ "fst (hd (filled get_flat code))"])
  also have "\<dots> \<longleftrightarrow> set (m4_names code) = {}" unfolding filled_get by auto
  finally show ?thesis by simp
qed

lemma subst_tasks_first:
  "subst_tasks get_flat codes [] =
    (let plain = takeWhile (\<lambda>code. m4_names code = []) codes; rest = dropWhile (\<lambda>code. m4_names code = []) codes
     in map Inr plain @ (case rest of [] \<Rightarrow> []
        | first # others \<Rightarrow> m4_replace (\<lambda>nm. Some (flat_value get_flat nm)) (m4_pieces first)
            # map (\<lambda>code. m4_replace (d_get (filled get_flat first)) (m4_pieces code)) others))"
proof (induction codes)
  case (Cons code codes)
  show ?case
  proof (cases "m4_names code = []")
    case True
    have ch: "\<exists>c. p = M4Char c" if "p \<in> set (m4_pieces code)" for p
      using True that m4_names_mem[of _ code] by (cases p) auto
    have "m4_replace f ps = Inr (format_pieces ps)" if "\<forall>p \<in> set ps. \<exists>c. p = M4Char c" for f ps
      using that by (induction ps) auto
    moreover have "format_pieces (m4_pieces code) = code" if "\<forall>p \<in> set (m4_pieces code). \<exists>c. p = M4Char c" for code
      using that
    proof (induction code rule: m4_pieces.induct)
      case (2 c cs)
      then show ?case by (cases "m4_match (c # cs)") (auto split: prod.splits)
    qed simp
    ultimately have "m4_replace f (m4_pieces code) = Inr code" for f using ch by metis
    then show ?thesis using True Cons filled_empty[of get_flat code] by (simp add: subst_func_eq)
  next
    case False
    then show ?thesis using subst_tasks_given[of "filled get_flat code"] filled_empty[of get_flat code] by (simp add: subst_func_eq)
  qed
qed simp

section \<open>Declared files\<close>

lemma res_each_nth: "res_each f xs = Inr ys \<Longrightarrow> list_all2 (\<lambda>x y. f x = Inr y) xs ys"
  by (induction xs arbitrary: ys) (auto simp: rbind_Inr_iff)

lemma open_streams_events: "open_streams os es done = (r, es') \<Longrightarrow> set es' \<subseteq> set done \<union> set es"
proof (induction es arbitrary: "done")
  case (Cons e es)
  then have "es' = done \<or> open_streams os es (done @ [e]) = (r, es')" by (auto split: if_splits)
  then show ?case using Cons.IH[of "done @ [e]"] by auto
qed simp

definition word_declared :: "cmd_output_task \<Rightarrow> found_word \<Rightarrow> string \<Rightarrow> bool" where
  "word_declared t w a = (case w of
       FoundPlain s \<Rightarrow> a = s
     | FoundArg k template n \<Rightarrow> percent_format template [wn_abs n] = Inr a
         \<and> (k = InputFile \<longrightarrow> n \<in> set (ot_inputs t)) \<and> (k = OutputFile \<longrightarrow> n \<in> set (ot_outputs t)))"

definition declared :: "cmd_output_task \<Rightarrow> run_event \<Rightarrow> bool" where
  "declared t e = (case e of
       OpenRead f \<Rightarrow> f \<in> wn_abs ` set (ot_inputs t)
     | OpenWrite f \<Rightarrow> f \<in> wn_abs ` set (ot_outputs t)
     | StartProcess args cwd \<Rightarrow> cwd = ot_cwd t \<and> list_all2 (word_declared t) (ot_args t) (tl args)
     | WaitProcess \<Rightarrow> True)"

lemma found_nodes:
  "FoundArg InputFile tm n \<in> set ws \<Longrightarrow> n \<in> set (found_inputs ws)"
  "FoundArg OutputFile tm n \<in> set ws \<Longrightarrow> n \<in> set (found_outputs ws)"
  by (force simp: found_inputs_def found_outputs_def)+

lemma apply_cmd_output_fields:
  assumes "apply_cmd_output path variant_dir g = Inr t"
  shows "ot_cwd t = Some variant_dir" "set (opt_node (ot_stdin t)) \<subseteq> set (ot_inputs t)"
    "set (opt_node (ot_stdout t)) \<subseteq> set (ot_outputs t)" "set (opt_node (ot_stderr t)) \<subseteq> set (ot_outputs t)"
    "set (found_inputs (ot_args t)) \<subseteq> set (ot_inputs t)" "set (found_outputs (ot_args t)) \<subseteq> set (ot_outputs t)"
    "ot_inputs t = [] \<Longrightarrow> co_no_inputs g \<and> ot_always t" "ot_outputs t = [] \<Longrightarrow> co_no_outputs g"
  using assms by (auto simp: apply_cmd_output_def rbind_Inr_iff Let_def split: if_splits)

lemma task_argv_declared:
  assumes "apply_cmd_output path variant_dir g = Inr t" "task_argv t = Inr args"
  shows "list_all2 (word_declared t) (ot_args t) (tl args)"
proof -
  note f = apply_cmd_output_fields[OF assms(1)]
  obtain as where as: "res_each (\<lambda>w. case w of FoundPlain s \<Rightarrow> Inr s | FoundArg k template n \<Rightarrow> get_path (ot_cwd t \<noteq> None) k template n) (ot_args t) = Inr as"
    "tl args = as" using assms(2) by (auto simp: task_argv_def rbind_Inr_iff)
  have "word_declared t w a" if "(case w of FoundPlain s \<Rightarrow> Inr s | FoundArg k template n \<Rightarrow> get_path (ot_cwd t \<noteq> None) k template n) = Inr a"
    "w \<in> set (ot_args t)" for w a
    using that f(1,5,6) found_nodes by (force simp: word_declared_def get_path_def split: found_word.splits)
  then show ?thesis using res_each_nth[OF as(1)] unfolding as(2) by (auto elim: list_all2_mono intro: list.rel_mono_strong)
qed

lemma cmd_output_declared:
  assumes "apply_cmd_output path variant_dir g = Inr t" "cmd_output_run os t = (r, es)"
  shows "list_all (declared t) es"
proof -
  note f = apply_cmd_output_fields[OF assms(1)]
  let ?streams = "map (OpenRead \<circ> node_file t) (opt_node (ot_stdin t)) @ map (OpenWrite \<circ> node_file t) (opt_node (ot_stdout t))
    @ map (OpenWrite \<circ> node_file t) (opt_node (ot_stderr t))"
  have abs: "node_file t n = wn_abs n" for n using f(1) by (simp add: node_file_def)
  have streams: "declared t e" if "e \<in> set ?streams" for e
    using that f(2-4) by (auto simp: declared_def abs)
  obtain q es' where o: "open_streams os ?streams [] = (q, es')" by fastforce
  have "declared t e" if "e \<in> set es'" for e using open_streams_events[OF o] that streams by auto
  moreover have "declared t (StartProcess args (ot_cwd t))" if "task_argv t = Inr args" for args
    using task_argv_declared[OF assms(1) that] by (simp add: declared_def)
  moreover have "declared t WaitProcess" by (simp add: declared_def)
  ultimately show ?thesis using assms(2) o by (auto simp: cmd_output_run_def list_all_iff split: sum.splits if_splits)
qed

end
