(* ===== verification/CommandProps.thy ===== *)
theory CommandProps
  imports WafCommandProofs WafMiscProofs
begin

text \<open>The properties of the build tasks that run commands and substitute variables.\<close>

section \<open>command.py\<close>

text \<open>C29. An argument written with doubled dollars and with variables in braces is substituted to
  the text as it is and the values of the variables, in their order; the first variable whose value raises
  raises, a value that is no string raises at the end, and \<open>None\<close> stands for nothing.\<close>

theorem command_subst:
  assumes "list_all part_ok ps"
  shows "subst_arg t (concat (map write_part ps)) = rbind (part_values t ps) join_items"
  by (rule subst_arg_written[OF assms])

definition demo_node :: "string \<Rightarrow> wnode" where
  "demo_node f = \<lparr>wn_nice = f, wn_src = ''../'' @ f, wn_bld = ''/b/'' @ f, wn_abs = ''/s/'' @ f, wn_bldpath = f\<rparr>"

definition demo_task :: command_task where
  "demo_task = \<lparr>ct_inputs = [demo_node ''a b|c''], ct_outputs = [demo_node ''o''],
     ct_eval = (\<lambda>s. if s = ''SRC'' then Inr InputsValue else if s = ''TGT'' then Inr OutputsValue else Inl NameError)\<rparr>"

theorem command_subst_witness:
  "subst_arg demo_task ''$$x${SRC}.o'' = Inr ''$x../a b|c.o''"
proof -
  let ?ps = "[LitPart ''$x'', VarPart ''SRC'' '''', LitPart ''.o'']"
  have "list_all part_ok ?ps" by code_simp
  then have "subst_arg demo_task (concat (map write_part ?ps)) = rbind (part_values demo_task ?ps) join_items" by (rule command_subst)
  moreover have "concat (map write_part ?ps) = ''$$x${SRC}.o''" "rbind (part_values demo_task ?ps) join_items = Inr ''$x../a b|c.o''"
    by code_simp+
  ultimately show ?thesis by simp
qed




section \<open>misc.py\<close>

text \<open>C30. The files of a generator without a dictionary of its own, one after the other: those before the
  first with a variable stay as they are; in that one every variable between two signs gets its value from the
  environment, and percent signs stay what they are; in all after it the variables have the values of that first
  file, and a variable that does not occur there raises \<open>KeyError\<close>.\<close>

theorem subst_files:
  "subst_tasks get_flat codes [] =
    (let plain = takeWhile (\<lambda>code. m4_names code = []) codes; rest = dropWhile (\<lambda>code. m4_names code = []) codes
     in map Inr plain @ (case rest of [] \<Rightarrow> []
        | first # others \<Rightarrow> m4_replace (\<lambda>nm. Some (flat_value get_flat nm)) (m4_pieces first)
            # map (\<lambda>code. m4_replace (\<lambda>nm. if nm \<in> set (m4_names first) then Some (flat_value get_flat nm) else None) (m4_pieces code)) others))"
proof -
  have "d_get (filled get_flat first) = (\<lambda>nm. if nm \<in> set (m4_names first) then Some (flat_value get_flat nm) else None)" for first
    by (simp add: fun_eq_iff filled_get)
  then show ?thesis by (simp only: subst_tasks_first)
qed

text \<open>A task of command-output opens and names in its arguments only files that are among the task's inputs and
  outputs, so that waf knows what it depends on and makes; it runs in the directory of the variant.\<close>

theorem command_output_declared:
  assumes "apply_cmd_output path variant_dir g = Inr t" "cmd_output_run os t = (r, es)"
  shows "list_all (declared t) es \<and> ot_cwd t = Some variant_dir \<and> (ot_inputs t = [] \<longrightarrow> co_no_inputs g \<and> ot_always t)
    \<and> (ot_outputs t = [] \<longrightarrow> co_no_outputs g)"
  using cmd_output_declared[OF assms] apply_cmd_output_fields(1,7,8)[OF assms(1)] by blast

end
