(* ===== verification/Spec2Isabelle.thy ===== *)
theory Spec2Isabelle
  imports RadProps TestProps ToolProps GridProps RunProps BuildProps WafProps VizProps FlowProps CommandProps
begin

text \<open>
  A verification library of the Python tools of the Floodgate NS-3 repository: the test driver
  \<open>test.py\<close>, the script \<open>run.py\<close> that starts a simulation of Floodgate, the helpers \<open>wutils.py\<close> that
  run a simulation under waf, the profiles of the compilers \<open>waf-tools/cflags.py\<close>, the timeline viewer
  \<open>utils/grid.py\<close>, the readers of the configuration \<open>utils.py\<close>, the graph algorithms
  \<open>bindings/python/topsort.py\<close> and the utilities \<open>bindings/python/rad_util.py\<close> of the binding
  generator, the script \<open>flow-monitor/examples/flowmon-parse-results.py\<close> that reports the statistics of a
  simulation's flows, the live visualizer \<open>src/visualizer/visualizer\<close> (\<open>core.py\<close>, \<open>base.py\<close>,
  \<open>hud.py\<close>, \<open>ipython_view.py\<close> and two plugins), the tasks of the build \<open>waf-tools/command.py\<close> and
  \<open>waf-tools/misc.py\<close>, the shell of the build \<open>waf-tools/shellcmd.py\<close>, and the style checker
  \<open>utils/check-style.py\<close>. The language is Python 2.

  How the parts work together. \<open>run.py\<close> writes the configuration of a simulation and hands its name to
  \<open>./waf --run\<close>; waf takes the command apart with \<open>wutils.py\<close>, finds the program and runs it in an
  environment of its own; the program was compiled with the flags of \<open>cflags.py\<close>. \<open>test.py\<close> reads waf's
  configuration, has waf build, asks the test runner for its suites, makes a job of every suite and
  example, runs the jobs on worker threads between two queues, and turns the results into lines on the
  console, a results file, reports and an exit status. The lists of programs and examples it reads with
  \<open>get_list_from_file\<close> of \<open>utils.py\<close>, which also reads the user's \<open>.ns3rc\<close>. \<open>topsort.py\<close> takes
  \<open>is_rotated\<close> from \<open>rad_util.py\<close> to recognise a cycle it has yielded. The waf tools run their command
  lines through \<open>shellcmd.py\<close>. The style checker pipes a file through uncrustify, diff and patch, with a
  pass over the diff in between. The viewer reads a file of ranges and events and shows a window of it
  that the pointer moves. The visualizer runs the simulator in a thread of its own, a step of simulated time
  for every view it draws, and shows its nodes, links and transmissions.

  The theories, and the code they model:

  \<^item> \<open>Prelude\<close>: exceptions as values (\<open>res\<close>, \<open>rbind\<close>), indexing and slicing, dictionaries as
    association lists behind the locale \<open>dictionary\<close> (interpreted as \<open>pydict\<close>). \<open>PyStr\<close>: the
    methods of strings the code calls, numerals, paths, and the pieces of the scanners that stand for
    regular expressions. \<open>PyNum\<close>: Python's numbers, integers or floats (exact rationals). \<open>PyState\<close>: methods
    that change an object and may raise (\<open>act\<close>); what they changed before stays changed; \<open>keeps\<close> is an
    invariant of such a method. \<open>Shlex\<close>: \<open>shlex.split\<close>.
  \<^item> \<open>RadLists\<close>, \<open>RadNum\<close>, \<open>RadInt\<close>: \<open>rad_util.py\<close>. A function of the code is the definition of the
    same name (\<open>rad_lcm\<close> for \<open>lcm\<close>, \<open>transpose_matrix\<close> for \<open>transpose\<close>); a loop is a recursive
    function named after it.
    \<open>RadFloat\<close> with \<open>RadFloatProofs\<close>: quantiles, the removal of outliers, ranges of floats and units.
    \<open>PyFormat\<close>: rounding and the formats \<open>%f\<close> and \<open>%g\<close> of exact numbers.
  \<^item> \<open>Topsort\<close>, with \<open>TopsortProofs\<close>, \<open>TopsortLevels\<close> and \<open>FindCycles\<close>: \<open>topsort.py\<close>. The loop over the
    growing list of \<open>topsort\<close> is \<open>topsort_loop\<close>; a generator is the list of what it yields with the
    way it ends; the stack of paths of \<open>find_cycles\<close> is \<open>search_paths\<close>.
  \<^item> \<open>NsUtils\<close>: \<open>utils.py\<close>.
  \<^item> \<open>TestConfig\<close>: the options of \<open>main\<close>, \<open>read_waf_config\<close>, \<open>make_paths\<close>, the class \<open>Job\<close>.
    \<open>TestWorker\<close>: \<open>run_job_synchronously\<close>, \<open>worker_thread.run\<close> (\<open>worker_round\<close>), the queues behind the
    locale \<open>fifo\<close> (interpreted as \<open>jobq\<close>), and the step relation \<open>pool_step\<close> of main thread and workers,
    with \<open>sigint_hook\<close> between any two steps; \<open>TestPoolProofs\<close> has its invariants.
  \<^item> \<open>TestPlan\<close>: \<open>run_tests\<close> up to the dispatched jobs (\<open>make_plan\<close>), with \<open>parse_examples_to_run_file\<close>.
    \<open>TestResults\<close>: the rest of \<open>run_tests\<close>, per result (\<open>process_result\<close>) and at the end
    (\<open>finish_run\<close>). \<open>TestRun\<close>: the whole, \<open>run_tests\<close>. \<open>TestReport\<close>, \<open>TestHtml\<close>: \<open>translate_to_text\<close> and
    \<open>translate_to_html\<close>; \<open>TagScan\<close> is the notion of a well nested text they and the results file are
    held against.
  \<^item> \<open>ShellCmd\<close>: the parser of \<open>shellcmd.py\<close> (\<open>parse_step\<close> is one turn of its loop, \<open>parser\<close> its local
    variables). \<open>ShellRun\<close>: \<open>Pipeline.run\<close> over a machine that keeps a trace of the files opened and
    closed and the processes started and waited for. \<open>ShellProofs\<close>, \<open>ShellRoundtrip\<close>: their lemmas.
  \<^item> \<open>CheckStyle\<close>: the patches of \<open>check-style.py\<close>, their printer and parser, the pass over trailing
    blanks; \<open>PatchProofs\<close> the round trip; \<open>CheckIndent\<close>: \<open>indent\<close>, \<open>indent_files\<close> and the two entry points.
  \<^item> \<open>GridData\<close>: the data of \<open>grid.py\<close>, its timelines, colours and binary searches, and \<open>read_data\<close>.
    \<open>GridDraw\<close>: the legend and the scales; \<open>GridTimelines\<close>: the rows; drawing is the list of the commands
    given to cairo. \<open>GridGraphic\<close>: \<open>GraphicRenderer\<close> and \<open>main\<close> up to the window. \<open>GridUi\<close>: the widget
    \<open>GtkGraphicRenderer\<close>, its attributes as a record (one that may be unset is an option) and one function
    per handler; \<open>handle_event\<close> dispatches, \<open>reaches\<close> are the states a session can come to.
    \<open>GridDataProofs\<close>, \<open>GridDrawProofs\<close>, \<open>GridTimelinesProofs\<close>, \<open>GridUiProofs\<close>: their lemmas.
  \<^item> \<open>RunConfig\<close>: \<open>run.py\<close>. \<open>BuildFlags\<close>: \<open>cflags.py\<close> with waf's environment as a record. \<open>WafUtils\<close>:
    \<open>wutils.py\<close>.
  \<^item> \<open>FlowMon\<close>: \<open>flowmon-parse-results.py\<close>, over the element tree of \<open>TestReport\<close>. \<open>FlowMonProofs\<close>: what the
    simulator writes, translated from its C++ source (\<open>time_text\<close> is \<open>operator<<\<close> of a time, \<open>flow_element\<close> the
    element of a flow), and what the script reads from it.
  \<^item> \<open>VizSim\<close> with \<open>VizSimProofs\<close>: the simulation thread and the handlers of the main thread of the visualizer
    (\<open>SimulationThread.run\<close>, \<open>update_view_timeout\<close>, \<open>update_model\<close>, \<open>_quit\<close>, the play button and the speed), one
    step per access to what they share; a handler that waits for the lock runs other handlers, so the
    handlers are a stack. \<open>VizTopo\<close> with \<open>VizTopoProofs\<close>: nodes, channels, links and \<open>scan_topology\<close>.
    \<open>VizView\<close> with \<open>VizViewProofs\<close>: samples, averages and the pools of arrows. \<open>VizSelect\<close>: what a node
    looks like, the selection, the nodes of interest, and dragging. \<open>VizHud\<close> with \<open>VizHudProofs\<close>: the axes
    (\<open>hud.py\<close>), their marks and the pool of labels; the loop over the marks is a partial function, and the
    view is shown to return. \<open>VizPlugins\<close> with \<open>VizPluginProofs\<close>: the links of WiFi stations
    (\<open>wifi_intrastructure_link.py\<close>) as objects that stations and nodes share, with the signals as steps, and the
    statistics of the interfaces (\<open>interface_statistics.py\<close>). \<open>VizConsole\<close> with \<open>VizConsoleProofs\<close>: completion,
    history and coloured text of the console (\<open>ipython_view.py\<close>).
  \<^item> \<open>WafCommand\<close>: the tasks of \<open>command.py\<close>, which substitute the variables of a parsed command and run it
    with \<open>ShellRun\<close>; \<open>WafCommandProofs\<close>: arguments as they are written, and the shape of the command line.
    \<open>WafMisc\<close> with \<open>WafMiscProofs\<close>: the substitution in files and \<open>command-output\<close> of \<open>misc.py\<close>.
  \<^item> \<open>RadProps\<close>, \<open>TestProps\<close>, \<open>ToolProps\<close>, \<open>GridProps\<close>, \<open>RunProps\<close>, \<open>BuildProps\<close>, \<open>WafProps\<close>, \<open>VizProps\<close>,
    \<open>FlowProps\<close>, \<open>CommandProps\<close>: the properties, each with an application to concrete data.

  What the groups of lemmas show. Of the worker pool: dispatched and collected jobs agree as multisets
  in every reachable state (\<open>TestPoolProofs\<close>), the pool is never stuck before its end and every step
  lowers \<open>work\<close>, so that each run ends; hence the exit status and the counters are functions of the
  planned jobs. Of the reports: which texts are well nested, and which missing element raises. Of the
  graph algorithms: \<open>topsort\<close> against acyclicity of the relation, the levels as longest paths,
  \<open>find_cycles\<close> against the set of elementary cycles up to rotation. Of the shell: parsing inverts
  printing, the shape of what is parsed, the value of a run against a reference, and that files and
  processes are closed and waited for. Of the style checker: the round trip of patches, and what may
  change in a patch and in a file. Of the utilities: each function against its mathematical meaning.
  Of the viewer: what the file means for the rows, what the searches find and miss, the invariant of the
  window under all handlers, what a drag and a zoom do, and that what is drawn lies where the layout has
  room for it. Of \<open>run.py\<close>: the outcome for every scheme and the fields of the file. Of \<open>wutils.py\<close>: the
  program found, the relative paths, the command that is run and its environment. Of \<open>cflags.py\<close>: the
  flags after \<open>configure\<close>. Of the report on flows: that it refuses every file of this simulator, and what it
  prints of a file with plain times. Of the visualizer: mutual exclusion, the messages of pauses, the bound on how
  far the simulator runs ahead, and that no handler is stuck, all in every reachable state of the two
  threads; the links and positions after the scan; what the arrows show; that the marks of the
  selection agree with it; how many marks the axes have; that a WiFi link is in the list of its access
  point only; and what the rates of an interface are computed from. Of the tasks of waf: that an argument
  reads back as it was written, that no value of a variable changes the shape of a command line, and what the
  files of one generator are substituted with.

  What the simulator does when it runs is open in \<open>VizSim\<close>: it may stop anywhere up to its target, with any
  messages. A handler may also start where the code starts none, while the timer's handler waits: the
  model has more runs than the code.

  Parameters. What is not under the repository's control is an argument: the outcome of a process
  (\<open>popen\<close>, \<open>os_env\<close>, \<open>tools\<close>), the files, the clock and Python's \<open>eval\<close> (\<open>world\<close>), the XML parser
  (\<open>parse\<close>), the extents of a text (\<open>ext\<close>), the names of signals (\<open>signame\<close>), the order in which
  Python 2 lists the keys of a dictionary (\<open>ord\<close>, with \<open>key_order ord\<close>: some permutation), random
  numbers, the layout of a graph (with \<open>layout_ok\<close>: each name of the graph gets one position), the simulated
  network, of the visualizer the logarithm, the angle and the clipping of a line (\<open>view_env\<close>), and of waf's tasks the
  value of an expression (\<open>ct_eval\<close>) and the search for nodes (\<open>node_path\<close>). Floating point numbers are rational numbers: what a theorem says of them is exact, and the
  code's own are rounded. Integers are unbounded, as in Python.

  Loops. Every loop is a total function, by structural recursion or with a measure: the length of
  \<open>num_parents\<close> for \<open>topsort\<close>, the multiset of the numbers of nodes not on a path for \<open>find_cycles\<close>,
  the absolute value of the remainder for \<open>gcf\<close>, the interval left for the binary searches. Only
  \<open>binary_range\<close> takes fuel; one unit for each number of the width is enough, and that it returns is
  part of its property. The loop of \<open>float_range\<close> may run for ever: it is a partial function, and
  \<open>float_range_progression\<close> says exactly when it returns. So is the loop over the marks of an axis
  (\<open>axis_loop\<close>); that it returns for a window with room is part of \<open>axes_drawn\<close>.

  Not modelled: messages of verbose runs (except where printing them raises), the creation and removal
  of directories, of \<open>rad_util.py\<close> the functions \<open>timestamp\<close>, \<open>pt2str\<close> and \<open>getmodule\<close>; the dialogs and menus of
  \<open>grid.py\<close> (\<open>MainWindow\<close>), \<open>__get_range\<close> which nothing calls; of the visualizer the icons and
  labels of nodes, the construction of the widgets, panning, the text buffer of the console and the plugins that fill tables; of
  \<open>misc.py\<close> the hash of the dictionary and the registration of tasks; the other scripts of waf, the generated bindings, and the simulator itself, which is C++. Numerals of floats are decimal, without infinity. Formats: \<open>percent_format\<close> has
  only \<open>%s\<close> and \<open>%%\<close>, the two the code uses there, \<open>show_hundredths\<close> is \<open>str\<close> of a number of
  hundredths with at most twelve digits.
\<close>

end
